(* ===== verification/Prelude.thy ===== *)
theory Prelude
  imports
    Main
    "HOL-Library.Word"
    "HOL-Library.Mapping"
    "HOL-Library.AList_Mapping"
    "HOL-Library.List_Lexorder"
    "HOL-Library.Product_Lexorder"
    "HOL-Library.Option_ord"
    "HOL-Library.Char_ord"
begin

text \<open>
  Shared vocabulary of the development: the machine integer types, the combinators that
  express a chain of early returns, and the generic lemmas on lists, options, words and
  mappings that the component theories rely on.

  A Rust function that returns \<open>Option<ReasonCode>\<close> and leaves at its first failing test is
  written as \<open>first_reason [test1, test2, ...]\<close>: the first \<open>Some\<close> wins, and \<open>None\<close> means that
  every test passed.  \<open>reject_if\<close> is one such test.
\<close>

section \<open>Machine types\<close>

type_synonym u8 = "8 word"
type_synonym u32 = "32 word"
type_synonym u64 = "64 word"
type_synonym bytes = "u8 list"
type_synonym hash256 = "u8 list"

named_theorems schema_names \<open>definitions of the frozen schema names\<close>
named_theorems check_defs \<open>definitions of the verifier's checks\<close>

section \<open>Early returns\<close>

primrec first_reason :: "'e option list \<Rightarrow> 'e option" where
  "first_reason [] = None"
| "first_reason (x # xs) = (case x of None \<Rightarrow> first_reason xs | Some r \<Rightarrow> Some r)"

definition reject_if :: "bool \<Rightarrow> 'e \<Rightarrow> 'e option" where
  "reject_if c r = (if c then Some r else None)"

lemma first_reason_None_iff: "first_reason xs = None \<longleftrightarrow> (\<forall>x \<in> set xs. x = None)"
  by (induction xs) (auto split: option.splits)

lemma first_reason_Cons_None [simp]:
  "first_reason (x # xs) = None \<longleftrightarrow> x = None \<and> first_reason xs = None"
  by (simp split: option.splits)

lemma first_reason_Some_cases:
  assumes "first_reason xs = Some r"
  shows "Some r \<in> set xs"
  using assms by (induction xs) (auto split: option.splits)

lemma first_reason_map_None [simp]:
  "first_reason (map f xs) = None \<longleftrightarrow> (\<forall>x \<in> set xs. f x = None)"
  by (induction xs) (auto split: option.splits)

declare first_reason.simps(2) [simp del]

lemma reject_if_None [simp]: "reject_if c r = None \<longleftrightarrow> \<not> c"
  by (simp add: reject_if_def)

lemma reject_if_Some [simp]: "reject_if c r = Some r' \<longleftrightarrow> c \<and> r' = r"
  by (auto simp: reject_if_def)

lemma reject_if_True [simp]: "reject_if True r = Some r"
  by (simp add: reject_if_def)

lemma reject_if_False [simp]: "reject_if False r = None"
  by (simp add: reject_if_def)

section \<open>Lists\<close>

lemma find_append:
  "List.find P (xs @ ys) = (case List.find P xs of None \<Rightarrow> List.find P ys | Some x \<Rightarrow> Some x)"
  by (induction xs) auto

lemma find_SomeD: "List.find P xs = Some x \<Longrightarrow> P x \<and> x \<in> set xs"
  by (induction xs) (auto split: if_splits)

lemma find_None_iff': "List.find P xs = None \<longleftrightarrow> (\<forall>x \<in> set xs. \<not> P x)"
  by (induction xs) auto

lemma find_filter_hd: "filter P xs = x # ys \<Longrightarrow> List.find P xs = Some x"
  by (induction xs) (auto split: if_splits)

lemma map_filter_append: "List.map_filter f (xs @ ys) = List.map_filter f xs @ List.map_filter f ys"
  by (simp add: List.map_filter_def)

lemma find_distinct_map:
  assumes "distinct (map f xs)" "x \<in> set xs"
  shows "List.find (\<lambda>y. f y = f x) xs = Some x"
  using assms by (induction xs) auto

lemma length_1_conv: "length xs = Suc 0 \<longleftrightarrow> (\<exists>x. xs = [x])"
  by (cases xs) auto

lemma list_all_uptD: "list_all P [0..<k] \<Longrightarrow> n < k \<Longrightarrow> P n"
  by (simp add: list_all_iff)

text \<open>The Rust idiom \<open>xs.windows(2).all(|w| w[0] < w[1])\<close>.\<close>

fun windows_less :: "'a :: linorder list \<Rightarrow> bool" where
  "windows_less (x # y # xs) \<longleftrightarrow> x < y \<and> windows_less (y # xs)"
| "windows_less _ \<longleftrightarrow> True"

lemma windows_less_iff: "windows_less xs \<longleftrightarrow> sorted_wrt (<) xs"
  by (induction xs rule: windows_less.induct) (auto intro: less_trans)

lemma windows_less_distinct: "windows_less xs \<Longrightarrow> distinct xs"
  by (simp add: windows_less_iff strict_sorted_iff)

section \<open>Words\<close>

definition u64_checked_add :: "u64 \<Rightarrow> u64 \<Rightarrow> u64 option" where
  "u64_checked_add a b = (if uint a + uint b < 2 ^ 64 then Some (a + b) else None)"

definition u64_saturating_add :: "u64 \<Rightarrow> u64 \<Rightarrow> u64" where
  "u64_saturating_add a b = (if uint a + uint b < 2 ^ 64 then a + b else - 1)"

definition u32_saturating_add :: "u32 \<Rightarrow> u32 \<Rightarrow> u32" where
  "u32_saturating_add a b = (if uint a + uint b < 2 ^ 32 then a + b else - 1)"

lemma uint_sum_less:
  "uint (a :: 'a :: len word) + uint b < 2 ^ n \<longleftrightarrow> unat a + unat b < 2 ^ n"
proof -
  have "uint a + uint b = int (unat a + unat b)" by simp
  then show ?thesis by (simp only: of_nat_less_numeral_power_cancel_iff)
qed

lemma u64_checked_add_nat:
  "u64_checked_add a b = (if unat a + unat b < 2 ^ 64 then Some (a + b) else None)"
  by (simp only: u64_checked_add_def uint_sum_less)

lemma u64_saturating_add_nat:
  "u64_saturating_add a b = (if unat a + unat b < 2 ^ 64 then a + b else - 1)"
  by (simp only: u64_saturating_add_def uint_sum_less)

lemma u32_saturating_add_nat:
  "u32_saturating_add a b = (if unat a + unat b < 2 ^ 32 then a + b else - 1)"
  by (simp only: u32_saturating_add_def uint_sum_less)

lemma u64_checked_add_Some:
  assumes "u64_checked_add a b = Some c"
  shows "unat c = unat a + unat b"
  using assms by (auto simp: u64_checked_add_nat unat_word_ariths split: if_splits)

lemma u64_checked_add_Some_iff:
  "u64_checked_add a b = Some c \<longleftrightarrow> unat c = unat a + unat b"
proof
  assume "u64_checked_add a b = Some c"
  then show "unat c = unat a + unat b" by (rule u64_checked_add_Some)
next
  assume eq: "unat c = unat a + unat b"
  moreover have "unat c < 2 ^ LENGTH(64)"
    by (rule unsigned_less)
  ultimately have lt: "unat a + unat b < 2 ^ 64"
    by simp
  then have "unat (a + b) = unat c"
    using eq by (simp add: unat_word_ariths)
  then have "a + b = c"
    by (simp add: word_unat_eq_iff)
  with lt show "u64_checked_add a b = Some c"
    by (simp add: u64_checked_add_nat)
qed

lemma u64_saturating_add_mono: "unat a \<le> unat (u64_saturating_add a b)"
proof (cases "unat a + unat b < 2 ^ 64")
  case True
  then show ?thesis by (simp add: u64_saturating_add_nat unat_word_ariths)
next
  case False
  have "a \<le> - 1" by simp
  with False show ?thesis by (simp add: u64_saturating_add_nat word_le_nat_alt)
qed

section \<open>Mappings\<close>

lemmas lookup_update_if [simp] = Mapping.lookup_update'

lemma lookup_delete_if [simp]:
  "Mapping.lookup (Mapping.delete k m) k' = (if k = k' then None else Mapping.lookup m k')"
  by (cases "k = k'") auto

lemma lookup_default_update_if [simp]:
  "Mapping.lookup_default d (Mapping.update k v m) k' =
     (if k = k' then v else Mapping.lookup_default d m k')"
  by (simp add: Mapping.lookup_default_update')

definition has_key :: "('k, 'v) mapping \<Rightarrow> 'k \<Rightarrow> bool" where
  "has_key m k \<longleftrightarrow> Mapping.lookup m k \<noteq> None"

lemma has_key_empty [simp]: "\<not> has_key Mapping.empty k"
  by (simp add: has_key_def)

lemma has_key_update [simp]: "has_key (Mapping.update k v m) k' \<longleftrightarrow> k = k' \<or> has_key m k'"
  by (simp add: has_key_def)

end
