(* ===== verification/Base.thy ===== *)
theory Base
  imports Prelude
begin

text \<open>
  The foundations of \<open>src/src/base\<close>: SHA-256 helpers and hex spelling (\<open>hash.rs\<close>), the frozen
  schema names and epochs (\<open>schema.rs\<close>) and the logical clock (\<open>time.rs\<close>).

  A Rust \<open>String\<close> is an Isabelle \<open>string\<close>, one \<open>char\<close> per UTF-8 byte, so \<open>length\<close> is \<open>len()\<close>.
  \<open>Hash256\<close> is a list of bytes; that it has 32 of them is the array type's business in Rust and
  is an explicit hypothesis (\<open>length h = 32\<close>) where a theorem needs it.

  The crates the program links are parameters: the record \<open>crates\<close> collects SHA-256 (\<open>sha2\<close>),
  the ECMAScript number formatter (\<open>ryu_js\<close>, applied to the bits of a finite double) and strict
  Ed25519 verification (\<open>ed25519_dalek\<close>: whether 32 bytes are a key, and whether a signature
  verifies for a key and a message).
\<close>

section \<open>Parameters: the linked crates\<close>

record crates =
  cr_sha256 :: "bytes \<Rightarrow> hash256"
  cr_format_finite :: "u64 \<Rightarrow> string"
  cr_key_from_bytes :: "hash256 \<Rightarrow> bool"
  cr_verify_strict :: "hash256 \<Rightarrow> bytes \<Rightarrow> bytes \<Rightarrow> bool"

section \<open>Hashing (hash.rs)\<close>

definition as_bytes :: "string \<Rightarrow> bytes" where
  "as_bytes s = map of_char s"

definition sha256 :: "'z crates_scheme \<Rightarrow> bytes \<Rightarrow> hash256" where
  "sha256 C data = cr_sha256 C data"

definition sha256_utf8 :: "'z crates_scheme \<Rightarrow> string \<Rightarrow> hash256" where
  "sha256_utf8 C s = sha256 C (as_bytes s)"

definition sha256_concat_ids :: "'z crates_scheme \<Rightarrow> hash256 list \<Rightarrow> hash256" where
  "sha256_concat_ids C ids = sha256 C (concat ids)"

definition hex_digit :: "nat \<Rightarrow> char" where
  "hex_digit n = ''0123456789abcdef'' ! n"

definition hex_encode :: "hash256 \<Rightarrow> string" where
  "hex_encode h = concat (map (\<lambda>b. [hex_digit (unat b div 16), hex_digit (unat b mod 16)]) h)"

definition nibble :: "char \<Rightarrow> u8 option" where
  "nibble c =
     (if CHR ''0'' \<le> c \<and> c \<le> CHR ''9'' then Some (of_char c - of_char (CHR ''0''))
      else if CHR ''a'' \<le> c \<and> c \<le> CHR ''f'' then Some (of_char c - of_char (CHR ''a'') + 10)
      else None)"

unbundle bit_operations_syntax

fun hex_pairs :: "string \<Rightarrow> u8 list option" where
  "hex_pairs (a # b # s) =
     (case nibble a of None \<Rightarrow> None
      | Some x \<Rightarrow> (case nibble b of None \<Rightarrow> None
          | Some y \<Rightarrow> map_option ((#) (push_bit 4 x OR y)) (hex_pairs s)))"
| "hex_pairs _ = Some []"

definition hex_decode :: "string \<Rightarrow> hash256 option" where
  "hex_decode s = (if length s \<noteq> 64 then None else hex_pairs s)"

lemma length_hex_encode [simp]: "length (hex_encode h) = 2 * length h"
  by (induction h) (auto simp: hex_encode_def)

lemma hex_digit_nibbles:
  "list_all (\<lambda>n. nibble (hex_digit n) = Some (of_nat n)) [0..<16]"
  by code_simp

lemma nibble_hex_digit: "n < 16 \<Longrightarrow> nibble (hex_digit n) = Some (of_nat n)"
  using hex_digit_nibbles by (simp add: list_all_iff)

lemma nibble_hex_char:
  assumes "nibble c = Some x"
  shows "c \<in> set ''0123456789abcdef''"
proof -
  from assms have "48 \<le> (of_char c :: nat) \<and> (of_char c :: nat) \<le> 57
      \<or> 97 \<le> (of_char c :: nat) \<and> (of_char c :: nat) \<le> 102"
    by (auto simp: nibble_def less_eq_char_def split: if_splits)
  then have "(of_char c :: nat) \<in> set (map of_char ''0123456789abcdef'')"
    by simp arith
  then show ?thesis
    by (simp only: set_map image_iff of_char_eq_iff) blast
qed

lemma nibble_cases:
  assumes "nibble c = Some x"
  shows "c = hex_digit (unat x) \<and> unat x < 16"
proof -
  have "list_all (\<lambda>c. case nibble c of None \<Rightarrow> True
          | Some x \<Rightarrow> c = hex_digit (unat x) \<and> unat x < 16) ''0123456789abcdef''"
    by code_simp
  with assms nibble_hex_char [OF assms] show ?thesis
    by (auto simp: list_all_iff)
qed

lemma byte_of_nibbles:
  assumes "unat x < 16" "unat y < 16"
  shows "unat (push_bit 4 x OR y :: u8) = 16 * unat x + unat y"
proof -
  have "list_all (\<lambda>m. list_all (\<lambda>n. unat (push_bit 4 (of_nat m) OR of_nat n :: u8) = 16 * m + n)
          [0..<16]) [0..<16]"
    by code_simp
  from list_all_uptD [OF list_all_uptD [OF this assms(1)] assms(2)] show ?thesis by simp
qed

lemma nibbles_byte: "push_bit 4 (of_nat (unat b div 16)) OR of_nat (unat b mod 16) = (b :: u8)"
proof -
  have "unat b < 2 ^ LENGTH(8)" by (rule unsigned_less)
  then have "unat b div 16 < 16" by simp
  then have "unat (push_bit 4 (of_nat (unat b div 16)) OR of_nat (unat b mod 16) :: u8) = unat b"
    by (simp add: byte_of_nibbles unat_of_nat)
  then show ?thesis by (simp only: word_unat_eq_iff)
qed

lemma hex_pairs_encode: "hex_pairs (hex_encode h) = Some h"
proof (induction h)
  case Nil
  show ?case by (simp add: hex_encode_def)
next
  case (Cons b h)
  have "unat b < 2 ^ LENGTH(8)" by (rule unsigned_less)
  then have "unat b div 16 < 16" by simp
  with Cons show ?case
    by (simp add: hex_encode_def nibble_hex_digit nibbles_byte)
qed

lemma hex_encode_inj [simp]: "hex_encode a = hex_encode b \<longleftrightarrow> a = b"
  using hex_pairs_encode [of a] hex_pairs_encode [of b] by (metis option.inject)

lemma hex_pairs_Some:
  assumes "hex_pairs s = Some h" "even (length s)"
  shows "hex_encode h = s"
  using assms
proof (induction s arbitrary: h rule: hex_pairs.induct)
  case (1 a b s)
  then obtain x y h' where xy: "nibble a = Some x" "nibble b = Some y"
    and h': "hex_pairs s = Some h'" and h: "h = (push_bit 4 x OR y) # h'"
    by (auto split: option.splits)
  from h' "1.prems"(2) have "hex_encode h' = s"
    using "1.IH" [OF xy(1) xy(2) h'] by simp
  moreover have "a = hex_digit (unat x)" "unat x < 16" "b = hex_digit (unat y)" "unat y < 16"
    using nibble_cases [OF xy(1)] nibble_cases [OF xy(2)] by simp_all
  ultimately show ?case
    by (simp add: h hex_encode_def byte_of_nibbles)
qed (auto simp: hex_encode_def)

lemma hex_decode_iff: "hex_decode s = Some h \<longleftrightarrow> length h = 32 \<and> hex_encode h = s"
proof
  assume "hex_decode s = Some h"
  then have *: "length s = 64" "hex_pairs s = Some h" by (simp_all add: hex_decode_def split: if_splits)
  then have "hex_encode h = s" by (intro hex_pairs_Some) simp_all
  moreover from this *(1) have "length h = 32" using length_hex_encode [of h] by simp
  ultimately show "length h = 32 \<and> hex_encode h = s" by blast
next
  assume "length h = 32 \<and> hex_encode h = s"
  then show "hex_decode s = Some h" using hex_pairs_encode [of h] by (auto simp: hex_decode_def)
qed

section \<open>Schemas and epochs (schema.rs)\<close>

definition schema_id :: "'z crates_scheme \<Rightarrow> string \<Rightarrow> hash256" where
  "schema_id C name = sha256_utf8 C name"

definition SPEC_VERSION :: string where [schema_names]: "SPEC_VERSION = ''0.4''"
definition SUPPORTED_SPEC_VERSIONS :: "string list" where
  [schema_names]: "SUPPORTED_SPEC_VERSIONS = [''0.3'', ''0.4'']"
definition DEFAULT_SPACE_NAME :: string where
  [schema_names]: "DEFAULT_SPACE_NAME = ''bellbook.default_space.v1''"

definition default_space :: "'z crates_scheme \<Rightarrow> hash256" where
  "default_space C = sha256_utf8 C DEFAULT_SPACE_NAME"

definition SCHEMA_REQUEST :: string where
  [schema_names]: "SCHEMA_REQUEST = ''bellbook.request.v1''"
definition SCHEMA_ACTION :: string where
  [schema_names]: "SCHEMA_ACTION = ''bellbook.action.v1''"
definition SCHEMA_RESPONSE :: string where
  [schema_names]: "SCHEMA_RESPONSE = ''bellbook.response.v1''"
definition SCHEMA_RESULT :: string where
  [schema_names]: "SCHEMA_RESULT = ''bellbook.result.v1''"
definition SCHEMA_RESULT_EXTERNAL :: string where
  [schema_names]: "SCHEMA_RESULT_EXTERNAL = ''bellbook.result.external_receipt.v1''"
definition SCHEMA_RESULT_EFFECT_CONFIRMATION :: string where
  [schema_names]: "SCHEMA_RESULT_EFFECT_CONFIRMATION = ''bellbook.result.effect_confirmation.v1''"
definition SCHEMA_CAPABILITY :: string where
  [schema_names]: "SCHEMA_CAPABILITY = ''bellbook.capability.v1''"
definition SCHEMA_APPROVAL :: string where
  [schema_names]: "SCHEMA_APPROVAL = ''bellbook.approval.v1''"
definition SCHEMA_SUMMARY :: string where
  [schema_names]: "SCHEMA_SUMMARY = ''bellbook.summary.v1''"
definition SCHEMA_REFUSAL :: string where
  [schema_names]: "SCHEMA_REFUSAL = ''bellbook.refusal.v1''"
definition SCHEMA_USAGE :: string where
  [schema_names]: "SCHEMA_USAGE = ''bellbook.usage.v1''"
definition SCHEMA_VERDICT :: string where
  [schema_names]: "SCHEMA_VERDICT = ''bellbook.verdict.v1''"
definition SCHEMA_PLAN :: string where
  [schema_names]: "SCHEMA_PLAN = ''bellbook.plan.v1''"
definition SCHEMA_RETRACTION :: string where
  [schema_names]: "SCHEMA_RETRACTION = ''bellbook.retraction.v1''"
definition SCHEMA_CANDIDATE :: string where
  [schema_names]: "SCHEMA_CANDIDATE = ''bellbook.candidate.v1''"
definition SCHEMA_EVALUATION :: string where
  [schema_names]: "SCHEMA_EVALUATION = ''bellbook.evaluation.v1''"
definition SCHEMA_SELECTION :: string where
  [schema_names]: "SCHEMA_SELECTION = ''bellbook.selection.v1''"
definition SCHEMA_REQUIREMENT :: string where
  [schema_names]: "SCHEMA_REQUIREMENT = ''bellbook.requirement.v1''"
definition SCHEMA_EVALUATION_V2 :: string where
  [schema_names]: "SCHEMA_EVALUATION_V2 = ''bellbook.evaluation.v2''"
definition SCHEMA_EVALUATION_ATTESTED :: string where
  [schema_names]: "SCHEMA_EVALUATION_ATTESTED = ''bellbook.evaluation.attested.v1''"

definition SCHEMAS_V03 :: "string list" where
  "SCHEMAS_V03 =
    [SCHEMA_REQUEST, SCHEMA_ACTION, SCHEMA_RESPONSE, SCHEMA_RESULT, SCHEMA_RESULT_EXTERNAL,
     SCHEMA_RESULT_EFFECT_CONFIRMATION, SCHEMA_CAPABILITY, SCHEMA_APPROVAL, SCHEMA_SUMMARY,
     SCHEMA_REFUSAL, SCHEMA_USAGE, SCHEMA_VERDICT, SCHEMA_PLAN, SCHEMA_RETRACTION,
     SCHEMA_CANDIDATE, SCHEMA_EVALUATION, SCHEMA_SELECTION]"

definition ALL_SCHEMAS :: "string list" where
  "ALL_SCHEMAS =
    [SCHEMA_REQUEST, SCHEMA_ACTION, SCHEMA_RESPONSE, SCHEMA_RESULT, SCHEMA_RESULT_EXTERNAL,
     SCHEMA_RESULT_EFFECT_CONFIRMATION, SCHEMA_CAPABILITY, SCHEMA_APPROVAL, SCHEMA_SUMMARY,
     SCHEMA_REFUSAL, SCHEMA_USAGE, SCHEMA_VERDICT, SCHEMA_PLAN, SCHEMA_RETRACTION,
     SCHEMA_CANDIDATE, SCHEMA_EVALUATION, SCHEMA_SELECTION,
     SCHEMA_REQUIREMENT, SCHEMA_EVALUATION_V2, SCHEMA_EVALUATION_ATTESTED]"

definition schemas_for_epoch :: "string \<Rightarrow> string list option" where
  "schemas_for_epoch v =
     (if v = ''0.3'' then Some SCHEMAS_V03
      else if v = ''0.4'' then Some ALL_SCHEMAS
      else None)"

definition schema_name_for_id :: "'z crates_scheme \<Rightarrow> hash256 \<Rightarrow> string option" where
  "schema_name_for_id C i = List.find (\<lambda>n. schema_id C n = i) ALL_SCHEMAS"

lemma distinct_ALL_SCHEMAS: "distinct ALL_SCHEMAS"
  by (simp add: ALL_SCHEMAS_def schema_names)

lemma schema_name_for_id_Some:
  assumes "inj_on (schema_id C) (set ALL_SCHEMAS)" "n \<in> set ALL_SCHEMAS"
  shows "schema_name_for_id C (schema_id C n) = Some n"
  unfolding schema_name_for_id_def
  using assms find_distinct_map [of "schema_id C" ALL_SCHEMAS n] distinct_ALL_SCHEMAS
  by (simp add: distinct_map)

section \<open>Logical time (time.rs)\<close>

record TimeSource =
  ts_next :: u64

definition from_last_time :: "u64 option \<Rightarrow> TimeSource" where
  "from_last_time last_time =
     (let last = (case last_time of None \<Rightarrow> 0 | Some t \<Rightarrow> t)
      in \<lparr>ts_next = u64_saturating_add last 1\<rparr>)"

definition next_time :: "TimeSource \<Rightarrow> u64 \<times> TimeSource" where
  "next_time ts = (ts_next ts, ts\<lparr>ts_next := u64_saturating_add (ts_next ts) 1\<rparr>)"

definition exhausted :: "TimeSource \<Rightarrow> bool" where
  "exhausted ts \<longleftrightarrow> ts_next ts \<ge> - 1 - 1"

definition peek :: "TimeSource \<Rightarrow> u64" where
  "peek ts = ts_next ts"

lemma not_exhausted_bound: "\<not> exhausted ts \<longleftrightarrow> unat (ts_next ts) < 2 ^ 64 - 2"
proof -
  have "unat (- 1 - 1 :: u64) = 2 ^ 64 - 2" by simp
  then show ?thesis
    by (simp add: exhausted_def word_le_nat_alt not_le)
qed

lemma next_time_unat:
  assumes "unat (ts_next ts) < 2 ^ 64 - 1" "next_time ts = (t, ts')"
  shows "t = ts_next ts" "unat (ts_next ts') = unat (ts_next ts) + 1"
  using assms by (auto simp: next_time_def u64_saturating_add_nat unat_word_ariths)

lemma from_last_time_unat:
  assumes "unat t < 2 ^ 64 - 1"
  shows "unat (ts_next (from_last_time (Some t))) = unat t + 1"
  using assms by (simp add: from_last_time_def u64_saturating_add_nat unat_word_ariths)

end
