(* ===== verification/Canonical.thy ===== *)
theory Canonical
  imports Base
begin

text \<open>
  RFC 8785 canonical JSON (\<open>src/src/base/canonical.rs\<close>).  A \<open>serde_json::Value\<close> is the datatype
  \<open>json\<close>; an object is its list of members.  Rust's serializer errors (an integer outside the
  I-JSON range, a non-finite double) are \<open>None\<close>.

  A double is given by its 64 bits, whose unsigned order on positive values is the numeric order;
  how a finite double is spelled is the \<open>ryu_js\<close> parameter.  The characters with an escape are all
  ASCII and every other character is copied as its own UTF-8 bytes, so the loop of
  \<open>write_string\<close> over characters is a loop over bytes.
\<close>

datatype number = PosInt u64 | NegInt u64 | Float u64

datatype json =
    JNull
  | JBool bool
  | JNumber number
  | JString string
  | JArray "json list"
  | JObject "(string \<times> json) list"

definition MAX_SAFE_INTEGER :: int where
  "MAX_SAFE_INTEGER = 9007199254740991"

section \<open>Numbers and strings\<close>

function dec_digits :: "int \<Rightarrow> string" where
  "dec_digits n =
     (if n < 10 then [hex_digit (nat n)]
      else dec_digits (n div 10) @ [hex_digit (nat (n mod 10))])"
  by pat_completeness auto

termination
  by (relation "measure nat") auto

declare dec_digits.simps [simp del]

definition dec_int :: "int \<Rightarrow> string" where
  "dec_int i = (if i < 0 then CHR ''-'' # dec_digits (- i) else dec_digits i)"

definition f64_abs :: "u64 \<Rightarrow> u64" where
  "f64_abs f = f AND 0x7FFFFFFFFFFFFFFF"

definition f64_is_finite :: "u64 \<Rightarrow> bool" where
  "f64_is_finite f \<longleftrightarrow> f64_abs f < 0x7FF0000000000000"

definition MAX_SAFE_INTEGER_f64 :: u64 where
  "MAX_SAFE_INTEGER_f64 = 0x433FFFFFFFFFFFFF"

definition INTEGER_LITERAL_LIMIT :: u64 where
  "INTEGER_LITERAL_LIMIT = 0x444B1AE4D6E2EF50"

fun write_number :: "'z crates_scheme \<Rightarrow> number \<Rightarrow> string option" where
  "write_number C (PosInt u) =
     (if uint u > MAX_SAFE_INTEGER then None else Some (dec_digits (uint u)))"
| "write_number C (NegInt i) =
     (if sint i < - MAX_SAFE_INTEGER then None else Some (dec_int (sint i)))"
| "write_number C (Float f) =
     (if \<not> f64_is_finite f then None
      else if f64_abs f > MAX_SAFE_INTEGER_f64 \<and> f64_abs f < INTEGER_LITERAL_LIMIT then None
      else Some (cr_format_finite C f))"

definition escape_char :: "char \<Rightarrow> string" where
  "escape_char c =
     (if c = CHR 0x22 then [CHR 0x5C, CHR 0x22]
      else if c = CHR 0x5C then [CHR 0x5C, CHR 0x5C]
      else if c = CHR 0x08 then [CHR 0x5C, CHR ''b'']
      else if c = CHR 0x0C then [CHR 0x5C, CHR ''f'']
      else if c = CHR 0x0A then [CHR 0x5C, CHR ''n'']
      else if c = CHR 0x0D then [CHR 0x5C, CHR ''r'']
      else if c = CHR 0x09 then [CHR 0x5C, CHR ''t'']
      else if of_char c < (0x20 :: int)
      then [CHR 0x5C, CHR ''u'', CHR ''0'', CHR ''0'',
            hex_digit (nat (of_char c div 16)), hex_digit (nat (of_char c mod 16))]
      else [c])"

definition write_string :: "string \<Rightarrow> string" where
  "write_string s = CHR 0x22 # concat (map escape_char s) @ [CHR 0x22]"

section \<open>Member order: UTF-16 code units of the name\<close>

fun utf8_chars :: "int list \<Rightarrow> int list" where
  "utf8_chars [] = []"
| "utf8_chars (b # bs) =
     (if b < 0x80 then b # utf8_chars bs
      else if b < 0xE0 then
        (b mod 0x20 * 0x40 + bs ! 0 mod 0x40) # utf8_chars (drop 1 bs)
      else if b < 0xF0 then
        ((b mod 0x10 * 0x40 + bs ! 0 mod 0x40) * 0x40 + bs ! 1 mod 0x40) # utf8_chars (drop 2 bs)
      else
        (((b mod 0x08 * 0x40 + bs ! 0 mod 0x40) * 0x40 + bs ! 1 mod 0x40) * 0x40
           + bs ! 2 mod 0x40) # utf8_chars (drop 3 bs))"

definition utf16_units :: "int \<Rightarrow> int list" where
  "utf16_units c =
     (if c < 0x10000 then [c]
      else [0xD800 + (c - 0x10000) div 0x400, 0xDC00 + (c - 0x10000) mod 0x400])"

definition encode_utf16 :: "string \<Rightarrow> int list" where
  "encode_utf16 s = concat (map utf16_units (utf8_chars (map of_char s)))"

section \<open>The writer\<close>

fun comma_sep :: "string list \<Rightarrow> string" where
  "comma_sep [] = []"
| "comma_sep [s] = s"
| "comma_sep (s # t # ss) = s @ CHR '','' # comma_sep (t # ss)"

definition write_member :: "string \<times> string \<Rightarrow> string" where
  "write_member = (\<lambda>(k, s). write_string k @ CHR '':'' # s)"

definition sort_members :: "(string \<times> 'v) list \<Rightarrow> (string \<times> 'v) list" where
  "sort_members ms = sort_key (\<lambda>m. encode_utf16 (fst m)) ms"

definition write_object :: "(string \<times> string) list \<Rightarrow> string" where
  "write_object ms = CHR ''{'' # comma_sep (map write_member (sort_members ms)) @ [CHR ''}'']"

fun write_jcs :: "'z crates_scheme \<Rightarrow> json \<Rightarrow> string option"
and write_items :: "'z crates_scheme \<Rightarrow> json list \<Rightarrow> string list option"
and write_members :: "'z crates_scheme \<Rightarrow> (string \<times> json) list \<Rightarrow> (string \<times> string) list option"
where
  "write_jcs C JNull = Some ''null''"
| "write_jcs C (JBool b) = Some (if b then ''true'' else ''false'')"
| "write_jcs C (JNumber n) = write_number C n"
| "write_jcs C (JString s) = Some (write_string s)"
| "write_jcs C (JArray vs) =
     map_option (\<lambda>ss. CHR ''['' # comma_sep ss @ [CHR '']'']) (write_items C vs)"
| "write_jcs C (JObject ms) = map_option write_object (write_members C ms)"
| "write_items C [] = Some []"
| "write_items C (v # vs) =
     (case write_jcs C v of None \<Rightarrow> None
      | Some s \<Rightarrow> map_option ((#) s) (write_items C vs))"
| "write_members C [] = Some []"
| "write_members C ((k, v) # ms) =
     (case write_jcs C v of None \<Rightarrow> None
      | Some s \<Rightarrow> map_option ((#) (k, s)) (write_members C ms))"

definition canonical_json :: "'z crates_scheme \<Rightarrow> json \<Rightarrow> bytes option" where
  "canonical_json C v = map_option as_bytes (write_jcs C v)"

definition canonical_json_string :: "'z crates_scheme \<Rightarrow> json \<Rightarrow> string option" where
  "canonical_json_string C v = write_jcs C v"

definition sha256_canonical :: "'z crates_scheme \<Rightarrow> json \<Rightarrow> hash256 option" where
  "sha256_canonical C v = map_option (sha256 C) (canonical_json C v)"

section \<open>Serializing the common shapes\<close>

text \<open>
  What \<open>serde\<close>'s serializers make of bytes (an array of numbers), of \<open>Option\<close> (\<open>null\<close> or the
  value) and of the map and set adapters of \<open>canonical.rs\<close>: \<open>map_as_pairs\<close> is the sequence of
  \<open>[key, value]\<close> pairs in key order, a set is the sequence of its members in order.
\<close>

definition ser_u64 :: "u64 \<Rightarrow> json" where
  "ser_u64 n = JNumber (PosInt n)"

definition ser_bytes :: "bytes \<Rightarrow> json" where
  "ser_bytes bs = JArray (map (\<lambda>b. ser_u64 (ucast b)) bs)"

fun ser_option :: "('a \<Rightarrow> json) \<Rightarrow> 'a option \<Rightarrow> json" where
  "ser_option f None = JNull"
| "ser_option f (Some x) = f x"

definition ser_vec :: "('a \<Rightarrow> json) \<Rightarrow> 'a list \<Rightarrow> json" where
  "ser_vec f xs = JArray (map f xs)"

definition ser_set :: "('a :: linorder \<Rightarrow> json) \<Rightarrow> 'a set \<Rightarrow> json" where
  "ser_set f A = JArray (map f (sorted_list_of_set A))"

definition map_as_pairs :: "('k :: linorder \<Rightarrow> json) \<Rightarrow> ('v \<Rightarrow> json) \<Rightarrow> ('k, 'v) mapping \<Rightarrow> json" where
  "map_as_pairs f g m =
     JArray (map (\<lambda>k. JArray [f k, g (the (Mapping.lookup m k))]) (Mapping.ordered_keys m))"

definition ser_map :: "('k :: linorder \<Rightarrow> string) \<Rightarrow> ('v \<Rightarrow> json) \<Rightarrow> ('k, 'v) mapping \<Rightarrow> json" where
  "ser_map f g m =
     JObject (map (\<lambda>k. (f k, g (the (Mapping.lookup m k)))) (Mapping.ordered_keys m))"

end
