(* ===== verification/Kinds.thy ===== *)
theory Kinds
  imports Canonical
begin

text \<open>
  The enums of \<open>src/src/record/kind.rs\<close> and \<open>evidence.rs\<close>, the kind-to-author table and the
  evidence lattice.  Constructors carry a letter where two Rust enums share a variant name
  (\<open>KAction\<close> is \<open>Kind::Action\<close>, \<open>RefAction\<close> is \<open>RefusalTarget::Action\<close>).  The derived \<open>Ord\<close> of
  an enum is its declaration order.
\<close>

section \<open>Enums\<close>

datatype Kind =
    KRequest | KAction | KResponse | KResult | KSummary | KApproval | KCapability | KUsage
  | KRefusal | KVerdict | KPlan | KRetraction | KCandidate | KEvaluation | KSelection
  | KRequirement

datatype RefType = RCause | RUse | RRequire | RReplace

datatype AuthorType = AUser | AProvider | ASystem | AExecutor | AVerifier

datatype VerdictResult = Accept | Reject

datatype ReasonCode =
    UnknownSchema | KindSchemaMismatch | SignatureMissing | SignatureInvalid | RefUnresolved
  | RefCrossSpace | RequestMissing | CapabilityMissing | CapabilityDenied | ApprovalMissing
  | ApprovalExpired | ActionClosed | ReplacementInvalid | ExternalReceiptRequired
  | EvidenceBelowThreshold | Refused | InvalidPayload | InvalidCheckpoint | AuthorRoleInvalid
  | AuthorityRefMissing | SourceBindingInvalid | LineageInvalid | PayloadRefUnresolved
  | EvaluationInvalid | SelectionInvalid | ReaffirmationInvalid | ArtifactRefInvalid
  | RequirementInvalid

datatype CapabilityMode = Auto | Ask | Deny

datatype ExecMode = Internal | External

datatype ResultStatus = Success | Failure

datatype SummaryType = Procedure | Pattern | Lesson | StateSnapshot

datatype UsageOutcome = UDone | UNotDone | UNoChange

datatype RefusalTarget = RefAction | RefRequest | RefVerifiedEffect

datatype Evidence = Deterministic | Verified | Reported | Inferred | Assumed

section \<open>Declaration order\<close>

fun kind_ord :: "Kind \<Rightarrow> nat" where
  "kind_ord KRequest = 0" | "kind_ord KAction = 1" | "kind_ord KResponse = 2"
| "kind_ord KResult = 3" | "kind_ord KSummary = 4" | "kind_ord KApproval = 5"
| "kind_ord KCapability = 6" | "kind_ord KUsage = 7" | "kind_ord KRefusal = 8"
| "kind_ord KVerdict = 9" | "kind_ord KPlan = 10" | "kind_ord KRetraction = 11"
| "kind_ord KCandidate = 12" | "kind_ord KEvaluation = 13" | "kind_ord KSelection = 14"
| "kind_ord KRequirement = 15"

lemma kind_ord_inj: "kind_ord x = kind_ord y \<Longrightarrow> x = y"
  by (cases x; cases y) simp_all

instantiation Kind :: linorder
begin

definition less_eq_Kind :: "Kind \<Rightarrow> Kind \<Rightarrow> bool" where
  "less_eq_Kind x y \<longleftrightarrow> kind_ord x \<le> kind_ord y"

definition less_Kind :: "Kind \<Rightarrow> Kind \<Rightarrow> bool" where
  "less_Kind x y \<longleftrightarrow> kind_ord x < kind_ord y"

instance
  by standard (auto simp: less_eq_Kind_def less_Kind_def intro: kind_ord_inj)

end

fun ref_type_ord :: "RefType \<Rightarrow> nat" where
  "ref_type_ord RCause = 0" | "ref_type_ord RUse = 1" | "ref_type_ord RRequire = 2"
| "ref_type_ord RReplace = 3"

lemma ref_type_ord_inj: "ref_type_ord x = ref_type_ord y \<Longrightarrow> x = y"
  by (cases x; cases y) simp_all

fun evidence_ord :: "Evidence \<Rightarrow> nat" where
  "evidence_ord Deterministic = 0" | "evidence_ord Verified = 1" | "evidence_ord Reported = 2"
| "evidence_ord Inferred = 3" | "evidence_ord Assumed = 4"

lemma evidence_ord_inj: "evidence_ord x = evidence_ord y \<Longrightarrow> x = y"
  by (cases x; cases y) simp_all

instantiation Evidence :: linorder
begin

definition less_eq_Evidence :: "Evidence \<Rightarrow> Evidence \<Rightarrow> bool" where
  "less_eq_Evidence x y \<longleftrightarrow> evidence_ord x \<le> evidence_ord y"

definition less_Evidence :: "Evidence \<Rightarrow> Evidence \<Rightarrow> bool" where
  "less_Evidence x y \<longleftrightarrow> evidence_ord x < evidence_ord y"

instance
  by standard (auto simp: less_eq_Evidence_def less_Evidence_def intro: evidence_ord_inj)

end

lemma Assumed_weakest [simp]: "e \<le> Assumed"
  by (cases e) (simp_all add: less_eq_Evidence_def)

lemma Deterministic_strongest [simp]: "Deterministic \<le> e"
  by (simp add: less_eq_Evidence_def)

fun summary_type_ord :: "SummaryType \<Rightarrow> nat" where
  "summary_type_ord Procedure = 0" | "summary_type_ord Pattern = 1"
| "summary_type_ord Lesson = 2" | "summary_type_ord StateSnapshot = 3"

lemma summary_type_ord_inj: "summary_type_ord x = summary_type_ord y \<Longrightarrow> x = y"
  by (cases x; cases y) simp_all

instantiation SummaryType :: linorder
begin

definition less_eq_SummaryType :: "SummaryType \<Rightarrow> SummaryType \<Rightarrow> bool" where
  "less_eq_SummaryType x y \<longleftrightarrow> summary_type_ord x \<le> summary_type_ord y"

definition less_SummaryType :: "SummaryType \<Rightarrow> SummaryType \<Rightarrow> bool" where
  "less_SummaryType x y \<longleftrightarrow> summary_type_ord x < summary_type_ord y"

instance
  by standard (auto simp: less_eq_SummaryType_def less_SummaryType_def intro: summary_type_ord_inj)

end

section \<open>Who may author what\<close>

fun allowed_author_types :: "Kind \<Rightarrow> AuthorType list" where
  "allowed_author_types KRequest = [AUser]"
| "allowed_author_types KAction = [AProvider]"
| "allowed_author_types KResponse = [AProvider]"
| "allowed_author_types KResult = [AExecutor]"
| "allowed_author_types KSummary = [AProvider]"
| "allowed_author_types KApproval = [AUser]"
| "allowed_author_types KCapability = [AUser, ASystem]"
| "allowed_author_types KUsage = [AProvider, ASystem]"
| "allowed_author_types KRefusal = [AUser, ASystem]"
| "allowed_author_types KVerdict = [AVerifier]"
| "allowed_author_types KPlan = [AProvider]"
| "allowed_author_types KRetraction = [AUser, AProvider, ASystem]"
| "allowed_author_types KCandidate = [AUser, AProvider, AExecutor, ASystem]"
| "allowed_author_types KEvaluation = [AUser, AProvider, AExecutor, ASystem]"
| "allowed_author_types KSelection = [AUser, AProvider, ASystem]"
| "allowed_author_types KRequirement = [AUser, AProvider, ASystem]"

fun requires_registered_author :: "Kind \<Rightarrow> bool" where
  "requires_registered_author KVerdict = False"
| "requires_registered_author _ = True"

lemma requires_registered_author_iff: "requires_registered_author k \<longleftrightarrow> k \<noteq> KVerdict"
  by (cases k) simp_all

section \<open>Evidence derivation (evidence.rs)\<close>

definition base_evidence :: "'z crates_scheme \<Rightarrow> hash256 \<Rightarrow> Evidence" where
  "base_evidence C schema =
     (case schema_name_for_id C schema of
        None \<Rightarrow> Assumed
      | Some n \<Rightarrow>
          if n = SCHEMA_VERDICT then Deterministic
          else if n = SCHEMA_RESULT_EXTERNAL then Verified
          else if n = SCHEMA_REQUEST then Reported
          else if n = SCHEMA_ACTION then Reported
          else if n = SCHEMA_RESPONSE then Reported
          else if n = SCHEMA_RESULT then Reported
          else if n = SCHEMA_RESULT_EFFECT_CONFIRMATION then Reported
          else if n = SCHEMA_CAPABILITY then Reported
          else if n = SCHEMA_APPROVAL then Reported
          else if n = SCHEMA_REFUSAL then Reported
          else if n = SCHEMA_USAGE then Reported
          else if n = SCHEMA_RETRACTION then Reported
          else if n = SCHEMA_CANDIDATE then Reported
          else if n = SCHEMA_EVALUATION then Reported
          else if n = SCHEMA_REQUIREMENT then Reported
          else if n = SCHEMA_EVALUATION_V2 then Reported
          else if n = SCHEMA_EVALUATION_ATTESTED then Verified
          else if n = SCHEMA_SUMMARY then Inferred
          else if n = SCHEMA_PLAN then Inferred
          else if n = SCHEMA_SELECTION then Inferred
          else Assumed)"

definition weakest :: "Evidence list \<Rightarrow> Evidence" where
  "weakest es = fold max es Deterministic"

definition derive_evidence :: "'z crates_scheme \<Rightarrow> hash256 \<Rightarrow> Evidence list \<Rightarrow> Evidence" where
  "derive_evidence C schema ref_evidences =
     (let base = base_evidence C schema
      in if ref_evidences = [] then base else weakest (base # ref_evidences))"

lemma fold_max_Max: "fold max es (a :: 'a :: linorder) = Max (insert a (set es))"
proof (induction es arbitrary: a)
  case (Cons e es)
  have "fold max (e # es) a = Max (insert (max e a) (set es))"
    by (simp add: Cons.IH)
  also have "\<dots> = Max (insert a (set (e # es)))"
    by (cases "es = []") (simp_all add: max.commute max.left_commute max.assoc)
  finally show ?case .
qed simp

lemma weakest_Max: "weakest es = Max (insert Deterministic (set es))"
  by (simp add: weakest_def fold_max_Max)

lemma derive_evidence_Max:
  "derive_evidence C schema es = Max (insert (base_evidence C schema) (set es))"
proof (cases "es = []")
  case False
  have "derive_evidence C schema es = Max (insert Deterministic (insert (base_evidence C schema) (set es)))"
    using False by (simp add: derive_evidence_def weakest_Max)
  also have "\<dots> = Max (insert (base_evidence C schema) (set es))"
    by (simp add: max_absorb2)
  finally show ?thesis .
qed (simp add: derive_evidence_def)

lemma derive_evidence_ge:
  "base_evidence C schema \<le> derive_evidence C schema es"
  "e \<in> set es \<Longrightarrow> e \<le> derive_evidence C schema es"
  by (simp_all add: derive_evidence_Max)

end
