(* ===== verification/Records.thy ===== *)
theory Records
  imports Kinds
begin

text \<open>
  The record envelope of \<open>src/src/record\<close>: authors (\<open>author.rs\<close>), typed references
  (\<open>refs.rs\<close>), the record with its canonical id form and signing form (\<open>record.rs\<close>) and
  signature verification (\<open>sign.rs\<close>).  What \<open>#[derive(Serialize)]\<close> makes of a type is the
  \<open>json\<close> value built by the function of that type named \<open>..._json\<close>.
\<close>

section \<open>Structs\<close>

type_synonym RecordId = hash256

record Signature =
  sig_key_id :: string
  sig_sig :: bytes

record Author =
  au_id :: string
  au_type :: AuthorType
  au_signature :: "Signature option"

record Ref =
  ref_type :: RefType
  ref_target :: RecordId

record Record =
  rec_id :: RecordId
  rec_space :: hash256
  rec_thread :: hash256
  rec_time :: u64
  rec_author :: Author
  rec_kind :: Kind
  rec_schema :: hash256
  rec_data :: bytes
  rec_refs :: "Ref list"
  rec_evidence :: Evidence

record Proposal =
  pro_space :: hash256
  pro_thread :: hash256
  pro_author :: Author
  pro_kind :: Kind
  pro_schema :: hash256
  pro_data :: bytes
  pro_refs :: "Ref list"

definition RECORD_SIGNATURE_DOMAIN :: string where
  "RECORD_SIGNATURE_DOMAIN = ''bellbook.record-signature.v0.3''"

definition SELECTION_APPROVAL_DOMAIN :: string where
  "SELECTION_APPROVAL_DOMAIN = ''bellbook.selection-approval.v0.3''"

section \<open>Serialized enums\<close>

fun kind_json :: "Kind \<Rightarrow> json" where
  "kind_json KRequest = JString ''Request''"
| "kind_json KAction = JString ''Action''"
| "kind_json KResponse = JString ''Response''"
| "kind_json KResult = JString ''Result''"
| "kind_json KSummary = JString ''Summary''"
| "kind_json KApproval = JString ''Approval''"
| "kind_json KCapability = JString ''Capability''"
| "kind_json KUsage = JString ''Usage''"
| "kind_json KRefusal = JString ''Refusal''"
| "kind_json KVerdict = JString ''Verdict''"
| "kind_json KPlan = JString ''Plan''"
| "kind_json KRetraction = JString ''Retraction''"
| "kind_json KCandidate = JString ''Candidate''"
| "kind_json KEvaluation = JString ''Evaluation''"
| "kind_json KSelection = JString ''Selection''"
| "kind_json KRequirement = JString ''Requirement''"

fun ref_type_json :: "RefType \<Rightarrow> json" where
  "ref_type_json RCause = JString ''Cause''"
| "ref_type_json RUse = JString ''Use''"
| "ref_type_json RRequire = JString ''Require''"
| "ref_type_json RReplace = JString ''Replace''"

fun author_type_json :: "AuthorType \<Rightarrow> json" where
  "author_type_json AUser = JString ''User''"
| "author_type_json AProvider = JString ''Provider''"
| "author_type_json ASystem = JString ''System''"
| "author_type_json AExecutor = JString ''Executor''"
| "author_type_json AVerifier = JString ''Verifier''"

fun evidence_json :: "Evidence \<Rightarrow> json" where
  "evidence_json Deterministic = JString ''Deterministic''"
| "evidence_json Verified = JString ''Verified''"
| "evidence_json Reported = JString ''Reported''"
| "evidence_json Inferred = JString ''Inferred''"
| "evidence_json Assumed = JString ''Assumed''"

section \<open>Serialized envelope parts\<close>

definition signature_json :: "Signature \<Rightarrow> json" where
  "signature_json s =
     JObject [(''key_id'', JString (sig_key_id s)), (''sig'', ser_bytes (sig_sig s))]"

definition ref_json :: "Ref \<Rightarrow> json" where
  "ref_json r =
     JObject [(''type'', ref_type_json (ref_type r)), (''target'', ser_bytes (ref_target r))]"

definition author_json :: "Author \<Rightarrow> json" where
  "author_json a =
     JObject [(''id'', JString (au_id a)), (''type'', author_type_json (au_type a)),
              (''signature'', ser_option signature_json (au_signature a))]"

definition canonical_id_author_json :: "Author \<Rightarrow> json" where
  "canonical_id_author_json a =
     JObject ([(''id'', JString (au_id a)), (''type'', author_type_json (au_type a))]
              @ (case au_signature a of None \<Rightarrow> [] | Some s \<Rightarrow> [(''signature'', signature_json s)]))"

definition canonical_author_json :: "Author \<Rightarrow> json" where
  "canonical_author_json a =
     JObject [(''id'', JString (au_id a)), (''type'', author_type_json (au_type a))]"

definition envelope_members :: "json \<Rightarrow> Record \<Rightarrow> (string \<times> json) list" where
  "envelope_members author r =
     [(''space'', ser_bytes (rec_space r)), (''thread'', ser_bytes (rec_thread r)),
      (''time'', ser_u64 (rec_time r)), (''author'', author),
      (''kind'', kind_json (rec_kind r)), (''schema'', ser_bytes (rec_schema r)),
      (''data'', ser_bytes (rec_data r)), (''refs'', ser_vec ref_json (rec_refs r)),
      (''evidence'', evidence_json (rec_evidence r))]"

definition record_json :: "Record \<Rightarrow> json" where
  "record_json r =
     JObject ((''id'', ser_bytes (rec_id r)) # envelope_members (author_json (rec_author r)) r)"

definition canonical_id_form_json :: "Record \<Rightarrow> json" where
  "canonical_id_form_json r =
     JObject (envelope_members (canonical_id_author_json (rec_author r)) r)"

definition signing_form_json :: "Record \<Rightarrow> json" where
  "signing_form_json r =
     JObject [(''domain'', JString RECORD_SIGNATURE_DOMAIN),
              (''record'', JObject (envelope_members (canonical_author_json (rec_author r)) r))]"

section \<open>Record ids (record.rs)\<close>

definition canonical_id_form :: "'z crates_scheme \<Rightarrow> Record \<Rightarrow> bytes option" where
  "canonical_id_form C r = canonical_json C (canonical_id_form_json r)"

definition compute_id :: "'z crates_scheme \<Rightarrow> Record \<Rightarrow> RecordId option" where
  "compute_id C r = map_option (sha256 C) (canonical_id_form C r)"

definition with_computed_id :: "'z crates_scheme \<Rightarrow> Record \<Rightarrow> Record option" where
  "with_computed_id C r = map_option (\<lambda>i. r\<lparr>rec_id := i\<rparr>) (compute_id C r)"

definition signing_bytes :: "'z crates_scheme \<Rightarrow> Record \<Rightarrow> bytes option" where
  "signing_bytes C r = canonical_json C (signing_form_json r)"

section \<open>References (refs.rs)\<close>

definition ref_key :: "Ref \<Rightarrow> nat \<times> RecordId" where
  "ref_key r = (ref_type_ord (ref_type r), ref_target r)"

definition sort_and_dedup_refs :: "Ref list \<Rightarrow> Ref list" where
  "sort_and_dedup_refs refs = remdups_adj (sort_key ref_key refs)"

section \<open>Signatures (sign.rs)\<close>

definition verified_key :: "'z crates_scheme \<Rightarrow> Record \<Rightarrow> hash256 option" where
  "verified_key C r =
     (case au_signature (rec_author r) of None \<Rightarrow> None
      | Some s \<Rightarrow> (case hex_decode (sig_key_id s) of None \<Rightarrow> None
          | Some key_bytes \<Rightarrow>
              if \<not> cr_key_from_bytes C key_bytes then None
              else if length (sig_sig s) \<noteq> 64 then None
              else (case signing_bytes C r of None \<Rightarrow> None
                | Some canonical \<Rightarrow>
                    if cr_verify_strict C key_bytes canonical (sig_sig s)
                    then Some key_bytes else None)))"

definition signature_verifies :: "'z crates_scheme \<Rightarrow> Record \<Rightarrow> bool" where
  "signature_verifies C r \<longleftrightarrow> verified_key C r \<noteq> None"

text \<open>An \<open>Ed25519Signer\<close> is the pair of a public key and the signing function of its secret.\<close>

record Ed25519Signer =
  sg_public_key :: hash256
  sg_sign :: "bytes \<Rightarrow> bytes"

definition public_key_hex :: "Ed25519Signer \<Rightarrow> string" where
  "public_key_hex k = hex_encode (sg_public_key k)"

definition sign :: "'z crates_scheme \<Rightarrow> Ed25519Signer \<Rightarrow> Record \<Rightarrow> Signature option" where
  "sign C k r =
     map_option (\<lambda>canonical. \<lparr>sig_key_id = public_key_hex k, sig_sig = sg_sign k canonical\<rparr>)
       (signing_bytes C r)"

section \<open>Lemmas\<close>

lemma ref_key_inj: "ref_key a = ref_key b \<Longrightarrow> a = (b :: Ref)"
  by (cases a; cases b) (auto simp: ref_key_def dest: ref_type_ord_inj)

lemma inj_ref_key: "inj_on ref_key (A :: Ref set)"
  by (rule inj_onI) (rule ref_key_inj)

lemma canonical_id_form_ignores_id [simp]:
  "canonical_id_form C (r\<lparr>rec_id := i\<rparr>) = canonical_id_form C r"
  by (simp add: canonical_id_form_def canonical_id_form_json_def envelope_members_def)

lemma compute_id_ignores_id [simp]: "compute_id C (r\<lparr>rec_id := i\<rparr>) = compute_id C r"
  by (simp add: compute_id_def)

lemma with_computed_id_Some:
  assumes "with_computed_id C r = Some r'"
  shows "compute_id C r' = Some (rec_id r')" "\<exists>i. r' = r\<lparr>rec_id := i\<rparr>"
  using assms by (auto simp: with_computed_id_def)

lemma signing_bytes_ignores_id_signature [simp]:
  "signing_bytes C (r\<lparr>rec_id := i, rec_author := (rec_author r)\<lparr>au_signature := s\<rparr>\<rparr>) = signing_bytes C r"
  by (simp add: signing_bytes_def signing_form_json_def envelope_members_def canonical_author_json_def)

lemma sorted_wrt_less_remdups_adj:
  fixes f :: "'a \<Rightarrow> 'b :: linorder"
  assumes "inj_on f (set xs)" "sorted (map f xs)"
  shows "sorted_wrt (<) (map f (remdups_adj xs))"
  using assms
proof (induction xs rule: remdups_adj.induct)
  case (3 x y xs)
  have step: "remdups_adj (x # y # xs) = (if x = y then remdups_adj (x # xs) else x # remdups_adj (y # xs))"
    by simp
  show ?case
  proof (cases "x = y")
    case True
    with 3 show ?thesis by (simp only: step if_True) (auto simp: inj_on_def)
  next
    case False
    with "3.prems" have "f x < f z" if "z \<in> set (y # xs)" for z
      using that by (auto simp: inj_on_def less_le intro: order_trans)
    with False 3 show ?thesis
      by (simp only: step if_False) (auto simp: inj_on_def)
  qed
qed auto

lemma sort_and_dedup_refs_strict: "sorted_wrt (<) (map ref_key (sort_and_dedup_refs refs))"
  unfolding sort_and_dedup_refs_def
  by (rule sorted_wrt_less_remdups_adj) (simp_all add: inj_ref_key)

lemma set_sort_and_dedup_refs [simp]: "set (sort_and_dedup_refs refs) = set refs"
  by (simp add: sort_and_dedup_refs_def)

end
