(* ===== verification/Canonical_Laws.thy ===== *)
theory Canonical_Laws
  imports Canonical
begin

text \<open>
  Canonical JSON is a faithful encoding: on values without floating-point numbers the writer is
  injective up to the order of object members.  The proof reads the output left to right: every
  token tells where it ends, so equal outputs come from equal values.
\<close>

section \<open>Values without floating-point numbers\<close>

fun plain :: "json \<Rightarrow> bool" where
  "plain (JNumber (Float f)) = False"
| "plain (JNumber (NegInt i)) \<longleftrightarrow> sint i < 0"
| "plain (JArray vs) \<longleftrightarrow> (\<forall>v \<in> set vs. plain v)"
| "plain (JObject ms) \<longleftrightarrow> (\<forall>m \<in> set ms. plain (snd m))"
| "plain _ = True"

fun writable :: "json \<Rightarrow> bool" where
  "writable (JNumber (PosInt u)) \<longleftrightarrow> uint u \<le> MAX_SAFE_INTEGER"
| "writable (JNumber (NegInt i)) \<longleftrightarrow> - MAX_SAFE_INTEGER \<le> sint i"
| "writable (JNumber (Float f)) = False"
| "writable (JArray vs) \<longleftrightarrow> (\<forall>v \<in> set vs. writable v)"
| "writable (JObject ms) \<longleftrightarrow> (\<forall>m \<in> set ms. writable (snd m))"
| "writable _ = True"

lemma write_items_Some:
  "(\<And>v. v \<in> set vs \<Longrightarrow> write_jcs C v \<noteq> None) \<Longrightarrow> write_items C vs \<noteq> None"
  by (induction vs) (auto split: option.splits)

lemma write_members_Some:
  "(\<And>m. m \<in> set ms \<Longrightarrow> write_jcs C (snd m) \<noteq> None) \<Longrightarrow> write_members C ms \<noteq> None"
proof (induction ms)
  case (Cons m ms)
  then show ?case by (cases m) (force split: option.splits)
qed simp

lemma writable_write: "writable v \<Longrightarrow> write_jcs C v \<noteq> None"
proof (induction v)
  case (JNumber n)
  then show ?case by (cases n) (simp_all add: not_less)
next
  case (JArray vs)
  then have "write_items C vs \<noteq> None" by (intro write_items_Some) simp
  then show ?case by auto
next
  case (JObject ms)
  then have "write_members C ms \<noteq> None"
    by (intro write_members_Some) (auto simp: snds.simps)
  then show ?case by auto
qed simp_all

section \<open>Digits\<close>

definition digit_of :: "char \<Rightarrow> int" where
  "digit_of c = of_char c - 48"

definition is_dec :: "char \<Rightarrow> bool" where
  "is_dec c \<longleftrightarrow> c \<in> set ''0123456789''"

definition dec_value :: "string \<Rightarrow> int" where
  "dec_value s = foldl (\<lambda>n c. 10 * n + digit_of c) 0 s"

lemma hex_digit_dec:
  assumes "0 \<le> n" "n < 10"
  shows "digit_of (hex_digit (nat n)) = n" "is_dec (hex_digit (nat n))"
proof -
  have "list_all (\<lambda>k. digit_of (hex_digit k) = int k \<and> is_dec (hex_digit k)) [0..<10]"
    by code_simp
  moreover have "nat n < 10" using assms by simp
  ultimately have "digit_of (hex_digit (nat n)) = int (nat n) \<and> is_dec (hex_digit (nat n))"
    by (rule list_all_uptD)
  then show "digit_of (hex_digit (nat n)) = n" "is_dec (hex_digit (nat n))"
    using assms by simp_all
qed

lemma dec_value_digits: "0 \<le> n \<Longrightarrow> dec_value (dec_digits n) = n"
proof (induction n rule: dec_digits.induct)
  case (1 n)
  show ?case
  proof (cases "n < 10")
    case True
    with 1 show ?thesis by (subst dec_digits.simps) (simp add: dec_value_def hex_digit_dec)
  next
    case False
    with 1 have "dec_value (dec_digits (n div 10)) = n div 10" by simp
    with False show ?thesis
      by (subst dec_digits.simps) (simp add: dec_value_def hex_digit_dec)
  qed
qed

lemma dec_digits_dec: "0 \<le> n \<Longrightarrow> c \<in> set (dec_digits n) \<Longrightarrow> is_dec c"
proof (induction n rule: dec_digits.induct)
  case (1 n)
  then show ?case
    by (subst (asm) (2) dec_digits.simps) (auto simp: hex_digit_dec split: if_splits)
qed

lemma dec_digits_not_Nil: "dec_digits n \<noteq> []"
  by (subst dec_digits.simps) simp

lemma dec_digits_inj:
  assumes "dec_digits n @ rest = dec_digits m @ rest'" "0 \<le> n" "0 \<le> m"
    "rest = [] \<or> \<not> is_dec (hd rest)" "rest' = [] \<or> \<not> is_dec (hd rest')"
  shows "n = m \<and> rest = rest'"
proof -
  have tw: "takeWhile is_dec (dec_digits k @ r) = dec_digits k" if "0 \<le> k" "r = [] \<or> \<not> is_dec (hd r)"
    for k r
    using that(2) dec_digits_dec [OF that(1)]
    by (subst takeWhile_append2) (auto simp: takeWhile_eq_Nil_iff)
  have eq: "dec_digits n = dec_digits m"
    using arg_cong [OF assms(1), of "takeWhile is_dec"]
    unfolding tw [OF assms(2,4)] tw [OF assms(3,5)] .
  from arg_cong [OF this, of dec_value] have "n = m"
    unfolding dec_value_digits [OF assms(2)] dec_value_digits [OF assms(3)] .
  moreover have "rest = rest'"
    using assms(1) unfolding eq by (simp only: same_append_eq)
  ultimately show ?thesis ..
qed

section \<open>Strings\<close>

definition unescape_code :: "char \<Rightarrow> char option" where
  "unescape_code c =
     map_of [(CHR 0x22, CHR 0x22), (CHR 0x5C, CHR 0x5C), (CHR ''b'', CHR 0x08),
             (CHR ''f'', CHR 0x0C), (CHR ''n'', CHR 0x0A), (CHR ''r'', CHR 0x0D),
             (CHR ''t'', CHR 0x09)] c"

fun unescape :: "string \<Rightarrow> (char \<times> string) option" where
  "unescape (c # s) =
     (if c \<noteq> CHR 0x5C then Some (c, s)
      else (case s of
              e # s' \<Rightarrow>
                (case unescape_code e of Some d \<Rightarrow> Some (d, s')
                 | None \<Rightarrow>
                     (case s' of
                        _ # _ # h # l # s'' \<Rightarrow>
                          Some (char_of (nat (16 * (case nibble h of Some x \<Rightarrow> uint x | None \<Rightarrow> 0)
                                        + (case nibble l of Some x \<Rightarrow> uint x | None \<Rightarrow> 0))), s'')
                      | _ \<Rightarrow> None))
            | [] \<Rightarrow> None))"
| "unescape [] = None"

lemma uint_small: "0 \<le> x \<Longrightarrow> x < 16 \<Longrightarrow> uint (word_of_int x :: u8) = x"
  by (simp add: unsigned_of_int take_bit_int_eq_self)

lemma unescape_hex:
  assumes "(of_char c :: int) < 32"
  shows "unescape ([CHR 0x5C, CHR ''u'', CHR ''0'', CHR ''0'', hex_digit (nat (of_char c div 16)),
            hex_digit (nat (of_char c mod 16))] @ rest) = Some (c, rest)"
proof -
  define x :: int where "x = of_char c"
  have cx: "x = int (of_char c)" by (simp add: x_def of_nat_of_char)
  have x: "0 \<le> x" "x < 32" using assms by (simp_all add: cx flip: x_def)
  have n: "nibble (hex_digit (nat (x div 16))) = Some (of_nat (nat (x div 16)))"
    "nibble (hex_digit (nat (x mod 16))) = Some (of_nat (nat (x mod 16)))"
    using x by (simp_all add: nibble_hex_digit)
  have "char_of (nat (16 * (x div 16) + x mod 16)) = c"
    by (simp add: cx)
  with n x show ?thesis
    by (simp flip: x_def add: unescape_code_def uint_small)
qed

lemma unescape_escape: "unescape (escape_char c @ rest) = Some (c, rest)"
proof (cases "c \<in> {CHR 0x22, CHR 0x5C, CHR 0x08, CHR 0x0C, CHR 0x0A, CHR 0x0D, CHR 0x09}")
  case True
  then show ?thesis
    by (elim insertE emptyE) (simp_all add: escape_char_def unescape_code_def)
next
  case False
  then show ?thesis
    using unescape_hex [of c rest] by (cases "(of_char c :: int) < 32") (simp_all add: escape_char_def)
qed

lemma escape_char_hd: "escape_char c \<noteq> [] \<and> hd (escape_char c) \<noteq> CHR 0x22"
  by (auto simp: escape_char_def)

lemma escaped_inj:
  "concat (map escape_char s) @ CHR 0x22 # rest = concat (map escape_char t) @ CHR 0x22 # rest'
   \<Longrightarrow> s = t \<and> rest = rest'"
proof (induction s arbitrary: t)
  case Nil
  then show ?case
  proof (cases t)
    case (Cons d t')
    with Nil escape_char_hd [of d] show ?thesis
      by (cases "escape_char d") auto
  qed simp
next
  case (Cons c s)
  show ?case
  proof (cases t)
    case Nil
    with Cons.prems escape_char_hd [of c] show ?thesis by (cases "escape_char c") auto
  next
    case (Cons d t')
    with Cons.prems have eq: "escape_char c @ (concat (map escape_char s) @ CHR 0x22 # rest)
        = escape_char d @ (concat (map escape_char t') @ CHR 0x22 # rest')" by simp
    have "c = d" "concat (map escape_char s) @ CHR 0x22 # rest
        = concat (map escape_char t') @ CHR 0x22 # rest'"
      using arg_cong [OF eq, of unescape] by (simp_all only: unescape_escape option.inject prod.inject)
    with Cons.IH [of t'] show ?thesis by (simp add: Cons)
  qed
qed

lemma write_string_inj:
  "write_string s @ rest = write_string t @ rest' \<Longrightarrow> s = t \<and> rest = rest'"
  using escaped_inj [of s rest t rest'] by (simp add: write_string_def)

section \<open>Values\<close>

text \<open>The value with the members of every object in canonical order.\<close>

fun norm :: "json \<Rightarrow> json" where
  "norm (JArray vs) = JArray (map norm vs)"
| "norm (JObject ms) = JObject (sort_members (map (\<lambda>m. (fst m, norm (snd m))) ms))"
| "norm v = v"

definition closes :: "string \<Rightarrow> bool" where
  "closes rest \<longleftrightarrow> rest = [] \<or> hd rest \<in> {CHR '','', CHR '']'', CHR ''}''}"

definition opener :: "char \<Rightarrow> bool" where
  "opener c \<longleftrightarrow> c \<notin> {CHR '','', CHR '']'', CHR ''}''}"

lemma dec_digits_hd: "0 \<le> n \<Longrightarrow> is_dec (hd (dec_digits n))"
  using dec_digits_dec [of n "hd (dec_digits n)"] dec_digits_not_Nil [of n] by simp

lemma is_dec_chars:
  "is_dec c \<Longrightarrow> c \<notin> set ''-,]}ntf[{'' \<and> c \<noteq> CHR 0x22"
  by (auto simp: is_dec_def)

lemma closes_not_dec: "closes rest \<Longrightarrow> rest = [] \<or> \<not> is_dec (hd rest)"
  using is_dec_chars by (auto simp: closes_def)

text \<open>The first character of a written value gives its constructor.\<close>

fun tag :: "json \<Rightarrow> char \<Rightarrow> bool" where
  "tag JNull c \<longleftrightarrow> c = CHR ''n''"
| "tag (JBool b) c \<longleftrightarrow> c = (if b then CHR ''t'' else CHR ''f'')"
| "tag (JNumber (PosInt _)) c \<longleftrightarrow> is_dec c"
| "tag (JNumber (NegInt _)) c \<longleftrightarrow> c = CHR ''-''"
| "tag (JNumber (Float _)) c = False"
| "tag (JString _) c \<longleftrightarrow> c = CHR 0x22"
| "tag (JArray _) c \<longleftrightarrow> c = CHR ''[''"
| "tag (JObject _) c \<longleftrightarrow> c = CHR ''{''"

lemma tag_inv:
  "tag v (CHR ''n'') \<Longrightarrow> v = JNull"
  "tag v (CHR ''t'') \<Longrightarrow> v = JBool True"
  "tag v (CHR ''f'') \<Longrightarrow> v = JBool False"
  "tag v (CHR ''-'') \<Longrightarrow> \<exists>i. v = JNumber (NegInt i)"
  "tag v (CHR 0x22) \<Longrightarrow> \<exists>t. v = JString t"
  "tag v (CHR ''['') \<Longrightarrow> \<exists>us. v = JArray us"
  "tag v (CHR ''{'') \<Longrightarrow> \<exists>ms. v = JObject ms"
  "tag v c \<Longrightarrow> is_dec c \<Longrightarrow> \<exists>u. v = JNumber (PosInt u)"
  by (induction v c rule: tag.induct) (simp_all add: is_dec_def split: if_splits)

lemma write_tag:
  assumes "write_jcs C v = Some s" "plain v"
  shows "s \<noteq> [] \<and> tag v (hd s) \<and> opener (hd s)"
proof (cases v)
  case (JNumber n)
  show ?thesis
  proof (cases n)
    case (PosInt u)
    have "is_dec (hd (dec_digits (uint u)))" by (rule dec_digits_hd) simp
    with assms JNumber PosInt dec_digits_not_Nil [of "uint u"] is_dec_chars show ?thesis
      by (simp add: opener_def split: if_splits)
  next
    case (NegInt i)
    with assms JNumber show ?thesis
      by (auto simp: dec_int_def opener_def split: if_splits)
  next
    case (Float f)
    with assms JNumber show ?thesis by simp
  qed
qed (use assms in \<open>auto simp: write_string_def write_object_def opener_def split: if_splits\<close>)

definition uniquely_read :: "'z crates_scheme \<Rightarrow> json \<Rightarrow> bool" where
  "uniquely_read C v \<longleftrightarrow>
     (\<forall>v' s s' rest rest'. plain v \<longrightarrow> plain v' \<longrightarrow> write_jcs C v = Some s \<longrightarrow> write_jcs C v' = Some s'
        \<longrightarrow> closes rest \<longrightarrow> closes rest' \<longrightarrow> s @ rest = s' @ rest'
        \<longrightarrow> norm v = norm v' \<and> rest = rest')"

lemma uniquely_readD:
  assumes "uniquely_read C v" "plain v" "plain v'" "write_jcs C v = Some s" "write_jcs C v' = Some s'"
    "closes rest" "closes rest'" "s @ rest = s' @ rest'"
  shows "norm v = norm v'" "rest = rest'"
  using assms unfolding uniquely_read_def by blast+

lemma closes_simps [simp]:
  "closes (CHR '','' # r)" "closes (CHR '']'' # r)" "closes (CHR ''}'' # r)"
  by (simp_all add: closes_def)

subsection \<open>Sequences\<close>

text \<open>
  Comma-separated pieces \<open>f x\<close> ending in a closing character \<open>e\<close>: if each piece starts with a
  character that is not \<open>e\<close>, and reading two pieces followed by a comma or \<open>e\<close> yields \<open>rel\<close>,
  reading the sequences yields \<open>rel\<close> element by element.
\<close>

lemma sequence_unique:
  assumes "\<And>x y r r'. x \<in> set xs \<Longrightarrow> y \<in> set ys \<Longrightarrow> f x @ r = f y @ r'
       \<Longrightarrow> hd r \<in> {CHR '','', e} \<Longrightarrow> hd r' \<in> {CHR '','', e} \<Longrightarrow> r \<noteq> [] \<Longrightarrow> r' \<noteq> []
       \<Longrightarrow> rel x y \<and> r = r'"
    and "\<And>x. x \<in> set xs \<union> set ys \<Longrightarrow> f x \<noteq> [] \<and> hd (f x) \<noteq> e"
    and "e \<noteq> CHR '',''" "comma_sep (map f xs) @ e # rest = comma_sep (map f ys) @ e # rest'"
  shows "list_all2 rel xs ys \<and> rest = rest'"
  using assms
proof (induction xs arbitrary: ys rule: induct_list012)
  case 1
  then show ?case
  proof (cases ys)
    case (Cons y ys')
    with "1.prems"(2) [of y] "1.prems"(4) show ?thesis by (cases ys'; cases "f y") auto
  qed simp
next
  case (2 x)
  show ?case
  proof (cases ys)
    case Nil
    with "2.prems"(2) [of x] "2.prems"(4) show ?thesis by (cases "f x") auto
  next
    case (Cons y ys')
    show ?thesis
    proof (cases ys')
      case Nil
      with \<open>ys = y # ys'\<close> "2.prems"(4) have "f x @ e # rest = f y @ e # rest'" by simp
      from "2.prems"(1) [OF _ _ this] \<open>ys = y # ys'\<close> Nil show ?thesis by simp
    next
      case (Cons y' ys'')
      with \<open>ys = y # ys'\<close> "2.prems"(4)
      have "f x @ e # rest = f y @ (CHR '','' # comma_sep (map f (y' # ys'')) @ e # rest')" by simp
      from "2.prems"(1) [OF _ _ this] \<open>ys = y # ys'\<close> "2.prems"(3) show ?thesis by simp
    qed
  qed
next
  case (3 x x2 xs)
  show ?case
  proof (cases ys)
    case Nil
    with "3.prems"(2) [of x] "3.prems"(4) show ?thesis by (cases "f x") auto
  next
    case (Cons y ys')
    show ?thesis
    proof (cases ys')
      case Nil
      with \<open>ys = y # ys'\<close> "3.prems"(4)
      have "f x @ (CHR '','' # comma_sep (map f (x2 # xs)) @ e # rest) = f y @ e # rest'" by simp
      from "3.prems"(1) [OF _ _ this] \<open>ys = y # ys'\<close> "3.prems"(3) show ?thesis by simp
    next
      case (Cons y' ys'')
      with \<open>ys = y # ys'\<close> "3.prems"(4)
      have "f x @ (CHR '','' # comma_sep (map f (x2 # xs)) @ e # rest)
          = f y @ (CHR '','' # comma_sep (map f (y' # ys'')) @ e # rest')" by simp
      from "3.prems"(1) [OF _ _ this] \<open>ys = y # ys'\<close>
      have xy: "rel x y"
        and tl: "comma_sep (map f (x2 # xs)) @ e # rest = comma_sep (map f ys') @ e # rest'"
        using Cons by simp_all
      have "rel u u' \<and> r = r'"
        if "u \<in> set (x2 # xs)" "u' \<in> set ys'" "f u @ r = f u' @ r'"
          "hd r \<in> {CHR '','', e}" "hd r' \<in> {CHR '','', e}" "r \<noteq> []" "r' \<noteq> []" for u u' r r'
        by (rule "3.prems"(1)) (use that \<open>ys = y # ys'\<close> in simp_all)
      moreover have "f u \<noteq> [] \<and> hd (f u) \<noteq> e" if "u \<in> set (x2 # xs) \<union> set ys'" for u
        by (rule "3.prems"(2)) (use that \<open>ys = y # ys'\<close> in auto)
      ultimately have "list_all2 rel (x2 # xs) ys' \<and> rest = rest'"
        by (rule "3.IH"(2) [OF _ _ "3.prems"(3) tl])
      with xy \<open>ys = y # ys'\<close> show ?thesis by simp
    qed
  qed
qed

lemma list_all2_map_eq: "list_all2 (\<lambda>x y. f x = f y) xs ys \<Longrightarrow> map f xs = map f ys"
  by (induction rule: list_all2_induct) simp_all

lemma write_items_map:
  "write_items C vs = Some ss
   \<Longrightarrow> ss = map (\<lambda>v. the (write_jcs C v)) vs \<and> (\<forall>v \<in> set vs. write_jcs C v \<noteq> None)"
  by (induction vs arbitrary: ss) (auto split: option.splits)

definition written_member :: "'z crates_scheme \<Rightarrow> string \<times> json \<Rightarrow> string \<times> string" where
  "written_member C m = (fst m, the (write_jcs C (snd m)))"

lemma write_members_map:
  "write_members C ms = Some ss
   \<Longrightarrow> ss = map (written_member C) ms \<and> (\<forall>m \<in> set ms. write_jcs C (snd m) \<noteq> None)"
  by (induction ms arbitrary: ss) (force simp: written_member_def split: option.splits)+

lemma sort_key_map: "(\<And>x. f (g x) = h x) \<Longrightarrow> sort_key f (map g xs) = map g (sort_key h xs)"
proof (induction xs)
  case (Cons x xs)
  have "insort_key f (g x) (map g ys) = map g (insort_key h x ys)" for ys
    by (induction ys) (simp_all add: Cons.prems)
  with Cons show ?case by simp
qed simp

lemma sort_members_map:
  "(\<And>m. fst (g m) = fst m) \<Longrightarrow> sort_members (map g ms) = map g (sort_members ms)"
  unfolding sort_members_def by (rule sort_key_map) simp

lemma set_sort_members [simp]: "set (sort_members ms) = set ms"
  by (simp add: sort_members_def)

lemma unique_array:
  assumes IH: "\<And>v. v \<in> set vs \<Longrightarrow> uniquely_read C v"
  shows "uniquely_read C (JArray vs)"
  unfolding uniquely_read_def
proof (intro allI impI)
  fix v' s s' rest rest'
  assume pl: "plain (JArray vs)" "plain v'" and w: "write_jcs C (JArray vs) = Some s"
    "write_jcs C v' = Some s'" and eq: "s @ rest = s' @ rest'"
  from w(1) have "hd s = CHR ''[''" "s \<noteq> []" by auto
  with write_tag [OF w(2) pl(2)] eq have "tag v' (CHR ''['')" by (metis hd_append2)
  then obtain us where v': "v' = JArray us" using tag_inv(6) by blast
  let ?f = "\<lambda>v. the (write_jcs C v)"
  from w v' have s: "s = CHR ''['' # comma_sep (map ?f vs) @ [CHR '']'']"
      "s' = CHR ''['' # comma_sep (map ?f us) @ [CHR '']'']"
    and some: "\<And>v. v \<in> set vs \<union> set us \<Longrightarrow> write_jcs C v = Some (?f v)"
    using write_items_map [of C vs] write_items_map [of C us] by auto
  have "list_all2 (\<lambda>x y. norm x = norm y) vs us \<and> rest = rest'"
  proof (rule sequence_unique [where f = ?f and e = "CHR '']''"])
    show "comma_sep (map ?f vs) @ CHR '']'' # rest = comma_sep (map ?f us) @ CHR '']'' # rest'"
      using eq by (simp add: s)
    show "?f x \<noteq> [] \<and> hd (?f x) \<noteq> CHR '']''" if "x \<in> set vs \<union> set us" for x
      using write_tag [OF some [OF that]] that pl v' by (auto simp: opener_def)
    fix x y r r'
    assume *: "x \<in> set vs" "y \<in> set us" "?f x @ r = ?f y @ r'"
      "hd r \<in> {CHR '','', CHR '']''}" "hd r' \<in> {CHR '','', CHR '']''}"
    then have "closes r" "closes r'" by (auto simp: closes_def)
    from uniquely_readD [OF IH [OF *(1)] _ _ some some this *(3)] *(1,2) pl v'
    show "norm x = norm y \<and> r = r'" by auto
  qed simp
  then show "norm (JArray vs) = norm v' \<and> rest = rest'"
    using list_all2_map_eq [of norm vs us] by (simp add: v')
qed

lemma unique_object:
  assumes IH: "\<And>m. m \<in> set ms \<Longrightarrow> uniquely_read C (snd m)"
  shows "uniquely_read C (JObject ms)"
  unfolding uniquely_read_def
proof (intro allI impI)
  fix v' s s' rest rest'
  assume pl: "plain (JObject ms)" "plain v'" and w: "write_jcs C (JObject ms) = Some s"
    "write_jcs C v' = Some s'" and eq: "s @ rest = s' @ rest'"
  from w(1) have "hd s = CHR ''{''" "s \<noteq> []" by (auto simp: write_object_def)
  with write_tag [OF w(2) pl(2)] eq have "tag v' (CHR ''{'')" by (metis hd_append2)
  then obtain ns where v': "v' = JObject ns" using tag_inv(7) by blast
  let ?f = "\<lambda>m. write_member (written_member C m)"
  have srt: "sort_members (map (written_member C) l) = map (written_member C) (sort_members l)" for l
    by (rule sort_members_map) (simp add: written_member_def)
  from w v' have s: "s = CHR ''{'' # comma_sep (map ?f (sort_members ms)) @ [CHR ''}'']"
      "s' = CHR ''{'' # comma_sep (map ?f (sort_members ns)) @ [CHR ''}'']"
    using write_members_map [of C ms] write_members_map [of C ns]
    by (auto simp: write_object_def srt comp_def)
  have some: "write_jcs C (snd m) = Some (the (write_jcs C (snd m)))" if "m \<in> set ms \<union> set ns" for m
  proof -
    have "write_jcs C (snd m) \<noteq> None"
      using that w v' write_members_map [of C ms] write_members_map [of C ns] by auto
    then show ?thesis by simp
  qed
  let ?n = "\<lambda>m. (fst m, norm (snd m))"
  have "list_all2 (\<lambda>m n. ?n m = ?n n) (sort_members ms) (sort_members ns) \<and> rest = rest'"
  proof (rule sequence_unique [where f = ?f and e = "CHR ''}''"])
    show "comma_sep (map ?f (sort_members ms)) @ CHR ''}'' # rest
        = comma_sep (map ?f (sort_members ns)) @ CHR ''}'' # rest'"
      using eq by (simp add: s)
    show "?f x \<noteq> [] \<and> hd (?f x) \<noteq> CHR ''}''" for x
      by (simp add: write_member_def written_member_def write_string_def)
    fix x y r r'
    assume *: "x \<in> set (sort_members ms)" "y \<in> set (sort_members ns)" "?f x @ r = ?f y @ r'"
      "hd r \<in> {CHR '','', CHR ''}''}" "hd r' \<in> {CHR '','', CHR ''}''}"
    then have cl: "closes r" "closes r'" by (auto simp: closes_def)
    have "write_string (fst x) @ (CHR '':'' # the (write_jcs C (snd x)) @ r)
        = write_string (fst y) @ (CHR '':'' # the (write_jcs C (snd y)) @ r')"
      using *(3) by (simp add: write_member_def written_member_def)
    from write_string_inj [OF this] have fst: "fst x = fst y"
      and rest: "the (write_jcs C (snd x)) @ r = the (write_jcs C (snd y)) @ r'" by simp_all
    have "norm (snd x) = norm (snd y) \<and> r = r'"
      using uniquely_readD [OF IH _ _ some some cl rest] *(1,2) pl v' by auto
    with fst show "?n x = ?n y \<and> r = r'" by simp
  qed simp
  moreover have "sort_members (map ?n l) = map ?n (sort_members l)" for l
    by (rule sort_members_map) simp
  ultimately show "norm (JObject ms) = norm v' \<and> rest = rest'"
    using list_all2_map_eq [of ?n "sort_members ms" "sort_members ns"] by (simp add: v')
qed

lemma posint_digits:
  assumes "write_jcs C (JNumber (PosInt u)) = Some s"
  shows "s = dec_digits (uint u)"
  using assms by (simp split: if_splits)

lemma negint_digits:
  assumes "write_jcs C (JNumber (NegInt i)) = Some s" "sint i < 0"
  shows "s = CHR ''-'' # dec_digits (- sint i)"
  using assms by (simp add: dec_int_def split: if_splits)

lemma number_uniquely_read: "uniquely_read C (JNumber n)"
  unfolding uniquely_read_def
proof (intro allI impI)
  fix v' s s' rest rest'
  assume pl: "plain (JNumber n)" "plain v'" and w: "write_jcs C (JNumber n) = Some s"
    "write_jcs C v' = Some s'" and cl: "closes rest" "closes rest'" and eq: "s @ rest = s' @ rest'"
  have hd: "hd s = hd s'"
    using write_tag [OF w(1) pl(1)] write_tag [OF w(2) pl(2)] eq by (metis hd_append2)
  note nd = closes_not_dec [OF cl(1)] closes_not_dec [OF cl(2)]
  show "norm (JNumber n) = norm v' \<and> rest = rest'"
  proof (cases n)
    case (PosInt u)
    with write_tag [OF w(1) pl(1)] have "is_dec (hd s')" by (simp add: hd)
    with write_tag [OF w(2) pl(2)] obtain u' where v': "v' = JNumber (PosInt u')"
      using tag_inv(8) by blast
    have "uint u = uint u' \<and> rest = rest'"
      using eq posint_digits [of C u s] posint_digits [of C u' s'] w PosInt v'
      by (intro dec_digits_inj nd) auto
    then show ?thesis using unsigned_word_eqI by (simp add: PosInt v') blast
  next
    case (NegInt i)
    with write_tag [OF w(1) pl(1)] have "hd s' = CHR ''-''" by (simp add: hd)
    with write_tag [OF w(2) pl(2)] obtain i' where v': "v' = JNumber (NegInt i')"
      using tag_inv(4) by metis
    have "- sint i = - sint i' \<and> rest = rest'"
      using eq negint_digits [of C i s] negint_digits [of C i' s'] w NegInt v' pl
      by (intro dec_digits_inj nd) auto
    then have "sint i = sint i'" by simp
    then have "i = i'" by (rule signed_word_eqI)
    with \<open>- sint i = - sint i' \<and> rest = rest'\<close> show ?thesis by (simp add: NegInt v')
  next
    case (Float f)
    with pl show ?thesis by simp
  qed
qed

lemma uniquely_readI:
  assumes "write_jcs C v = Some t"
    "\<And>v' s' rest rest'. plain v' \<Longrightarrow> write_jcs C v' = Some s' \<Longrightarrow> t @ rest = s' @ rest' \<Longrightarrow>
       norm v = norm v' \<and> rest = rest'"
  shows "uniquely_read C v"
  unfolding uniquely_read_def
proof (intro allI impI)
  fix v' s s' rest rest'
  assume "plain v'" "write_jcs C v = Some s" "write_jcs C v' = Some s'" "s @ rest = s' @ rest'"
  with assms(1) show "norm v = norm v' \<and> rest = rest'" by (intro assms(2)) auto
qed

lemma all_uniquely_read: "uniquely_read C v"
proof (induction v)
  case JNull
  have "norm JNull = norm v' \<and> rest = rest'"
    if "plain v'" "write_jcs C v' = Some s'" "''null'' @ rest = s' @ rest'" for v' s' rest rest'
  proof -
    have "hd s' = CHR ''n''" using write_tag [OF that(2,1)] that(3) by (cases s') auto
    then have "tag v' (CHR ''n'')" using write_tag [OF that(2,1)] by (simp only: simp_thms)
    then have "v' = JNull" by (rule tag_inv)
    with that show ?thesis by simp
  qed
  then show ?case by (rule uniquely_readI [OF write_jcs.simps(1)])
next
  case (JBool b)
  have "norm (JBool b) = norm v' \<and> rest = rest'"
    if "plain v'" "write_jcs C v' = Some s'"
      "(if b then ''true'' else ''false'') @ rest = s' @ rest'" for v' s' rest rest'
  proof -
    have "hd s' = (if b then CHR ''t'' else CHR ''f'')"
      using write_tag [OF that(2,1)] that(3) by (cases s') (auto split: if_splits)
    then have "tag v' (if b then CHR ''t'' else CHR ''f'')"
      using write_tag [OF that(2,1)] by (simp only: simp_thms)
    then have "v' = JBool b" using tag_inv(2,3) [of v'] by (cases b) (simp_all only: if_True if_False)
    with that show ?thesis by (auto split: if_splits)
  qed
  then show ?case by (rule uniquely_readI [OF write_jcs.simps(2)])
next
  case (JString t)
  have "norm (JString t) = norm v' \<and> rest = rest'"
    if "plain v'" "write_jcs C v' = Some s'" "write_string t @ rest = s' @ rest'" for v' s' rest rest'
  proof -
    have "hd s' = CHR 0x22"
      using write_tag [OF that(2,1)] that(3) by (cases s') (auto simp: write_string_def)
    with write_tag [OF that(2,1)] obtain t' where "v' = JString t'"
      using tag_inv(5) by metis
    with that write_string_inj [of t rest t' rest'] show ?thesis by simp
  qed
  then show ?case by (rule uniquely_readI [OF write_jcs.simps(4)])
next
  case (JNumber n)
  show ?case by (rule number_uniquely_read)
next
  case (JArray vs)
  then show ?case by (intro unique_array)
next
  case (JObject ms)
  then show ?case by (intro unique_object) (auto simp: snds.simps)
qed

lemma write_jcs_inj:
  assumes "plain v" "plain v'" "write_jcs C v = Some s" "write_jcs C v' = Some s"
  shows "norm v = norm v'"
  using uniquely_readD(1) [OF all_uniquely_read assms(1,2,3,4), of "[]" "[]"] by (simp add: closes_def)

end
