(* ===== verification/Record_Laws.thy ===== *)
theory Record_Laws
  imports Records Canonical_Laws
begin

text \<open>
  What the canonical forms of a record pin down.  The id form determines every field of the record
  but the id itself, the signing form every field but the id and the signature: two records with
  the same canonical bytes agree there.
\<close>

section \<open>Members of normalized objects\<close>

lemma norm_object_fields:
  assumes "norm (JObject ms) = norm (JObject ns)" "distinct (map fst ms)" "distinct (map fst ns)"
  shows "map_option norm (map_of ms k) = map_option norm (map_of ns k)"
proof -
  let ?n = "\<lambda>m. (fst m, norm (snd m))"
  have keys: "map fst (map ?n l) = map fst l" for l :: "(string \<times> json) list" by simp
  have "set (sort_members (map ?n ms)) = set (sort_members (map ?n ns))"
    using assms(1) by simp
  then have "map_of (map ?n ms) = map_of (map ?n ns)"
    by (subst map_of_inject_set) (simp_all only: keys assms set_sort_members)
  moreover have "map_of (map ?n l) k = map_option norm (map_of l k)" for l
    using map_of_map [of norm l] by (simp add: case_prod_beta' comp_def)
  ultimately show ?thesis by metis
qed

section \<open>Serialized parts\<close>

lemma norm_ser_bytes [simp]: "norm (ser_bytes bs) = ser_bytes bs"
  by (simp add: ser_bytes_def ser_u64_def)

lemma plain_ser_bytes [simp]: "plain (ser_bytes bs)"
  by (simp add: ser_bytes_def ser_u64_def)

lemma uint_ucast_byte: "uint (ucast (b :: u8) :: u64) = uint b"
  by (rule uint_up_ucast) (simp add: is_up)

lemma writable_ser_bytes [simp]: "writable (ser_bytes bs)"
proof -
  have "uint (ucast b :: u64) \<le> MAX_SAFE_INTEGER" for b :: u8
    using unsigned_less [of b, where 'a = int] by (simp add: uint_ucast_byte MAX_SAFE_INTEGER_def)
  then show ?thesis by (simp add: ser_bytes_def ser_u64_def)
qed

lemma ser_bytes_inj [simp]: "ser_bytes a = ser_bytes b \<longleftrightarrow> a = b"
proof
  assume "ser_bytes a = ser_bytes b"
  moreover have "inj (\<lambda>b :: u8. JNumber (PosInt (ucast b)))"
    by (rule injI) (metis json.inject(2) number.inject(1) uint_ucast_byte unsigned_word_eqI)
  ultimately show "a = b" by (simp add: ser_bytes_def ser_u64_def inj_map_eq_map)
qed simp

lemma kind_json_simps [simp]:
  "kind_json k = kind_json k' \<longleftrightarrow> k = k'" "norm (kind_json k) = kind_json k"
  "plain (kind_json k)" "writable (kind_json k)"
  by (cases k; cases k'; simp) (cases k; simp)+

lemma ref_type_json_simps [simp]:
  "ref_type_json t = ref_type_json t' \<longleftrightarrow> t = t'" "norm (ref_type_json t) = ref_type_json t"
  "plain (ref_type_json t)" "writable (ref_type_json t)"
  by (cases t; cases t'; simp) (cases t; simp)+

lemma author_type_json_simps [simp]:
  "author_type_json a = author_type_json a' \<longleftrightarrow> a = a'"
  "norm (author_type_json a) = author_type_json a"
  "plain (author_type_json a)" "writable (author_type_json a)"
  by (cases a; cases a'; simp) (cases a; simp)+

lemma evidence_json_simps [simp]:
  "evidence_json e = evidence_json e' \<longleftrightarrow> e = e'" "norm (evidence_json e) = evidence_json e"
  "plain (evidence_json e)" "writable (evidence_json e)"
  by (cases e; cases e'; simp) (cases e; simp)+

section \<open>References, signatures and authors\<close>

lemma ref_json_inj: "norm (ref_json r) = norm (ref_json r') \<Longrightarrow> r = r'"
  using norm_object_fields [of "[(''type'', ref_type_json (ref_type r)), (''target'', ser_bytes (ref_target r))]"
      "[(''type'', ref_type_json (ref_type r')), (''target'', ser_bytes (ref_target r'))]" "''type''"]
    norm_object_fields [of "[(''type'', ref_type_json (ref_type r)), (''target'', ser_bytes (ref_target r))]"
      "[(''type'', ref_type_json (ref_type r')), (''target'', ser_bytes (ref_target r'))]" "''target''"]
  by (simp add: ref_json_def)

lemma refs_json_inj: "norm (ser_vec ref_json rs) = norm (ser_vec ref_json rs') \<Longrightarrow> rs = rs'"
  using inj_map_eq_map [of "\<lambda>r. norm (ref_json r)" rs rs']
  by (simp add: ser_vec_def comp_def inj_def ref_json_inj)

lemma signature_json_inj:
  assumes "norm (signature_json s) = norm (signature_json s')"
  shows "s = s'"
proof -
  let ?ms = "\<lambda>s. [(''key_id'', JString (sig_key_id s)), (''sig'', ser_bytes (sig_sig s))]"
  have "map_option norm (map_of (?ms s) k) = map_option norm (map_of (?ms s') k)" for k
    using assms by (intro norm_object_fields) (simp_all add: signature_json_def)
  from this [of "''key_id''"] this [of "''sig''"] show ?thesis by simp
qed

lemma canonical_author_json_inj:
  assumes "norm (canonical_author_json a) = norm (canonical_author_json b)"
  shows "au_id a = au_id b" "au_type a = au_type b"
proof -
  let ?ms = "\<lambda>a. [(''id'', JString (au_id a)), (''type'', author_type_json (au_type a))]"
  have "map_option norm (map_of (?ms a) k) = map_option norm (map_of (?ms b) k)" for k
    using assms by (intro norm_object_fields) (simp_all add: canonical_author_json_def)
  from this [of "''id''"] this [of "''type''"]
  show "au_id a = au_id b" "au_type a = au_type b" by simp_all
qed

lemma canonical_id_author_json_inj:
  assumes "norm (canonical_id_author_json a) = norm (canonical_id_author_json b)"
  shows "a = b"
proof -
  let ?ms = "\<lambda>a. [(''id'', JString (au_id a)), (''type'', author_type_json (au_type a))]
              @ (case au_signature a of None \<Rightarrow> [] | Some s \<Rightarrow> [(''signature'', signature_json s)])"
  have *: "map_option norm (map_of (?ms a) k) = map_option norm (map_of (?ms b) k)" for k
    using assms
    by (intro norm_object_fields) (simp_all add: canonical_id_author_json_def split: option.splits)
  from * [of "''id''"] * [of "''type''"]
  have "au_id a = au_id b" "au_type a = au_type b" by (simp_all split: option.splits)
  moreover from * [of "''signature''"] have "au_signature a = au_signature b"
    by (auto split: option.splits dest: signature_json_inj)
  ultimately show ?thesis by simp
qed

lemma plain_ref_json [simp]: "plain (ref_json r)" "writable (ref_json r)"
  by (simp_all add: ref_json_def)

lemma plain_author_json [simp]:
  "plain (canonical_id_author_json a)" "plain (canonical_author_json a)"
  "writable (canonical_id_author_json a)" "writable (canonical_author_json a)"
  by (auto simp: canonical_id_author_json_def canonical_author_json_def signature_json_def
      split: option.splits)

section \<open>Envelopes\<close>

lemma plain_envelope:
  "plain author \<Longrightarrow> plain (JObject (envelope_members author r))"
  by (simp add: envelope_members_def ser_vec_def ser_u64_def)

lemma writable_envelope:
  "writable author \<Longrightarrow> uint (rec_time r) \<le> MAX_SAFE_INTEGER
    \<Longrightarrow> writable (JObject (envelope_members author r))"
  by (simp add: envelope_members_def ser_vec_def ser_u64_def)

lemma envelope_fields:
  assumes "norm (JObject (envelope_members a r)) = norm (JObject (envelope_members b r'))"
  shows "map_option norm (map_of (envelope_members a r) k)
       = map_option norm (map_of (envelope_members b r') k)"
  using assms by (rule norm_object_fields) (simp_all add: envelope_members_def)

lemma envelope_inj:
  assumes "norm (JObject (envelope_members a r)) = norm (JObject (envelope_members b r'))"
  shows "norm a = norm b"
    "r' = r\<lparr>rec_id := rec_id r', rec_author := rec_author r'\<rparr>"
proof -
  note f = envelope_fields [OF assms]
  from f [of "''author''"] show "norm a = norm b" by (simp add: envelope_members_def)
  have "rec_space r' = rec_space r" using f [of "''space''"] by (simp add: envelope_members_def)
  moreover have "rec_thread r' = rec_thread r" using f [of "''thread''"] by (simp add: envelope_members_def)
  moreover have "rec_time r' = rec_time r" using f [of "''time''"] by (simp add: envelope_members_def ser_u64_def)
  moreover have "rec_kind r' = rec_kind r" using f [of "''kind''"] by (simp add: envelope_members_def)
  moreover have "rec_schema r' = rec_schema r" using f [of "''schema''"] by (simp add: envelope_members_def)
  moreover have "rec_data r' = rec_data r" using f [of "''data''"] by (simp add: envelope_members_def)
  moreover have "rec_refs r' = rec_refs r"
    using f [of "''refs''"] refs_json_inj [of "rec_refs r'" "rec_refs r"] by (simp add: envelope_members_def)
  moreover have "rec_evidence r' = rec_evidence r"
    using f [of "''evidence''"] by (simp add: envelope_members_def)
  ultimately show "r' = r\<lparr>rec_id := rec_id r', rec_author := rec_author r'\<rparr>" by simp
qed

lemma as_bytes_inj [simp]: "as_bytes s = as_bytes t \<longleftrightarrow> s = t"
proof -
  have "c = d" if "of_char c = (of_char d :: u8)" for c d
  proof -
    have byte: "unat (of_char c :: u8) = (of_char c :: nat)" for c
    proof -
      have "unat (of_nat (of_char c) :: u8) = of_char c"
        unfolding unat_of_nat by (rule mod_less) (use nat_of_char_less_256 [of c] in simp)
      then show ?thesis by (simp only: of_nat_of_char)
    qed
    from that have "(of_char c :: nat) = of_char d" unfolding byte [symmetric] by (rule arg_cong)
    then show ?thesis by (simp only: of_char_eq_iff)
  qed
  then have "inj (of_char :: char \<Rightarrow> u8)" by (rule injI)
  then show ?thesis by (simp add: as_bytes_def inj_map_eq_map)
qed

lemma canonical_json_inj:
  assumes "plain v" "plain v'" "canonical_json C v = Some bs" "canonical_json C v' = Some bs"
  shows "norm v = norm v'"
proof -
  from assms obtain s s' where "write_jcs C v = Some s" "write_jcs C v' = Some s'"
      and eq: "as_bytes s = bs" "as_bytes s' = bs"
    unfolding canonical_json_def by blast
  moreover from eq have "s' = s" using as_bytes_inj [of s' s] by simp
  ultimately show ?thesis using write_jcs_inj [OF assms(1,2)] by simp
qed

lemma canonical_json_total: "writable v \<Longrightarrow> \<exists>bs. canonical_json C v = Some bs"
  using writable_write [of v C] by (auto simp: canonical_json_def)

section \<open>What an id and a signature cover\<close>

lemma canonical_id_form_inj:
  assumes "canonical_id_form C r = Some bs" "canonical_id_form C r' = Some bs"
  shows "r' = r\<lparr>rec_id := rec_id r'\<rparr>"
proof -
  have "norm (canonical_id_form_json r) = norm (canonical_id_form_json r')"
    by (rule canonical_json_inj [OF _ _ assms [unfolded canonical_id_form_def]])
      (simp_all only: canonical_id_form_json_def plain_envelope plain_author_json)
  note env = envelope_inj [OF this [unfolded canonical_id_form_json_def]]
  from canonical_id_author_json_inj [OF env(1)] env(2) show ?thesis by (cases r; cases r') simp
qed

lemma signing_bytes_inj:
  assumes "signing_bytes C r = Some bs" "signing_bytes C r' = Some bs"
  shows "r' = r\<lparr>rec_id := rec_id r',
                rec_author := (rec_author r)\<lparr>au_signature := au_signature (rec_author r')\<rparr>\<rparr>"
proof -
  let ?env = "\<lambda>r. JObject (envelope_members (canonical_author_json (rec_author r)) r)"
  have pl: "plain (signing_form_json r)" for r
    using plain_envelope [of "canonical_author_json (rec_author r)" r] by (simp add: signing_form_json_def)
  have "norm (signing_form_json r) = norm (signing_form_json r')"
    by (rule canonical_json_inj [OF pl pl assms [unfolded signing_bytes_def]])
  from norm_object_fields [OF this [unfolded signing_form_json_def], of "''record''"]
  have "norm (?env r) = norm (?env r')" by (simp del: norm.simps)
  note env = envelope_inj [OF this]
  from canonical_author_json_inj [OF env(1)] env(2) show ?thesis
    by (cases r; cases r'; cases "rec_author r"; cases "rec_author r'") simp
qed

lemma canonical_id_form_total:
  "uint (rec_time r) \<le> MAX_SAFE_INTEGER \<Longrightarrow> \<exists>bs. canonical_id_form C r = Some bs"
  unfolding canonical_id_form_def
  by (rule canonical_json_total) (simp only: canonical_id_form_json_def writable_envelope plain_author_json)

lemma compute_id_inj:
  assumes "compute_id C r = Some (rec_id r)" "compute_id C r' = Some (rec_id r')" "rec_id r = rec_id r'"
    "inj_on (sha256 C) {bs. canonical_id_form C r = Some bs \<or> canonical_id_form C r' = Some bs}"
  shows "r = r'"
proof -
  from assms(1,2) obtain bs bs' where f: "canonical_id_form C r = Some bs" "canonical_id_form C r' = Some bs'"
    and h: "sha256 C bs = rec_id r" "sha256 C bs' = rec_id r'"
    by (auto simp: compute_id_def)
  have "bs' = bs"
    by (rule inj_onD [OF assms(4)]) (simp_all only: f h assms(3) mem_Collect_eq simp_thms)
  with canonical_id_form_inj [OF f(1)] f(2) have "r' = r\<lparr>rec_id := rec_id r'\<rparr>" by simp
  then show ?thesis using assms(3) by (cases r; cases r') simp
qed

definition id_forms :: "'z crates_scheme \<Rightarrow> Record list \<Rightarrow> bytes set" where
  "id_forms C rs = {bs. \<exists>r \<in> set rs. canonical_id_form C r = Some bs}"

lemma ids_determine_records:
  assumes "\<And>r. r \<in> set rs \<union> set rs' \<Longrightarrow> compute_id C r = Some (rec_id r)"
    "map rec_id rs = map rec_id rs'" "inj_on (sha256 C) (id_forms C (rs @ rs'))"
  shows "rs = rs'"
proof (rule nth_equalityI)
  show len: "length rs = length rs'" using arg_cong [OF assms(2), of length] by simp
  fix i assume i: "i < length rs"
  then have mem: "rs ! i \<in> set rs" "rs' ! i \<in> set rs'" using len by simp_all
  have "rec_id (rs ! i) = rec_id (rs' ! i)"
    using arg_cong [OF assms(2), of "\<lambda>l. l ! i"] i len by simp
  moreover have "inj_on (sha256 C) {bs. canonical_id_form C (rs ! i) = Some bs
      \<or> canonical_id_form C (rs' ! i) = Some bs}"
    using mem by (intro inj_on_subset [OF assms(3)]) (auto simp: id_forms_def)
  moreover have "compute_id C (rs ! i) = Some (rec_id (rs ! i))" "compute_id C (rs' ! i) = Some (rec_id (rs' ! i))"
    using mem assms(1) by blast+
  ultimately show "rs ! i = rs' ! i" by (intro compute_id_inj)
qed

lemma sort_and_dedup_refs_unique:
  assumes "sorted_wrt (<) (map ref_key xs)" "set xs = set refs"
  shows "xs = sort_and_dedup_refs refs"
proof -
  have "set (map ref_key xs) = set (map ref_key (sort_and_dedup_refs refs))"
    by (simp add: assms(2))
  then have "map ref_key xs = map ref_key (sort_and_dedup_refs refs)"
    using assms(1) sort_and_dedup_refs_strict [of refs]
    by (intro strict_sorted_equal) (simp_all add: strict_sorted_iff [symmetric])
  then show ?thesis by (rule map_injective) (simp add: inj_def ref_key_inj)
qed

end
