(* ===== verification/Payloads.thy ===== *)
theory Payloads
  imports Records
begin

text \<open>
  The payload types of \<open>src/src/record/payloads.rs\<close>, their serialized form, the checks their
  \<open>TryFrom\<close> implementations make while decoding, and the artifact, evaluation and approval
  helpers of that file.

  Parsing JSON is the business of \<open>serde_json\<close>: the record \<open>env\<close> extends the linked crates with
  one parser per payload type (\<open>serde_json::from_slice\<close> at that type).  For the types with a
  \<open>TryFrom\<close> conversion the parser gives the raw struct, and the conversion, which serde runs on
  it, is modelled: \<open>decode_evaluation\<close>, \<open>decode_evaluation_v2\<close> and \<open>decode_selection\<close>.
\<close>

section \<open>Structs and enums\<close>

record Attachment =
  att_path :: string
  att_content :: string

record RequestData =
  req_objective :: string
  req_scope :: hash256
  req_attachments :: "Attachment list"
  req_parent_request_id :: "RecordId option"

record ActionData =
  act_request_id :: RecordId
  act_action_class :: string
  act_scope :: hash256
  act_exec_mode :: ExecMode
  act_params :: json

record ResponseData =
  rsp_request_id :: RecordId
  rsp_content :: string
  rsp_turn_index :: u32
  rsp_closes_request :: bool

record ArtifactRef =
  ar_scheme :: string
  ar_digest :: string
  ar_name :: "string option"

record ResultData =
  rst_action_id :: RecordId
  rst_status :: ResultStatus
  rst_output :: string
  rst_artifacts :: "ArtifactRef list option"

datatype Provenance = UserAuthored | Derived

record RequirementData =
  rqm_key :: string
  rqm_description :: string
  rqm_required :: bool
  rqm_expected_evidence :: "string option"
  rqm_provenance :: Provenance

record CapabilityData =
  cap_actor_id :: string
  cap_action_class :: string
  cap_scope :: hash256
  cap_mode :: CapabilityMode
  cap_expiry :: "u64 option"

record ApprovalData =
  apr_target_action :: "hash256 option"
  apr_action_class :: "string option"
  apr_scope :: hash256
  apr_actor_id :: "string option"
  apr_expiry :: "u64 option"

record SummaryData =
  sum_summary_type :: SummaryType
  sum_subject :: hash256
  sum_scope :: hash256
  sum_claim_payload :: bytes

record RefusalData =
  rfs_target_id :: RecordId
  rfs_target_kind :: RefusalTarget
  rfs_reason_code :: "ReasonCode option"

record RetractionData =
  rtr_target_id :: RecordId
  rtr_reason :: string

record UsageData =
  usg_actor :: string
  usg_used_record :: RecordId
  usg_consuming_record :: RecordId
  usg_role :: string
  usg_outcome :: UsageOutcome

record VerdictData =
  vd_result :: VerdictResult
  vd_reason :: "ReasonCode option"

record UsageOutcomeCounts =
  uc_done :: u64
  uc_not_done :: u64
  uc_no_change :: u64

datatype PlanStatus = PlanRunning | PlanCompleted | PlanAbandoned

datatype TaskStatus = TaskPending | TaskRunning | TaskDone | TaskFailed | TaskSkipped

datatype FailurePolicy = FailContinue | FailAskUser | FailAbort

datatype PlanTaskKind =
  TkGeneric | TkInspect | TkSearch | TkExtract | TkVerify | TkWrite | TkSummarize

datatype TaskDoneWhen = DwToolSuccess | DwNonEmptyResult | DwContentRetrieved | DwFinalResponse

record PlanTask =
  tsk_id :: string
  tsk_description :: string
  tsk_kind :: PlanTaskKind
  tsk_tool_hint :: "string option"
  tsk_inputs_from :: "string list"
  tsk_produces :: "string option"
  tsk_done_when :: TaskDoneWhen
  tsk_status :: TaskStatus
  tsk_result_record_id :: "RecordId option"
  tsk_depends_on :: "string list"
  tsk_on_failure :: FailurePolicy

record PlanData =
  pln_request_id :: RecordId
  pln_tasks :: "PlanTask list"
  pln_status :: PlanStatus

datatype SourceAlgo = Sha1 | Sha256

datatype BindingMode = BindReported | BindManifest

record GitSource =
  git_algo :: SourceAlgo
  git_tree :: string
  git_commit :: "string option"

record SourceBinding =
  sb_git :: GitSource
  sb_manifest_hash :: "hash256 option"
  sb_binding :: BindingMode

datatype CandidateBasis = Root | Continuation | Derivation

record CandidateData =
  cnd_source :: SourceBinding
  cnd_basis :: CandidateBasis
  cnd_parent :: "RecordId option"
  cnd_note :: "string option"
  cnd_artifacts :: "ArtifactRef list option"

record ScoredValue =
  sv_value :: u64
  sv_scale :: u8

datatype EvaluationOutcome = EvPassed | EvFailed | EvScored ScoredValue

record EvaluationData =
  evl_candidate :: RecordId
  evl_criterion :: string
  evl_procedure :: "string option"
  evl_outcome :: EvaluationOutcome

datatype Basis = Recomputed | Declared

record DeciderBinding =
  db_id :: string
  db_version :: "string option"
  db_procedure_hash :: "hash256 option"
  db_input_hash :: "hash256 option"

datatype EvaluationOutcomeV2 =
    Ev2Passed | Ev2Failed | Ev2Scored ScoredValue
  | Ev2Blocked | Ev2Insufficient | Ev2Stale | Ev2NotRun

record EvaluationDataV2 =
  ev2_candidate :: RecordId
  ev2_criterion :: string
  ev2_procedure :: "string option"
  ev2_outcome :: EvaluationOutcomeV2
  ev2_evaluator :: DeciderBinding
  ev2_basis :: Basis
  ev2_evidence :: "ArtifactRef list"
  ev2_requirements :: "RecordId list"

datatype SelectionOutcome = Selected "RecordId list" | NoneSelected

record SelectionData =
  sel_objective :: string
  sel_considered :: "RecordId list"
  sel_outcome :: SelectionOutcome
  sel_rationale :: "string option"

section \<open>Parsers and payload decoding\<close>

record env = crates +
  de_request :: "bytes \<Rightarrow> RequestData option"
  de_action :: "bytes \<Rightarrow> ActionData option"
  de_response :: "bytes \<Rightarrow> ResponseData option"
  de_result :: "bytes \<Rightarrow> ResultData option"
  de_requirement :: "bytes \<Rightarrow> RequirementData option"
  de_capability :: "bytes \<Rightarrow> CapabilityData option"
  de_approval :: "bytes \<Rightarrow> ApprovalData option"
  de_summary :: "bytes \<Rightarrow> SummaryData option"
  de_refusal :: "bytes \<Rightarrow> RefusalData option"
  de_retraction :: "bytes \<Rightarrow> RetractionData option"
  de_usage :: "bytes \<Rightarrow> UsageData option"
  de_verdict :: "bytes \<Rightarrow> VerdictData option"
  de_plan :: "bytes \<Rightarrow> PlanData option"
  de_candidate :: "bytes \<Rightarrow> CandidateData option"
  de_evaluation_raw :: "bytes \<Rightarrow> EvaluationData option"
  de_evaluation_v2_raw :: "bytes \<Rightarrow> EvaluationDataV2 option"
  de_selection_raw :: "bytes \<Rightarrow> SelectionData option"

definition MAX_SAFE_INTEGER_I64 :: int where
  "MAX_SAFE_INTEGER_I64 = 9007199254740991"

definition MAX_SCORE_SCALE :: u8 where
  "MAX_SCORE_SCALE = 12"

definition scored_value_try_from :: "ScoredValue \<Rightarrow> ScoredValue option" where
  "scored_value_try_from raw =
     (if \<not> (- MAX_SAFE_INTEGER_I64 \<le> sint (sv_value raw) \<and> sint (sv_value raw) \<le> MAX_SAFE_INTEGER_I64)
      then None
      else if sv_scale raw > MAX_SCORE_SCALE then None
      else Some raw)"

fun evaluation_outcome_try_from :: "EvaluationOutcome \<Rightarrow> EvaluationOutcome option" where
  "evaluation_outcome_try_from (EvScored s) = map_option EvScored (scored_value_try_from s)"
| "evaluation_outcome_try_from out = Some out"

fun evaluation_outcome_v2_try_from :: "EvaluationOutcomeV2 \<Rightarrow> EvaluationOutcomeV2 option" where
  "evaluation_outcome_v2_try_from (Ev2Scored s) = map_option Ev2Scored (scored_value_try_from s)"
| "evaluation_outcome_v2_try_from out = Some out"

definition evaluation_try_from :: "EvaluationData \<Rightarrow> EvaluationData option" where
  "evaluation_try_from raw =
     (case evaluation_outcome_try_from (evl_outcome raw) of None \<Rightarrow> None
      | Some out \<Rightarrow> if evl_criterion raw = [] then None else Some (raw\<lparr>evl_outcome := out\<rparr>))"

definition evaluation_v2_try_from :: "EvaluationDataV2 \<Rightarrow> EvaluationDataV2 option" where
  "evaluation_v2_try_from raw =
     (case evaluation_outcome_v2_try_from (ev2_outcome raw) of None \<Rightarrow> None
      | Some out \<Rightarrow> if ev2_criterion raw = [] then None else Some (raw\<lparr>ev2_outcome := out\<rparr>))"

definition selection_try_from :: "SelectionData \<Rightarrow> SelectionData option" where
  "selection_try_from raw = (if sel_objective raw = [] then None else Some raw)"

definition decode_evaluation :: "'z env_scheme \<Rightarrow> bytes \<Rightarrow> EvaluationData option" where
  "decode_evaluation E data = Option.bind (de_evaluation_raw E data) evaluation_try_from"

definition decode_evaluation_v2 :: "'z env_scheme \<Rightarrow> bytes \<Rightarrow> EvaluationDataV2 option" where
  "decode_evaluation_v2 E data = Option.bind (de_evaluation_v2_raw E data) evaluation_v2_try_from"

definition decode_selection :: "'z env_scheme \<Rightarrow> bytes \<Rightarrow> SelectionData option" where
  "decode_selection E data = Option.bind (de_selection_raw E data) selection_try_from"

section \<open>Serialized enums\<close>

fun exec_mode_json :: "ExecMode \<Rightarrow> json" where
  "exec_mode_json Internal = JString ''Internal''"
| "exec_mode_json External = JString ''External''"

fun result_status_json :: "ResultStatus \<Rightarrow> json" where
  "result_status_json Success = JString ''Success''"
| "result_status_json Failure = JString ''Failure''"

fun capability_mode_json :: "CapabilityMode \<Rightarrow> json" where
  "capability_mode_json Auto = JString ''Auto''"
| "capability_mode_json Ask = JString ''Ask''"
| "capability_mode_json Deny = JString ''Deny''"

fun summary_type_json :: "SummaryType \<Rightarrow> json" where
  "summary_type_json Procedure = JString ''Procedure''"
| "summary_type_json Pattern = JString ''Pattern''"
| "summary_type_json Lesson = JString ''Lesson''"
| "summary_type_json StateSnapshot = JString ''StateSnapshot''"

fun usage_outcome_json :: "UsageOutcome \<Rightarrow> json" where
  "usage_outcome_json UDone = JString ''Done''"
| "usage_outcome_json UNotDone = JString ''NotDone''"
| "usage_outcome_json UNoChange = JString ''NoChange''"

fun refusal_target_json :: "RefusalTarget \<Rightarrow> json" where
  "refusal_target_json RefAction = JString ''Action''"
| "refusal_target_json RefRequest = JString ''Request''"
| "refusal_target_json RefVerifiedEffect = JString ''VerifiedEffect''"

fun verdict_result_json :: "VerdictResult \<Rightarrow> json" where
  "verdict_result_json Accept = JString ''Accept''"
| "verdict_result_json Reject = JString ''Reject''"

fun reason_code_json :: "ReasonCode \<Rightarrow> json" where
  "reason_code_json UnknownSchema = JString ''UnknownSchema''"
| "reason_code_json KindSchemaMismatch = JString ''KindSchemaMismatch''"
| "reason_code_json SignatureMissing = JString ''SignatureMissing''"
| "reason_code_json SignatureInvalid = JString ''SignatureInvalid''"
| "reason_code_json RefUnresolved = JString ''RefUnresolved''"
| "reason_code_json RefCrossSpace = JString ''RefCrossSpace''"
| "reason_code_json RequestMissing = JString ''RequestMissing''"
| "reason_code_json CapabilityMissing = JString ''CapabilityMissing''"
| "reason_code_json CapabilityDenied = JString ''CapabilityDenied''"
| "reason_code_json ApprovalMissing = JString ''ApprovalMissing''"
| "reason_code_json ApprovalExpired = JString ''ApprovalExpired''"
| "reason_code_json ActionClosed = JString ''ActionClosed''"
| "reason_code_json ReplacementInvalid = JString ''ReplacementInvalid''"
| "reason_code_json ExternalReceiptRequired = JString ''ExternalReceiptRequired''"
| "reason_code_json EvidenceBelowThreshold = JString ''EvidenceBelowThreshold''"
| "reason_code_json Refused = JString ''Refused''"
| "reason_code_json InvalidPayload = JString ''InvalidPayload''"
| "reason_code_json InvalidCheckpoint = JString ''InvalidCheckpoint''"
| "reason_code_json AuthorRoleInvalid = JString ''AuthorRoleInvalid''"
| "reason_code_json AuthorityRefMissing = JString ''AuthorityRefMissing''"
| "reason_code_json SourceBindingInvalid = JString ''SourceBindingInvalid''"
| "reason_code_json LineageInvalid = JString ''LineageInvalid''"
| "reason_code_json PayloadRefUnresolved = JString ''PayloadRefUnresolved''"
| "reason_code_json EvaluationInvalid = JString ''EvaluationInvalid''"
| "reason_code_json SelectionInvalid = JString ''SelectionInvalid''"
| "reason_code_json ReaffirmationInvalid = JString ''ReaffirmationInvalid''"
| "reason_code_json ArtifactRefInvalid = JString ''ArtifactRefInvalid''"
| "reason_code_json RequirementInvalid = JString ''RequirementInvalid''"

fun provenance_json :: "Provenance \<Rightarrow> json" where
  "provenance_json UserAuthored = JString ''user_authored''"
| "provenance_json Derived = JString ''derived''"

fun plan_status_json :: "PlanStatus \<Rightarrow> json" where
  "plan_status_json PlanRunning = JString ''running''"
| "plan_status_json PlanCompleted = JString ''completed''"
| "plan_status_json PlanAbandoned = JString ''abandoned''"

fun task_status_json :: "TaskStatus \<Rightarrow> json" where
  "task_status_json TaskPending = JString ''pending''"
| "task_status_json TaskRunning = JString ''running''"
| "task_status_json TaskDone = JString ''done''"
| "task_status_json TaskFailed = JString ''failed''"
| "task_status_json TaskSkipped = JString ''skipped''"

fun failure_policy_json :: "FailurePolicy \<Rightarrow> json" where
  "failure_policy_json FailContinue = JString ''continue''"
| "failure_policy_json FailAskUser = JString ''ask_user''"
| "failure_policy_json FailAbort = JString ''abort''"

fun plan_task_kind_json :: "PlanTaskKind \<Rightarrow> json" where
  "plan_task_kind_json TkGeneric = JString ''generic''"
| "plan_task_kind_json TkInspect = JString ''inspect''"
| "plan_task_kind_json TkSearch = JString ''search''"
| "plan_task_kind_json TkExtract = JString ''extract''"
| "plan_task_kind_json TkVerify = JString ''verify''"
| "plan_task_kind_json TkWrite = JString ''write''"
| "plan_task_kind_json TkSummarize = JString ''summarize''"

fun task_done_when_json :: "TaskDoneWhen \<Rightarrow> json" where
  "task_done_when_json DwToolSuccess = JString ''tool_success''"
| "task_done_when_json DwNonEmptyResult = JString ''non_empty_result''"
| "task_done_when_json DwContentRetrieved = JString ''content_retrieved''"
| "task_done_when_json DwFinalResponse = JString ''final_response''"

fun source_algo_json :: "SourceAlgo \<Rightarrow> json" where
  "source_algo_json Sha1 = JString ''sha1''"
| "source_algo_json Sha256 = JString ''sha256''"

fun binding_mode_json :: "BindingMode \<Rightarrow> json" where
  "binding_mode_json BindReported = JString ''reported''"
| "binding_mode_json BindManifest = JString ''manifest''"

fun candidate_basis_json :: "CandidateBasis \<Rightarrow> json" where
  "candidate_basis_json Root = JString ''root''"
| "candidate_basis_json Continuation = JString ''continuation''"
| "candidate_basis_json Derivation = JString ''derivation''"

fun basis_json :: "Basis \<Rightarrow> json" where
  "basis_json Recomputed = JString ''recomputed''"
| "basis_json Declared = JString ''declared''"

end
