(* ===== verification/Payload_Forms.thy ===== *)
theory Payload_Forms
  imports Payloads
begin

text \<open>
  The serialized form of every payload struct (field names, \<open>rename\<close>, \<open>skip_serializing_if\<close>
  and enum tagging as the serde attributes of \<open>payloads.rs\<close> give them), with the functions of
  that file that rest on them: artifact well-formedness, the evaluation summary and the subject
  hash of a selection approval.
\<close>

section \<open>Serialized structs\<close>

definition ser_u8 :: "u8 \<Rightarrow> json" where
  "ser_u8 n = ser_u64 (ucast n)"

definition ser_u32 :: "u32 \<Rightarrow> json" where
  "ser_u32 n = ser_u64 (ucast n)"

definition ser_i64 :: "u64 \<Rightarrow> json" where
  "ser_i64 v = JNumber (if sint v < 0 then NegInt v else PosInt v)"

definition attachment_json :: "Attachment \<Rightarrow> json" where
  "attachment_json a =
     JObject [(''path'', JString (att_path a)), (''content'', JString (att_content a))]"

definition request_json :: "RequestData \<Rightarrow> json" where
  "request_json d =
     JObject [(''objective'', JString (req_objective d)), (''scope'', ser_bytes (req_scope d)),
              (''attachments'', ser_vec attachment_json (req_attachments d)),
              (''parent_request_id'', ser_option ser_bytes (req_parent_request_id d))]"

definition action_json :: "ActionData \<Rightarrow> json" where
  "action_json d =
     JObject [(''request_id'', ser_bytes (act_request_id d)),
              (''action_class'', JString (act_action_class d)),
              (''scope'', ser_bytes (act_scope d)),
              (''exec_mode'', exec_mode_json (act_exec_mode d)),
              (''params'', act_params d)]"

definition response_json :: "ResponseData \<Rightarrow> json" where
  "response_json d =
     JObject [(''request_id'', ser_bytes (rsp_request_id d)),
              (''content'', JString (rsp_content d)),
              (''turn_index'', ser_u32 (rsp_turn_index d)),
              (''closes_request'', JBool (rsp_closes_request d))]"

definition artifact_ref_json :: "ArtifactRef \<Rightarrow> json" where
  "artifact_ref_json a =
     JObject [(''scheme'', JString (ar_scheme a)), (''digest'', JString (ar_digest a)),
              (''name'', ser_option JString (ar_name a))]"

fun artifacts_member :: "ArtifactRef list option \<Rightarrow> (string \<times> json) list" where
  "artifacts_member None = []"
| "artifacts_member (Some as) = [(''artifacts'', ser_vec artifact_ref_json as)]"

definition result_json :: "ResultData \<Rightarrow> json" where
  "result_json d =
     JObject ([(''action_id'', ser_bytes (rst_action_id d)),
               (''status'', result_status_json (rst_status d)),
               (''output'', JString (rst_output d))] @ artifacts_member (rst_artifacts d))"

definition requirement_json :: "RequirementData \<Rightarrow> json" where
  "requirement_json d =
     JObject [(''key'', JString (rqm_key d)), (''description'', JString (rqm_description d)),
              (''required'', JBool (rqm_required d)),
              (''expected_evidence'', ser_option JString (rqm_expected_evidence d)),
              (''provenance'', provenance_json (rqm_provenance d))]"

definition capability_json :: "CapabilityData \<Rightarrow> json" where
  "capability_json d =
     JObject [(''actor_id'', JString (cap_actor_id d)),
              (''action_class'', JString (cap_action_class d)),
              (''scope'', ser_bytes (cap_scope d)),
              (''mode'', capability_mode_json (cap_mode d)),
              (''expiry'', ser_option ser_u64 (cap_expiry d))]"

definition approval_json :: "ApprovalData \<Rightarrow> json" where
  "approval_json d =
     JObject [(''target_action'', ser_option ser_bytes (apr_target_action d)),
              (''action_class'', ser_option JString (apr_action_class d)),
              (''scope'', ser_bytes (apr_scope d)),
              (''actor_id'', ser_option JString (apr_actor_id d)),
              (''expiry'', ser_option ser_u64 (apr_expiry d))]"

definition summary_json :: "SummaryData \<Rightarrow> json" where
  "summary_json d =
     JObject [(''summary_type'', summary_type_json (sum_summary_type d)),
              (''subject'', ser_bytes (sum_subject d)),
              (''scope'', ser_bytes (sum_scope d)),
              (''claim_payload'', ser_bytes (sum_claim_payload d))]"

definition refusal_json :: "RefusalData \<Rightarrow> json" where
  "refusal_json d =
     JObject [(''target_id'', ser_bytes (rfs_target_id d)),
              (''target_kind'', refusal_target_json (rfs_target_kind d)),
              (''reason_code'', ser_option reason_code_json (rfs_reason_code d))]"

definition retraction_json :: "RetractionData \<Rightarrow> json" where
  "retraction_json d =
     JObject [(''target_id'', ser_bytes (rtr_target_id d)), (''reason'', JString (rtr_reason d))]"

definition usage_json :: "UsageData \<Rightarrow> json" where
  "usage_json d =
     JObject [(''actor'', JString (usg_actor d)),
              (''used_record'', ser_bytes (usg_used_record d)),
              (''consuming_record'', ser_bytes (usg_consuming_record d)),
              (''role'', JString (usg_role d)),
              (''outcome'', usage_outcome_json (usg_outcome d))]"

definition verdict_json :: "VerdictData \<Rightarrow> json" where
  "verdict_json d =
     JObject [(''result'', verdict_result_json (vd_result d)),
              (''reason'', ser_option reason_code_json (vd_reason d))]"

definition usage_counts_json :: "UsageOutcomeCounts \<Rightarrow> json" where
  "usage_counts_json c =
     JObject [(''done'', ser_u64 (uc_done c)), (''not_done'', ser_u64 (uc_not_done c)),
              (''no_change'', ser_u64 (uc_no_change c))]"

definition plan_task_json :: "PlanTask \<Rightarrow> json" where
  "plan_task_json t =
     JObject [(''id'', JString (tsk_id t)), (''description'', JString (tsk_description t)),
              (''kind'', plan_task_kind_json (tsk_kind t)),
              (''tool_hint'', ser_option JString (tsk_tool_hint t)),
              (''inputs_from'', ser_vec JString (tsk_inputs_from t)),
              (''produces'', ser_option JString (tsk_produces t)),
              (''done_when'', task_done_when_json (tsk_done_when t)),
              (''status'', task_status_json (tsk_status t)),
              (''result_record_id'', ser_option ser_bytes (tsk_result_record_id t)),
              (''depends_on'', ser_vec JString (tsk_depends_on t)),
              (''on_failure'', failure_policy_json (tsk_on_failure t))]"

definition plan_json :: "PlanData \<Rightarrow> json" where
  "plan_json d =
     JObject [(''request_id'', ser_bytes (pln_request_id d)),
              (''tasks'', ser_vec plan_task_json (pln_tasks d)),
              (''status'', plan_status_json (pln_status d))]"

definition git_source_json :: "GitSource \<Rightarrow> json" where
  "git_source_json g =
     JObject [(''algo'', source_algo_json (git_algo g)), (''tree'', JString (git_tree g)),
              (''commit'', ser_option JString (git_commit g))]"

definition source_binding_json :: "SourceBinding \<Rightarrow> json" where
  "source_binding_json s =
     JObject [(''git'', git_source_json (sb_git s)),
              (''manifest_hash'', ser_option ser_bytes (sb_manifest_hash s)),
              (''binding'', binding_mode_json (sb_binding s))]"

definition candidate_json :: "CandidateData \<Rightarrow> json" where
  "candidate_json d =
     JObject ([(''source'', source_binding_json (cnd_source d)),
               (''basis'', candidate_basis_json (cnd_basis d)),
               (''parent'', ser_option ser_bytes (cnd_parent d)),
               (''note'', ser_option JString (cnd_note d))] @ artifacts_member (cnd_artifacts d))"

definition scored_value_json :: "ScoredValue \<Rightarrow> json" where
  "scored_value_json s =
     JObject [(''value'', ser_i64 (sv_value s)), (''scale'', ser_u8 (sv_scale s))]"

fun evaluation_outcome_json :: "EvaluationOutcome \<Rightarrow> json" where
  "evaluation_outcome_json EvPassed = JString ''passed''"
| "evaluation_outcome_json EvFailed = JString ''failed''"
| "evaluation_outcome_json (EvScored s) = JObject [(''scored'', scored_value_json s)]"

definition evaluation_json :: "EvaluationData \<Rightarrow> json" where
  "evaluation_json d =
     JObject [(''candidate'', ser_bytes (evl_candidate d)),
              (''criterion'', JString (evl_criterion d)),
              (''procedure'', ser_option JString (evl_procedure d)),
              (''outcome'', evaluation_outcome_json (evl_outcome d))]"

definition decider_binding_json :: "DeciderBinding \<Rightarrow> json" where
  "decider_binding_json b =
     JObject [(''id'', JString (db_id b)), (''version'', ser_option JString (db_version b)),
              (''procedure_hash'', ser_option ser_bytes (db_procedure_hash b)),
              (''input_hash'', ser_option ser_bytes (db_input_hash b))]"

fun evaluation_outcome_v2_json :: "EvaluationOutcomeV2 \<Rightarrow> json" where
  "evaluation_outcome_v2_json Ev2Passed = JString ''passed''"
| "evaluation_outcome_v2_json Ev2Failed = JString ''failed''"
| "evaluation_outcome_v2_json (Ev2Scored s) = JObject [(''scored'', scored_value_json s)]"
| "evaluation_outcome_v2_json Ev2Blocked = JString ''blocked''"
| "evaluation_outcome_v2_json Ev2Insufficient = JString ''insufficient''"
| "evaluation_outcome_v2_json Ev2Stale = JString ''stale''"
| "evaluation_outcome_v2_json Ev2NotRun = JString ''not_run''"

definition evaluation_v2_json :: "EvaluationDataV2 \<Rightarrow> json" where
  "evaluation_v2_json d =
     JObject [(''candidate'', ser_bytes (ev2_candidate d)),
              (''criterion'', JString (ev2_criterion d)),
              (''procedure'', ser_option JString (ev2_procedure d)),
              (''outcome'', evaluation_outcome_v2_json (ev2_outcome d)),
              (''evaluator'', decider_binding_json (ev2_evaluator d)),
              (''basis'', basis_json (ev2_basis d)),
              (''evidence'', ser_vec artifact_ref_json (ev2_evidence d)),
              (''requirements'', ser_vec ser_bytes (ev2_requirements d))]"

fun selection_outcome_json :: "SelectionOutcome \<Rightarrow> json" where
  "selection_outcome_json (Selected cs) =
     JObject [(''selected'', JObject [(''candidates'', ser_vec ser_bytes cs)])]"
| "selection_outcome_json NoneSelected = JString ''none''"

definition selection_json :: "SelectionData \<Rightarrow> json" where
  "selection_json d =
     JObject [(''objective'', JString (sel_objective d)),
              (''considered'', ser_vec ser_bytes (sel_considered d)),
              (''outcome'', selection_outcome_json (sel_outcome d)),
              (''rationale'', ser_option JString (sel_rationale d))]"

section \<open>Artifact identities\<close>

definition ARTIFACT_SCHEMES :: "(string \<times> nat) list" where
  "ARTIFACT_SCHEMES =
     [(''git-tree-sha1'', 20), (''git-tree-sha256'', 32), (''manifest-v1'', 32),
      (''git-archive-tar-v1'', 32), (''oci-image-manifest'', 32), (''sha256-bytes'', 32)]"

definition ARTIFACT_DIGEST_MIN_BYTES :: nat where "ARTIFACT_DIGEST_MIN_BYTES = 20"
definition ARTIFACT_DIGEST_MAX_BYTES :: nat where "ARTIFACT_DIGEST_MAX_BYTES = 64"

definition is_lower_alnum :: "char \<Rightarrow> bool" where
  "is_lower_alnum c \<longleftrightarrow>
     CHR ''a'' \<le> c \<and> c \<le> CHR ''z'' \<or> CHR ''0'' \<le> c \<and> c \<le> CHR ''9''"

definition is_lower_hex_char :: "char \<Rightarrow> bool" where
  "is_lower_hex_char c \<longleftrightarrow>
     CHR ''0'' \<le> c \<and> c \<le> CHR ''9'' \<or> CHR ''a'' \<le> c \<and> c \<le> CHR ''f''"

fun scheme_token :: "string \<Rightarrow> bool" where
  "scheme_token [] = False"
| "scheme_token (c # cs) \<longleftrightarrow>
     is_lower_alnum c
     \<and> list_all (\<lambda>d. is_lower_alnum d \<or> d = CHR ''.'' \<or> d = CHR ''-'') cs"

definition artifact_ref_well_formed :: "ArtifactRef \<Rightarrow> bool" where
  "artifact_ref_well_formed a =
     (if \<not> scheme_token (ar_scheme a) then False
      else if length (ar_digest a) mod 2 \<noteq> 0 \<or> \<not> list_all is_lower_hex_char (ar_digest a) then False
      else let digest_bytes = length (ar_digest a) div 2
           in (case map_of ARTIFACT_SCHEMES (ar_scheme a) of
                 Some n \<Rightarrow> digest_bytes = n
               | None \<Rightarrow> ARTIFACT_DIGEST_MIN_BYTES \<le> digest_bytes
                         \<and> digest_bytes \<le> ARTIFACT_DIGEST_MAX_BYTES))"

definition artifact_key :: "ArtifactRef \<Rightarrow> string \<times> string \<times> string option" where
  "artifact_key a = (ar_scheme a, ar_digest a, ar_name a)"

definition artifact_refs_well_formed :: "ArtifactRef list \<Rightarrow> bool" where
  "artifact_refs_well_formed as \<longleftrightarrow>
     list_all artifact_ref_well_formed as \<and> windows_less (map artifact_key as)"

section \<open>Evaluation summaries and selection approvals\<close>

definition scored_label :: "ScoredValue \<Rightarrow> string" where
  "scored_label s =
     ''scored '' @ dec_int (sint (sv_value s)) @ ''e-'' @ dec_digits (uint (sv_scale s))"

fun evaluation_label :: "EvaluationOutcome \<Rightarrow> string" where
  "evaluation_label EvPassed = ''passed''"
| "evaluation_label EvFailed = ''failed''"
| "evaluation_label (EvScored s) = scored_label s"

fun evaluation_v2_label :: "EvaluationOutcomeV2 \<Rightarrow> string" where
  "evaluation_v2_label Ev2Passed = ''passed''"
| "evaluation_v2_label Ev2Failed = ''failed''"
| "evaluation_v2_label (Ev2Scored s) = scored_label s"
| "evaluation_v2_label Ev2Blocked = ''blocked''"
| "evaluation_v2_label Ev2Insufficient = ''insufficient''"
| "evaluation_v2_label Ev2Stale = ''stale''"
| "evaluation_v2_label Ev2NotRun = ''not_run''"

definition evaluation_summary ::
  "'z env_scheme \<Rightarrow> hash256 \<Rightarrow> bytes \<Rightarrow> (RecordId \<times> string \<times> string) option" where
  "evaluation_summary E schema data =
     (if schema = schema_id E SCHEMA_EVALUATION then
        map_option (\<lambda>d. (evl_candidate d, evl_criterion d, evaluation_label (evl_outcome d)))
          (decode_evaluation E data)
      else if schema = schema_id E SCHEMA_EVALUATION_V2
           \<or> schema = schema_id E SCHEMA_EVALUATION_ATTESTED then
        map_option (\<lambda>d. (ev2_candidate d, ev2_criterion d, evaluation_v2_label (ev2_outcome d)))
          (decode_evaluation_v2 E data)
      else None)"

definition selection_approval_subject_hash ::
  "'z crates_scheme \<Rightarrow> string \<Rightarrow> RecordId option \<Rightarrow> SelectionData \<Rightarrow> hash256 option" where
  "selection_approval_subject_hash C author replace_target d =
     sha256_canonical C (JArray [JString SELECTION_APPROVAL_DOMAIN, JString author,
                                 ser_option ser_bytes replace_target, selection_json d])"

text \<open>The hash an exact action approval targets: \<open>sha256_canonical(&(author_id, ActionData))\<close>.\<close>

definition action_approval_hash :: "'z crates_scheme \<Rightarrow> string \<Rightarrow> ActionData \<Rightarrow> hash256 option" where
  "action_approval_hash C author d =
     sha256_canonical C (JArray [JString author, action_json d])"

definition summary_key_hash :: "'z crates_scheme \<Rightarrow> SummaryData \<Rightarrow> hash256 option" where
  "summary_key_hash C d =
     sha256_canonical C (JArray [summary_type_json (sum_summary_type d),
                                 ser_bytes (sum_subject d), ser_bytes (sum_scope d)])"

section \<open>Lemmas\<close>

lemma scored_value_bounds:
  assumes "scored_value_try_from raw = Some s"
  shows "\<bar>sint (sv_value s)\<bar> \<le> 9007199254740991" "unat (sv_scale s) \<le> 12"
proof -
  have "s = raw" and b: "- 9007199254740991 \<le> sint (sv_value raw)"
      "sint (sv_value raw) \<le> 9007199254740991" and sc: "\<not> sv_scale raw > 12"
    using assms by (auto simp: scored_value_try_from_def MAX_SAFE_INTEGER_I64_def
        MAX_SCORE_SCALE_def split: if_splits)
  then show "\<bar>sint (sv_value s)\<bar> \<le> 9007199254740991" by auto
  from sc have "sv_scale raw \<le> 12" by simp
  then have "unat (sv_scale raw) \<le> unat (12 :: u8)" by (simp add: word_le_nat_alt)
  then show "unat (sv_scale s) \<le> 12" using \<open>s = raw\<close> by simp
qed

lemma decode_selection_objective:
  "decode_selection E data = Some d \<Longrightarrow> sel_objective d \<noteq> []"
  by (auto simp: decode_selection_def selection_try_from_def bind_eq_Some_conv split: if_splits)

lemma decode_evaluation_criterion:
  "decode_evaluation E data = Some d \<Longrightarrow> evl_criterion d \<noteq> []"
  by (auto simp: decode_evaluation_def evaluation_try_from_def bind_eq_Some_conv
      split: if_splits option.splits)

end
