(* ===== verification/Rules.thy ===== *)
theory Rules
  imports Payload_Forms
begin

text \<open>
  The verifier's configuration, \<open>src/src/verify/rules.rs\<close>: the \<open>VerifierRules\<close> struct with its
  serialized form (hashed to bind checkpoints to rules), the default rules, the builder methods
  and the frozen schema map.
\<close>

record VerifierRules =
  vr_space :: hash256
  vr_kind_schema_map :: "(hash256, Kind) mapping"
  vr_signature_required_kinds :: "Kind set"
  vr_author_keys :: "(string, hash256 set) mapping"
  vr_author_roles :: "(string, AuthorType) mapping"
  vr_admin_retraction_actors :: "string set"
  vr_allowed_summary_types :: "SummaryType set"
  vr_evidence_thresholds :: "(Kind, Evidence) mapping"
  vr_max_context_records :: u32
  vr_min_binding :: BindingMode
  vr_selection_requires_evaluation :: bool
  vr_reaffirmation_actors :: "string set"
  vr_max_considered :: u32
  vr_selection_requires_approval :: bool
  vr_reject_compromised_continuation :: bool

section \<open>Defaults\<close>

definition frozen_kind_schema_map :: "'z crates_scheme \<Rightarrow> (hash256, Kind) mapping" where
  "frozen_kind_schema_map C =
     fold (\<lambda>(n, k). Mapping.update (schema_id C n) k)
       [(SCHEMA_REQUEST, KRequest), (SCHEMA_ACTION, KAction), (SCHEMA_RESPONSE, KResponse),
        (SCHEMA_RESULT, KResult), (SCHEMA_RESULT_EXTERNAL, KResult),
        (SCHEMA_RESULT_EFFECT_CONFIRMATION, KResult), (SCHEMA_CAPABILITY, KCapability),
        (SCHEMA_APPROVAL, KApproval), (SCHEMA_SUMMARY, KSummary), (SCHEMA_REFUSAL, KRefusal),
        (SCHEMA_USAGE, KUsage), (SCHEMA_VERDICT, KVerdict), (SCHEMA_PLAN, KPlan),
        (SCHEMA_RETRACTION, KRetraction), (SCHEMA_CANDIDATE, KCandidate),
        (SCHEMA_EVALUATION, KEvaluation), (SCHEMA_SELECTION, KSelection),
        (SCHEMA_REQUIREMENT, KRequirement), (SCHEMA_EVALUATION_V2, KEvaluation),
        (SCHEMA_EVALUATION_ATTESTED, KEvaluation)]
       Mapping.empty"

definition all_summary_types :: "SummaryType set" where
  "all_summary_types = {Procedure, Pattern, Lesson, StateSnapshot}"

definition default_min_binding :: BindingMode where "default_min_binding = BindReported"
definition default_max_considered :: u32 where "default_max_considered = 4096"

definition new_rules :: "'z crates_scheme \<Rightarrow> hash256 \<Rightarrow> u32 \<Rightarrow> VerifierRules" where
  "new_rules C space max_context_records =
     \<lparr>vr_space = space,
      vr_kind_schema_map = frozen_kind_schema_map C,
      vr_signature_required_kinds = {},
      vr_author_keys = Mapping.empty,
      vr_author_roles = Mapping.empty,
      vr_admin_retraction_actors = {},
      vr_allowed_summary_types = all_summary_types,
      vr_evidence_thresholds = Mapping.empty,
      vr_max_context_records = max_context_records,
      vr_min_binding = default_min_binding,
      vr_selection_requires_evaluation = True,
      vr_reaffirmation_actors = {},
      vr_max_considered = default_max_considered,
      vr_selection_requires_approval = False,
      vr_reject_compromised_continuation = False\<rparr>"

section \<open>Builder methods\<close>

definition with_author_role :: "string \<Rightarrow> AuthorType \<Rightarrow> VerifierRules \<Rightarrow> VerifierRules" where
  "with_author_role actor role R = R\<lparr>vr_author_roles := Mapping.update actor role (vr_author_roles R)\<rparr>"

definition with_admin_retraction_actor :: "string \<Rightarrow> VerifierRules \<Rightarrow> VerifierRules" where
  "with_admin_retraction_actor actor R =
     R\<lparr>vr_admin_retraction_actors := insert actor (vr_admin_retraction_actors R)\<rparr>"

definition with_evidence_threshold :: "Kind \<Rightarrow> Evidence \<Rightarrow> VerifierRules \<Rightarrow> VerifierRules" where
  "with_evidence_threshold k e R =
     R\<lparr>vr_evidence_thresholds := Mapping.update k e (vr_evidence_thresholds R)\<rparr>"

definition with_baseline_thresholds :: "VerifierRules \<Rightarrow> VerifierRules" where
  "with_baseline_thresholds R =
     with_evidence_threshold KSelection Inferred
       (with_evidence_threshold KEvaluation Reported
         (with_evidence_threshold KCandidate Reported R))"

definition with_reaffirmation_actor :: "string \<Rightarrow> VerifierRules \<Rightarrow> VerifierRules" where
  "with_reaffirmation_actor actor R =
     R\<lparr>vr_reaffirmation_actors := insert actor (vr_reaffirmation_actors R)\<rparr>"

section \<open>Serialized rules\<close>

fun json_string :: "json \<Rightarrow> string" where
  "json_string (JString s) = s"
| "json_string _ = []"

definition kind_name :: "Kind \<Rightarrow> string" where
  "kind_name k = json_string (kind_json k)"

definition rules_json :: "VerifierRules \<Rightarrow> json" where
  "rules_json R =
     JObject [(''space'', ser_bytes (vr_space R)),
              (''kind_schema_map'', map_as_pairs ser_bytes kind_json (vr_kind_schema_map R)),
              (''signature_required_kinds'', ser_set kind_json (vr_signature_required_kinds R)),
              (''author_keys'', ser_map (\<lambda>a. a) (ser_set ser_bytes) (vr_author_keys R)),
              (''author_roles'', ser_map (\<lambda>a. a) author_type_json (vr_author_roles R)),
              (''admin_retraction_actors'', ser_set JString (vr_admin_retraction_actors R)),
              (''allowed_summary_types'', ser_set summary_type_json (vr_allowed_summary_types R)),
              (''evidence_thresholds'', ser_map kind_name evidence_json (vr_evidence_thresholds R)),
              (''max_context_records'', ser_u32 (vr_max_context_records R)),
              (''min_binding'', binding_mode_json (vr_min_binding R)),
              (''selection_requires_evaluation'', JBool (vr_selection_requires_evaluation R)),
              (''reaffirmation_actors'', ser_set JString (vr_reaffirmation_actors R)),
              (''max_considered'', ser_u32 (vr_max_considered R)),
              (''selection_requires_approval'', JBool (vr_selection_requires_approval R)),
              (''reject_compromised_continuation'',
                JBool (vr_reject_compromised_continuation R))]"

definition rules_hash :: "'z crates_scheme \<Rightarrow> VerifierRules \<Rightarrow> hash256 option" where
  "rules_hash C R = sha256_canonical C (rules_json R)"

section \<open>Lemmas\<close>

lemma lookup_frozen_map:
  assumes "inj_on (schema_id C) (set ALL_SCHEMAS)" "n \<in> set ALL_SCHEMAS"
  shows "Mapping.lookup (frozen_kind_schema_map C) (schema_id C n) \<noteq> None"
  using assms(2) unfolding frozen_kind_schema_map_def ALL_SCHEMAS_def
  by simp (elim disjE; simp)

end
