(* ===== verification/Ledger_State.thy ===== *)
theory Ledger_State
  imports Rules
begin

text \<open>
  The effective state of \<open>src/src/state/state.rs\<close>: the struct \<open>State\<close> with its serialized form
  and \<open>State::ref_evidence\<close>.  Ordered sets are sets and ordered maps are mappings.
\<close>

type_synonym cap_key = "string \<times> string \<times> hash256"
type_synonym class_key = "string \<times> hash256 \<times> string option"

record State =
  st_accepted_records :: "RecordId set"
  st_active_requests :: "RecordId set"
  st_active_capabilities :: "(cap_key, RecordId) mapping"
  st_valid_approvals :: "(hash256, RecordId) mapping"
  st_class_approvals :: "(class_key, RecordId) mapping"
  st_open_actions :: "RecordId set"
  st_action_to_request :: "(RecordId, RecordId) mapping"
  st_active_summaries :: "(hash256, RecordId) mapping"
  st_replaced_records :: "RecordId set"
  st_request_open_action_count :: "(RecordId, u64) mapping"
  st_usage_counts :: "(RecordId \<times> string, UsageOutcomeCounts) mapping"
  st_active_plans :: "(RecordId, RecordId) mapping"
  st_response_turns :: "(RecordId, u32) mapping"
  st_capability_index :: "(RecordId, cap_key) mapping"
  st_exact_approval_index :: "(RecordId, hash256) mapping"
  st_class_approval_index :: "(RecordId, class_key) mapping"
  st_retracted_records :: "RecordId set"
  st_tainted_records :: "RecordId set"
  st_epistemic_dependents :: "(RecordId, RecordId set) mapping"
  st_requirement_keys :: "(RecordId, string set) mapping"
  st_requirement_index :: "(RecordId, RecordId \<times> string) mapping"
  st_applied_up_to :: u64

definition default_state :: State where
  "default_state =
     \<lparr>st_accepted_records = {}, st_active_requests = {},
      st_active_capabilities = Mapping.empty, st_valid_approvals = Mapping.empty,
      st_class_approvals = Mapping.empty, st_open_actions = {},
      st_action_to_request = Mapping.empty, st_active_summaries = Mapping.empty,
      st_replaced_records = {}, st_request_open_action_count = Mapping.empty,
      st_usage_counts = Mapping.empty, st_active_plans = Mapping.empty,
      st_response_turns = Mapping.empty, st_capability_index = Mapping.empty,
      st_exact_approval_index = Mapping.empty, st_class_approval_index = Mapping.empty,
      st_retracted_records = {}, st_tainted_records = {},
      st_epistemic_dependents = Mapping.empty, st_requirement_keys = Mapping.empty,
      st_requirement_index = Mapping.empty, st_applied_up_to = 0\<rparr>"

section \<open>Evidence a reference contributes\<close>

definition reliable :: "State \<Rightarrow> RecordId \<Rightarrow> bool" where
  "reliable s i \<longleftrightarrow>
     i \<in> st_accepted_records s \<and> i \<notin> st_retracted_records s \<and> i \<notin> st_tainted_records s"

fun is_epistemic :: "RefType \<Rightarrow> bool" where
  "is_epistemic RUse = True"
| "is_epistemic RRequire = True"
| "is_epistemic RCause = False"
| "is_epistemic RReplace = False"

definition ref_evidence :: "State \<Rightarrow> Ref \<Rightarrow> Record \<Rightarrow> Evidence option" where
  "ref_evidence s r target =
     (case ref_type r of
        RUse \<Rightarrow> Some (if \<not> reliable s (rec_id target) then Assumed else rec_evidence target)
      | RRequire \<Rightarrow> Some (if \<not> reliable s (rec_id target) then Assumed else rec_evidence target)
      | RCause \<Rightarrow> None
      | RReplace \<Rightarrow> None)"

lemma ref_evidence_epistemic:
  "ref_evidence s r t =
     (if is_epistemic (ref_type r)
      then Some (if reliable s (rec_id t) then rec_evidence t else Assumed) else None)"
  by (simp add: ref_evidence_def split: RefType.splits)

section \<open>Serialized state\<close>

definition cap_key_json :: "cap_key \<Rightarrow> json" where
  "cap_key_json = (\<lambda>(a, c, s). JArray [JString a, JString c, ser_bytes s])"

definition class_key_json :: "class_key \<Rightarrow> json" where
  "class_key_json = (\<lambda>(c, s, a). JArray [JString c, ser_bytes s, ser_option JString a])"

definition state_json :: "State \<Rightarrow> json" where
  "state_json s =
     JObject [(''accepted_records'', ser_set ser_bytes (st_accepted_records s)),
              (''active_requests'', ser_set ser_bytes (st_active_requests s)),
              (''active_capabilities'',
                map_as_pairs cap_key_json ser_bytes (st_active_capabilities s)),
              (''valid_approvals'', map_as_pairs ser_bytes ser_bytes (st_valid_approvals s)),
              (''class_approvals'', map_as_pairs class_key_json ser_bytes (st_class_approvals s)),
              (''open_actions'', ser_set ser_bytes (st_open_actions s)),
              (''action_to_request'', map_as_pairs ser_bytes ser_bytes (st_action_to_request s)),
              (''active_summaries'', map_as_pairs ser_bytes ser_bytes (st_active_summaries s)),
              (''replaced_records'', ser_set ser_bytes (st_replaced_records s)),
              (''request_open_action_count'',
                map_as_pairs ser_bytes ser_u64 (st_request_open_action_count s)),
              (''usage_counts'',
                map_as_pairs (\<lambda>(i, role). JArray [ser_bytes i, JString role]) usage_counts_json
                  (st_usage_counts s)),
              (''active_plans'', map_as_pairs ser_bytes ser_bytes (st_active_plans s)),
              (''response_turns'', map_as_pairs ser_bytes ser_u32 (st_response_turns s)),
              (''capability_index'', map_as_pairs ser_bytes cap_key_json (st_capability_index s)),
              (''exact_approval_index'',
                map_as_pairs ser_bytes ser_bytes (st_exact_approval_index s)),
              (''class_approval_index'',
                map_as_pairs ser_bytes class_key_json (st_class_approval_index s)),
              (''retracted_records'', ser_set ser_bytes (st_retracted_records s)),
              (''tainted_records'', ser_set ser_bytes (st_tainted_records s)),
              (''epistemic_dependents'',
                map_as_pairs ser_bytes (ser_set ser_bytes) (st_epistemic_dependents s)),
              (''requirement_keys'',
                map_as_pairs ser_bytes (ser_set JString) (st_requirement_keys s)),
              (''requirement_index'',
                map_as_pairs ser_bytes (\<lambda>(i, k). JArray [ser_bytes i, JString k])
                  (st_requirement_index s)),
              (''applied_up_to'', ser_u64 (st_applied_up_to s))]"

definition state_hash :: "'z crates_scheme \<Rightarrow> State \<Rightarrow> hash256 option" where
  "state_hash C s = sha256_canonical C (state_json s)"

end
