(* ===== verification/Incremental.thy ===== *)
theory Incremental
  imports Ledger_State
begin

text \<open>
  The incremental fold of \<open>src/src/state/incremental.rs\<close>: what an accepted record does to the
  state, one definition per arm of the \<open>match\<close> on its kind, and the taint cascade.  A failing
  payload decode or canonical serialization is \<open>None\<close> (\<open>Err(serde_json::Error)\<close>).

  The \<open>while let Some(current) = stack.pop()\<close> loop of \<open>mark_tainted\<close> runs with the fuel
  \<open>mark_fuel\<close>, one step per entry that can ever be pushed; the lemmas of the section on the
  cascade show that this is enough for every finite dependence index, so the fuel is never what
  stops the loop.
\<close>

section \<open>The taint cascade\<close>

definition dependents :: "(RecordId, RecordId set) mapping \<Rightarrow> RecordId \<Rightarrow> RecordId set" where
  "dependents dep i = Mapping.lookup_default {} dep i"

fun mark_tainted_loop ::
  "nat \<Rightarrow> (RecordId, RecordId set) mapping \<Rightarrow> RecordId set \<Rightarrow> RecordId list \<Rightarrow> RecordId set" where
  "mark_tainted_loop 0 dep T stack = T"
| "mark_tainted_loop (Suc n) dep T [] = T"
| "mark_tainted_loop (Suc n) dep T (current # stack) =
     (if current \<in> T then mark_tainted_loop n dep T stack
      else mark_tainted_loop n dep (insert current T)
             (rev (sorted_list_of_set (dependents dep current)) @ stack))"

definition mark_fuel :: "(RecordId, RecordId set) mapping \<Rightarrow> nat" where
  "mark_fuel dep = Suc (\<Sum>k \<leftarrow> Mapping.ordered_keys dep. card (dependents dep k))"

definition mark_tainted :: "State \<Rightarrow> RecordId \<Rightarrow> State" where
  "mark_tainted s i =
     s\<lparr>st_tainted_records :=
         mark_tainted_loop (mark_fuel (st_epistemic_dependents s)) (st_epistemic_dependents s)
           (st_tainted_records s) [i]\<rparr>"

section \<open>Epistemic references of the accepted record\<close>

definition add_dependent :: "RecordId \<Rightarrow> Ref \<Rightarrow> State \<Rightarrow> State" where
  "add_dependent i r s =
     (if is_epistemic (ref_type r)
      then s\<lparr>st_epistemic_dependents :=
               Mapping.update (ref_target r)
                 (insert i (dependents (st_epistemic_dependents s) (ref_target r)))
                 (st_epistemic_dependents s)\<rparr>
      else s)"

definition inherits_taint :: "State \<Rightarrow> Ref list \<Rightarrow> bool" where
  "inherits_taint s refs \<longleftrightarrow>
     list_ex (\<lambda>r. is_epistemic (ref_type r)
                \<and> (ref_target r \<in> st_retracted_records s \<or> ref_target r \<in> st_tainted_records s)) refs"

definition register_accepted :: "State \<Rightarrow> Record \<Rightarrow> State" where
  "register_accepted s r =
     (let s1 = s\<lparr>st_accepted_records := insert (rec_id r) (st_accepted_records s)\<rparr>;
          s2 = fold (add_dependent (rec_id r)) (rec_refs r) s1
      in if inherits_taint s1 (rec_refs r) then mark_tainted s2 (rec_id r) else s2)"

section \<open>The arms of the fold\<close>

definition find_replace_ref :: "Ref list \<Rightarrow> RecordId option" where
  "find_replace_ref refs = map_option ref_target (List.find (\<lambda>r. ref_type r = RReplace) refs)"

definition find_cause_ref :: "Ref list \<Rightarrow> RecordId option" where
  "find_cause_ref refs = map_option ref_target (List.find (\<lambda>r. ref_type r = RCause) refs)"

definition requires :: "Ref list \<Rightarrow> RecordId \<Rightarrow> bool" where
  "requires refs target \<longleftrightarrow> list_ex (\<lambda>r. ref_type r = RRequire \<and> ref_target r = target) refs"

definition note_replaced :: "Ref list \<Rightarrow> State \<Rightarrow> State" where
  "note_replaced refs s =
     (case find_replace_ref refs of None \<Rightarrow> s
      | Some i \<Rightarrow> s\<lparr>st_replaced_records := insert i (st_replaced_records s)\<rparr>)"

definition consume_approval :: "hash256 \<Rightarrow> Ref list \<Rightarrow> State \<Rightarrow> State" where
  "consume_approval h refs s =
     (case Mapping.lookup (st_valid_approvals s) h of None \<Rightarrow> s
      | Some approval_id \<Rightarrow>
          if requires refs approval_id
          then s\<lparr>st_valid_approvals := Mapping.delete h (st_valid_approvals s),
                 st_exact_approval_index := Mapping.delete approval_id (st_exact_approval_index s)\<rparr>
          else s)"

definition close_action_for_request :: "RecordId \<Rightarrow> State \<Rightarrow> State" where
  "close_action_for_request action_id s =
     (case Mapping.lookup (st_action_to_request s) action_id of None \<Rightarrow> s
      | Some request_id \<Rightarrow>
          (case Mapping.lookup (st_request_open_action_count s) request_id of None \<Rightarrow> s
           | Some count \<Rightarrow>
               let count' = count - 1
               in s\<lparr>st_request_open_action_count :=
                     (if count' = 0
                      then Mapping.delete request_id (st_request_open_action_count s)
                      else Mapping.update request_id count' (st_request_open_action_count s))\<rparr>))"

definition close_action :: "RecordId \<Rightarrow> State \<Rightarrow> State" where
  "close_action action_id s =
     close_action_for_request action_id
       (s\<lparr>st_open_actions := st_open_actions s - {action_id}\<rparr>)"

definition apply_request :: "Record \<Rightarrow> State \<Rightarrow> State" where
  "apply_request r s = s\<lparr>st_active_requests := insert (rec_id r) (st_active_requests s)\<rparr>"

definition open_action :: "RecordId \<Rightarrow> RecordId \<Rightarrow> State \<Rightarrow> State" where
  "open_action action_id request_id s =
     s\<lparr>st_open_actions := insert action_id (st_open_actions s),
       st_action_to_request := Mapping.update action_id request_id (st_action_to_request s),
       st_request_open_action_count :=
         Mapping.update request_id
           (Mapping.lookup_default 0 (st_request_open_action_count s) request_id + 1)
           (st_request_open_action_count s)\<rparr>"

definition apply_action :: "'z env_scheme \<Rightarrow> Record \<Rightarrow> State \<Rightarrow> State option" where
  "apply_action E r s =
     (case de_action E (rec_data r) of None \<Rightarrow> None
      | Some d \<Rightarrow>
          (case action_approval_hash E (au_id (rec_author r)) d of None \<Rightarrow> None
           | Some exact_hash \<Rightarrow>
               Some (open_action (rec_id r) (act_request_id d)
                       (consume_approval exact_hash (rec_refs r) s))))"

definition apply_result :: "'z env_scheme \<Rightarrow> Record \<Rightarrow> State \<Rightarrow> State option" where
  "apply_result E r s =
     map_option (\<lambda>d. close_action (rst_action_id d) s) (de_result E (rec_data r))"

definition apply_refusal :: "'z env_scheme \<Rightarrow> Record \<Rightarrow> State \<Rightarrow> State option" where
  "apply_refusal E r s =
     (case de_refusal E (rec_data r) of None \<Rightarrow> None
      | Some d \<Rightarrow>
          Some (case rfs_target_kind d of
                  RefAction \<Rightarrow> close_action (rfs_target_id d) s
                | RefRequest \<Rightarrow>
                    s\<lparr>st_active_requests := st_active_requests s - {rfs_target_id d},
                      st_active_plans := Mapping.delete (rfs_target_id d) (st_active_plans s)\<rparr>
                | RefVerifiedEffect \<Rightarrow> s))"

definition apply_capability :: "'z env_scheme \<Rightarrow> Record \<Rightarrow> State \<Rightarrow> State option" where
  "apply_capability E r s =
     (case de_capability E (rec_data r) of None \<Rightarrow> None
      | Some d \<Rightarrow>
          let key = (cap_actor_id d, cap_action_class d, cap_scope d);
              s1 = note_replaced (rec_refs r) s
          in Some (s1\<lparr>st_capability_index :=
                        Mapping.update (rec_id r) key (st_capability_index s1),
                      st_active_capabilities :=
                        Mapping.update key (rec_id r) (st_active_capabilities s1)\<rparr>))"

definition set_exact_approval :: "RecordId \<Rightarrow> hash256 option \<Rightarrow> State \<Rightarrow> State" where
  "set_exact_approval i target s =
     (case target of None \<Rightarrow> s
      | Some h \<Rightarrow> s\<lparr>st_exact_approval_index := Mapping.update i h (st_exact_approval_index s),
                    st_valid_approvals := Mapping.update h i (st_valid_approvals s)\<rparr>)"

definition set_class_approval :: "RecordId \<Rightarrow> ApprovalData \<Rightarrow> State \<Rightarrow> State" where
  "set_class_approval i d s =
     (case apr_action_class d of None \<Rightarrow> s
      | Some c \<Rightarrow>
          let key = (c, apr_scope d, apr_actor_id d)
          in s\<lparr>st_class_approval_index := Mapping.update i key (st_class_approval_index s),
               st_class_approvals := Mapping.update key i (st_class_approvals s)\<rparr>)"

definition apply_approval :: "'z env_scheme \<Rightarrow> Record \<Rightarrow> State \<Rightarrow> State option" where
  "apply_approval E r s =
     (case de_approval E (rec_data r) of None \<Rightarrow> None
      | Some d \<Rightarrow>
          Some (set_class_approval (rec_id r) d
                  (set_exact_approval (rec_id r) (apr_target_action d)
                    (note_replaced (rec_refs r) s))))"

definition apply_summary :: "'z env_scheme \<Rightarrow> Record \<Rightarrow> State \<Rightarrow> State option" where
  "apply_summary E r s =
     (case de_summary E (rec_data r) of None \<Rightarrow> None
      | Some d \<Rightarrow>
          (case summary_key_hash E d of None \<Rightarrow> None
           | Some key \<Rightarrow>
               let s1 = note_replaced (rec_refs r) s
               in Some (s1\<lparr>st_active_summaries :=
                             Mapping.update key (rec_id r) (st_active_summaries s1)\<rparr>)))"

definition zero_counts :: UsageOutcomeCounts where
  "zero_counts = \<lparr>uc_done = 0, uc_not_done = 0, uc_no_change = 0\<rparr>"

fun tally :: "UsageOutcome \<Rightarrow> UsageOutcomeCounts \<Rightarrow> UsageOutcomeCounts" where
  "tally UDone c = c\<lparr>uc_done := uc_done c + 1\<rparr>"
| "tally UNotDone c = c\<lparr>uc_not_done := uc_not_done c + 1\<rparr>"
| "tally UNoChange c = c\<lparr>uc_no_change := uc_no_change c + 1\<rparr>"

definition apply_usage :: "'z env_scheme \<Rightarrow> Record \<Rightarrow> State \<Rightarrow> State option" where
  "apply_usage E r s =
     (case de_usage E (rec_data r) of None \<Rightarrow> None
      | Some d \<Rightarrow>
          let key = (usg_used_record d, usg_role d);
              c = Mapping.lookup_default zero_counts (st_usage_counts s) key
          in Some (s\<lparr>st_usage_counts :=
                       Mapping.update key (tally (usg_outcome d) c) (st_usage_counts s)\<rparr>))"

definition apply_plan :: "'z env_scheme \<Rightarrow> Record \<Rightarrow> State \<Rightarrow> State option" where
  "apply_plan E r s =
     (case de_plan E (rec_data r) of None \<Rightarrow> None
      | Some d \<Rightarrow>
          let s1 = note_replaced (rec_refs r) s;
              plans = Mapping.update (pln_request_id d) (rec_id r) (st_active_plans s1)
          in Some (s1\<lparr>st_active_plans :=
                        (if pln_status d = PlanCompleted \<or> pln_status d = PlanAbandoned
                         then Mapping.delete (pln_request_id d) plans else plans)\<rparr>))"

text \<open>Deactivate the slot that the reverse index gives for a target, if the target still holds it.\<close>

definition release_slot ::
  "RecordId \<Rightarrow> (RecordId, 'k) mapping \<Rightarrow> ('k, RecordId) mapping \<Rightarrow> ('k, RecordId) mapping" where
  "release_slot target index slots =
     (case Mapping.lookup index target of None \<Rightarrow> slots
      | Some key \<Rightarrow>
          if Mapping.lookup slots key = Some target then Mapping.delete key slots else slots)"

definition release_requirement_key ::
  "RecordId \<Rightarrow> (RecordId, RecordId \<times> string) mapping \<Rightarrow> (RecordId, string set) mapping
     \<Rightarrow> (RecordId, string set) mapping" where
  "release_requirement_key target index keys =
     (case Mapping.lookup index target of None \<Rightarrow> keys
      | Some (request_id, key) \<Rightarrow>
          (case Mapping.lookup keys request_id of None \<Rightarrow> keys
           | Some held \<Rightarrow>
               if held - {key} = {} then Mapping.delete request_id keys
               else Mapping.update request_id (held - {key}) keys))"

definition deactivate :: "RecordId \<Rightarrow> State \<Rightarrow> State" where
  "deactivate target s =
     s\<lparr>st_active_capabilities :=
         release_slot target (st_capability_index s) (st_active_capabilities s),
       st_valid_approvals :=
         release_slot target (st_exact_approval_index s) (st_valid_approvals s),
       st_class_approvals :=
         release_slot target (st_class_approval_index s) (st_class_approvals s),
       st_requirement_keys :=
         release_requirement_key target (st_requirement_index s) (st_requirement_keys s)\<rparr>"

definition taint_dependents :: "RecordId \<Rightarrow> State \<Rightarrow> State" where
  "taint_dependents target s =
     fold (\<lambda>i s. mark_tainted s i)
       (sorted_list_of_set (dependents (st_epistemic_dependents s) target)) s"

definition apply_retraction :: "'z env_scheme \<Rightarrow> Record \<Rightarrow> State \<Rightarrow> State option" where
  "apply_retraction E r s =
     (case de_retraction E (rec_data r) of None \<Rightarrow> None
      | Some d \<Rightarrow>
          let t = rtr_target_id d
          in Some (deactivate t (taint_dependents t
                     (s\<lparr>st_retracted_records := insert t (st_retracted_records s)\<rparr>))))"

definition apply_response :: "'z env_scheme \<Rightarrow> Record \<Rightarrow> State \<Rightarrow> State option" where
  "apply_response E r s =
     (case de_response E (rec_data r) of None \<Rightarrow> None
      | Some d \<Rightarrow>
          let q = rsp_request_id d;
              turns = Mapping.lookup_default 0 (st_response_turns s) q;
              s1 = s\<lparr>st_response_turns :=
                       Mapping.update q (u32_saturating_add turns 1) (st_response_turns s)\<rparr>
          in Some (if rsp_closes_request d
                   then s1\<lparr>st_active_requests := st_active_requests s1 - {q},
                           st_active_plans := Mapping.delete q (st_active_plans s1)\<rparr>
                   else s1))"

definition apply_requirement :: "'z env_scheme \<Rightarrow> Record \<Rightarrow> State \<Rightarrow> State option" where
  "apply_requirement E r s =
     (case de_requirement E (rec_data r) of None \<Rightarrow> None
      | Some d \<Rightarrow>
          (case find_cause_ref (rec_refs r) of None \<Rightarrow> Some s
           | Some q \<Rightarrow>
               Some (s\<lparr>st_requirement_keys :=
                         Mapping.update q
                           (insert (rqm_key d) (Mapping.lookup_default {} (st_requirement_keys s) q))
                           (st_requirement_keys s),
                       st_requirement_index :=
                         Mapping.update (rec_id r) (q, rqm_key d) (st_requirement_index s)\<rparr>)))"

definition apply_selection :: "'z env_scheme \<Rightarrow> Record \<Rightarrow> State \<Rightarrow> State option" where
  "apply_selection E r s =
     (case decode_selection E (rec_data r) of None \<Rightarrow> None
      | Some d \<Rightarrow>
          (case selection_approval_subject_hash E (au_id (rec_author r))
                  (find_replace_ref (rec_refs r)) d of None \<Rightarrow> None
           | Some h \<Rightarrow>
               Some (consume_approval h (rec_refs r) (note_replaced (rec_refs r) s))))"

section \<open>The fold\<close>

definition apply_kind :: "'z env_scheme \<Rightarrow> Record \<Rightarrow> State \<Rightarrow> State option" where
  "apply_kind E r s =
     (case rec_kind r of
        KRequest \<Rightarrow> Some (apply_request r s)
      | KAction \<Rightarrow> apply_action E r s
      | KResult \<Rightarrow> apply_result E r s
      | KRefusal \<Rightarrow> apply_refusal E r s
      | KCapability \<Rightarrow> apply_capability E r s
      | KApproval \<Rightarrow> apply_approval E r s
      | KSummary \<Rightarrow> apply_summary E r s
      | KUsage \<Rightarrow> apply_usage E r s
      | KPlan \<Rightarrow> apply_plan E r s
      | KRetraction \<Rightarrow> apply_retraction E r s
      | KResponse \<Rightarrow> apply_response E r s
      | KVerdict \<Rightarrow> Some s
      | KCandidate \<Rightarrow> Some s
      | KEvaluation \<Rightarrow> Some s
      | KRequirement \<Rightarrow> apply_requirement E r s
      | KSelection \<Rightarrow> apply_selection E r s)"

definition apply_accepted :: "'z env_scheme \<Rightarrow> State \<Rightarrow> Record \<Rightarrow> State option" where
  "apply_accepted E s r = apply_kind E r (register_accepted s r)"

definition apply_record :: "'z env_scheme \<Rightarrow> State \<Rightarrow> Record \<Rightarrow> VerdictData \<Rightarrow> State option" where
  "apply_record E s r v =
     (case vd_result v of Accept \<Rightarrow> apply_accepted E s r | Reject \<Rightarrow> Some s)"

section \<open>Helpers as field updates\<close>

text \<open>
  Every helper is an update of a fixed group of fields; rewriting with these equations computes
  any field of the state after an arm of the fold.
\<close>

lemma note_replaced_upd:
  "note_replaced refs s =
     s\<lparr>st_replaced_records := st_replaced_records s \<union> set_option (find_replace_ref refs)\<rparr>"
  by (simp add: note_replaced_def split: option.split)

definition consumes :: "hash256 \<Rightarrow> Ref list \<Rightarrow> State \<Rightarrow> bool" where
  "consumes h refs s \<longleftrightarrow>
     (case Mapping.lookup (st_valid_approvals s) h of None \<Rightarrow> False | Some i \<Rightarrow> requires refs i)"

lemma consume_approval_upd:
  "consume_approval h refs s =
     s\<lparr>st_valid_approvals :=
         (if consumes h refs s then Mapping.delete h (st_valid_approvals s) else st_valid_approvals s),
       st_exact_approval_index :=
         (if consumes h refs s
          then Mapping.delete (the (Mapping.lookup (st_valid_approvals s) h)) (st_exact_approval_index s)
          else st_exact_approval_index s)\<rparr>"
  by (simp add: consume_approval_def consumes_def split: option.split)

definition closed_count ::
  "RecordId \<Rightarrow> (RecordId, RecordId) mapping \<Rightarrow> (RecordId, u64) mapping \<Rightarrow> (RecordId, u64) mapping" where
  "closed_count action_id owner count =
     (case Mapping.lookup owner action_id of None \<Rightarrow> count
      | Some q \<Rightarrow>
          (case Mapping.lookup count q of None \<Rightarrow> count
           | Some c \<Rightarrow> if c - 1 = 0 then Mapping.delete q count else Mapping.update q (c - 1) count))"

lemma close_action_upd:
  "close_action i s =
     s\<lparr>st_open_actions := st_open_actions s - {i},
       st_request_open_action_count :=
         closed_count i (st_action_to_request s) (st_request_open_action_count s)\<rparr>"
  by (simp add: close_action_def close_action_for_request_def closed_count_def Let_def
      split: option.split)

lemma set_exact_approval_upd:
  "set_exact_approval i target s =
     s\<lparr>st_exact_approval_index :=
         (case target of None \<Rightarrow> st_exact_approval_index s
          | Some h \<Rightarrow> Mapping.update i h (st_exact_approval_index s)),
       st_valid_approvals :=
         (case target of None \<Rightarrow> st_valid_approvals s
          | Some h \<Rightarrow> Mapping.update h i (st_valid_approvals s))\<rparr>"
  by (simp add: set_exact_approval_def split: option.split)

lemma set_class_approval_upd:
  "set_class_approval i d s =
     s\<lparr>st_class_approval_index :=
         (case apr_action_class d of None \<Rightarrow> st_class_approval_index s
          | Some c \<Rightarrow> Mapping.update i (c, apr_scope d, apr_actor_id d) (st_class_approval_index s)),
       st_class_approvals :=
         (case apr_action_class d of None \<Rightarrow> st_class_approvals s
          | Some c \<Rightarrow> Mapping.update (c, apr_scope d, apr_actor_id d) i (st_class_approvals s))\<rparr>"
  by (simp add: set_class_approval_def Let_def split: option.split)

definition dependents_after ::
  "RecordId \<Rightarrow> Ref list \<Rightarrow> (RecordId, RecordId set) mapping \<Rightarrow> (RecordId, RecordId set) mapping" where
  "dependents_after i refs dep =
     fold (\<lambda>r dep. if is_epistemic (ref_type r)
                    then Mapping.update (ref_target r) (insert i (dependents dep (ref_target r))) dep
                    else dep) refs dep"

lemma fold_add_dependent_upd:
  "fold (add_dependent i) refs s =
     s\<lparr>st_epistemic_dependents := dependents_after i refs (st_epistemic_dependents s)\<rparr>"
  by (induction refs arbitrary: s) (simp_all add: add_dependent_def dependents_after_def)

definition taint_after :: "Record \<Rightarrow> State \<Rightarrow> RecordId set" where
  "taint_after r s = st_tainted_records (register_accepted s r)"

lemma register_accepted_upd:
  "register_accepted s r =
     s\<lparr>st_accepted_records := insert (rec_id r) (st_accepted_records s),
       st_epistemic_dependents := dependents_after (rec_id r) (rec_refs r) (st_epistemic_dependents s),
       st_tainted_records := taint_after r s\<rparr>"
  by (simp add: taint_after_def register_accepted_def Let_def fold_add_dependent_upd mark_tainted_def)

lemma register_sel [simp]:
  "st_accepted_records (register_accepted s r) = insert (rec_id r) (st_accepted_records s)"
  "st_active_requests (register_accepted s r) = st_active_requests s"
  "st_active_capabilities (register_accepted s r) = st_active_capabilities s"
  "st_valid_approvals (register_accepted s r) = st_valid_approvals s"
  "st_class_approvals (register_accepted s r) = st_class_approvals s"
  "st_open_actions (register_accepted s r) = st_open_actions s"
  "st_action_to_request (register_accepted s r) = st_action_to_request s"
  "st_active_summaries (register_accepted s r) = st_active_summaries s"
  "st_replaced_records (register_accepted s r) = st_replaced_records s"
  "st_request_open_action_count (register_accepted s r) = st_request_open_action_count s"
  "st_usage_counts (register_accepted s r) = st_usage_counts s"
  "st_active_plans (register_accepted s r) = st_active_plans s"
  "st_response_turns (register_accepted s r) = st_response_turns s"
  "st_capability_index (register_accepted s r) = st_capability_index s"
  "st_exact_approval_index (register_accepted s r) = st_exact_approval_index s"
  "st_class_approval_index (register_accepted s r) = st_class_approval_index s"
  "st_retracted_records (register_accepted s r) = st_retracted_records s"
  "st_requirement_keys (register_accepted s r) = st_requirement_keys s"
  "st_requirement_index (register_accepted s r) = st_requirement_index s"
  "st_applied_up_to (register_accepted s r) = st_applied_up_to s"
  by (simp_all add: register_accepted_upd)

lemma fold_mark_tainted_upd:
  "fold (\<lambda>i s. mark_tainted s i) is s =
     s\<lparr>st_tainted_records := st_tainted_records (fold (\<lambda>i s. mark_tainted s i) is s)\<rparr>"
proof (induction "is" arbitrary: s)
  case (Cons i "is")
  have "fold (\<lambda>i s. mark_tainted s i) (i # is) s
      = (mark_tainted s i)\<lparr>st_tainted_records :=
           st_tainted_records (fold (\<lambda>i s. mark_tainted s i) is (mark_tainted s i))\<rparr>"
    using Cons [of "mark_tainted s i"] by simp
  then show ?case by (simp add: mark_tainted_def)
qed simp

definition cascade :: "RecordId \<Rightarrow> State \<Rightarrow> RecordId set" where
  "cascade t s = st_tainted_records (taint_dependents t s)"

lemma taint_dependents_upd: "taint_dependents t s = s\<lparr>st_tainted_records := cascade t s\<rparr>"
  unfolding cascade_def taint_dependents_def by (rule fold_mark_tainted_upd)

lemma apply_response_upd:
  "apply_response E r s =
     map_option (\<lambda>d.
       s\<lparr>st_response_turns :=
           Mapping.update (rsp_request_id d)
             (u32_saturating_add (Mapping.lookup_default 0 (st_response_turns s) (rsp_request_id d)) 1)
             (st_response_turns s),
         st_active_requests :=
           (if rsp_closes_request d then st_active_requests s - {rsp_request_id d}
            else st_active_requests s),
         st_active_plans :=
           (if rsp_closes_request d then Mapping.delete (rsp_request_id d) (st_active_plans s)
            else st_active_plans s)\<rparr>)
       (de_response E (rec_data r))"
  by (simp add: apply_response_def Let_def split: option.split)

definition retract :: "RecordId \<Rightarrow> State \<Rightarrow> State" where
  "retract t s = s\<lparr>st_retracted_records := insert t (st_retracted_records s)\<rparr>"

lemma apply_retraction_upd:
  "apply_retraction E r s =
     map_option (\<lambda>d.
       s\<lparr>st_retracted_records := insert (rtr_target_id d) (st_retracted_records s),
         st_tainted_records := cascade (rtr_target_id d) (retract (rtr_target_id d) s),
         st_active_capabilities :=
           release_slot (rtr_target_id d) (st_capability_index s) (st_active_capabilities s),
         st_valid_approvals :=
           release_slot (rtr_target_id d) (st_exact_approval_index s) (st_valid_approvals s),
         st_class_approvals :=
           release_slot (rtr_target_id d) (st_class_approval_index s) (st_class_approvals s),
         st_requirement_keys :=
           release_requirement_key (rtr_target_id d) (st_requirement_index s)
             (st_requirement_keys s)\<rparr>)
       (de_retraction E (rec_data r))"
  by (simp add: apply_retraction_def deactivate_def taint_dependents_upd retract_def Let_def
      split: option.split)

lemmas helper_upds =
  note_replaced_upd consume_approval_upd close_action_upd set_exact_approval_upd
  set_class_approval_upd register_accepted_upd taint_dependents_upd

lemmas arm_defs =
  apply_request_def apply_action_def apply_result_def apply_refusal_def apply_capability_def
  apply_approval_def apply_summary_def apply_usage_def apply_plan_def apply_retraction_upd
  apply_response_upd apply_requirement_def apply_selection_def open_action_def Let_def

end
