(* ===== verification/Prior_Index.thy ===== *)
theory Prior_Index
  imports Incremental
begin

text \<open>
  The id index of \<open>src/src/verify/verifier/verdict.rs\<close> (\<open>PriorIndex\<close> and the borrowed view
  \<open>Prior\<close>) and the checks of a verdict record.  The locale \<open>prior_lookup\<close> is the interface the
  verifier's rules use: a lookup by id and a duplicate-verdict test, both promised to agree with a
  front-to-back scan of the preceding records; the index built over a record list implements it.
\<close>

section \<open>The index\<close>

record PriorIndex =
  ix_by_id :: "(RecordId, nat) mapping"
  ix_verdicted_subjects :: "RecordId set"

record Prior =
  pr_records :: "Record list"
  pr_by_id :: "(RecordId, nat) mapping"
  pr_verdicted_subjects :: "RecordId set"

definition prior_find :: "Prior \<Rightarrow> RecordId \<Rightarrow> Record option" where
  "prior_find p i = map_option (\<lambda>pos. pr_records p ! pos) (Mapping.lookup (pr_by_id p) i)"

definition has_verdict_for :: "Prior \<Rightarrow> RecordId \<Rightarrow> bool" where
  "has_verdict_for p subject \<longleftrightarrow> subject \<in> pr_verdicted_subjects p"

definition default_index :: PriorIndex where
  "default_index = \<lparr>ix_by_id = Mapping.empty, ix_verdicted_subjects = {}\<rparr>"

definition index_insert :: "nat \<Rightarrow> Record \<Rightarrow> PriorIndex \<Rightarrow> PriorIndex" where
  "index_insert pos r ix =
     \<lparr>ix_by_id = Mapping.default (rec_id r) pos (ix_by_id ix),
      ix_verdicted_subjects =
        (if rec_kind r = KVerdict
         then fold (\<lambda>e A. if ref_type e = RCause then insert (ref_target e) A else A)
                (rec_refs r) (ix_verdicted_subjects ix)
         else ix_verdicted_subjects ix)\<rparr>"

definition index_of :: "Record list \<Rightarrow> PriorIndex" where
  "index_of rs = fold (\<lambda>(pos, r). index_insert pos r) (enumerate 0 rs) default_index"

definition view :: "PriorIndex \<Rightarrow> Record list \<Rightarrow> Prior" where
  "view ix rs =
     \<lparr>pr_records = rs, pr_by_id = ix_by_id ix, pr_verdicted_subjects = ix_verdicted_subjects ix\<rparr>"

section \<open>Payload canonicality\<close>

definition decodes_canonically ::
  "'z crates_scheme \<Rightarrow> (bytes \<Rightarrow> 'a option) \<Rightarrow> ('a \<Rightarrow> json) \<Rightarrow> bytes \<Rightarrow> bool" where
  "decodes_canonically C de ser data =
     (case de data of None \<Rightarrow> False
      | Some v \<Rightarrow> (case canonical_json C (ser v) of None \<Rightarrow> False | Some b \<Rightarrow> b = data))"

section \<open>Verdict records\<close>

definition check_verdict_subject :: "Record \<Rightarrow> Prior \<Rightarrow> ReasonCode option" where
  "check_verdict_subject r prior =
     (case rec_refs r of
        [subject_ref] \<Rightarrow>
          if ref_type subject_ref \<noteq> RCause then Some InvalidPayload
          else
            let subject_id = ref_target subject_ref
            in (case prior_find prior subject_id of
                  None \<Rightarrow> Some RefUnresolved
                | Some subject \<Rightarrow>
                    first_reason
                      [reject_if (rec_kind subject = KVerdict) InvalidPayload,
                       reject_if (rec_space subject \<noteq> rec_space r
                                  \<or> rec_thread subject \<noteq> rec_thread r) InvalidPayload,
                       reject_if (has_verdict_for prior subject_id) InvalidPayload])
      | _ \<Rightarrow> Some InvalidPayload)"

definition check_verdict_record ::
  "'z env_scheme \<Rightarrow> Record \<Rightarrow> Prior \<Rightarrow> VerifierRules \<Rightarrow> ReasonCode option" where
  "check_verdict_record E r prior R =
     first_reason
       [reject_if (compute_id E r \<noteq> Some (rec_id r)) InvalidPayload,
        reject_if (rec_schema r \<noteq> schema_id E SCHEMA_VERDICT) KindSchemaMismatch,
        reject_if (au_type (rec_author r) \<noteq> AVerifier) InvalidPayload,
        reject_if (au_signature (rec_author r) \<noteq> None) InvalidPayload,
        reject_if (rec_space r \<noteq> vr_space R) InvalidPayload,
        reject_if (rec_evidence r \<noteq> Deterministic) InvalidPayload,
        reject_if (\<not> decodes_canonically E (de_verdict E) verdict_json (rec_data r)) InvalidPayload,
        check_verdict_subject r prior]"

section \<open>The index is a scan\<close>

definition scan_find :: "Record list \<Rightarrow> RecordId \<Rightarrow> Record option" where
  "scan_find rs i = List.find (\<lambda>r. rec_id r = i) rs"

definition scan_verdicted :: "Record list \<Rightarrow> RecordId \<Rightarrow> bool" where
  "scan_verdicted rs i \<longleftrightarrow>
     list_ex (\<lambda>r. rec_kind r = KVerdict
                \<and> list_ex (\<lambda>e. ref_type e = RCause \<and> ref_target e = i) (rec_refs r)) rs"

lemma lookup_default_insert:
  "Mapping.lookup (Mapping.default k v m) k' =
     (case Mapping.lookup m k' of None \<Rightarrow> if k = k' then Some v else None | Some x \<Rightarrow> Some x)"
  by (auto simp: Mapping.default_def keys_is_none_rep Option.is_none_def split: option.splits)

lemma verdict_fold_set:
  "fold (\<lambda>e A. if ref_type e = RCause then insert (ref_target e) A else A) refs A
     = A \<union> ref_target ` {e \<in> set refs. ref_type e = RCause}"
  by (induction refs arbitrary: A) auto

definition index_ok :: "PriorIndex \<Rightarrow> Record list \<Rightarrow> nat \<Rightarrow> bool" where
  "index_ok ix rs n \<longleftrightarrow>
     (\<forall>i. prior_find (view ix rs) i = scan_find (take n rs) i)
     \<and> (\<forall>i pos. Mapping.lookup (ix_by_id ix) i = Some pos \<longrightarrow> pos < n)
     \<and> (\<forall>i. has_verdict_for (view ix rs) i = scan_verdicted (take n rs) i)"

lemma index_ok_default: "index_ok default_index rs 0"
  by (simp add: index_ok_def default_index_def prior_find_def view_def scan_find_def
      scan_verdicted_def has_verdict_for_def)

lemma index_ok_insert:
  assumes "index_ok ix rs n" "n < length rs"
  shows "index_ok (index_insert n (rs ! n) ix) rs (Suc n)"
proof -
  have take: "take (Suc n) rs = take n rs @ [rs ! n]"
    using assms(2) by (simp add: take_Suc_conv_app_nth)
  have "prior_find (view (index_insert n (rs ! n) ix) rs) i = scan_find (take (Suc n) rs) i" for i
  proof -
    have "scan_find (take n rs) i = prior_find (view ix rs) i"
      using assms(1) by (simp add: index_ok_def)
    then show ?thesis
      by (cases "Mapping.lookup (ix_by_id ix) i")
        (simp_all add: prior_find_def view_def index_insert_def lookup_default_insert scan_find_def
          take find_append)
  qed
  moreover have "has_verdict_for (view (index_insert n (rs ! n) ix) rs) i
      = scan_verdicted (take (Suc n) rs) i" for i
    using assms(1) unfolding index_ok_def
    by (auto simp: has_verdict_for_def view_def index_insert_def verdict_fold_set scan_verdicted_def
        take list_ex_iff)
  moreover have "pos < Suc n"
    if "Mapping.lookup (ix_by_id (index_insert n (rs ! n) ix)) i = Some pos" for i pos
    using assms(1) that unfolding index_ok_def
    by (force simp: index_insert_def lookup_default_insert split: option.splits if_splits)
  ultimately show ?thesis by (simp add: index_ok_def)
qed

lemma index_ok_insert_many:
  assumes "index_ok ix rs n" "n + length xs \<le> length rs" "take (length xs) (drop n rs) = xs"
  shows "index_ok (fold (\<lambda>(pos, r). index_insert pos r) (enumerate n xs) ix) rs (n + length xs)"
  using assms
proof (induction xs arbitrary: n ix)
  case (Cons x xs)
  then have n: "n < length rs" by simp
  with Cons.prems(3) have "rs ! n = x"
    by (simp add: Cons_nth_drop_Suc [symmetric])
  note n = n this
  have "take (length xs) (drop (Suc n) rs) = xs"
    using Cons.prems(3) n by (simp add: Cons_nth_drop_Suc [symmetric])
  then show ?case
    using Cons.IH [of "index_insert n x ix" "Suc n"] index_ok_insert [OF Cons.prems(1) n(1)]
      Cons.prems(2) n by simp
qed simp

lemma index_of_ok: "index_ok (index_of rs) rs (length rs)"
  unfolding index_of_def using index_ok_insert_many [OF index_ok_default, of rs rs] by simp

section \<open>The lookup interface\<close>

locale prior_lookup =
  fixes find_prior :: "Record list \<Rightarrow> RecordId \<Rightarrow> Record option"
    and judged :: "Record list \<Rightarrow> RecordId \<Rightarrow> bool"
  assumes find_prior_scan: "find_prior rs i = scan_find rs i"
    and judged_scan: "judged rs i = scan_verdicted rs i"
begin

lemma find_prior_SomeD: "find_prior rs i = Some r \<Longrightarrow> rec_id r = i \<and> r \<in> set rs"
  unfolding find_prior_scan scan_find_def by (drule find_SomeD) simp

lemma find_prior_None_iff: "find_prior rs i = None \<longleftrightarrow> i \<notin> rec_id ` set rs"
  unfolding find_prior_scan scan_find_def by (auto simp: find_None_iff')

lemma find_prior_append:
  "i \<in> rec_id ` set rs \<Longrightarrow> find_prior (rs @ rs') i = find_prior rs i"
  unfolding find_prior_scan scan_find_def
  by (auto simp: find_append find_None_iff' split: option.splits)

lemma find_prior_distinct:
  assumes "distinct (map rec_id rs)" "r \<in> set rs"
  shows "find_prior rs (rec_id r) = Some r"
  unfolding find_prior_scan scan_find_def by (rule find_distinct_map [OF assms])

lemma judged_iff:
  "judged rs i \<longleftrightarrow> (\<exists>r \<in> set rs. rec_kind r = KVerdict
     \<and> (\<exists>e \<in> set (rec_refs r). ref_type e = RCause \<and> ref_target e = i))"
  unfolding judged_scan scan_verdicted_def by (simp add: list_ex_iff)

end

interpretation pix: prior_lookup
  "\<lambda>rs. prior_find (view (index_of rs) rs)" "\<lambda>rs. has_verdict_for (view (index_of rs) rs)"
  using index_of_ok by unfold_locales (simp_all add: index_ok_def)

interpretation scan: prior_lookup scan_find scan_verdicted
  by unfold_locales simp_all

lemma index_ok_find: "index_ok ix rs n \<Longrightarrow> prior_find (view ix rs) i = scan_find (take n rs) i"
  by (simp add: index_ok_def)

lemma index_ok_verdict:
  "index_ok ix rs n \<Longrightarrow> has_verdict_for (view ix rs) i = scan_verdicted (take n rs) i"
  by (simp add: index_ok_def)

end
