(* ===== verification/Activity.thy ===== *)
theory Activity
  imports Prior_Index
begin

text \<open>
  The request and action rules of \<open>src/src/verify/verifier/activity.rs\<close>: delegation of child
  requests, the capability check of an action and the resolution of the approval an \<open>Ask\<close>
  capability demands.
\<close>

section \<open>Requests\<close>

definition cause_refs :: "Record \<Rightarrow> Ref list" where
  "cause_refs r = filter (\<lambda>e. ref_type e = RCause) (rec_refs r)"

definition check_request_parent :: "Record \<Rightarrow> Prior \<Rightarrow> State \<Rightarrow> RecordId \<Rightarrow> ReasonCode option" where
  "check_request_parent r prior s target_id =
     (case prior_find prior target_id of None \<Rightarrow> Some RefUnresolved
      | Some parent \<Rightarrow>
          first_reason
            [reject_if (rec_kind parent \<noteq> KRequest) InvalidPayload,
             reject_if (rec_thread parent \<noteq> rec_thread r) InvalidPayload,
             reject_if (target_id \<notin> st_accepted_records s) RequestMissing])"

definition check_request ::
  "'z env_scheme \<Rightarrow> Record \<Rightarrow> Prior \<Rightarrow> State \<Rightarrow> ReasonCode option" where
  "check_request E r prior s =
     (case de_request E (rec_data r) of None \<Rightarrow> Some InvalidPayload
      | Some d \<Rightarrow>
          let cause_targets = map ref_target (cause_refs r)
          in first_reason
               [first_reason (map (check_request_parent r prior s) cause_targets),
                (case req_parent_request_id d of
                   None \<Rightarrow> reject_if (cause_targets \<noteq> []) InvalidPayload
                 | Some pid \<Rightarrow> reject_if (cause_targets \<noteq> [pid]) InvalidPayload)])"

section \<open>Approvals for actions\<close>

definition has_require_ref :: "Record \<Rightarrow> RecordId \<Rightarrow> bool" where
  "has_require_ref r target \<longleftrightarrow>
     list_ex (\<lambda>e. ref_type e = RRequire \<and> ref_target e = target) (rec_refs r)"

definition expired :: "u64 \<Rightarrow> u64 option \<Rightarrow> bool" where
  "expired now expiry = (case expiry of None \<Rightarrow> False | Some t \<Rightarrow> now \<ge> t)"

text \<open>
  One priority of the approval search: \<open>None\<close> falls through to the next priority, \<open>Some\<close> is the
  \<open>Result\<close> returned (the approval's id or the rejection reason).
\<close>

definition exact_approval_match ::
  "'z env_scheme \<Rightarrow> Record \<Rightarrow> ActionData \<Rightarrow> Prior \<Rightarrow> State \<Rightarrow> hash256
     \<Rightarrow> (ReasonCode + RecordId) option" where
  "exact_approval_match E r d prior s action_hash =
     (case Mapping.lookup (st_valid_approvals s) action_hash of None \<Rightarrow> None
      | Some approval_id \<Rightarrow>
          (case prior_find prior approval_id of None \<Rightarrow> None
           | Some approval_record \<Rightarrow>
               if \<not> reliable s approval_id then None
               else (case de_approval E (rec_data approval_record) of
                       None \<Rightarrow> Some (Inl InvalidPayload)
                     | Some a \<Rightarrow>
                         if apr_actor_id a = Some (au_id (rec_author r)) \<and> apr_scope a = act_scope d
                         then (if expired (rec_time r) (apr_expiry a) then None
                               else Some (Inr approval_id))
                         else None)))"

definition class_approval_match ::
  "'z env_scheme \<Rightarrow> Record \<Rightarrow> Prior \<Rightarrow> State \<Rightarrow> class_key \<Rightarrow> (ReasonCode + RecordId) option" where
  "class_approval_match E r prior s key =
     (case Mapping.lookup (st_class_approvals s) key of None \<Rightarrow> None
      | Some approval_id \<Rightarrow>
          (case prior_find prior approval_id of None \<Rightarrow> None
           | Some approval_record \<Rightarrow>
               if \<not> reliable s approval_id then None
               else (case de_approval E (rec_data approval_record) of
                       None \<Rightarrow> Some (Inl InvalidPayload)
                     | Some a \<Rightarrow>
                         if expired (rec_time r) (apr_expiry a) then Some (Inl ApprovalExpired)
                         else Some (Inr approval_id))))"

definition check_approval_for_action ::
  "'z env_scheme \<Rightarrow> Record \<Rightarrow> ActionData \<Rightarrow> Prior \<Rightarrow> State \<Rightarrow> ReasonCode + RecordId" where
  "check_approval_for_action E r d prior s =
     (case action_approval_hash E (au_id (rec_author r)) d of None \<Rightarrow> Inl InvalidPayload
      | Some action_hash \<Rightarrow>
          (case exact_approval_match E r d prior s action_hash of Some res \<Rightarrow> res
           | None \<Rightarrow>
               (case class_approval_match E r prior s
                       (act_action_class d, act_scope d, Some (au_id (rec_author r))) of
                  Some res \<Rightarrow> res
                | None \<Rightarrow>
                    (case class_approval_match E r prior s
                            (act_action_class d, act_scope d, None) of
                       Some res \<Rightarrow> res
                     | None \<Rightarrow> Inl ApprovalMissing))))"

section \<open>Actions\<close>

definition check_action_mode ::
  "'z env_scheme \<Rightarrow> Record \<Rightarrow> ActionData \<Rightarrow> CapabilityData \<Rightarrow> Prior \<Rightarrow> State
     \<Rightarrow> ReasonCode + RecordId option" where
  "check_action_mode E r d c prior s =
     (case cap_mode c of
        Deny \<Rightarrow> Inl CapabilityDenied
      | Auto \<Rightarrow> Inr None
      | Ask \<Rightarrow> (case check_approval_for_action E r d prior s of
                   Inl reason \<Rightarrow> Inl reason
                 | Inr approval_id \<Rightarrow> Inr (Some approval_id)))"

definition check_action_capability ::
  "'z env_scheme \<Rightarrow> Record \<Rightarrow> ActionData \<Rightarrow> Prior \<Rightarrow> State \<Rightarrow> RecordId \<Rightarrow> ReasonCode option" where
  "check_action_capability E r d prior s cap_id =
     (case prior_find prior cap_id of None \<Rightarrow> Some CapabilityMissing
      | Some cap_record \<Rightarrow>
          if cap_id \<in> st_retracted_records s \<or> cap_id \<in> st_tainted_records s
          then Some CapabilityMissing
          else (case de_capability E (rec_data cap_record) of None \<Rightarrow> Some InvalidPayload
            | Some c \<Rightarrow>
                if expired (rec_time r) (cap_expiry c) then Some CapabilityMissing
                else (case check_action_mode E r d c prior s of
                        Inl reason \<Rightarrow> Some reason
                      | Inr approval \<Rightarrow>
                          first_reason
                            [reject_if (\<not> has_require_ref r cap_id) AuthorityRefMissing,
                             (case approval of None \<Rightarrow> None
                              | Some approval_id \<Rightarrow>
                                  reject_if (\<not> has_require_ref r approval_id)
                                    AuthorityRefMissing)])))"

definition check_action ::
  "'z env_scheme \<Rightarrow> Record \<Rightarrow> Prior \<Rightarrow> State \<Rightarrow> ReasonCode option" where
  "check_action E r prior s =
     (case de_action E (rec_data r) of None \<Rightarrow> Some InvalidPayload
      | Some d \<Rightarrow>
          if act_request_id d \<notin> st_active_requests s then Some RequestMissing
          else (case prior_find prior (act_request_id d) of None \<Rightarrow> Some RequestMissing
            | Some request \<Rightarrow>
                if rec_thread request \<noteq> rec_thread r \<or> rec_space request \<noteq> rec_space r
                then Some RequestMissing
                else (case de_request E (rec_data request) of None \<Rightarrow> Some InvalidPayload
                  | Some request_data \<Rightarrow>
                      if act_scope d \<noteq> req_scope request_data then Some InvalidPayload
                      else (case Mapping.lookup (st_active_capabilities s)
                                   (au_id (rec_author r), act_action_class d, act_scope d) of
                              None \<Rightarrow> Some CapabilityMissing
                            | Some cap_id \<Rightarrow> check_action_capability E r d prior s cap_id))))"

section \<open>Lemmas\<close>

lemma has_require_ref_iff:
  "has_require_ref r i \<longleftrightarrow> (\<exists>e \<in> set (rec_refs r). ref_type e = RRequire \<and> ref_target e = i)"
  by (simp add: has_require_ref_def list_ex_iff)

lemma exact_approval_match_Inr:
  assumes "exact_approval_match E r d prior s h = Some (Inr i)"
  shows "Mapping.lookup (st_valid_approvals s) h = Some i" "reliable s i"
    "\<exists>ar a. prior_find prior i = Some ar \<and> de_approval E (rec_data ar) = Some a
       \<and> apr_actor_id a = Some (au_id (rec_author r)) \<and> apr_scope a = act_scope d
       \<and> \<not> expired (rec_time r) (apr_expiry a)"
  using assms by (auto simp: exact_approval_match_def split: option.splits if_splits)

lemma class_approval_match_Inr:
  assumes "class_approval_match E r prior s key = Some (Inr i)"
  shows "Mapping.lookup (st_class_approvals s) key = Some i" "reliable s i"
    "\<exists>ar a. prior_find prior i = Some ar \<and> de_approval E (rec_data ar) = Some a
       \<and> \<not> expired (rec_time r) (apr_expiry a)"
  using assms by (auto simp: class_approval_match_def split: option.splits if_splits)

lemma check_approval_for_action_Inr:
  assumes "check_approval_for_action E r d prior s = Inr i"
  shows "reliable s i"
    "\<exists>ar a. prior_find prior i = Some ar \<and> de_approval E (rec_data ar) = Some a
       \<and> \<not> expired (rec_time r) (apr_expiry a)"
    "(\<exists>h. action_approval_hash E (au_id (rec_author r)) d = Some h
          \<and> Mapping.lookup (st_valid_approvals s) h = Some i)
     \<or> (\<exists>who. Mapping.lookup (st_class_approvals s) (act_action_class d, act_scope d, who) = Some i
          \<and> (who = None \<or> who = Some (au_id (rec_author r))))"
  using assms exact_approval_match_Inr [of E r d prior s _ i]
    class_approval_match_Inr [of E r prior s _ i]
  by (auto simp: check_approval_for_action_def split: option.splits sum.splits; blast)+

lemma check_action_mode_Inr:
  assumes "check_action_mode E r d c prior s = Inr approval"
  shows "cap_mode c = Auto \<and> approval = None
     \<or> cap_mode c = Ask \<and> (\<exists>i. approval = Some i \<and> check_approval_for_action E r d prior s = Inr i)"
  using assms by (auto simp: check_action_mode_def split: CapabilityMode.splits sum.splits)

lemma check_action_None:
  assumes "check_action E r prior s = None"
  obtains d request q cap_id cap_record c where
    "de_action E (rec_data r) = Some d"
    "act_request_id d \<in> st_active_requests s"
    "prior_find prior (act_request_id d) = Some request"
    "rec_thread request = rec_thread r" "rec_space request = rec_space r"
    "de_request E (rec_data request) = Some q" "act_scope d = req_scope q"
    "Mapping.lookup (st_active_capabilities s)
       (au_id (rec_author r), act_action_class d, act_scope d) = Some cap_id"
    "prior_find prior cap_id = Some cap_record"
    "cap_id \<notin> st_retracted_records s" "cap_id \<notin> st_tainted_records s"
    "de_capability E (rec_data cap_record) = Some c"
    "\<not> expired (rec_time r) (cap_expiry c)"
    "has_require_ref r cap_id"
    "cap_mode c = Auto
     \<or> cap_mode c = Ask \<and> (\<exists>i. check_approval_for_action E r d prior s = Inr i
                               \<and> has_require_ref r i)"
proof -
  from assms obtain d where d: "de_action E (rec_data r) = Some d"
    by (auto simp: check_action_def split: option.splits)
  from assms d obtain request q cap_id where *:
    "act_request_id d \<in> st_active_requests s"
    "prior_find prior (act_request_id d) = Some request"
    "rec_thread request = rec_thread r" "rec_space request = rec_space r"
    "de_request E (rec_data request) = Some q" "act_scope d = req_scope q"
    "Mapping.lookup (st_active_capabilities s)
       (au_id (rec_author r), act_action_class d, act_scope d) = Some cap_id"
    and cap: "check_action_capability E r d prior s cap_id = None"
    by (auto simp: check_action_def split: option.splits if_splits)
  from cap obtain cap_record c approval where **:
    "prior_find prior cap_id = Some cap_record"
    "cap_id \<notin> st_retracted_records s" "cap_id \<notin> st_tainted_records s"
    "de_capability E (rec_data cap_record) = Some c"
    "\<not> expired (rec_time r) (cap_expiry c)"
    "has_require_ref r cap_id"
    and mode: "check_action_mode E r d c prior s = Inr approval"
    and req: "case approval of None \<Rightarrow> True | Some i \<Rightarrow> has_require_ref r i"
    by (auto simp: check_action_capability_def split: option.splits if_splits sum.splits)
  from check_action_mode_Inr [OF mode] req
  have "cap_mode c = Auto
     \<or> cap_mode c = Ask \<and> (\<exists>i. check_approval_for_action E r d prior s = Inr i
                               \<and> has_require_ref r i)" by auto
  with that [OF d * **] show thesis .
qed

end
