(* ===== verification/Lifecycle.thy ===== *)
theory Lifecycle
  imports Activity
begin

text \<open>
  The rules of \<open>src/src/verify/verifier/lifecycle.rs\<close> for records that move work along or
  report on it: results, refusals, usage reports, summaries and responses.
\<close>

text \<open>The shape \<open>cause_refs.len() != 1 || cause_refs[0].target != id\<close>, negated.\<close>

definition sole_cause :: "Record \<Rightarrow> RecordId \<Rightarrow> bool" where
  "sole_cause r i \<longleftrightarrow> map ref_target (cause_refs r) = [i]"

definition same_place :: "Record \<Rightarrow> Record \<Rightarrow> bool" where
  "same_place a b \<longleftrightarrow> rec_thread a = rec_thread b \<and> rec_space a = rec_space b"

section \<open>Results\<close>

definition check_result_schema ::
  "'z env_scheme \<Rightarrow> Record \<Rightarrow> VerifierRules \<Rightarrow> ExecMode \<Rightarrow> ReasonCode option" where
  "check_result_schema E r R mode =
     (case mode of
        External \<Rightarrow>
          first_reason
            [reject_if (rec_schema r \<noteq> schema_id E SCHEMA_RESULT_EXTERNAL) ExternalReceiptRequired,
             reject_if (au_signature (rec_author r) = None) SignatureMissing,
             reject_if (\<not> has_key (vr_author_keys R) (au_id (rec_author r))) SignatureInvalid]
      | Internal \<Rightarrow>
          reject_if (rec_schema r = schema_id E SCHEMA_RESULT_EXTERNAL) InvalidPayload)"

definition check_result ::
  "'z env_scheme \<Rightarrow> Record \<Rightarrow> Prior \<Rightarrow> VerifierRules \<Rightarrow> State \<Rightarrow> ReasonCode option" where
  "check_result E r prior R s =
     (case de_result E (rec_data r) of None \<Rightarrow> Some InvalidPayload
      | Some d \<Rightarrow>
          first_reason
            [(case rst_artifacts d of None \<Rightarrow> None
              | Some as \<Rightarrow> reject_if (\<not> artifact_refs_well_formed as) ArtifactRefInvalid),
             reject_if (rst_action_id d \<notin> st_open_actions s) ActionClosed,
             (case prior_find prior (rst_action_id d) of None \<Rightarrow> Some ActionClosed
              | Some action \<Rightarrow>
                  first_reason
                    [reject_if (\<not> same_place action r) ActionClosed,
                     (case de_action E (rec_data action) of None \<Rightarrow> Some InvalidPayload
                      | Some a \<Rightarrow> check_result_schema E r R (act_exec_mode a))]),
             reject_if (\<not> sole_cause r (rst_action_id d)) InvalidPayload])"

section \<open>Refusals\<close>

definition check_refusal_target ::
  "'z env_scheme \<Rightarrow> Record \<Rightarrow> RefusalData \<Rightarrow> State \<Rightarrow> Record \<Rightarrow> ReasonCode option" where
  "check_refusal_target E r d s t =
     (case rfs_target_kind d of
        RefAction \<Rightarrow>
          first_reason
            [reject_if (rec_kind t \<noteq> KAction) InvalidPayload,
             reject_if (rfs_target_id d \<notin> st_open_actions s) ActionClosed,
             reject_if (\<not> same_place t r) ActionClosed]
      | RefRequest \<Rightarrow>
          first_reason
            [reject_if (rec_kind t \<noteq> KRequest) InvalidPayload,
             reject_if (rfs_target_id d \<notin> st_active_requests s) RequestMissing,
             reject_if (\<not> same_place t r) RequestMissing]
      | RefVerifiedEffect \<Rightarrow>
          first_reason
            [reject_if (rec_kind t \<noteq> KResult
                        \<or> rec_schema t \<noteq> schema_id E SCHEMA_RESULT_EFFECT_CONFIRMATION)
               InvalidPayload,
             reject_if (rfs_target_id d \<notin> st_accepted_records s) InvalidPayload,
             reject_if (\<not> same_place t r) InvalidPayload])"

definition check_refusal ::
  "'z env_scheme \<Rightarrow> Record \<Rightarrow> Prior \<Rightarrow> State \<Rightarrow> ReasonCode option" where
  "check_refusal E r prior s =
     (case de_refusal E (rec_data r) of None \<Rightarrow> Some InvalidPayload
      | Some d \<Rightarrow>
          first_reason
            [(case prior_find prior (rfs_target_id d) of None \<Rightarrow> Some RequestMissing
              | Some t \<Rightarrow> check_refusal_target E r d s t),
             reject_if (\<not> sole_cause r (rfs_target_id d)) InvalidPayload])"

section \<open>Usage reports and summaries\<close>

definition use_refs :: "Record \<Rightarrow> Ref list" where
  "use_refs r = filter (\<lambda>e. ref_type e = RUse) (rec_refs r)"

definition check_usage ::
  "'z env_scheme \<Rightarrow> Record \<Rightarrow> Prior \<Rightarrow> State \<Rightarrow> ReasonCode option" where
  "check_usage E r prior s =
     (case de_usage E (rec_data r) of None \<Rightarrow> Some InvalidPayload
      | Some d \<Rightarrow>
          first_reason
            [reject_if (usg_actor d \<noteq> au_id (rec_author r)) InvalidPayload,
             reject_if (prior_find prior (usg_used_record d) = None) InvalidPayload,
             (case prior_find prior (usg_consuming_record d) of None \<Rightarrow> Some InvalidPayload
              | Some consuming \<Rightarrow>
                  first_reason
                    [reject_if (usg_consuming_record d \<notin> st_accepted_records s) InvalidPayload,
                     reject_if (rec_kind consuming \<noteq> KResult \<and> rec_kind consuming \<noteq> KRefusal)
                       InvalidPayload,
                     reject_if (rec_thread consuming \<noteq> rec_thread r) InvalidPayload]),
             reject_if (map ref_target (use_refs r) \<noteq> [usg_used_record d]) InvalidPayload])"

definition check_summary ::
  "'z env_scheme \<Rightarrow> Record \<Rightarrow> VerifierRules \<Rightarrow> ReasonCode option" where
  "check_summary E r R =
     (case de_summary E (rec_data r) of None \<Rightarrow> Some InvalidPayload
      | Some d \<Rightarrow>
          first_reason
            [reject_if (sum_summary_type d \<notin> vr_allowed_summary_types R) InvalidPayload,
             reject_if (length (use_refs r) = 0) InvalidPayload])"

section \<open>Responses\<close>

definition check_response ::
  "'z env_scheme \<Rightarrow> Record \<Rightarrow> Prior \<Rightarrow> State \<Rightarrow> ReasonCode option" where
  "check_response E r prior s =
     (case de_response E (rec_data r) of None \<Rightarrow> Some InvalidPayload
      | Some d \<Rightarrow>
          let q = rsp_request_id d;
              expected_turn = Mapping.lookup_default 0 (st_response_turns s) q
          in first_reason
               [reject_if (q \<notin> st_active_requests s) RequestMissing,
                (case prior_find prior q of None \<Rightarrow> Some RequestMissing
                 | Some request \<Rightarrow> reject_if (\<not> same_place request r) RequestMissing),
                reject_if (expected_turn = - 1 \<or> rsp_turn_index d \<noteq> expected_turn) InvalidPayload,
                reject_if (rsp_closes_request d
                           \<and> Mapping.lookup_default 0 (st_request_open_action_count s) q > 0)
                  InvalidPayload,
                reject_if (rsp_closes_request d \<and> has_key (st_active_plans s) q) InvalidPayload])"

end
