(* ===== verification/Plans.thy ===== *)
theory Plans
  imports Lifecycle
begin

text \<open>
  The plan, retraction and approval rules of \<open>src/src/verify/verifier/plans.rs\<close>, with the
  cycle test (Kahn's algorithm).

  \<open>in_degree\<close> and \<open>adj\<close> are hash maps; the initial queue is collected from \<open>in_degree\<close> in
  whatever order the hash map iterates.  The model collects it in task order, and the correctness
  theorem is proved for any order of the queue.
\<close>

section \<open>The cycle test\<close>

record KahnState =
  kn_in_degree :: "(string, nat) mapping"
  kn_adj :: "(string, string list) mapping"

definition kahn_edge :: "string \<Rightarrow> string \<Rightarrow> KahnState \<Rightarrow> KahnState" where
  "kahn_edge tid dep k =
     \<lparr>kn_in_degree = Mapping.update tid (Mapping.lookup_default 0 (kn_in_degree k) tid + 1)
                       (kn_in_degree k),
      kn_adj = Mapping.update dep (Mapping.lookup_default [] (kn_adj k) dep @ [tid]) (kn_adj k)\<rparr>"

definition kahn_task :: "PlanTask \<Rightarrow> KahnState \<Rightarrow> KahnState" where
  "kahn_task t k =
     fold (kahn_edge (tsk_id t)) (tsk_depends_on t)
       \<lparr>kn_in_degree = Mapping.default (tsk_id t) 0 (kn_in_degree k),
        kn_adj = Mapping.default (tsk_id t) [] (kn_adj k)\<rparr>"

definition kahn_build :: "PlanTask list \<Rightarrow> KahnState" where
  "kahn_build tasks = fold kahn_task tasks \<lparr>kn_in_degree = Mapping.empty, kn_adj = Mapping.empty\<rparr>"

definition kahn_queue :: "PlanTask list \<Rightarrow> (string, nat) mapping \<Rightarrow> string list" where
  "kahn_queue tasks deg =
     filter (\<lambda>i. Mapping.lookup deg i = Some 0) (remdups (map tsk_id tasks))"

fun kahn_relax ::
  "string list \<Rightarrow> (string, nat) mapping \<Rightarrow> string list \<Rightarrow> (string, nat) mapping \<times> string list" where
  "kahn_relax [] deg queue = (deg, queue)"
| "kahn_relax (nb # nbs) deg queue =
     (case Mapping.lookup deg nb of None \<Rightarrow> kahn_relax nbs deg queue
      | Some d \<Rightarrow>
          let d' = d - 1
          in kahn_relax nbs (Mapping.update nb d' deg) (if d' = 0 then queue @ [nb] else queue))"

text \<open>
  The \<open>while let Some(id) = queue.pop_front()\<close> loop with its counter of visited nodes.  A node
  enters the queue when its degree becomes zero, so the loop runs at most once per task; the fuel
  is the number of tasks plus one.
\<close>

fun kahn_loop ::
  "nat \<Rightarrow> (string, string list) mapping \<Rightarrow> (string, nat) mapping \<Rightarrow> string list \<Rightarrow> nat \<Rightarrow> nat" where
  "kahn_loop 0 adj deg queue visited = visited"
| "kahn_loop (Suc n) adj deg [] visited = visited"
| "kahn_loop (Suc n) adj deg (i # queue) visited =
     (case kahn_relax (Mapping.lookup_default [] adj i) deg queue of
        (deg', queue') \<Rightarrow> kahn_loop n adj deg' queue' (visited + 1))"

definition has_cycle :: "PlanTask list \<Rightarrow> bool" where
  "has_cycle tasks \<longleftrightarrow>
     (let k = kahn_build tasks
      in kahn_loop (Suc (length tasks)) (kn_adj k) (kn_in_degree k)
           (kahn_queue tasks (kn_in_degree k)) 0 \<noteq> length tasks)"

section \<open>Plans\<close>

definition check_task_result ::
  "'z env_scheme \<Rightarrow> Record \<Rightarrow> PlanData \<Rightarrow> Prior \<Rightarrow> State \<Rightarrow> PlanTask \<Rightarrow> ReasonCode option" where
  "check_task_result E r d prior s task =
     (case tsk_result_record_id task of None \<Rightarrow> None
      | Some result_id \<Rightarrow>
          if \<not> (tsk_status task = TaskDone \<or> tsk_status task = TaskFailed) then Some InvalidPayload
          else (case prior_find prior result_id of None \<Rightarrow> Some InvalidPayload
            | Some rr \<Rightarrow>
                if rec_kind rr \<noteq> KResult \<or> result_id \<notin> st_accepted_records s \<or> \<not> same_place rr r
                then Some InvalidPayload
                else (case de_result E (rec_data rr) of None \<Rightarrow> Some InvalidPayload
                  | Some rd \<Rightarrow>
                      (case prior_find prior (rst_action_id rd) of None \<Rightarrow> Some InvalidPayload
                       | Some ar \<Rightarrow>
                           (case de_action E (rec_data ar) of None \<Rightarrow> Some InvalidPayload
                            | Some ad \<Rightarrow>
                                reject_if (act_request_id ad \<noteq> pln_request_id d)
                                  InvalidPayload)))))"

definition check_task_ids :: "PlanTask list \<Rightarrow> ReasonCode option" where
  "check_task_ids tasks =
     first_reason
       [reject_if (tasks = []) InvalidPayload,
        reject_if (\<not> distinct (map tsk_id tasks)) InvalidPayload,
        first_reason
          (map (\<lambda>t. reject_if (\<not> set (tsk_depends_on t) \<subseteq> tsk_id ` set tasks
                               \<or> \<not> set (tsk_inputs_from t) \<subseteq> tsk_id ` set tasks) InvalidPayload)
             tasks)]"

definition check_plan_status :: "PlanData \<Rightarrow> ReasonCode option" where
  "check_plan_status d =
     (let statuses = map tsk_status (pln_tasks d);
          any_pending_or_running = list_ex (\<lambda>x. x = TaskPending \<or> x = TaskRunning) statuses;
          all_done = list_all (\<lambda>x. x = TaskDone) statuses;
          all_terminal =
            list_all (\<lambda>x. x = TaskDone \<or> x = TaskFailed \<or> x = TaskSkipped) statuses;
          any_failed_or_skipped = list_ex (\<lambda>x. x = TaskFailed \<or> x = TaskSkipped) statuses
      in case pln_status d of
           PlanRunning \<Rightarrow> reject_if (\<not> any_pending_or_running) InvalidPayload
         | PlanCompleted \<Rightarrow> reject_if (\<not> all_done) InvalidPayload
         | PlanAbandoned \<Rightarrow>
             reject_if (\<not> all_terminal \<or> \<not> any_failed_or_skipped) InvalidPayload)"

definition check_plan ::
  "'z env_scheme \<Rightarrow> Record \<Rightarrow> Prior \<Rightarrow> State \<Rightarrow> ReasonCode option" where
  "check_plan E r prior s =
     (case de_plan E (rec_data r) of None \<Rightarrow> Some InvalidPayload
      | Some d \<Rightarrow>
          first_reason
            [reject_if (\<not> sole_cause r (pln_request_id d)) RequestMissing,
             reject_if (pln_request_id d \<notin> st_active_requests s) RequestMissing,
             (case prior_find prior (pln_request_id d) of None \<Rightarrow> Some RequestMissing
              | Some request \<Rightarrow> reject_if (\<not> same_place request r) RequestMissing),
             check_task_ids (pln_tasks d),
             first_reason (map (check_task_result E r d prior s) (pln_tasks d)),
             reject_if (has_cycle (pln_tasks d)) InvalidPayload,
             check_plan_status d])"

section \<open>Retractions and approvals\<close>

definition check_retraction ::
  "'z env_scheme \<Rightarrow> Record \<Rightarrow> Prior \<Rightarrow> VerifierRules \<Rightarrow> State \<Rightarrow> ReasonCode option" where
  "check_retraction E r prior R s =
     (case de_retraction E (rec_data r) of None \<Rightarrow> Some InvalidPayload
      | Some d \<Rightarrow>
          first_reason
            [reject_if (\<not> sole_cause r (rtr_target_id d)) InvalidPayload,
             (case prior_find prior (rtr_target_id d) of None \<Rightarrow> Some RefUnresolved
              | Some target \<Rightarrow>
                  first_reason
                    [reject_if (rtr_target_id d \<notin> st_accepted_records s) InvalidPayload,
                     reject_if (rec_kind target = KVerdict \<or> rec_kind target = KRetraction)
                       InvalidPayload,
                     reject_if (au_id (rec_author r) \<noteq> au_id (rec_author target)
                                \<and> au_id (rec_author r) \<notin> vr_admin_retraction_actors R)
                       AuthorRoleInvalid])])"

definition check_approval :: "'z env_scheme \<Rightarrow> Record \<Rightarrow> ReasonCode option" where
  "check_approval E r =
     (case de_approval E (rec_data r) of None \<Rightarrow> Some InvalidPayload
      | Some d \<Rightarrow>
          first_reason
            [reject_if ((apr_target_action d \<noteq> None) = (apr_action_class d \<noteq> None)) InvalidPayload,
             reject_if (apr_target_action d \<noteq> None \<and> apr_actor_id d = None) InvalidPayload])"

end
