(* ===== verification/Evolution.thy ===== *)
theory Evolution
  imports Plans
begin

text \<open>
  The rules of \<open>src/src/verify/verifier/evolution.rs\<close>: candidates with their source binding and
  lineage, evaluations in both shapes, selections with their winner discipline, approval and
  reaffirmation, and requirements.
\<close>

section \<open>Source bindings\<close>

fun oid_hex_len :: "SourceAlgo \<Rightarrow> nat" where
  "oid_hex_len Sha1 = 40"
| "oid_hex_len Sha256 = 64"

definition is_lower_hex :: "string \<Rightarrow> nat \<Rightarrow> bool" where
  "is_lower_hex s len \<longleftrightarrow> length s = len \<and> list_all is_lower_hex_char s"

definition source_binding_well_formed :: "SourceBinding \<Rightarrow> bool" where
  "source_binding_well_formed sb =
     (let len = oid_hex_len (git_algo (sb_git sb))
      in if \<not> is_lower_hex (git_tree (sb_git sb)) len then False
         else if (case git_commit (sb_git sb) of None \<Rightarrow> False | Some c \<Rightarrow> \<not> is_lower_hex c len)
         then False
         else (sb_manifest_hash sb \<noteq> None) = (sb_binding sb = BindManifest))"

definition resolve_candidate ::
  "RecordId \<Rightarrow> Record \<Rightarrow> Prior \<Rightarrow> State \<Rightarrow> ReasonCode + Record" where
  "resolve_candidate i r prior s =
     (case prior_find prior i of
        Some t \<Rightarrow>
          if rec_space t = rec_space r \<and> rec_kind t = KCandidate \<and> rec_id t \<in> st_accepted_records s
          then Inr t else Inl PayloadRefUnresolved
      | None \<Rightarrow> Inl PayloadRefUnresolved)"

definition err_of :: "'e + 'a \<Rightarrow> 'e option" where
  "err_of x = (case x of Inl e \<Rightarrow> Some e | Inr _ \<Rightarrow> None)"

section \<open>Candidates\<close>

fun resolve_causes :: "Prior \<Rightarrow> Ref list \<Rightarrow> Record list option" where
  "resolve_causes prior [] = Some []"
| "resolve_causes prior (e # es) =
     (case prior_find prior (ref_target e) of None \<Rightarrow> None
      | Some t \<Rightarrow> map_option ((#) t) (resolve_causes prior es))"

definition check_root :: "CandidateData \<Rightarrow> State \<Rightarrow> Record list \<Rightarrow> ReasonCode option" where
  "check_root d s causes =
     first_reason
       [reject_if (cnd_parent d \<noteq> None \<or> length causes > 1) LineageInvalid,
        (case causes of [] \<Rightarrow> None
         | c # _ \<Rightarrow>
             reject_if (rec_kind c \<noteq> KRequest \<or> rec_id c \<notin> st_accepted_records s) LineageInvalid)]"

definition selects :: "'z env_scheme \<Rightarrow> bytes \<Rightarrow> RecordId \<Rightarrow> ReasonCode option" where
  "selects E anchor_data parent =
     (case decode_selection E anchor_data of None \<Rightarrow> Some InvalidPayload
      | Some sd \<Rightarrow>
          (case sel_outcome sd of
             Selected candidates \<Rightarrow> reject_if (parent \<notin> set candidates) LineageInvalid
           | NoneSelected \<Rightarrow> Some LineageInvalid))"

definition check_continuation ::
  "'z env_scheme \<Rightarrow> CandidateData \<Rightarrow> VerifierRules \<Rightarrow> State \<Rightarrow> Record list \<Rightarrow> ReasonCode option" where
  "check_continuation E d R s causes =
     (case causes of
        [anchor] \<Rightarrow>
          first_reason
            [reject_if (rec_kind anchor \<noteq> KSelection \<or> rec_id anchor \<notin> st_accepted_records s)
               LineageInvalid,
             reject_if (vr_reject_compromised_continuation R
                        \<and> (rec_id anchor \<in> st_retracted_records s
                           \<or> rec_id anchor \<in> st_tainted_records s)) LineageInvalid,
             (case cnd_parent d of None \<Rightarrow> Some LineageInvalid
              | Some parent \<Rightarrow> selects E (rec_data anchor) parent)]
      | _ \<Rightarrow> Some LineageInvalid)"

definition check_derivation :: "CandidateData \<Rightarrow> State \<Rightarrow> Record list \<Rightarrow> ReasonCode option" where
  "check_derivation d s causes =
     first_reason
       [reject_if (cnd_parent d \<noteq> None \<or> causes = []) LineageInvalid,
        first_reason
          (map (\<lambda>c. first_reason
                      [reject_if (rec_id c \<notin> st_accepted_records s) LineageInvalid,
                       reject_if (\<not> (rec_kind c = KCandidate \<or> rec_kind c = KEvaluation))
                         LineageInvalid]) causes)]"

definition check_candidate ::
  "'z env_scheme \<Rightarrow> Record \<Rightarrow> Prior \<Rightarrow> VerifierRules \<Rightarrow> State \<Rightarrow> ReasonCode option" where
  "check_candidate E r prior R s =
     (case de_candidate E (rec_data r) of None \<Rightarrow> Some InvalidPayload
      | Some d \<Rightarrow>
          first_reason
            [reject_if (\<not> source_binding_well_formed (cnd_source d)) SourceBindingInvalid,
             (case cnd_artifacts d of None \<Rightarrow> None
              | Some as \<Rightarrow> reject_if (\<not> artifact_refs_well_formed as) ArtifactRefInvalid),
             (case cnd_parent d of None \<Rightarrow> None
              | Some parent \<Rightarrow> err_of (resolve_candidate parent r prior s)),
             (case resolve_causes prior (cause_refs r) of None \<Rightarrow> Some RefUnresolved
              | Some causes \<Rightarrow>
                  (case cnd_basis d of
                     Root \<Rightarrow> check_root d s causes
                   | Continuation \<Rightarrow> check_continuation E d R s causes
                   | Derivation \<Rightarrow> check_derivation d s causes))])"

section \<open>Evaluations\<close>

definition uses :: "Record \<Rightarrow> RecordId \<Rightarrow> bool" where
  "uses r target \<longleftrightarrow> list_ex (\<lambda>e. ref_type e = RUse \<and> ref_target e = target) (rec_refs r)"

definition check_requirement_binding ::
  "Record \<Rightarrow> Prior \<Rightarrow> State \<Rightarrow> RecordId \<Rightarrow> ReasonCode option" where
  "check_requirement_binding r prior s rid =
     first_reason
       [(case prior_find prior rid of None \<Rightarrow> Some EvaluationInvalid
         | Some t \<Rightarrow>
             reject_if (\<not> (rec_kind t = KRequirement \<and> rec_space t = rec_space r
                           \<and> rec_id t \<in> st_accepted_records s)) EvaluationInvalid),
        reject_if (\<not> uses r rid) EvaluationInvalid]"

definition check_evaluation_v2 ::
  "'z env_scheme \<Rightarrow> Record \<Rightarrow> Prior \<Rightarrow> VerifierRules \<Rightarrow> State \<Rightarrow> ReasonCode option" where
  "check_evaluation_v2 E r prior R s =
     (case decode_evaluation_v2 E (rec_data r) of None \<Rightarrow> Some InvalidPayload
      | Some d \<Rightarrow>
          first_reason
            [(if rec_schema r = schema_id E SCHEMA_EVALUATION_ATTESTED
              then first_reason
                     [reject_if (au_signature (rec_author r) = None) SignatureMissing,
                      reject_if (\<not> has_key (vr_author_keys R) (au_id (rec_author r)))
                        SignatureInvalid]
              else None),
             err_of (resolve_candidate (ev2_candidate d) r prior s),
             reject_if (\<not> uses r (ev2_candidate d)) EvaluationInvalid,
             reject_if (db_id (ev2_evaluator d) = []) EvaluationInvalid,
             reject_if (\<not> artifact_refs_well_formed (ev2_evidence d)) ArtifactRefInvalid,
             reject_if (\<not> windows_less (ev2_requirements d)) EvaluationInvalid,
             first_reason (map (check_requirement_binding r prior s) (ev2_requirements d))])"

definition check_evaluation ::
  "'z env_scheme \<Rightarrow> Record \<Rightarrow> Prior \<Rightarrow> VerifierRules \<Rightarrow> State \<Rightarrow> ReasonCode option" where
  "check_evaluation E r prior R s =
     (if rec_schema r = schema_id E SCHEMA_EVALUATION_V2
         \<or> rec_schema r = schema_id E SCHEMA_EVALUATION_ATTESTED
      then check_evaluation_v2 E r prior R s
      else (case decode_evaluation E (rec_data r) of None \<Rightarrow> Some InvalidPayload
        | Some d \<Rightarrow>
            first_reason
              [err_of (resolve_candidate (evl_candidate d) r prior s),
               reject_if (\<not> uses r (evl_candidate d)) EvaluationInvalid]))"

section \<open>Selections\<close>

definition resolve_selection_approval ::
  "'z env_scheme \<Rightarrow> Record \<Rightarrow> SelectionData \<Rightarrow> Prior \<Rightarrow> VerifierRules \<Rightarrow> State
     \<Rightarrow> ReasonCode + RecordId option" where
  "resolve_selection_approval E r d prior R s =
     (if \<not> vr_selection_requires_approval R then Inr None
      else (case selection_approval_subject_hash E (au_id (rec_author r))
                   (find_replace_ref (rec_refs r)) d of None \<Rightarrow> Inl InvalidPayload
        | Some subject_hash \<Rightarrow>
            (case Mapping.lookup (st_valid_approvals s) subject_hash of None \<Rightarrow> Inl ApprovalMissing
             | Some approval_id \<Rightarrow>
                 if \<not> requires (rec_refs r) approval_id then Inl ApprovalMissing
                 else if \<not> reliable s approval_id then Inl ApprovalMissing
                 else (case prior_find prior approval_id of None \<Rightarrow> Inl ApprovalMissing
                   | Some approval_record \<Rightarrow>
                       (case de_approval E (rec_data approval_record) of None \<Rightarrow> Inl InvalidPayload
                        | Some a \<Rightarrow>
                            if apr_actor_id a \<noteq> Some (au_id (rec_author r)) then Inl ApprovalMissing
                            else if expired (rec_time r) (apr_expiry a) then Inl ApprovalExpired
                            else Inr (Some approval_id))))))"

text \<open>The accepted evaluations a selection uses, in the order of its references.\<close>

definition used_evaluations :: "Record \<Rightarrow> Prior \<Rightarrow> State \<Rightarrow> Record list" where
  "used_evaluations r prior s =
     List.map_filter
       (\<lambda>e. case prior_find prior (ref_target e) of None \<Rightarrow> None
            | Some t \<Rightarrow> if rec_kind t = KEvaluation \<and> rec_id t \<in> st_accepted_records s
                        then Some t else None)
       (use_refs r)"

definition check_used_evaluation ::
  "'z env_scheme \<Rightarrow> RecordId set \<Rightarrow> Record \<Rightarrow> ReasonCode option" where
  "check_used_evaluation E considered t =
     (case evaluation_summary E (rec_schema t) (rec_data t) of None \<Rightarrow> Some InvalidPayload
      | Some (subject, _, _) \<Rightarrow> reject_if (subject \<notin> considered) SelectionInvalid)"

definition check_winner_binding ::
  "'z env_scheme \<Rightarrow> Prior \<Rightarrow> RecordId \<Rightarrow> ReasonCode option" where
  "check_winner_binding E prior c =
     (case prior_find prior c of None \<Rightarrow> Some SelectionInvalid
      | Some t \<Rightarrow> (case de_candidate E (rec_data t) of None \<Rightarrow> Some InvalidPayload
          | Some cd \<Rightarrow> reject_if (sb_binding (cnd_source cd) \<noteq> BindManifest) SelectionInvalid))"

definition check_winners ::
  "'z env_scheme \<Rightarrow> SelectionData \<Rightarrow> Prior \<Rightarrow> VerifierRules \<Rightarrow> nat \<Rightarrow> RecordId list
     \<Rightarrow> ReasonCode option" where
  "check_winners E d prior R n_used candidates =
     first_reason
       [reject_if (candidates = [] \<or> \<not> distinct candidates
                   \<or> \<not> set candidates \<subseteq> set (sel_considered d)) SelectionInvalid,
        (if vr_min_binding R = BindManifest
         then first_reason (map (check_winner_binding E prior) (sorted_list_of_set (set candidates)))
         else None),
        reject_if (vr_selection_requires_evaluation R \<and> n_used = 0) SelectionInvalid]"

fun winners :: "SelectionOutcome \<Rightarrow> RecordId set" where
  "winners (Selected candidates) = set candidates"
| "winners NoneSelected = {}"

definition check_reaffirmation ::
  "'z env_scheme \<Rightarrow> Record \<Rightarrow> SelectionData \<Rightarrow> Prior \<Rightarrow> VerifierRules \<Rightarrow> ReasonCode option" where
  "check_reaffirmation E r d prior R =
     (case find_replace_ref (rec_refs r) of None \<Rightarrow> None
      | Some target_id \<Rightarrow>
          first_reason
            [(case prior_find prior target_id of None \<Rightarrow> None
              | Some target \<Rightarrow>
                  (case decode_selection E (rec_data target) of None \<Rightarrow> Some InvalidPayload
                   | Some td \<Rightarrow>
                       reject_if (sel_objective td \<noteq> sel_objective d) ReaffirmationInvalid)),
             reject_if (vr_reaffirmation_actors R \<noteq> {}
                        \<and> au_id (rec_author r) \<notin> vr_reaffirmation_actors R) ReaffirmationInvalid])"

definition require_targets :: "Record \<Rightarrow> RecordId set" where
  "require_targets r = set (map ref_target (filter (\<lambda>e. ref_type e = RRequire) (rec_refs r)))"

definition check_selection ::
  "'z env_scheme \<Rightarrow> Record \<Rightarrow> Prior \<Rightarrow> VerifierRules \<Rightarrow> State \<Rightarrow> ReasonCode option" where
  "check_selection E r prior R s =
     (case decode_selection E (rec_data r) of None \<Rightarrow> Some InvalidPayload
      | Some d \<Rightarrow>
          let used = used_evaluations r prior s
          in first_reason
               [reject_if (sel_considered d = []
                           \<or> int (length (sel_considered d)) > uint (vr_max_considered R))
                  SelectionInvalid,
                reject_if (\<not> distinct (sel_considered d)) SelectionInvalid,
                first_reason (map (\<lambda>c. err_of (resolve_candidate c r prior s)) (sel_considered d)),
                first_reason (map (check_used_evaluation E (set (sel_considered d))) used),
                (case sel_outcome d of
                   Selected candidates \<Rightarrow> check_winners E d prior R (length used) candidates
                 | NoneSelected \<Rightarrow> None),
                (case resolve_selection_approval E r d prior R s of
                   Inl reason \<Rightarrow> Some reason
                 | Inr approval \<Rightarrow>
                     reject_if (require_targets r \<noteq> winners (sel_outcome d) \<union> set_option approval)
                       SelectionInvalid),
                check_reaffirmation E r d prior R])"

section \<open>Requirements\<close>

fun provenance_ok :: "Provenance \<Rightarrow> AuthorType \<Rightarrow> bool" where
  "provenance_ok UserAuthored t \<longleftrightarrow> t = AUser"
| "provenance_ok Derived t \<longleftrightarrow> t = AProvider \<or> t = ASystem"

definition check_requirement ::
  "'z env_scheme \<Rightarrow> Record \<Rightarrow> Prior \<Rightarrow> State \<Rightarrow> ReasonCode option" where
  "check_requirement E r prior s =
     (case de_requirement E (rec_data r) of None \<Rightarrow> Some InvalidPayload
      | Some d \<Rightarrow>
          first_reason
            [reject_if (rqm_key d = [] \<or> rqm_description d = []) RequirementInvalid,
             reject_if (\<not> provenance_ok (rqm_provenance d) (au_type (rec_author r)))
               AuthorRoleInvalid,
             (case map ref_target (cause_refs r) of
                [request_id] \<Rightarrow>
                  (case prior_find prior request_id of None \<Rightarrow> Some RequirementInvalid
                   | Some request \<Rightarrow>
                       first_reason
                         [reject_if (rec_kind request \<noteq> KRequest
                                     \<or> request_id \<notin> st_accepted_records s
                                     \<or> \<not> same_place request r) RequirementInvalid,
                          reject_if (rqm_key d \<in>
                                       Mapping.lookup_default {} (st_requirement_keys s) request_id)
                            RequirementInvalid])
              | _ \<Rightarrow> Some RequirementInvalid)])"

end
