(* ===== verification/Record_Checks.thy ===== *)
theory Record_Checks
  imports Evolution
begin

text \<open>
  \<open>src/src/verify/verifier/record_checks.rs\<close>: \<open>verify_record\<close> and the battery of checks
  \<open>check_record\<close> runs over a record, in the order of the source and grouped by the blocks of its
  body, with \<open>check_kind_specific\<close> of \<open>activity.rs\<close>.
\<close>

section \<open>Kind-specific rules\<close>

definition check_kind_specific ::
  "'z env_scheme \<Rightarrow> Record \<Rightarrow> Prior \<Rightarrow> VerifierRules \<Rightarrow> State \<Rightarrow> ReasonCode option" where
  "check_kind_specific E r prior R s =
     (case rec_kind r of
        KRequest \<Rightarrow> check_request E r prior s
      | KAction \<Rightarrow> check_action E r prior s
      | KResult \<Rightarrow> check_result E r prior R s
      | KRefusal \<Rightarrow> check_refusal E r prior s
      | KUsage \<Rightarrow> check_usage E r prior s
      | KSummary \<Rightarrow> check_summary E r R
      | KResponse \<Rightarrow> check_response E r prior s
      | KApproval \<Rightarrow> check_approval E r
      | KPlan \<Rightarrow> check_plan E r prior s
      | KRetraction \<Rightarrow> check_retraction E r prior R s
      | KCapability \<Rightarrow> None
      | KVerdict \<Rightarrow> None
      | KCandidate \<Rightarrow> check_candidate E r prior R s
      | KEvaluation \<Rightarrow> check_evaluation E r prior R s
      | KSelection \<Rightarrow> check_selection E r prior R s
      | KRequirement \<Rightarrow> check_requirement E r prior s)"

section \<open>The blocks of check_record\<close>

definition check_envelope :: "'z crates_scheme \<Rightarrow> Record \<Rightarrow> VerifierRules \<Rightarrow> ReasonCode option" where
  "check_envelope C r R =
     first_reason
       [reject_if (compute_id C r \<noteq> Some (rec_id r)) InvalidPayload,
        reject_if (\<not> windows_less (map ref_key (rec_refs r))) InvalidPayload,
        reject_if (rec_space r \<noteq> vr_space R) InvalidPayload,
        (case Mapping.lookup (vr_kind_schema_map R) (rec_schema r) of None \<Rightarrow> Some UnknownSchema
         | Some expected_kind \<Rightarrow> reject_if (rec_kind r \<noteq> expected_kind) KindSchemaMismatch)]"

definition check_author_role :: "Record \<Rightarrow> VerifierRules \<Rightarrow> ReasonCode option" where
  "check_author_role r R =
     first_reason
       [reject_if (au_type (rec_author r) \<notin> set (allowed_author_types (rec_kind r)))
          AuthorRoleInvalid,
        (case Mapping.lookup (vr_author_roles R) (au_id (rec_author r)) of
           Some role \<Rightarrow> reject_if (au_type (rec_author r) \<noteq> role) AuthorRoleInvalid
         | None \<Rightarrow> reject_if (requires_registered_author (rec_kind r)) AuthorRoleInvalid)]"

definition check_signature :: "'z crates_scheme \<Rightarrow> Record \<Rightarrow> VerifierRules \<Rightarrow> ReasonCode option" where
  "check_signature C r R =
     (let actor = au_id (rec_author r);
          sig_required = (rec_kind r \<in> vr_signature_required_kinds R
                          \<or> has_key (vr_author_keys R) actor)
      in first_reason
           [reject_if (sig_required \<and> au_signature (rec_author r) = None) SignatureMissing,
            (if au_signature (rec_author r) = None then None
             else (case verified_key C r of None \<Rightarrow> Some SignatureInvalid
               | Some key \<Rightarrow>
                   (case Mapping.lookup (vr_author_keys R) actor of None \<Rightarrow> None
                    | Some allowed \<Rightarrow> reject_if (key \<notin> allowed) SignatureInvalid)))])"

definition check_ref :: "Record \<Rightarrow> Prior \<Rightarrow> State \<Rightarrow> Ref \<Rightarrow> ReasonCode option" where
  "check_ref r prior s e =
     (case prior_find prior (ref_target e) of None \<Rightarrow> Some RefUnresolved
      | Some t \<Rightarrow>
          first_reason
            [reject_if (rec_space t \<noteq> rec_space r) RefCrossSpace,
             reject_if (ref_type e = RRequire \<and> \<not> reliable s (rec_id t)) RefUnresolved])"

definition check_refs :: "Record \<Rightarrow> Prior \<Rightarrow> State \<Rightarrow> ReasonCode option" where
  "check_refs r prior s = first_reason (map (check_ref r prior s) (rec_refs r))"

definition compatible_pair ::
  "(bytes \<Rightarrow> 'a option) \<Rightarrow> ('a \<Rightarrow> 'a \<Rightarrow> bool) \<Rightarrow> Record \<Rightarrow> Record \<Rightarrow> ReasonCode option" where
  "compatible_pair de ok r target =
     (case de (rec_data r) of None \<Rightarrow> Some InvalidPayload
      | Some new_data \<Rightarrow>
          (case de (rec_data target) of None \<Rightarrow> Some InvalidPayload
           | Some old_data \<Rightarrow> reject_if (\<not> ok new_data old_data) ReplacementInvalid))"

definition approvals_compatible :: "ApprovalData \<Rightarrow> ApprovalData \<Rightarrow> bool" where
  "approvals_compatible new old =
     (if apr_target_action new \<noteq> None \<and> apr_target_action old \<noteq> None
      then apr_scope new = apr_scope old \<and> apr_target_action new = apr_target_action old
      else if apr_action_class new \<noteq> None \<and> apr_action_class old \<noteq> None
      then apr_action_class new = apr_action_class old \<and> apr_scope new = apr_scope old
           \<and> apr_actor_id new = apr_actor_id old
      else False)"

definition check_replacement_compatibility ::
  "'z env_scheme \<Rightarrow> Record \<Rightarrow> Record \<Rightarrow> ReasonCode option" where
  "check_replacement_compatibility E r target =
     (case rec_kind r of
        KCapability \<Rightarrow>
          compatible_pair (de_capability E)
            (\<lambda>n d. cap_actor_id n = cap_actor_id d \<and> cap_action_class n = cap_action_class d
                   \<and> cap_scope n = cap_scope d) r target
      | KApproval \<Rightarrow> compatible_pair (de_approval E) approvals_compatible r target
      | KSummary \<Rightarrow>
          compatible_pair (de_summary E)
            (\<lambda>n d. sum_summary_type n = sum_summary_type d \<and> sum_subject n = sum_subject d
                   \<and> sum_scope n = sum_scope d) r target
      | KPlan \<Rightarrow>
          compatible_pair (de_plan E) (\<lambda>n d. pln_request_id n = pln_request_id d) r target
      | _ \<Rightarrow> None)"

definition replaceable_kind :: "Kind \<Rightarrow> bool" where
  "replaceable_kind k \<longleftrightarrow> k \<in> {KSummary, KCapability, KApproval, KPlan, KSelection}"

definition check_replacement ::
  "'z env_scheme \<Rightarrow> Record \<Rightarrow> Prior \<Rightarrow> State \<Rightarrow> ReasonCode option" where
  "check_replacement E r prior s =
     (case filter (\<lambda>e. ref_type e = RReplace) (rec_refs r) of
        [] \<Rightarrow> None
      | [replace_ref] \<Rightarrow>
          if \<not> replaceable_kind (rec_kind r) then Some ReplacementInvalid
          else (case prior_find prior (ref_target replace_ref) of None \<Rightarrow> Some ReplacementInvalid
            | Some t \<Rightarrow>
                first_reason
                  [reject_if (rec_id t \<notin> st_accepted_records s) ReplacementInvalid,
                   reject_if (rec_kind t \<noteq> rec_kind r) ReplacementInvalid,
                   check_replacement_compatibility E r t])
      | _ \<Rightarrow> Some InvalidPayload)"

definition expected_evidence :: "'z crates_scheme \<Rightarrow> Record \<Rightarrow> Prior \<Rightarrow> State \<Rightarrow> Evidence" where
  "expected_evidence C r prior s =
     derive_evidence C (rec_schema r)
       (List.map_filter
          (\<lambda>e. Option.bind (prior_find prior (ref_target e)) (\<lambda>t. ref_evidence s e t)) (rec_refs r))"

definition check_evidence ::
  "'z crates_scheme \<Rightarrow> Record \<Rightarrow> Prior \<Rightarrow> VerifierRules \<Rightarrow> State \<Rightarrow> ReasonCode option" where
  "check_evidence C r prior R s =
     (let expected = expected_evidence C r prior s
      in first_reason
           [reject_if (rec_evidence r \<noteq> expected) InvalidPayload,
            (case Mapping.lookup (vr_evidence_thresholds R) (rec_kind r) of None \<Rightarrow> None
             | Some threshold \<Rightarrow> reject_if (expected > threshold) EvidenceBelowThreshold)])"

definition payload_canonical :: "'z env_scheme \<Rightarrow> string \<Rightarrow> bytes \<Rightarrow> bool" where
  "payload_canonical E name data =
     (if name = SCHEMA_REQUEST then decodes_canonically E (de_request E) request_json data
      else if name = SCHEMA_ACTION then decodes_canonically E (de_action E) action_json data
      else if name = SCHEMA_RESPONSE then decodes_canonically E (de_response E) response_json data
      else if name \<in> {SCHEMA_RESULT, SCHEMA_RESULT_EXTERNAL, SCHEMA_RESULT_EFFECT_CONFIRMATION}
      then decodes_canonically E (de_result E) result_json data
      else if name = SCHEMA_CAPABILITY
      then decodes_canonically E (de_capability E) capability_json data
      else if name = SCHEMA_APPROVAL then decodes_canonically E (de_approval E) approval_json data
      else if name = SCHEMA_SUMMARY then decodes_canonically E (de_summary E) summary_json data
      else if name = SCHEMA_REFUSAL then decodes_canonically E (de_refusal E) refusal_json data
      else if name = SCHEMA_USAGE then decodes_canonically E (de_usage E) usage_json data
      else if name = SCHEMA_VERDICT then decodes_canonically E (de_verdict E) verdict_json data
      else if name = SCHEMA_PLAN then decodes_canonically E (de_plan E) plan_json data
      else if name = SCHEMA_RETRACTION
      then decodes_canonically E (de_retraction E) retraction_json data
      else if name = SCHEMA_CANDIDATE
      then decodes_canonically E (de_candidate E) candidate_json data
      else if name = SCHEMA_EVALUATION
      then decodes_canonically E (decode_evaluation E) evaluation_json data
      else if name = SCHEMA_SELECTION
      then decodes_canonically E (decode_selection E) selection_json data
      else if name = SCHEMA_REQUIREMENT
      then decodes_canonically E (de_requirement E) requirement_json data
      else decodes_canonically E (decode_evaluation_v2 E) evaluation_v2_json data)"

text \<open>
  The guards of \<open>check_payload_decode\<close> compare the record's schema with the id of each schema
  name in turn; the names come in the order of this list.
\<close>

definition decode_order :: "string list" where
  "decode_order =
     [SCHEMA_REQUEST, SCHEMA_ACTION, SCHEMA_RESPONSE, SCHEMA_RESULT, SCHEMA_RESULT_EXTERNAL,
      SCHEMA_RESULT_EFFECT_CONFIRMATION, SCHEMA_CAPABILITY, SCHEMA_APPROVAL, SCHEMA_SUMMARY,
      SCHEMA_REFUSAL, SCHEMA_USAGE, SCHEMA_VERDICT, SCHEMA_PLAN, SCHEMA_RETRACTION,
      SCHEMA_CANDIDATE, SCHEMA_EVALUATION, SCHEMA_SELECTION, SCHEMA_REQUIREMENT,
      SCHEMA_EVALUATION_V2, SCHEMA_EVALUATION_ATTESTED]"

definition check_payload_decode :: "'z env_scheme \<Rightarrow> Record \<Rightarrow> ReasonCode option" where
  "check_payload_decode E r =
     (case List.find (\<lambda>n. rec_schema r = schema_id E n) decode_order of None \<Rightarrow> Some UnknownSchema
      | Some n \<Rightarrow> reject_if (\<not> payload_canonical E n (rec_data r)) InvalidPayload)"

section \<open>check_record and verify_record\<close>

definition check_record ::
  "'z env_scheme \<Rightarrow> Record \<Rightarrow> Prior \<Rightarrow> VerifierRules \<Rightarrow> State \<Rightarrow> ReasonCode option" where
  "check_record E r prior R s =
     (if rec_kind r = KVerdict then check_verdict_record E r prior R
      else first_reason
             [check_envelope E r R,
              check_author_role r R,
              check_signature E r R,
              check_refs r prior s,
              check_replacement E r prior s,
              check_evidence E r prior R s,
              check_payload_decode E r,
              check_kind_specific E r prior R s])"

definition verdict_of :: "ReasonCode option \<Rightarrow> VerdictData" where
  "verdict_of reason =
     (case reason of Some c \<Rightarrow> \<lparr>vd_result = Reject, vd_reason = Some c\<rparr>
      | None \<Rightarrow> \<lparr>vd_result = Accept, vd_reason = None\<rparr>)"

definition verify_record ::
  "'z env_scheme \<Rightarrow> Record \<Rightarrow> Record list \<Rightarrow> VerifierRules \<Rightarrow> State \<Rightarrow> VerdictData" where
  "verify_record E r prior R s = verdict_of (check_record E r (view (index_of prior) prior) R s)"

section \<open>Lemmas\<close>

lemma verdict_of_Accept_iff [simp]: "vd_result (verdict_of x) = Accept \<longleftrightarrow> x = None"
  by (simp add: verdict_of_def split: option.splits)

lemma vd_reason_verdict_of [simp]: "vd_reason (verdict_of x) = x"
  by (simp add: verdict_of_def split: option.splits)

lemma check_record_None:
  assumes "check_record E r prior R s = None" "rec_kind r \<noteq> KVerdict"
  shows "check_envelope E r R = None" "check_author_role r R = None" "check_signature E r R = None"
    "check_refs r prior s = None" "check_replacement E r prior s = None"
    "check_evidence E r prior R s = None" "check_payload_decode E r = None"
    "check_kind_specific E r prior R s = None"
  using assms by (simp_all add: check_record_def)

lemma check_refs_None:
  assumes "check_refs r prior s = None" "e \<in> set (rec_refs r)"
  obtains t where "prior_find prior (ref_target e) = Some t" "rec_space t = rec_space r"
    "ref_type e = RRequire \<Longrightarrow> reliable s (rec_id t)"
proof -
  from assms have "check_ref r prior s e = None" by (simp add: check_refs_def)
  then show thesis by (auto simp: check_ref_def split: option.splits intro: that)
qed

end
