(* ===== verification/Build.thy ===== *)
theory Build
  imports Incremental
begin

text \<open>
  \<open>src/src/state/build.rs\<close>: the state of a log whose stored verdicts are trusted.
  (\<open>verify_and_build_state\<close>, which replays first, is in theory \<open>Replay\<close>.)
\<close>

fun build_verdict_map ::
  "'z env_scheme \<Rightarrow> Record list \<Rightarrow> (RecordId, VerdictData) mapping
     \<Rightarrow> (RecordId, VerdictData) mapping option" where
  "build_verdict_map E [] m = Some m"
| "build_verdict_map E (r # rs) m =
     (if rec_kind r = KVerdict
      then (case find_cause_ref (rec_refs r) of None \<Rightarrow> build_verdict_map E rs m
        | Some subject_id \<Rightarrow>
            (case de_verdict E (rec_data r) of None \<Rightarrow> None
             | Some d \<Rightarrow> build_verdict_map E rs (Mapping.update subject_id d m)))
      else build_verdict_map E rs m)"

fun apply_all ::
  "'z env_scheme \<Rightarrow> (RecordId, VerdictData) mapping \<Rightarrow> Record list \<Rightarrow> State \<Rightarrow> State option" where
  "apply_all E vm [] s = Some s"
| "apply_all E vm (r # rs) s =
     (if rec_kind r = KVerdict then apply_all E vm rs s
      else (case Mapping.lookup vm (rec_id r) of None \<Rightarrow> apply_all E vm rs s
        | Some v \<Rightarrow>
            (case apply_record E s r v of None \<Rightarrow> None | Some s' \<Rightarrow> apply_all E vm rs s')))"

definition last_time :: "Record list \<Rightarrow> u64" where
  "last_time rs = (if rs = [] then 0 else rec_time (last rs))"

definition build_state_unchecked :: "'z env_scheme \<Rightarrow> Record list \<Rightarrow> State option" where
  "build_state_unchecked E rs =
     (if rs = [] then Some default_state
      else (case build_verdict_map E rs Mapping.empty of None \<Rightarrow> None
        | Some vm \<Rightarrow>
            map_option (\<lambda>s. s\<lparr>st_applied_up_to := last_time rs\<rparr>) (apply_all E vm rs default_state)))"

end
