(* ===== verification/Standing.thy ===== *)
theory Standing
  imports Record_Checks Build
begin

text \<open>
  \<open>src/src/verify/standing.rs\<close>: which candidates still rest on states and decisions that stand.
  Hash maps are mappings, iterated in key order; the result does not depend on that order.  The
  walk along \<open>Replace\<close> chains carries the bound of the source (\<open>guard\<close>); the post-order stack
  loop runs with the fuel \<open>standing_fuel\<close>.
\<close>

record StandingSection =
  sg_compromised :: "RecordId set"
  sg_unsound :: "RecordId set"
  sg_restorations :: "(RecordId, RecordId set) mapping"

record CandInfo =
  ci_basis :: CandidateBasis
  ci_parent :: "RecordId option"
  ci_causes :: "RecordId list"

record SelInfo =
  si_selected :: "RecordId set"
  si_replace_target :: "RecordId option"

type_synonym cand_map = "(RecordId, CandInfo) mapping"
type_synonym sel_map = "(RecordId, SelInfo) mapping"

definition empty_standing :: StandingSection where
  "empty_standing = \<lparr>sg_compromised = {}, sg_unsound = {}, sg_restorations = Mapping.empty\<rparr>"

definition standing_is_empty :: "StandingSection \<Rightarrow> bool" where
  "standing_is_empty g \<longleftrightarrow>
     sg_compromised g = {} \<and> sg_unsound g = {} \<and> Mapping.is_empty (sg_restorations g)"

section \<open>Lineage facts\<close>

definition collect_record ::
  "'z env_scheme \<Rightarrow> State \<Rightarrow> Record \<Rightarrow> cand_map \<times> sel_map \<Rightarrow> cand_map \<times> sel_map" where
  "collect_record E s r = (\<lambda>(cs, ss).
     if rec_id r \<notin> st_accepted_records s then (cs, ss)
     else (case rec_kind r of
        KCandidate \<Rightarrow>
          (case de_candidate E (rec_data r) of None \<Rightarrow> (cs, ss)
           | Some d \<Rightarrow>
               (Mapping.update (rec_id r)
                  \<lparr>ci_basis = cnd_basis d, ci_parent = cnd_parent d,
                   ci_causes = map ref_target (cause_refs r)\<rparr> cs, ss))
      | KSelection \<Rightarrow>
          (case decode_selection E (rec_data r) of None \<Rightarrow> (cs, ss)
           | Some d \<Rightarrow>
               (cs, Mapping.update (rec_id r)
                      \<lparr>si_selected = winners (sel_outcome d),
                       si_replace_target = find_replace_ref (rec_refs r)\<rparr> ss))
      | _ \<Rightarrow> (cs, ss)))"

definition collect_lineage :: "'z env_scheme \<Rightarrow> State \<Rightarrow> Record list \<Rightarrow> cand_map \<times> sel_map" where
  "collect_lineage E s rs = fold (collect_record E s) rs (Mapping.empty, Mapping.empty)"

definition is_unsound :: "State \<Rightarrow> RecordId \<Rightarrow> bool" where
  "is_unsound s i \<longleftrightarrow> i \<in> st_retracted_records s \<or> i \<in> st_tainted_records s"

section \<open>Replacement chains\<close>

fun walk_chain ::
  "nat \<Rightarrow> sel_map \<Rightarrow> RecordId \<Rightarrow> RecordId option \<Rightarrow> (RecordId, RecordId set) mapping
     \<Rightarrow> (RecordId, RecordId set) mapping" where
  "walk_chain 0 ss s2 hop reps = reps"
| "walk_chain (Suc n) ss s2 None reps = reps"
| "walk_chain (Suc n) ss s2 (Some ancestor) reps =
     walk_chain n ss s2 (Option.bind (Mapping.lookup ss ancestor) si_replace_target)
       (Mapping.update ancestor (insert s2 (Mapping.lookup_default {} reps ancestor)) reps)"

definition add_replacer ::
  "State \<Rightarrow> sel_map \<Rightarrow> RecordId \<Rightarrow> (RecordId, RecordId set) mapping \<Rightarrow> (RecordId, RecordId set) mapping"
where
  "add_replacer s ss s2 reps =
     (if is_unsound s s2 then reps
      else walk_chain (Suc (Mapping.size ss)) ss s2
             (Option.bind (Mapping.lookup ss s2) si_replace_target) reps)"

definition compute_replacers :: "State \<Rightarrow> sel_map \<Rightarrow> (RecordId, RecordId set) mapping" where
  "compute_replacers s ss = fold (add_replacer s ss) (Mapping.ordered_keys ss) Mapping.empty"

definition compute_unsound :: "State \<Rightarrow> sel_map \<Rightarrow> RecordId set" where
  "compute_unsound s ss = Set.filter (is_unsound s) (Mapping.keys ss)"

definition compute_restorations ::
  "(RecordId, RecordId set) mapping \<Rightarrow> RecordId set \<Rightarrow> (RecordId, RecordId set) mapping" where
  "compute_restorations reps unsound =
     fold (\<lambda>i m. case Mapping.lookup reps i of None \<Rightarrow> m
                 | Some A \<Rightarrow> if A = {} then m else Mapping.update i A m)
       (sorted_list_of_set unsound) Mapping.empty"

definition anchor_sound ::
  "State \<Rightarrow> sel_map \<Rightarrow> (RecordId, RecordId set) mapping \<Rightarrow> RecordId \<Rightarrow> RecordId \<Rightarrow> bool" where
  "anchor_sound s ss reps anchor parent =
     (if \<not> is_unsound s anchor then True
      else (\<exists>s2 \<in> Mapping.lookup_default {} reps anchor.
              case Mapping.lookup ss s2 of None \<Rightarrow> False | Some i \<Rightarrow> parent \<in> si_selected i))"

section \<open>Standing per candidate\<close>

definition cand_deps :: "cand_map \<Rightarrow> CandInfo \<Rightarrow> RecordId list" where
  "cand_deps cs info =
     (case ci_basis info of
        Root \<Rightarrow> []
      | Continuation \<Rightarrow> (case ci_parent info of None \<Rightarrow> [] | Some p \<Rightarrow> [p])
      | Derivation \<Rightarrow> filter (has_key cs) (ci_causes info))"

definition cand_value ::
  "cand_map \<Rightarrow> (RecordId \<Rightarrow> RecordId \<Rightarrow> bool) \<Rightarrow> (RecordId \<Rightarrow> bool) \<Rightarrow> CandInfo \<Rightarrow> bool" where
  "cand_value cs anchor_ok dep_sound info =
     (case ci_basis info of
        Root \<Rightarrow> True
      | Continuation \<Rightarrow>
          (case (ci_causes info, ci_parent info) of
             (anchor # _, Some parent) \<Rightarrow> anchor_ok anchor parent \<and> dep_sound parent
           | _ \<Rightarrow> False)
      | Derivation \<Rightarrow> list_all dep_sound (cand_deps cs info))"

fun standing_loop ::
  "nat \<Rightarrow> State \<Rightarrow> cand_map \<Rightarrow> (RecordId \<Rightarrow> RecordId \<Rightarrow> bool) \<Rightarrow> (RecordId, bool) mapping
     \<Rightarrow> (RecordId \<times> bool) list \<Rightarrow> (RecordId, bool) mapping" where
  "standing_loop 0 s cs ok sound stack = sound"
| "standing_loop (Suc n) s cs ok sound [] = sound"
| "standing_loop (Suc n) s cs ok sound ((i, deps_done) # stack) =
     (if has_key sound i then standing_loop n s cs ok sound stack
      else (case Mapping.lookup cs i of None \<Rightarrow> standing_loop n s cs ok sound stack
        | Some info \<Rightarrow>
            if i \<in> st_retracted_records s
            then standing_loop n s cs ok (Mapping.update i False sound) stack
            else
              let unresolved = filter (\<lambda>d. \<not> has_key sound d \<and> has_key cs d) (cand_deps cs info)
              in if \<not> deps_done \<and> unresolved \<noteq> []
                 then standing_loop n s cs ok sound
                        (rev (map (\<lambda>d. (d, False)) unresolved) @ (i, True) # stack)
                 else standing_loop n s cs ok
                        (Mapping.update i
                           (cand_value cs ok (\<lambda>d. Mapping.lookup_default False sound d) info)
                           sound) stack))"

definition standing_fuel :: "cand_map \<Rightarrow> nat" where
  "standing_fuel cs =
     Suc (Suc (\<Sum>i \<leftarrow> Mapping.ordered_keys cs.
                 Suc (case Mapping.lookup cs i of None \<Rightarrow> 0
                      | Some info \<Rightarrow> length (cand_deps cs info))))"

definition standing_from ::
  "State \<Rightarrow> cand_map \<Rightarrow> (RecordId \<Rightarrow> RecordId \<Rightarrow> bool) \<Rightarrow> RecordId \<Rightarrow> (RecordId, bool) mapping
     \<Rightarrow> (RecordId, bool) mapping" where
  "standing_from s cs ok start sound =
     (if has_key sound start then sound
      else standing_loop (standing_fuel cs) s cs ok sound [(start, False)])"

definition derive_standing :: "'z env_scheme \<Rightarrow> Record list \<Rightarrow> State \<Rightarrow> StandingSection" where
  "derive_standing E rs s =
     (case collect_lineage E s rs of (cs, ss) \<Rightarrow>
        let unsound = compute_unsound s ss;
            reps = compute_replacers s ss;
            sound = fold (standing_from s cs (anchor_sound s ss reps))
                      (Mapping.ordered_keys cs) Mapping.empty
        in \<lparr>sg_compromised =
              Set.filter (\<lambda>i. \<not> Mapping.lookup_default False sound i) (Mapping.keys cs),
            sg_unsound = unsound,
            sg_restorations = compute_restorations reps unsound\<rparr>)"

end
