(* ===== verification/Checkpoint.thy ===== *)
theory Checkpoint
  imports Build
begin

text \<open>
  \<open>src/src/checkpoint.rs\<close>: checkpoints over a log prefix, head attestations and the strict
  RFC 3339 timestamp test.  (\<open>TrustedCheckpoint::from_verified_log\<close> is in theory \<open>Replay\<close>.)
\<close>

section \<open>Checkpoints\<close>

record Checkpoint =
  cp_log_length :: u64
  cp_last_time :: u64
  cp_last_record_id :: RecordId
  cp_state_hash :: hash256
  cp_log_hash :: hash256

record TrustedCheckpoint =
  tc_checkpoint :: Checkpoint
  tc_rules_hash :: hash256

definition zero_id :: RecordId where
  "zero_id = replicate 32 0"

definition last_record_id :: "Record list \<Rightarrow> RecordId" where
  "last_record_id rs = (if rs = [] then zero_id else rec_id (last rs))"

definition create_checkpoint :: "'z crates_scheme \<Rightarrow> Record list \<Rightarrow> State \<Rightarrow> Checkpoint option" where
  "create_checkpoint C rs s =
     map_option (\<lambda>h. \<lparr>cp_log_length = of_nat (length rs),
                      cp_last_time = last_time rs,
                      cp_last_record_id = last_record_id rs,
                      cp_state_hash = h,
                      cp_log_hash = sha256_concat_ids C (map rec_id rs)\<rparr>)
       (state_hash C s)"

definition assume_verified ::
  "'z crates_scheme \<Rightarrow> Checkpoint \<Rightarrow> VerifierRules \<Rightarrow> TrustedCheckpoint option" where
  "assume_verified C cp R =
     map_option (\<lambda>h. \<lparr>tc_checkpoint = cp, tc_rules_hash = h\<rparr>) (rules_hash C R)"

section \<open>Timestamps\<close>

definition is_digit :: "char \<Rightarrow> bool" where
  "is_digit c \<longleftrightarrow> CHR ''0'' \<le> c \<and> c \<le> CHR ''9''"

definition digit_val :: "char \<Rightarrow> nat" where
  "digit_val c = of_char c - 48"

definition num_at :: "string \<Rightarrow> nat \<Rightarrow> nat \<Rightarrow> nat" where
  "num_at s from to = foldl (\<lambda>n c. 10 * n + digit_val c) 0 (take (to - from) (drop from s))"

definition is_leap :: "nat \<Rightarrow> bool" where
  "is_leap year \<longleftrightarrow> (year mod 4 = 0 \<and> year mod 100 \<noteq> 0) \<or> year mod 400 = 0"

definition days_in_month :: "nat \<Rightarrow> nat \<Rightarrow> nat" where
  "days_in_month year month =
     (if month \<in> {1, 3, 5, 7, 8, 10, 12} then 31
      else if month \<in> {4, 6, 9, 11} then 30
      else if month = 2 \<and> is_leap year then 29
      else if month = 2 then 28
      else 0)"

definition is_canonical_rfc3339_utc :: "string \<Rightarrow> bool" where
  "is_canonical_rfc3339_utc s =
     (if length s \<noteq> 20 \<or> s ! 4 \<noteq> CHR ''-'' \<or> s ! 7 \<noteq> CHR ''-'' \<or> s ! 10 \<noteq> CHR ''T'' then False
      else if s ! 13 \<noteq> CHR '':'' \<or> s ! 16 \<noteq> CHR '':'' \<or> s ! 19 \<noteq> CHR ''Z'' then False
      else if \<not> list_all (\<lambda>i. is_digit (s ! i)) [0, 1, 2, 3, 5, 6, 8, 9, 11, 12, 14, 15, 17, 18]
      then False
      else
        let year = num_at s 0 4; month = num_at s 5 7; day = num_at s 8 10;
            hour = num_at s 11 13; minute = num_at s 14 16; second = num_at s 17 19
        in if \<not> (1 \<le> month \<and> month \<le> 12) \<or> hour > 23 \<or> minute > 59 \<or> second > 59 then False
           else 1 \<le> day \<and> day \<le> days_in_month year month)"

section \<open>Head attestations\<close>

record HeadAttestation =
  ha_head_hash :: hash256
  ha_record_count :: u64
  ha_spec_version :: string
  ha_timestamp :: string

definition head_attestation :: "'z crates_scheme \<Rightarrow> Record list \<Rightarrow> string \<Rightarrow> HeadAttestation option" where
  "head_attestation C rs timestamp =
     (if \<not> is_canonical_rfc3339_utc timestamp then None
      else Some \<lparr>ha_head_hash = sha256_concat_ids C (map rec_id rs),
                 ha_record_count = of_nat (length rs),
                 ha_spec_version = SPEC_VERSION,
                 ha_timestamp = timestamp\<rparr>)"

definition head_attestation_json :: "HeadAttestation \<Rightarrow> json" where
  "head_attestation_json a =
     JObject [(''head_hash'', ser_bytes (ha_head_hash a)),
              (''record_count'', ser_u64 (ha_record_count a)),
              (''spec_version'', JString (ha_spec_version a)),
              (''timestamp'', JString (ha_timestamp a))]"

definition canonical_bytes :: "'z crates_scheme \<Rightarrow> HeadAttestation \<Rightarrow> bytes option" where
  "canonical_bytes C a = canonical_json C (head_attestation_json a)"

end
