(* ===== verification/Replay.thy ===== *)
theory Replay
  imports Standing Checkpoint
begin

text \<open>
  \<open>src/src/verify/verifier/replay.rs\<close>: \<open>verify_log\<close>, which replays a whole log, with the
  \<open>LogVerdict\<close> of \<open>verifier.rs\<close>, the entry points \<open>verify_and_build_state\<close> (\<open>build.rs\<close>) and
  \<open>TrustedCheckpoint::from_verified_log\<close> (\<open>checkpoint.rs\<close>).

  The \<open>while\<close> loop over positions is the recursive function \<open>replay_loop\<close>, whose result is the
  rejection with the number of records checked (\<open>Inl\<close>) or the final state with that number
  (\<open>Inr\<close>).
\<close>

record LogVerdict =
  lv_result :: VerdictResult
  lv_reason :: "ReasonCode option"
  lv_checked_records :: u64
  lv_last_time :: u64
  lv_retracted_records :: "RecordId set"
  lv_tainted_records :: "RecordId set"
  lv_standing :: StandingSection

definition reject_log :: "ReasonCode \<Rightarrow> u64 \<Rightarrow> Record list \<Rightarrow> LogVerdict" where
  "reject_log reason checked rs =
     \<lparr>lv_result = Reject, lv_reason = Some reason, lv_checked_records = checked,
      lv_last_time = last_time rs, lv_retracted_records = {}, lv_tainted_records = {},
      lv_standing = empty_standing\<rparr>"

section \<open>Starting from a checkpoint\<close>

definition checkpoint_fields_ok ::
  "Checkpoint \<Rightarrow> Record list \<Rightarrow> hash256 \<Rightarrow> bool" where
  "checkpoint_fields_ok cp prefix h \<longleftrightarrow>
     cp_last_time cp = last_time prefix \<and> cp_last_record_id cp = last_record_id prefix
     \<and> cp_state_hash cp = h"

definition checkpoint_start ::
  "'z env_scheme \<Rightarrow> Record list \<Rightarrow> VerifierRules \<Rightarrow> TrustedCheckpoint
     \<Rightarrow> ReasonCode + nat \<times> State \<times> PriorIndex" where
  "checkpoint_start E rs R trusted =
     (if rules_hash E R \<noteq> Some (tc_rules_hash trusted) then Inl InvalidCheckpoint
      else
        let cp = tc_checkpoint trusted; n = unat (cp_log_length cp); prefix = take n rs
        in if n > length rs then Inl InvalidCheckpoint
           else if sha256_concat_ids E (map rec_id prefix) \<noteq> cp_log_hash cp
           then Inl InvalidCheckpoint
           else if n < length rs \<and> rec_kind (rs ! n) = KVerdict then Inl InvalidCheckpoint
           else (case build_state_unchecked E prefix of None \<Rightarrow> Inl InvalidPayload
             | Some s \<Rightarrow>
                 (case state_hash E s of None \<Rightarrow> Inl InvalidPayload
                  | Some h \<Rightarrow>
                      if \<not> checkpoint_fields_ok cp prefix h then Inl InvalidCheckpoint
                      else Inr (n, s, index_of prefix))))"

definition replay_start ::
  "'z env_scheme \<Rightarrow> Record list \<Rightarrow> VerifierRules \<Rightarrow> TrustedCheckpoint option
     \<Rightarrow> ReasonCode + nat \<times> State \<times> PriorIndex" where
  "replay_start E rs R checkpoint =
     (case checkpoint of
        Some trusted \<Rightarrow> checkpoint_start E rs R trusted
      | None \<Rightarrow> Inr (0, default_state, default_index))"

section \<open>Whole-log checks\<close>

fun times_consecutive :: "Record list \<Rightarrow> bool" where
  "times_consecutive (a # b # rs) \<longleftrightarrow>
     u64_checked_add (rec_time a) 1 = Some (rec_time b) \<and> times_consecutive (b # rs)"
| "times_consecutive _ \<longleftrightarrow> True"

definition check_log_shape :: "'z crates_scheme \<Rightarrow> Record list \<Rightarrow> ReasonCode option" where
  "check_log_shape C rs =
     first_reason
       [reject_if (\<not> times_consecutive rs) InvalidPayload,
        reject_if (rs \<noteq> [] \<and> rec_time (hd rs) \<noteq> 1) InvalidPayload,
        first_reason
          (map (\<lambda>r. reject_if (compute_id C r \<noteq> Some (rec_id r)) InvalidPayload) rs)]"

section \<open>One step of the replay\<close>

text \<open>A verdict that is not consumed with its subject.\<close>

definition lone_verdict_step ::
  "'z env_scheme \<Rightarrow> VerifierRules \<Rightarrow> Record \<Rightarrow> Prior \<Rightarrow> State \<Rightarrow> ReasonCode + State" where
  "lone_verdict_step E R r prior s =
     (case check_verdict_record E r prior R of Some reason \<Rightarrow> Inl reason
      | None \<Rightarrow>
          (case de_verdict E (rec_data r) of None \<Rightarrow> Inl InvalidPayload
           | Some stored \<Rightarrow>
               (case find_cause_ref (rec_refs r) of None \<Rightarrow> Inl InvalidPayload
                | Some subject_id \<Rightarrow>
                    (case prior_find prior subject_id of
                       None \<Rightarrow> Inr (s\<lparr>st_applied_up_to := rec_time r\<rparr>)
                     | Some subject \<Rightarrow>
                         (case apply_record E s subject stored of None \<Rightarrow> Inl InvalidPayload
                          | Some s' \<Rightarrow> Inr (s'\<lparr>st_applied_up_to := rec_time r\<rparr>))))))"

text \<open>A subject and the verdict that follows it.\<close>

definition pair_step ::
  "'z env_scheme \<Rightarrow> VerifierRules \<Rightarrow> Record \<Rightarrow> Record \<Rightarrow> Prior \<Rightarrow> State \<Rightarrow> ReasonCode + State" where
  "pair_step E R r v prior s =
     (case check_verdict_record E v prior R of Some reason \<Rightarrow> Inl reason
      | None \<Rightarrow>
          if map ref_target (rec_refs v) \<noteq> [rec_id r] then Inl InvalidPayload
          else
            let recomputed = verdict_of (check_record E r prior R s)
            in (case de_verdict E (rec_data v) of None \<Rightarrow> Inl InvalidPayload
                | Some stored \<Rightarrow>
                    if vd_result recomputed \<noteq> vd_result stored \<or> vd_reason recomputed \<noteq> vd_reason stored
                    then Inl (case vd_reason recomputed of Some c \<Rightarrow> c | None \<Rightarrow> InvalidPayload)
                    else (case apply_record E s r stored of None \<Rightarrow> Inl InvalidPayload
                      | Some s' \<Rightarrow> Inr (s'\<lparr>st_applied_up_to := rec_time v\<rparr>))))"

function replay_loop ::
  "'z env_scheme \<Rightarrow> VerifierRules \<Rightarrow> Record list \<Rightarrow> nat \<Rightarrow> State \<Rightarrow> PriorIndex \<Rightarrow> u64
     \<Rightarrow> (ReasonCode \<times> u64) + (State \<times> u64)" where
  "replay_loop E R rs i s ix checked =
     (if i \<ge> length rs then Inr (s, checked)
      else
        let r = rs ! i
        in if rec_kind r = KVerdict
           then (case lone_verdict_step E R r (view ix rs) s of
                   Inl reason \<Rightarrow> Inl (reason, checked)
                 | Inr s' \<Rightarrow> replay_loop E R rs (i + 1) s' (index_insert i r ix) (checked + 1))
           else if i + 1 \<ge> length rs then Inl (InvalidPayload, checked)
           else
             let v = rs ! (i + 1)
             in if rec_kind v \<noteq> KVerdict then Inl (InvalidPayload, checked)
                else
                  let ix1 = index_insert i r ix
                  in (case pair_step E R r v (view ix1 rs) s of
                        Inl reason \<Rightarrow> Inl (reason, checked)
                      | Inr s' \<Rightarrow>
                          replay_loop E R rs (i + 2) s' (index_insert (i + 1) v ix1) (checked + 2)))"
  by pat_completeness auto

termination
  by (relation "measure (\<lambda>(E, R, rs, i, s, ix, checked). length rs - i)") auto

declare replay_loop.simps [simp del]

section \<open>verify_log and its callers\<close>

definition verify_log ::
  "'z env_scheme \<Rightarrow> Record list \<Rightarrow> VerifierRules \<Rightarrow> TrustedCheckpoint option \<Rightarrow> LogVerdict" where
  "verify_log E rs R checkpoint =
     (case replay_start E rs R checkpoint of
        Inl reason \<Rightarrow> reject_log reason 0 rs
      | Inr (start_index, s, ix) \<Rightarrow>
          (case check_log_shape E rs of Some reason \<Rightarrow> reject_log reason 0 rs
           | None \<Rightarrow>
               (case replay_loop E R rs start_index s ix 0 of
                  Inl (reason, checked) \<Rightarrow> reject_log reason checked rs
                | Inr (s', checked) \<Rightarrow>
                    \<lparr>lv_result = Accept, lv_reason = None, lv_checked_records = checked,
                     lv_last_time = last_time rs,
                     lv_retracted_records = st_retracted_records s',
                     lv_tainted_records = st_tainted_records s',
                     lv_standing = derive_standing E rs s'\<rparr>)))"

definition verify_and_build_state ::
  "'z env_scheme \<Rightarrow> Record list \<Rightarrow> VerifierRules \<Rightarrow> LogVerdict + State" where
  "verify_and_build_state E rs R =
     (let verdict = verify_log E rs R None
      in if lv_result verdict \<noteq> Accept then Inl verdict
         else (case build_state_unchecked E rs of
                 Some s \<Rightarrow> Inr s
               | None \<Rightarrow> Inl (verdict\<lparr>lv_result := Reject, lv_reason := Some InvalidPayload\<rparr>)))"

definition from_verified_log ::
  "'z env_scheme \<Rightarrow> Record list \<Rightarrow> VerifierRules \<Rightarrow> TrustedCheckpoint option" where
  "from_verified_log E rs R =
     (if lv_result (verify_log E rs R None) \<noteq> Accept then None
      else (case build_state_unchecked E rs of None \<Rightarrow> None
        | Some s \<Rightarrow>
            (case create_checkpoint E rs s of None \<Rightarrow> None
             | Some cp \<Rightarrow> assume_verified E cp R)))"

end
