(* ===== verification/Replay_Spec.thy ===== *)
theory Replay_Spec
  imports Replay
begin

text \<open>
  What \<open>verify_log\<close> means.  \<open>replays\<close> is the specification: a log is built pair by pair, each
  pair being a subject and the verdict the rules give for it over the records before it.
  \<open>verify_log\<close> accepts exactly the logs with consecutive times from 1, recomputable ids and such
  a history.
\<close>

section \<open>The rules see only the lookups\<close>

definition same_prior :: "Prior \<Rightarrow> Prior \<Rightarrow> bool" where
  "same_prior p q \<longleftrightarrow> prior_find p = prior_find q \<and> has_verdict_for p = has_verdict_for q"

lemma same_prior_find: "same_prior p q \<Longrightarrow> prior_find p = prior_find q"
  by (simp add: same_prior_def)

lemma same_prior_verdict: "same_prior p q \<Longrightarrow> has_verdict_for p = has_verdict_for q"
  by (simp add: same_prior_def)

lemma check_verdict_record_cong:
  assumes same: "same_prior p q"
  shows "check_verdict_record E r p R = check_verdict_record E r q R"
  unfolding check_verdict_record_def check_verdict_subject_def same_prior_find [OF same] same_prior_verdict [OF same]
  by (rule refl)

lemma check_request_cong:
  assumes same: "same_prior p q"
  shows "check_request E r p s = check_request E r q s"
  unfolding check_request_def check_request_parent_def same_prior_find [OF same]
  by (rule refl)

lemma check_action_cong:
  assumes same: "same_prior p q"
  shows "check_action E r p s = check_action E r q s"
  unfolding check_action_def check_action_capability_def check_action_mode_def
    check_approval_for_action_def exact_approval_match_def class_approval_match_def same_prior_find [OF same]
  by (rule refl)

lemma check_result_cong:
  assumes same: "same_prior p q"
  shows "check_result E r p R s = check_result E r q R s"
  unfolding check_result_def same_prior_find [OF same]
  by (rule refl)

lemma check_refusal_cong:
  assumes same: "same_prior p q"
  shows "check_refusal E r p s = check_refusal E r q s"
  unfolding check_refusal_def same_prior_find [OF same]
  by (rule refl)

lemma check_usage_cong:
  assumes same: "same_prior p q"
  shows "check_usage E r p s = check_usage E r q s"
  unfolding check_usage_def same_prior_find [OF same]
  by (rule refl)

lemma check_response_cong:
  assumes same: "same_prior p q"
  shows "check_response E r p s = check_response E r q s"
  unfolding check_response_def same_prior_find [OF same]
  by (rule refl)

lemma check_plan_cong:
  assumes same: "same_prior p q"
  shows "check_plan E r p s = check_plan E r q s"
  unfolding check_plan_def check_task_result_def same_prior_find [OF same]
  by (rule refl)

lemma check_retraction_cong:
  assumes same: "same_prior p q"
  shows "check_retraction E r p R s = check_retraction E r q R s"
  unfolding check_retraction_def same_prior_find [OF same]
  by (rule refl)

lemma resolve_causes_cong:
  assumes same: "same_prior p q"
  shows "resolve_causes p es = resolve_causes q es"
  by (induction es) (simp_all add: same_prior_find [OF same] split: option.split)

lemma check_candidate_cong:
  assumes same: "same_prior p q"
  shows "check_candidate E r p R s = check_candidate E r q R s"
  unfolding check_candidate_def resolve_candidate_def resolve_causes_cong [OF same] same_prior_find [OF same]
  by (rule refl)

lemma check_evaluation_cong:
  assumes same: "same_prior p q"
  shows "check_evaluation E r p R s = check_evaluation E r q R s"
  unfolding check_evaluation_def check_evaluation_v2_def resolve_candidate_def
    check_requirement_binding_def same_prior_find [OF same]
  by (rule refl)

lemma check_selection_cong:
  assumes same: "same_prior p q"
  shows "check_selection E r p R s = check_selection E r q R s"
  unfolding check_selection_def used_evaluations_def check_winners_def check_winner_binding_def
    resolve_selection_approval_def check_reaffirmation_def resolve_candidate_def same_prior_find [OF same]
  by (rule refl)

lemma check_requirement_cong:
  assumes same: "same_prior p q"
  shows "check_requirement E r p s = check_requirement E r q s"
  unfolding check_requirement_def same_prior_find [OF same]
  by (rule refl)

lemmas kind_check_congs =
  check_request_cong check_action_cong check_result_cong check_refusal_cong check_usage_cong
  check_response_cong check_plan_cong check_retraction_cong check_candidate_cong
  check_evaluation_cong check_selection_cong check_requirement_cong

lemma check_record_cong:
  assumes same: "same_prior p q"
  shows "check_record E r p R s = check_record E r q R s"
  unfolding check_record_def check_kind_specific_def kind_check_congs [OF same] check_refs_def
    check_ref_def check_replacement_def check_evidence_def expected_evidence_def
    check_verdict_record_cong [OF same] same_prior_find [OF same]
  by (rule refl)

lemma lone_verdict_step_cong:
  assumes same: "same_prior p q"
  shows "lone_verdict_step E R r p s = lone_verdict_step E R r q s"
  unfolding lone_verdict_step_def check_verdict_record_cong [OF same] same_prior_find [OF same]
  by (rule refl)

lemma pair_step_cong:
  assumes same: "same_prior p q"
  shows "pair_step E R r v p s = pair_step E R r v q s"
  unfolding pair_step_def check_verdict_record_cong [OF same] check_record_cong [OF same]
  by (rule refl)

section \<open>The specification\<close>

definition prior_of :: "Record list \<Rightarrow> Prior" where
  "prior_of rs = view (index_of rs) rs"

lemma prior_of_find: "prior_find (prior_of rs) i = scan_find rs i"
  unfolding prior_of_def by (rule pix.find_prior_scan)

lemma prior_of_verdict: "has_verdict_for (prior_of rs) i = scan_verdicted rs i"
  unfolding prior_of_def by (rule pix.judged_scan)

inductive replays :: "'z env_scheme \<Rightarrow> VerifierRules \<Rightarrow> Record list \<Rightarrow> State \<Rightarrow> bool"
  for E :: "'z env_scheme" and R :: VerifierRules where
  replays_Nil: "replays E R [] default_state"
| replays_pair:
    "replays E R rs s \<Longrightarrow> rec_kind r \<noteq> KVerdict \<Longrightarrow> rec_kind v = KVerdict
     \<Longrightarrow> check_verdict_record E v (prior_of (rs @ [r])) R = None
     \<Longrightarrow> map ref_target (rec_refs v) = [rec_id r]
     \<Longrightarrow> de_verdict E (rec_data v) = Some (verdict_of (check_record E r (prior_of (rs @ [r])) R s))
     \<Longrightarrow> apply_record E s r (verdict_of (check_record E r (prior_of (rs @ [r])) R s)) = Some s'
     \<Longrightarrow> replays E R (rs @ [r, v]) (s'\<lparr>st_applied_up_to := rec_time v\<rparr>)"

definition log_shape :: "'z crates_scheme \<Rightarrow> Record list \<Rightarrow> bool" where
  "log_shape C rs \<longleftrightarrow>
     (\<forall>i < length rs. unat (rec_time (rs ! i)) = Suc i \<and> compute_id C (rs ! i) = Some (rec_id (rs ! i)))"

section \<open>Shape of the log\<close>

lemma times_consecutive_iff:
  "times_consecutive rs \<longleftrightarrow>
     (\<forall>i. Suc i < length rs \<longrightarrow> unat (rec_time (rs ! Suc i)) = Suc (unat (rec_time (rs ! i))))"
proof (induction rs rule: times_consecutive.induct)
  case (1 a b rs)
  have "u64_checked_add (rec_time a) 1 = Some (rec_time b)
      \<longleftrightarrow> unat (rec_time b) = Suc (unat (rec_time a))"
    by (simp add: u64_checked_add_Some_iff)
  moreover have "(\<forall>i. Suc i < length (a # b # rs)
        \<longrightarrow> unat (rec_time ((a # b # rs) ! Suc i)) = Suc (unat (rec_time ((a # b # rs) ! i))))
      \<longleftrightarrow> unat (rec_time b) = Suc (unat (rec_time a))
        \<and> (\<forall>i. Suc i < length (b # rs)
              \<longrightarrow> unat (rec_time ((b # rs) ! Suc i)) = Suc (unat (rec_time ((b # rs) ! i))))"
    by (simp add: All_less_Suc2)
  ultimately show ?case using 1 by simp
qed auto

lemma times_from_one:
  assumes "\<forall>i. Suc i < length rs \<longrightarrow> unat (rec_time (rs ! Suc i)) = Suc (unat (rec_time (rs ! i)))"
    "rs \<noteq> [] \<longrightarrow> rec_time (hd rs) = 1"
  shows "i < length rs \<Longrightarrow> unat (rec_time (rs ! i)) = Suc i"
proof (induction i)
  case 0
  with assms(2) show ?case by (simp add: hd_conv_nth)
next
  case (Suc i)
  with assms(1) show ?case by simp
qed

lemma check_log_shape_iff: "check_log_shape C rs = None \<longleftrightarrow> log_shape C rs"
proof -
  have "times_consecutive rs \<and> (rs \<noteq> [] \<longrightarrow> rec_time (hd rs) = 1)
      \<longleftrightarrow> (\<forall>i < length rs. unat (rec_time (rs ! i)) = Suc i)"
  proof
    assume *: "times_consecutive rs \<and> (rs \<noteq> [] \<longrightarrow> rec_time (hd rs) = 1)"
    then have "\<forall>i. Suc i < length rs
        \<longrightarrow> unat (rec_time (rs ! Suc i)) = Suc (unat (rec_time (rs ! i)))"
      using times_consecutive_iff [of rs] by blast
    from times_from_one [OF this] * show "\<forall>i < length rs. unat (rec_time (rs ! i)) = Suc i"
      by blast
  next
    assume *: "\<forall>i < length rs. unat (rec_time (rs ! i)) = Suc i"
    have "rec_time (hd rs) = 1" if "rs \<noteq> []"
      using * that by (simp add: hd_conv_nth word_unat_eq_iff)
    with * show "times_consecutive rs \<and> (rs \<noteq> [] \<longrightarrow> rec_time (hd rs) = 1)"
      by (auto simp: times_consecutive_iff)
  qed
  then show ?thesis
    by (auto simp: check_log_shape_def log_shape_def all_set_conv_all_nth)
qed

section \<open>The index along the replay\<close>

lemma index_of_snoc: "index_of (rs @ [r]) = index_insert (length rs) r (index_of rs)"
  by (simp add: index_of_def enumerate_append_eq)

lemma index_of_take_Suc:
  "i < length rs \<Longrightarrow> index_of (take (Suc i) rs) = index_insert i (rs ! i) (index_of (take i rs))"
  by (simp add: take_Suc_conv_app_nth index_of_snoc)

lemma index_of_take_ok: "i \<le> length rs \<Longrightarrow> index_ok (index_of (take i rs)) rs i"
  using index_ok_insert_many [OF index_ok_default, of "take i rs" rs]
  by (simp add: index_of_def)

lemma same_prior_take:
  "i \<le> length rs \<Longrightarrow> same_prior (view (index_of (take i rs)) rs) (prior_of (take i rs))"
  using index_of_take_ok [of i rs]
  by (auto simp: same_prior_def fun_eq_iff prior_of_find prior_of_verdict index_ok_def)

section \<open>Every subject of a replayed log is judged\<close>

inductive_cases replays_NilE: "replays E R [] s"

lemma replays_even: "replays E R rs s \<Longrightarrow> even (length rs)"
  by (induction rule: replays.induct) auto

lemma check_verdict_record_NoneE:
  assumes "check_verdict_record E v p R = None"
  obtains e t where "rec_refs v = [e]" "ref_type e = RCause" "prior_find p (ref_target e) = Some t"
    "rec_kind t \<noteq> KVerdict" "rec_space t = rec_space v" "rec_thread t = rec_thread v"
    "\<not> has_verdict_for p (ref_target e)"
proof -
  have "check_verdict_subject v p = None"
    using assms by (simp add: check_verdict_record_def)
  then show thesis
    by (auto simp: check_verdict_subject_def Let_def split: list.splits option.splits if_splits
        intro: that)
qed

lemma replays_judged:
  "replays E R rs s \<Longrightarrow> r \<in> set rs \<Longrightarrow> rec_kind r \<noteq> KVerdict \<Longrightarrow> scan_verdicted rs (rec_id r)"
proof (induction rule: replays.induct)
  case (replays_pair rs s r' v s')
  obtain e where "rec_refs v = [e]" "ref_type e = RCause"
    by (rule check_verdict_record_NoneE [OF replays_pair.hyps(4)]) blast
  moreover from this replays_pair.hyps(5) have "ref_target e = rec_id r'" by simp
  ultimately show ?case
    using replays_pair by (auto simp: scan_verdicted_def list_ex_iff)
qed simp

lemma no_second_verdict:
  assumes "replays E R rs s"
  shows "check_verdict_record E v (prior_of rs) R \<noteq> None"
proof
  assume "check_verdict_record E v (prior_of rs) R = None"
  then obtain i t where t: "scan_find rs i = Some t" "rec_kind t \<noteq> KVerdict"
    "\<not> scan_verdicted rs i"
    by (rule check_verdict_record_NoneE) (auto simp: prior_of_find prior_of_verdict)
  with scan.find_prior_SomeD [OF t(1)] replays_judged [OF assms] show False by auto
qed

lemma lone_verdict_rejected:
  assumes "replays E R rs s"
  shows "\<exists>reason. lone_verdict_step E R v (prior_of rs) s = Inl reason"
  using no_second_verdict [OF assms, of v] by (auto simp: lone_verdict_step_def)

section \<open>The loop implements the specification\<close>

lemma verdict_data_eq_iff:
  "(vd_result a \<noteq> vd_result b \<or> vd_reason a \<noteq> vd_reason b) \<longleftrightarrow> a \<noteq> (b :: VerdictData)"
  by (cases a; cases b) auto

lemma pair_step_Inr_iff:
  "pair_step E R r v p s = Inr s'' \<longleftrightarrow>
     check_verdict_record E v p R = None \<and> map ref_target (rec_refs v) = [rec_id r]
     \<and> de_verdict E (rec_data v) = Some (verdict_of (check_record E r p R s))
     \<and> (\<exists>s'. apply_record E s r (verdict_of (check_record E r p R s)) = Some s'
            \<and> s'' = s'\<lparr>st_applied_up_to := rec_time v\<rparr>)"
  unfolding pair_step_def Let_def verdict_data_eq_iff
  by (auto split: option.splits)

lemma prior_of_Suc:
  assumes "i < length rs"
  shows "same_prior (view (index_insert i (rs ! i) (index_of (take i rs))) rs)
           (prior_of (take i rs @ [rs ! i]))"
  using same_prior_take [of "Suc i" rs] assms
  by (simp add: index_of_snoc take_Suc_conv_app_nth)

lemma replay_loop_done: "length rs \<le> i \<Longrightarrow> replay_loop E R rs i s ix c = Inr (s, c)"
  by (simp add: replay_loop.simps)

lemma replay_loop_verdict:
  assumes "replays E R (take i rs) s" "i < length rs" "rec_kind (rs ! i) = KVerdict"
  shows "\<exists>reason. replay_loop E R rs i s (index_of (take i rs)) c = Inl (reason, c)"
proof -
  obtain reason where "lone_verdict_step E R (rs ! i) (prior_of (take i rs)) s = Inl reason"
    using lone_verdict_rejected [OF assms(1)] by blast
  then have "lone_verdict_step E R (rs ! i) (view (index_of (take i rs)) rs) s = Inl reason"
    using lone_verdict_step_cong [OF same_prior_take] assms(2) by (metis less_imp_le)
  then show ?thesis
    using assms(2,3) by (subst replay_loop.simps) simp
qed

lemma replay_loop_pair:
  assumes "i < length rs" "rec_kind (rs ! i) \<noteq> KVerdict"
  shows "replay_loop E R rs i s (index_of (take i rs)) c =
     (if i + 1 \<ge> length rs \<or> rec_kind (rs ! (i + 1)) \<noteq> KVerdict then Inl (InvalidPayload, c)
      else (case pair_step E R (rs ! i) (rs ! (i + 1)) (prior_of (take i rs @ [rs ! i])) s of
              Inl reason \<Rightarrow> Inl (reason, c)
            | Inr s' \<Rightarrow> replay_loop E R rs (i + 2) s' (index_of (take (i + 2) rs)) (c + 2)))"
proof (cases "i + 1 < length rs")
  case True
  then have "index_of (take (i + 2) rs)
      = index_insert (i + 1) (rs ! (i + 1)) (index_insert i (rs ! i) (index_of (take i rs)))"
    by (simp add: index_of_take_Suc [symmetric])
  then show ?thesis
    using True assms
      pair_step_cong [OF prior_of_Suc [OF assms(1)], of E R "rs ! i" "rs ! (i + 1)" s]
    by (subst replay_loop.simps) (simp add: Let_def split: sum.split)
qed (use assms in \<open>subst replay_loop.simps, simp\<close>)

lemma take_two: "i + 1 < length rs \<Longrightarrow> take (i + 2) rs = take i rs @ [rs ! i, rs ! (i + 1)]"
  by (simp add: take_Suc_conv_app_nth)

lemma replay_loop_sound:
  assumes "replays E R (take i rs) s"
    "replay_loop E R rs i s (index_of (take i rs)) c = Inr (s', c')" "i \<le> length rs"
  shows "replays E R rs s' \<and> c' = c + of_nat (length rs - i)"
  using assms
proof (induction "length rs - i" arbitrary: i s c rule: less_induct)
  case less
  show ?case
  proof (cases "i < length rs")
    case False
    with less.prems show ?thesis by (simp add: replay_loop_done)
  next
    case True
    have k: "rec_kind (rs ! i) \<noteq> KVerdict"
    proof
      assume "rec_kind (rs ! i) = KVerdict"
      from replay_loop_verdict [OF less.prems(1) True this, of c] less.prems(2) show False by auto
    qed
    from less.prems(2) obtain s1 where i1: "i + 1 < length rs"
      and v: "rec_kind (rs ! (i + 1)) = KVerdict"
      and step: "pair_step E R (rs ! i) (rs ! (i + 1)) (prior_of (take i rs @ [rs ! i])) s = Inr s1"
      and rest: "replay_loop E R rs (i + 2) s1 (index_of (take (i + 2) rs)) (c + 2) = Inr (s', c')"
      unfolding replay_loop_pair [OF True k] by (auto split: if_splits sum.splits)
    from step [unfolded pair_step_Inr_iff] have "replays E R (take (i + 2) rs) s1"
      unfolding take_two [OF i1] by (elim conjE exE) (simp only: replays_pair [OF less.prems(1) k v])
    from less.hyps [OF _ this rest] i1 show ?thesis
      by (simp add: of_nat_diff)
  qed
qed

lemma replay_loop_complete:
  assumes "replays E R pre s" "pre = take i rs" "i \<le> length rs"
  shows "replay_loop E R rs 0 default_state default_index 0
     = replay_loop E R rs i s (index_of (take i rs)) (of_nat i)"
  using assms
proof (induction arbitrary: i rule: replays.induct)
  case replays_Nil
  then have "i = 0" by auto
  then show ?case by (simp add: index_of_def)
next
  case (replays_pair pre s r v s')
  then obtain j where j: "i = j + 2" "pre = take j rs" "rs ! j = r" "rs ! (j + 1) = v"
    "j + 1 < length rs"
  proof -
    have "length (take i rs) = length pre + 2"
      unfolding replays_pair.prems(1) [symmetric] by simp
    then have i: "i = length pre + 2" using replays_pair.prems(2) by simp
    moreover have "length pre + 1 < length rs" using i replays_pair.prems(2) by simp
    moreover note take_two [OF this]
    ultimately show thesis
      using replays_pair.prems(1) that [of "length pre"] by simp
  qed
  have "replay_loop E R rs j s (index_of (take j rs)) (of_nat j)
      = replay_loop E R rs i (s'\<lparr>st_applied_up_to := rec_time v\<rparr>) (index_of (take i rs)) (of_nat i)"
  proof -
    have "pair_step E R (rs ! j) (rs ! (j + 1)) (prior_of (take j rs @ [rs ! j])) s
        = Inr (s'\<lparr>st_applied_up_to := rec_time v\<rparr>)"
      using replays_pair.hyps j by (simp add: pair_step_Inr_iff)
    then show ?thesis
      using j replays_pair.hyps by (simp add: replay_loop_pair add.commute)
  qed
  with replays_pair.IH [of j] j show ?case by simp
qed

lemma replay_loop_iff:
  "replay_loop E R rs 0 default_state default_index 0 = Inr (s, c)
     \<longleftrightarrow> replays E R rs s \<and> c = of_nat (length rs)"
proof
  assume "replay_loop E R rs 0 default_state default_index 0 = Inr (s, c)"
  then show "replays E R rs s \<and> c = of_nat (length rs)"
    using replay_loop_sound [of E R 0 rs default_state 0 s c]
    by (simp add: replays_Nil index_of_def)
next
  assume "replays E R rs s \<and> c = of_nat (length rs)"
  then show "replay_loop E R rs 0 default_state default_index 0 = Inr (s, c)"
    using replay_loop_complete [of E R rs s "length rs" rs] by (simp add: replay_loop_done)
qed

lemma replays_functional: "replays E R rs s \<Longrightarrow> replays E R rs s' \<Longrightarrow> s = s'"
  using replay_loop_iff [of E R rs] by (metis Inr_inject Pair_inject)

section \<open>verify_log from genesis\<close>

lemma verify_log_genesis:
  "lv_result (verify_log E rs R None) = Accept \<longleftrightarrow> log_shape E rs \<and> (\<exists>s. replays E R rs s)"
proof -
  have "lv_result (verify_log E rs R None) = Accept
      \<longleftrightarrow> check_log_shape E rs = None
        \<and> (\<exists>s c. replay_loop E R rs 0 default_state default_index 0 = Inr (s, c))"
    by (auto simp: verify_log_def replay_start_def reject_log_def split: option.splits sum.splits)
  then show ?thesis by (simp add: replay_loop_iff check_log_shape_iff)
qed

lemma verify_log_Accept_fields:
  assumes "log_shape E rs" "replays E R rs s"
  shows "verify_log E rs R None =
     \<lparr>lv_result = Accept, lv_reason = None, lv_checked_records = of_nat (length rs),
      lv_last_time = last_time rs, lv_retracted_records = st_retracted_records s,
      lv_tainted_records = st_tainted_records s, lv_standing = derive_standing E rs s\<rparr>"
proof -
  have "replay_loop E R rs 0 default_state default_index 0 = Inr (s, of_nat (length rs))"
    using assms(2) by (simp add: replay_loop_iff)
  moreover have "check_log_shape E rs = None"
    using assms(1) by (simp add: check_log_shape_iff)
  ultimately show ?thesis by (simp add: verify_log_def replay_start_def)
qed

end
