(* ===== verification/Replay_Build.thy ===== *)
theory Replay_Build
  imports Replay_Spec
begin

text \<open>
  Replay and rebuild agree: on a log that replays, the state \<open>verify_log\<close> folds pair by pair is
  the state \<open>build_state_unchecked\<close> derives from the stored verdicts, so
  \<open>verify_and_build_state\<close> never takes its last-resort branch.  That no id is used twice as a
  subject follows from the duplicate-verdict check alone, without any assumption on SHA-256.
\<close>

section \<open>The fold ignores the time stamp of the state\<close>

definition at :: "u64 \<Rightarrow> State \<Rightarrow> State" where
  "at t s = s\<lparr>st_applied_up_to := t\<rparr>"

lemma at_sel [simp]:
  "st_accepted_records (at t s) = st_accepted_records s"
  "st_active_requests (at t s) = st_active_requests s"
  "st_active_capabilities (at t s) = st_active_capabilities s"
  "st_valid_approvals (at t s) = st_valid_approvals s"
  "st_class_approvals (at t s) = st_class_approvals s"
  "st_open_actions (at t s) = st_open_actions s"
  "st_action_to_request (at t s) = st_action_to_request s"
  "st_active_summaries (at t s) = st_active_summaries s"
  "st_replaced_records (at t s) = st_replaced_records s"
  "st_request_open_action_count (at t s) = st_request_open_action_count s"
  "st_usage_counts (at t s) = st_usage_counts s"
  "st_active_plans (at t s) = st_active_plans s"
  "st_response_turns (at t s) = st_response_turns s"
  "st_capability_index (at t s) = st_capability_index s"
  "st_exact_approval_index (at t s) = st_exact_approval_index s"
  "st_class_approval_index (at t s) = st_class_approval_index s"
  "st_retracted_records (at t s) = st_retracted_records s"
  "st_tainted_records (at t s) = st_tainted_records s"
  "st_epistemic_dependents (at t s) = st_epistemic_dependents s"
  "st_requirement_keys (at t s) = st_requirement_keys s"
  "st_requirement_index (at t s) = st_requirement_index s"
  by (simp_all add: at_def)

lemma at_at [simp]: "at t (at t' s) = at t s"
  by (simp add: at_def)

lemma mark_tainted_at: "mark_tainted (at t s) i = at t (mark_tainted s i)"
  by (simp add: mark_tainted_def at_def)

lemma fold_mark_tainted_at:
  "fold (\<lambda>i s. mark_tainted s i) is (at t s) = at t (fold (\<lambda>i s. mark_tainted s i) is s)"
  by (induction "is" arbitrary: s) (simp_all add: mark_tainted_at)

lemma add_dependent_at: "add_dependent i r (at t s) = at t (add_dependent i r s)"
  by (simp add: add_dependent_def at_def)

lemma fold_add_dependent_at:
  "fold (add_dependent i) refs (at t s) = at t (fold (add_dependent i) refs s)"
  by (induction refs arbitrary: s) (simp_all add: add_dependent_at)

lemma register_accepted_at: "register_accepted (at t s) r = at t (register_accepted s r)"
proof -
  have "(at t s)\<lparr>st_accepted_records := A\<rparr> = at t (s\<lparr>st_accepted_records := A\<rparr>)" for A
    by (simp add: at_def)
  then show ?thesis
    by (simp add: register_accepted_def Let_def fold_add_dependent_at mark_tainted_at
        inherits_taint_def)
qed

lemma note_replaced_at: "note_replaced refs (at t s) = at t (note_replaced refs s)"
  by (simp add: note_replaced_def at_def split: option.split)

lemma consume_approval_at: "consume_approval h refs (at t s) = at t (consume_approval h refs s)"
  by (simp add: consume_approval_def at_def split: option.split)

lemma close_action_at: "close_action i (at t s) = at t (close_action i s)"
  by (simp add: close_action_def close_action_for_request_def at_def Let_def split: option.split)

lemma taint_dependents_at: "taint_dependents i (at t s) = at t (taint_dependents i s)"
  by (simp add: taint_dependents_def fold_mark_tainted_at)

lemma deactivate_at: "deactivate i (at t s) = at t (deactivate i s)"
  by (simp add: deactivate_def at_def)

lemma retracted_update_at:
  "(at t s)\<lparr>st_retracted_records := A\<rparr> = at t (s\<lparr>st_retracted_records := A\<rparr>)"
  by (simp add: at_def)

lemmas at_laws =
  note_replaced_at consume_approval_at close_action_at taint_dependents_at deactivate_at
  retracted_update_at

lemma apply_kind_at: "apply_kind E r (at t s) = map_option (at t) (apply_kind E r s)"
proof (cases "rec_kind r")
  case KApproval
  then show ?thesis
    by (simp add: apply_kind_def apply_approval_def note_replaced_at split: option.split)
      (simp add: set_class_approval_def set_exact_approval_def at_def Let_def split: option.split)
next
  case KRetraction
  then show ?thesis
    by (simp add: apply_kind_def apply_retraction_def Let_def at_laws split: option.split)
next
  case KAction
  then show ?thesis
    by (simp add: apply_kind_def apply_action_def at_laws split: option.split)
      (simp add: open_action_def at_def)
next
  case KResult
  then show ?thesis
    by (simp add: apply_kind_def apply_result_def at_laws option.map_comp comp_def)
next
  case KRefusal
  then show ?thesis
    by (simp add: apply_kind_def apply_refusal_def at_laws split: option.split RefusalTarget.split)
      (simp add: at_def)
qed (simp_all add: apply_kind_def apply_request_def apply_capability_def apply_summary_def
    apply_usage_def apply_plan_def apply_response_def apply_requirement_def apply_selection_def
    at_laws Let_def split: option.split, simp_all add: at_def)

lemma apply_record_at: "apply_record E (at t s) r v = map_option (at t) (apply_record E s r v)"
  by (simp add: apply_record_def apply_accepted_def register_accepted_at apply_kind_at
      split: VerdictResult.split)

section \<open>Subjects are fresh\<close>

lemma replays_fresh:
  assumes "replays E R rs s" "check_verdict_record E v (prior_of (rs @ [r])) R = None"
    "map ref_target (rec_refs v) = [rec_id r]"
  shows "rec_id r \<notin> rec_id ` set rs"
proof
  assume "rec_id r \<in> rec_id ` set rs"
  then have find: "scan_find (rs @ [r]) (rec_id r) = scan_find rs (rec_id r)"
    by (rule scan.find_prior_append)
  obtain e t where e: "rec_refs v = [e]"
    and t: "prior_find (prior_of (rs @ [r])) (ref_target e) = Some t" "rec_kind t \<noteq> KVerdict"
    and new: "\<not> has_verdict_for (prior_of (rs @ [r])) (ref_target e)"
    using assms(2) by (rule check_verdict_record_NoneE)
  from e assms(3) have target: "ref_target e = rec_id r" by simp
  have "scan_find rs (rec_id r) = Some t"
    using t(1) unfolding target prior_of_find find .
  then have "t \<in> set rs" "rec_id t = rec_id r"
    using scan.find_prior_SomeD by blast+
  with replays_judged [OF assms(1) _ t(2)] have "scan_verdicted rs (rec_id r)" by simp
  with new show False
    unfolding target prior_of_verdict by (auto simp: scan_verdicted_def)
qed

section \<open>Rebuilding\<close>

lemma build_verdict_map_append:
  "build_verdict_map E (rs @ rs') m =
     (case build_verdict_map E rs m of None \<Rightarrow> None | Some m' \<Rightarrow> build_verdict_map E rs' m')"
  by (induction rs arbitrary: m) (auto split: option.split)

lemma apply_all_append:
  "apply_all E vm (rs @ rs') s =
     (case apply_all E vm rs s of None \<Rightarrow> None | Some s' \<Rightarrow> apply_all E vm rs' s')"
  by (induction rs arbitrary: s) (auto split: option.split)

lemma apply_all_update_fresh:
  "i \<notin> rec_id ` set rs \<Longrightarrow> apply_all E (Mapping.update i v vm) rs s = apply_all E vm rs s"
  by (induction rs arbitrary: s) (auto split: option.split)

lemma last_time_snoc [simp]: "last_time (rs @ [r, v]) = rec_time v"
  by (simp add: last_time_def)

lemma replays_build:
  assumes "replays E R rs s"
  shows "\<exists>vm s0. build_verdict_map E rs Mapping.empty = Some vm
     \<and> apply_all E vm rs default_state = Some s0 \<and> s = at (last_time rs) s0"
  using assms
proof (induction rule: replays.induct)
  case replays_Nil
  then show ?case by (simp add: at_def default_state_def last_time_def)
next
  case (replays_pair rs s r v s')
  obtain vm s0 where vm: "build_verdict_map E rs Mapping.empty = Some vm"
    and s0: "apply_all E vm rs default_state = Some s0" and s: "s = at (last_time rs) s0"
    using replays_pair.IH by blast
  let ?d = "verdict_of (check_record E r (prior_of (rs @ [r])) R s)"
  obtain e where "rec_refs v = [e]" "ref_type e = RCause"
    by (rule check_verdict_record_NoneE [OF replays_pair.hyps(4)]) blast
  with replays_pair.hyps(5) have cause: "find_cause_ref (rec_refs v) = Some (rec_id r)"
    by (simp add: find_cause_ref_def)
  have fresh: "rec_id r \<notin> rec_id ` set rs"
    by (rule replays_fresh [OF replays_pair.hyps(1,4,5)])
  from replays_pair.hyps(7) obtain s1 where s1: "apply_record E s0 r ?d = Some s1"
    "s' = at (last_time rs) s1"
    unfolding s apply_record_at by (auto simp flip: s)
  have "build_verdict_map E (rs @ [r, v]) Mapping.empty = Some (Mapping.update (rec_id r) ?d vm)"
    using vm replays_pair.hyps cause by (simp add: build_verdict_map_append)
  moreover have "apply_all E (Mapping.update (rec_id r) ?d vm) (rs @ [r, v]) default_state = Some s1"
    using s0 s1 fresh replays_pair.hyps by (simp add: apply_all_append apply_all_update_fresh)
  moreover have "s'\<lparr>st_applied_up_to := rec_time v\<rparr> = at (last_time (rs @ [r, v])) s1"
    by (simp add: s1 at_def)
  ultimately show ?case by blast
qed

lemma replays_build_state: "replays E R rs s \<Longrightarrow> build_state_unchecked E rs = Some s"
  using replays_build [of E R rs s]
  by (auto simp: build_state_unchecked_def at_def last_time_def default_state_def split: if_splits)

end
