(* ===== verification/Taint.thy ===== *)
theory Taint
  imports Incremental
begin

text \<open>
  The taint cascade of \<open>mark_tainted\<close> is exact: after any sequence of accepted records the
  tainted set is the set of records that depend, through one or more \<open>Use\<close> or \<open>Require\<close>
  references, on a retracted record.

  \<open>epistemic_edges\<close> is the dependence relation the index \<open>epistemic_dependents\<close> stores and
  \<open>finite_index\<close> says that the index is a finite map to finite sets, which every ordered map of
  ordered sets is.
\<close>

section \<open>The dependence relation\<close>

definition epistemic_edges :: "(RecordId, RecordId set) mapping \<Rightarrow> (RecordId \<times> RecordId) set" where
  "epistemic_edges dep = {(a, b). b \<in> dependents dep a}"

definition finite_index :: "(RecordId, RecordId set) mapping \<Rightarrow> bool" where
  "finite_index dep \<longleftrightarrow> finite (Mapping.keys dep) \<and> (\<forall>k. finite (dependents dep k))"

lemma dependents_empty_index [simp]: "dependents Mapping.empty k = {}"
  by (simp add: dependents_def Mapping.lookup_default_empty)

lemma dependents_not_key: "k \<notin> Mapping.keys dep \<Longrightarrow> dependents dep k = {}"
  by (simp add: dependents_def Mapping.lookup_default_def keys_is_none_rep Option.is_none_def
      split: option.split)

lemma dependents_update [simp]:
  "dependents (Mapping.update k A dep) k' = (if k = k' then A else dependents dep k')"
  by (simp add: dependents_def)

lemma finite_index_empty [simp]: "finite_index Mapping.empty"
  by (simp add: finite_index_def)

lemma finite_index_update: "finite_index dep \<Longrightarrow> finite A \<Longrightarrow> finite_index (Mapping.update k A dep)"
  by (simp add: finite_index_def)

section \<open>The loop\<close>

definition pending :: "(RecordId, RecordId set) mapping \<Rightarrow> RecordId set \<Rightarrow> nat" where
  "pending dep T = (\<Sum>k \<in> Mapping.keys dep - T. card (dependents dep k))"

lemma pending_insert:
  assumes "finite_index dep" "i \<notin> T"
  shows "pending dep T = card (dependents dep i) + pending dep (insert i T)"
proof (cases "i \<in> Mapping.keys dep")
  case True
  have "Mapping.keys dep - T - {i} = Mapping.keys dep - insert i T" by auto
  then show ?thesis
    using sum.remove [of "Mapping.keys dep - T" i "\<lambda>k. card (dependents dep k)"] True assms
    by (simp add: pending_def finite_index_def)
next
  case False
  then have "Mapping.keys dep - T = Mapping.keys dep - insert i T" by auto
  then show ?thesis using False by (simp add: pending_def dependents_not_key)
qed

lemma pending_le_fuel:
  assumes "finite_index dep"
  shows "Suc (pending dep T) \<le> mark_fuel dep"
proof -
  have fin: "finite (Mapping.keys dep)" using assms by (simp add: finite_index_def)
  have "pending dep T \<le> (\<Sum>k \<in> Mapping.keys dep. card (dependents dep k))"
    unfolding pending_def by (rule sum_mono2) (use fin in auto)
  also have "\<dots> = (\<Sum>k \<leftarrow> Mapping.ordered_keys dep. card (dependents dep k))"
    using fin by (simp add: Mapping.ordered_keys_def sum_list_distinct_conv_sum_set)
  finally show ?thesis by (simp add: mark_fuel_def)
qed

lemma mark_tainted_loop_closure:
  assumes "finite_index dep" "length stack + pending dep T \<le> n"
  shows "T \<union> set stack \<subseteq> mark_tainted_loop n dep T stack
     \<and> mark_tainted_loop n dep T stack \<subseteq> T \<union> (epistemic_edges dep)\<^sup>* `` set stack
     \<and> (\<forall>x \<in> mark_tainted_loop n dep T stack - T.
          dependents dep x \<subseteq> mark_tainted_loop n dep T stack)"
  using assms(2)
proof (induction n arbitrary: T stack)
  case (Suc n)
  show ?case
  proof (cases stack)
    case (Cons i rest)
    show ?thesis
    proof (cases "i \<in> T")
      case True
      have "(epistemic_edges dep)\<^sup>* `` set rest \<subseteq> (epistemic_edges dep)\<^sup>* `` set stack"
        by (auto simp: Cons)
      with Suc.IH [of rest T] Suc.prems True show ?thesis by (auto simp: Cons)
    next
      case False
      let ?D = "dependents dep i"
      let ?stack = "rev (sorted_list_of_set ?D) @ rest"
      let ?L = "mark_tainted_loop n dep (insert i T) ?stack"
      have fin: "finite ?D" using assms(1) by (simp add: finite_index_def)
      have len: "length ?stack + pending dep (insert i T) \<le> n"
        using Suc.prems pending_insert [OF assms(1) False] by (simp add: Cons)
      note IH = Suc.IH [OF len]
      have loop: "mark_tainted_loop (Suc n) dep T stack = ?L"
        by (simp add: Cons False)
      have set: "set ?stack = ?D \<union> set rest" using fin by simp
      have "(epistemic_edges dep)\<^sup>* `` (?D \<union> set rest) \<subseteq> (epistemic_edges dep)\<^sup>* `` set stack"
        by (auto simp: Cons epistemic_edges_def intro: converse_rtrancl_into_rtrancl)
      moreover have "i \<in> (epistemic_edges dep)\<^sup>* `` set stack" by (auto simp: Cons)
      ultimately have "?L \<subseteq> T \<union> (epistemic_edges dep)\<^sup>* `` set stack"
        using IH unfolding set by blast
      moreover have "dependents dep x \<subseteq> ?L" if "x \<in> ?L - T" for x
        using that IH unfolding set by (cases "x = i") auto
      moreover have "T \<union> set stack \<subseteq> ?L" using IH by (auto simp: Cons)
      ultimately show ?thesis unfolding loop by blast
    qed
  qed auto
qed simp

lemma closed_rtrancl:
  assumes "x \<in> A" "\<forall>x \<in> A. dependents dep x \<subseteq> A" "(x, y) \<in> (epistemic_edges dep)\<^sup>*"
  shows "y \<in> A"
  using assms(3,1,2) by (induction rule: rtrancl_induct) (auto simp: epistemic_edges_def)

text \<open>
  With \<open>T\<close> closed except for edges into \<open>i\<close>, marking \<open>i\<close> adds exactly what depends on \<open>i\<close>.
\<close>

lemma mark_tainted_records:
  assumes "finite_index (st_epistemic_dependents s)"
    "\<forall>x \<in> st_tainted_records s. dependents (st_epistemic_dependents s) x \<subseteq> insert i (st_tainted_records s)"
  shows "st_tainted_records (mark_tainted s i)
     = st_tainted_records s \<union> (epistemic_edges (st_epistemic_dependents s))\<^sup>* `` {i}"
proof -
  let ?dep = "st_epistemic_dependents s" and ?T = "st_tainted_records s"
  let ?L = "mark_tainted_loop (mark_fuel ?dep) ?dep ?T [i]"
  have "length [i] + pending ?dep ?T \<le> mark_fuel ?dep"
    using pending_le_fuel [OF assms(1)] by simp
  note L = mark_tainted_loop_closure [OF assms(1) this]
  have closed: "\<forall>x \<in> ?L. dependents ?dep x \<subseteq> ?L"
  proof
    fix x assume x: "x \<in> ?L"
    show "dependents ?dep x \<subseteq> ?L"
      using L assms(2) x by (cases "x \<in> ?T") auto
  qed
  have "(epistemic_edges ?dep)\<^sup>* `` {i} \<subseteq> ?L"
    using L closed_rtrancl [OF _ closed, of i] by auto
  then show ?thesis using L by (auto simp: mark_tainted_def)
qed

lemma mark_tainted_other [simp]:
  "st_epistemic_dependents (mark_tainted s i) = st_epistemic_dependents s"
  "st_retracted_records (mark_tainted s i) = st_retracted_records s"
  "st_accepted_records (mark_tainted s i) = st_accepted_records s"
  by (simp_all add: mark_tainted_def)

section \<open>The invariant\<close>

definition taint_exact :: "State \<Rightarrow> bool" where
  "taint_exact s \<longleftrightarrow>
     finite_index (st_epistemic_dependents s)
     \<and> st_tainted_records s
         = (epistemic_edges (st_epistemic_dependents s))\<^sup>+ `` st_retracted_records s"

lemma taint_exact_default: "taint_exact default_state"
  by (simp add: taint_exact_def default_state_def)

lemma taint_exact_closed:
  assumes "taint_exact s" "x \<in> st_tainted_records s \<or> x \<in> st_retracted_records s"
  shows "dependents (st_epistemic_dependents s) x \<subseteq> st_tainted_records s"
proof
  fix y assume "y \<in> dependents (st_epistemic_dependents s) x"
  then have xy: "(x, y) \<in> epistemic_edges (st_epistemic_dependents s)"
    by (simp add: epistemic_edges_def)
  from assms show "y \<in> st_tainted_records s"
    unfolding taint_exact_def using xy by (auto intro: trancl_into_trancl)
qed

lemma edges_update:
  "epistemic_edges (Mapping.update k (insert i (dependents dep k)) dep)
     = insert (k, i) (epistemic_edges dep)"
  by (auto simp: epistemic_edges_def split: if_splits)

lemma fold_add_dependent:
  fixes i :: RecordId
  shows "st_retracted_records (fold (add_dependent i) refs s) = st_retracted_records s"
    "st_tainted_records (fold (add_dependent i) refs s) = st_tainted_records s"
    "epistemic_edges (st_epistemic_dependents (fold (add_dependent i) refs s))
       = epistemic_edges (st_epistemic_dependents s)
         \<union> {(ref_target r, i) | r. r \<in> set refs \<and> is_epistemic (ref_type r)}"
    "finite_index (st_epistemic_dependents s)
       \<Longrightarrow> finite_index (st_epistemic_dependents (fold (add_dependent i) refs s))"
proof (induction refs arbitrary: s)
  case (Cons r refs)
  {
    case 1
    show ?case using Cons(1) by (simp add: add_dependent_def)
  next
    case 2
    show ?case using Cons(2) by (simp add: add_dependent_def)
  next
    case 3
    show ?case using Cons(3) by (auto simp: add_dependent_def edges_update)
  next
    case 4
    have "finite (dependents (st_epistemic_dependents s) (ref_target r))"
      using 4 by (simp add: finite_index_def)
    then have "finite_index (st_epistemic_dependents (add_dependent i r s))"
      using 4 by (simp add: add_dependent_def finite_index_update)
    then show ?case using Cons(4) by simp
  }
qed simp_all

text \<open>Adding edges into one node \<open>i\<close>.\<close>

lemma trancl_insert_into:
  assumes E': "E' = E \<union> {(t, i) | t. t \<in> D}"
  shows "E'\<^sup>+ `` A \<subseteq> E\<^sup>+ `` A \<union> (if D \<inter> (A \<union> E\<^sup>+ `` A) = {} then {} else E'\<^sup>* `` {i})"
    "D \<inter> (A \<union> E\<^sup>+ `` A) \<noteq> {} \<Longrightarrow> E\<^sup>+ `` A \<union> E'\<^sup>* `` {i} \<subseteq> E'\<^sup>+ `` A"
proof -
  have mono: "E\<^sup>+ \<subseteq> E'\<^sup>+" by (rule trancl_mono_subset) (simp add: E')
  show "E'\<^sup>+ `` A \<subseteq> E\<^sup>+ `` A \<union> (if D \<inter> (A \<union> E\<^sup>+ `` A) = {} then {} else E'\<^sup>* `` {i})"
  proof
    fix y assume "y \<in> E'\<^sup>+ `` A"
    then obtain a where a: "a \<in> A" "(a, y) \<in> E'\<^sup>+" by auto
    from a(2) show "y \<in> E\<^sup>+ `` A \<union> (if D \<inter> (A \<union> E\<^sup>+ `` A) = {} then {} else E'\<^sup>* `` {i})"
    proof (induction rule: trancl_induct)
      case (base y)
      with a(1) show ?case by (auto simp: E')
    next
      case (step y z)
      show ?case
      proof (cases "y \<in> E\<^sup>+ `` A")
        case True
        with step.hyps(2) show ?thesis by (auto simp: E' intro: trancl_into_trancl)
      next
        case False
        with step show ?thesis by (auto split: if_splits intro: rtrancl_into_rtrancl)
      qed
    qed
  qed
  assume "D \<inter> (A \<union> E\<^sup>+ `` A) \<noteq> {}"
  then obtain t where t: "t \<in> D" "t \<in> A \<or> t \<in> E\<^sup>+ `` A" by auto
  have "(t, i) \<in> E'" using t(1) by (auto simp: E')
  then have "i \<in> E'\<^sup>+ `` A"
    using t(2) mono by (auto intro: trancl_into_trancl)
  then have "E'\<^sup>* `` {i} \<subseteq> E'\<^sup>+ `` A" by (auto intro: trancl_rtrancl_trancl)
  with mono show "E\<^sup>+ `` A \<union> E'\<^sup>* `` {i} \<subseteq> E'\<^sup>+ `` A" by auto
qed

lemma inherits_taint_iff:
  "inherits_taint s refs \<longleftrightarrow>
     {ref_target r | r. r \<in> set refs \<and> is_epistemic (ref_type r)}
       \<inter> (st_retracted_records s \<union> st_tainted_records s) \<noteq> {}"
  by (auto simp: inherits_taint_def list_ex_iff)

lemma taint_exact_register:
  assumes "taint_exact s"
  shows "taint_exact (register_accepted s r)"
proof -
  let ?i = "rec_id r"
  define D where "D = {ref_target e | e. e \<in> set (rec_refs r) \<and> is_epistemic (ref_type e)}"
  define s1 where "s1 = s\<lparr>st_accepted_records := insert ?i (st_accepted_records s)\<rparr>"
  define s2 where "s2 = fold (add_dependent ?i) (rec_refs r) s1"
  define A where "A = st_retracted_records s"
  let ?E = "epistemic_edges (st_epistemic_dependents s)"
  let ?E' = "epistemic_edges (st_epistemic_dependents s2)"
  have E': "?E' = ?E \<union> {(t, ?i) | t. t \<in> D}"
    by (auto simp: s2_def s1_def fold_add_dependent D_def)
  have T: "st_tainted_records s = ?E\<^sup>+ `` A"
    using assms by (simp add: taint_exact_def A_def)
  have s2: "st_retracted_records s2 = A" "st_tainted_records s2 = ?E\<^sup>+ `` A"
    by (simp_all add: s2_def s1_def fold_add_dependent A_def T)
  have fin: "finite_index (st_epistemic_dependents s2)"
    using assms by (simp add: s2_def s1_def fold_add_dependent taint_exact_def)
  have inh: "inherits_taint s1 (rec_refs r) \<longleftrightarrow> D \<inter> (A \<union> ?E\<^sup>+ `` A) \<noteq> {}"
    unfolding inherits_taint_iff D_def by (simp add: s1_def A_def T)
  have reg: "register_accepted s r
      = (if inherits_taint s1 (rec_refs r) then mark_tainted s2 ?i else s2)"
    by (simp add: register_accepted_def s1_def s2_def Let_def)
  show ?thesis
  proof (cases "inherits_taint s1 (rec_refs r)")
    case False
    have "?E\<^sup>+ `` A \<subseteq> ?E'\<^sup>+ `` A"
      using trancl_mono_subset [of ?E ?E'] by (auto simp: E')
    with False inh trancl_insert_into(1) [OF E', of A] fin s2 show ?thesis
      by (auto simp: reg taint_exact_def)
  next
    case True
    have "\<forall>x \<in> st_tainted_records s2. dependents (st_epistemic_dependents s2) x
        \<subseteq> insert ?i (st_tainted_records s2)"
    proof (intro ballI subsetI)
      fix x y assume x: "x \<in> st_tainted_records s2" and y: "y \<in> dependents (st_epistemic_dependents s2) x"
      then have "(x, y) \<in> ?E'" by (simp add: epistemic_edges_def)
      with x show "y \<in> insert ?i (st_tainted_records s2)"
        unfolding E' s2 by (auto intro: trancl_into_trancl)
    qed
    note mark = mark_tainted_records [OF fin this]
    have "st_tainted_records (mark_tainted s2 ?i) = ?E'\<^sup>+ `` A"
      using trancl_insert_into [OF E', of A] True inh by (auto simp: mark s2)
    with True fin s2 show ?thesis by (simp add: reg taint_exact_def)
  qed
qed

section \<open>Retractions\<close>

lemma fold_mark_tainted_records:
  assumes "finite_index (st_epistemic_dependents s)"
    "\<forall>x \<in> st_tainted_records s. dependents (st_epistemic_dependents s) x \<subseteq> st_tainted_records s"
  shows "st_tainted_records (fold (\<lambda>i s. mark_tainted s i) is s)
       = st_tainted_records s \<union> (epistemic_edges (st_epistemic_dependents s))\<^sup>* `` set is
     \<and> st_epistemic_dependents (fold (\<lambda>i s. mark_tainted s i) is s) = st_epistemic_dependents s
     \<and> st_retracted_records (fold (\<lambda>i s. mark_tainted s i) is s) = st_retracted_records s"
  using assms
proof (induction "is" arbitrary: s)
  case (Cons i "is")
  let ?dep = "st_epistemic_dependents s" and ?T = "st_tainted_records s"
  have mark: "st_tainted_records (mark_tainted s i) = ?T \<union> (epistemic_edges ?dep)\<^sup>* `` {i}"
    by (rule mark_tainted_records [OF Cons.prems(1)]) (use Cons.prems(2) in blast)
  have "dependents ?dep x \<subseteq> st_tainted_records (mark_tainted s i)"
    if "x \<in> st_tainted_records (mark_tainted s i)" for x
    using that Cons.prems(2) unfolding mark
    by (auto simp: epistemic_edges_def intro: rtrancl_into_rtrancl)
  with Cons.IH [of "mark_tainted s i"] Cons.prems(1) show ?case
    by (auto simp: mark)
qed simp

lemma Image_trancl_insert: "E\<^sup>+ `` insert t A = E\<^sup>+ `` A \<union> E\<^sup>* `` (E `` {t})"
  by (auto dest: tranclD intro: rtrancl_into_trancl2)

lemma taint_dependents_exact:
  assumes "taint_exact s"
  shows "taint_exact (taint_dependents t (s\<lparr>st_retracted_records := insert t (st_retracted_records s)\<rparr>))"
proof -
  let ?s = "s\<lparr>st_retracted_records := insert t (st_retracted_records s)\<rparr>"
  have fin: "finite_index (st_epistemic_dependents ?s)"
    using assms by (simp add: taint_exact_def)
  have closed: "\<forall>x \<in> st_tainted_records ?s. dependents (st_epistemic_dependents ?s) x \<subseteq> st_tainted_records ?s"
    using taint_exact_closed [OF assms] by simp
  have "set (sorted_list_of_set (dependents (st_epistemic_dependents s) t))
      = epistemic_edges (st_epistemic_dependents s) `` {t}"
    using fin by (auto simp: finite_index_def epistemic_edges_def)
  with fold_mark_tainted_records [OF fin closed] assms fin show ?thesis
    by (simp add: taint_dependents_def taint_exact_def Image_trancl_insert)
qed

section \<open>The whole fold\<close>

lemma taint_exact_cong:
  assumes "st_epistemic_dependents s' = st_epistemic_dependents s"
    "st_tainted_records s' = st_tainted_records s" "st_retracted_records s' = st_retracted_records s"
  shows "taint_exact s' = taint_exact s"
  using assms by (simp add: taint_exact_def)

lemma apply_kind_taint_fields:
  assumes "apply_kind E r s = Some s'" "rec_kind r \<noteq> KRetraction"
  shows "st_epistemic_dependents s' = st_epistemic_dependents s
    \<and> st_tainted_records s' = st_tainted_records s \<and> st_retracted_records s' = st_retracted_records s"
  using assms
  by (cases "rec_kind r")
    (auto simp: apply_kind_def arm_defs helper_upds split: option.splits RefusalTarget.splits)

lemma taint_exact_apply_kind:
  assumes "taint_exact s" "apply_kind E r s = Some s'"
  shows "taint_exact s'"
proof (cases "rec_kind r = KRetraction")
  case True
  with assms(2) obtain t where "s' = deactivate t (taint_dependents t
      (s\<lparr>st_retracted_records := insert t (st_retracted_records s)\<rparr>))"
    by (force simp: apply_kind_def apply_retraction_def Let_def split: option.splits)
  then show ?thesis
    using taint_dependents_exact [OF assms(1), of t] by (simp add: taint_exact_def deactivate_def)
next
  case False
  with apply_kind_taint_fields [OF assms(2)] assms(1) show ?thesis
    by (subst taint_exact_cong) auto
qed

lemma taint_exact_apply_record:
  assumes "taint_exact s" "apply_record E s r v = Some s'"
  shows "taint_exact s'"
  using assms taint_exact_apply_kind [OF taint_exact_register [OF assms(1)]]
  by (auto simp: apply_record_def apply_accepted_def split: VerdictResult.splits)

end
