(* ===== verification/Ledger_Invariants.thy ===== *)
theory Ledger_Invariants
  imports Replay_Build Taint
begin

text \<open>
  Invariants of the state along a replay.  The locale \<open>checked_invariant\<close> is the contract of an
  invariant that accepted records preserve because the rules admitted them; \<open>state_invariant\<close> is
  the stronger contract of one that every fold step preserves.  Each invariant below is an
  interpretation, and the properties of the ledger follow from its consequence for replayed logs.
\<close>

section \<open>Extending a replayed log\<close>

lemma replays_extend [consumes 3, case_names base step]:
  assumes "replays E R log s'" "log = rs @ ext" "replays E R rs s"
    and base: "P rs s"
    and step: "\<And>l t r v t'. replays E R l t \<Longrightarrow> set rs \<subseteq> set l \<Longrightarrow> P l t \<Longrightarrow> rec_id r \<notin> rec_id ` set l
      \<Longrightarrow> apply_record E t r (verdict_of (check_record E r (prior_of (l @ [r])) R t)) = Some t'
      \<Longrightarrow> P (l @ [r, v]) (at (rec_time v) t')"
  shows "P log s'"
  using assms(1,2)
proof (induction arbitrary: ext rule: replays.induct)
  case replays_Nil
  with assms(3) base show ?case by (auto elim: replays_NilE)
next
  case (replays_pair log t r v t')
  have upd: "t'\<lparr>st_applied_up_to := rec_time v\<rparr> = at (rec_time v) t'" by (simp add: at_def)
  show ?case
  proof (cases "ext = []")
    case True
    then have "replays E R rs (t'\<lparr>st_applied_up_to := rec_time v\<rparr>)"
      using replays.replays_pair [OF replays_pair.hyps] replays_pair.prems by simp
    then show ?thesis using replays_functional [OF _ assms(3)] base True replays_pair.prems by auto
  next
    case False
    have "even (length rs)" "even (length log)"
      using replays_even assms(3) replays_pair.hyps(1) by blast+
    with False replays_pair.prems obtain ext' where ext': "log = rs @ ext'"
      by (auto simp: append_eq_append_conv2 append_eq_Cons_conv Cons_eq_append_conv split: if_splits)
    show ?thesis
      unfolding upd
      by (rule step [OF replays_pair.hyps(1) _ replays_pair.IH [OF ext'] _ replays_pair.hyps(7)])
        (use ext' replays_fresh [OF replays_pair.hyps(1,4,5)] in auto)
  qed
qed

section \<open>The contracts\<close>

locale checked_invariant =
  fixes E :: "'z env_scheme" and R :: VerifierRules
    and inv :: "Record list \<Rightarrow> State \<Rightarrow> bool"
  assumes inv_Nil: "inv [] default_state"
    and inv_accept:
      "replays E R rs s \<Longrightarrow> inv rs s \<Longrightarrow> rec_kind r \<noteq> KVerdict \<Longrightarrow> rec_kind v = KVerdict
       \<Longrightarrow> rec_id r \<notin> rec_id ` set rs
       \<Longrightarrow> check_record E r (prior_of (rs @ [r])) R s = None
       \<Longrightarrow> apply_accepted E s r = Some s' \<Longrightarrow> inv (rs @ [r, v]) (at (rec_time v) s')"
    and inv_reject:
      "replays E R rs s \<Longrightarrow> inv rs s \<Longrightarrow> rec_kind r \<noteq> KVerdict \<Longrightarrow> rec_kind v = KVerdict
       \<Longrightarrow> rec_id r \<notin> rec_id ` set rs
       \<Longrightarrow> check_record E r (prior_of (rs @ [r])) R s \<noteq> None
       \<Longrightarrow> inv (rs @ [r, v]) (at (rec_time v) s)"
begin

lemma inv_replays: "replays E R rs s \<Longrightarrow> inv rs s"
proof (induction rule: replays.induct)
  case replays_Nil
  show ?case by (rule inv_Nil)
next
  case (replays_pair rs s r v s')
  have fresh: "rec_id r \<notin> rec_id ` set rs"
    by (rule replays_fresh [OF replays_pair.hyps(1,4,5)])
  have upd: "s'\<lparr>st_applied_up_to := rec_time v\<rparr> = at (rec_time v) s'" by (simp add: at_def)
  show ?case
  proof (cases "check_record E r (prior_of (rs @ [r])) R s")
    case None
    with replays_pair.hyps(7) have "apply_accepted E s r = Some s'"
      by (simp add: apply_record_def verdict_of_def)
    then show ?thesis
      unfolding upd using inv_accept replays_pair.hyps replays_pair.IH fresh None by blast
  next
    case (Some c)
    with replays_pair.hyps(7) have "s' = s"
      by (simp add: apply_record_def verdict_of_def)
    then show ?thesis
      unfolding upd using inv_reject replays_pair.hyps replays_pair.IH fresh Some by blast
  qed
qed

end

locale state_invariant =
  fixes E :: "'z env_scheme" and inv :: "State \<Rightarrow> bool"
  assumes inv_default: "inv default_state"
    and inv_apply: "inv s \<Longrightarrow> apply_record E s r v = Some s' \<Longrightarrow> inv s'"
    and inv_at: "inv s \<Longrightarrow> inv (at t s)"

sublocale state_invariant \<subseteq> replayed: checked_invariant E R "\<lambda>_. inv"
proof
  show "inv default_state" by (rule inv_default)
next
  fix rs s s' and r v :: Record
  assume "inv s" "apply_accepted E s r = Some s'"
  then have "inv s'"
    using inv_apply [of s r "verdict_of None" s'] by (simp add: apply_record_def verdict_of_def)
  then show "inv (at (rec_time v) s')" by (rule inv_at)
next
  fix rs s and r v :: Record
  assume "inv s"
  then show "inv (at (rec_time v) s)" by (rule inv_at)
qed

context state_invariant
begin

lemma inv_apply_all: "inv s \<Longrightarrow> apply_all E vm rs s = Some s' \<Longrightarrow> inv s'"
proof (induction rs arbitrary: s)
  case (Cons r rs)
  then show ?case
    by (auto split: if_splits option.splits dest: inv_apply)
qed simp

lemma inv_build_state: "build_state_unchecked E rs = Some s \<Longrightarrow> inv s"
  using inv_apply_all [OF inv_default] inv_at
  by (auto simp: build_state_unchecked_def at_def [symmetric] inv_default
      split: if_splits option.splits)

end

section \<open>Taint\<close>

interpretation taint: state_invariant E taint_exact for E :: "'z env_scheme"
proof
  show "taint_exact default_state" by (rule taint_exact_default)
  show "taint_exact s \<Longrightarrow> apply_record E s r v = Some s' \<Longrightarrow> taint_exact s'" for s r v s'
    by (rule taint_exact_apply_record)
  show "taint_exact s \<Longrightarrow> taint_exact (at t s)" for s t
    by (simp add: taint_exact_def)
qed

section \<open>Accepted records are subjects of the log\<close>

definition subject_ids :: "Record list \<Rightarrow> RecordId set" where
  "subject_ids rs = rec_id ` {r \<in> set rs. rec_kind r \<noteq> KVerdict}"

lemma subject_ids_pair [simp]:
  "rec_kind r \<noteq> KVerdict \<Longrightarrow> rec_kind v = KVerdict
   \<Longrightarrow> subject_ids (rs @ [r, v]) = insert (rec_id r) (subject_ids rs)"
  by (auto simp: subject_ids_def)

lemma subject_ids_subset: "subject_ids rs \<subseteq> rec_id ` set rs"
  by (auto simp: subject_ids_def)

lemma apply_kind_accepted:
  assumes "apply_kind E r s = Some s'"
  shows "st_accepted_records s' = st_accepted_records s"
  using assms by (cases "rec_kind r")
    (auto simp: apply_kind_def arm_defs helper_upds split: option.splits RefusalTarget.splits)

lemma apply_accepted_records:
  "apply_accepted E s r = Some s'
   \<Longrightarrow> st_accepted_records s' = insert (rec_id r) (st_accepted_records s)"
  using apply_kind_accepted [of E r "register_accepted s r" s']
  by (simp add: apply_accepted_def)

definition accepted_subjects :: "Record list \<Rightarrow> State \<Rightarrow> bool" where
  "accepted_subjects rs s \<longleftrightarrow> st_accepted_records s \<subseteq> subject_ids rs"

interpretation accepted: checked_invariant E R accepted_subjects
  for E :: "'z env_scheme" and R
  by unfold_locales
    (auto simp: accepted_subjects_def default_state_def dest: apply_accepted_records)

lemma accepted_not_fresh:
  assumes "replays E R rs s" "i \<notin> rec_id ` set rs"
  shows "i \<notin> st_accepted_records s"
  using accepted.inv_replays [OF assms(1)] assms(2) subject_ids_subset
  by (auto simp: accepted_subjects_def)

lemma accepted_mono:
  assumes "replays E R log s'" "log = rs @ ext" "replays E R rs s"
  shows "st_accepted_records s \<subseteq> st_accepted_records s'"
  using assms
proof (induction rule: replays_extend)
  case (step l t r v t')
  then show ?case using apply_accepted_records [of E t r t']
    by (auto simp: apply_record_def split: VerdictResult.splits)
qed simp

end
