(* ===== verification/Work_Invariants.thy ===== *)
theory Work_Invariants
  imports Ledger_Invariants
begin

text \<open>
  Open work and conversation turns.  The per-request counter of open actions is exact, so closing
  an action never underflows it and a closing response is accepted only when the request has no
  open action; the accepted responses of a request carry the turn numbers 0, 1, 2, ... in log
  order.
\<close>

section \<open>What the fold does to open work\<close>

lemma apply_kind_work:
  assumes "apply_kind E r s = Some s'"
  obtains
    (opened) d where "rec_kind r = KAction" "de_action E (rec_data r) = Some d"
      "st_open_actions s' = insert (rec_id r) (st_open_actions s)"
      "st_action_to_request s' = Mapping.update (rec_id r) (act_request_id d) (st_action_to_request s)"
      "st_request_open_action_count s' =
         Mapping.update (act_request_id d)
           (Mapping.lookup_default 0 (st_request_open_action_count s) (act_request_id d) + 1)
           (st_request_open_action_count s)"
  | (closed) a where "rec_kind r = KResult \<and> (\<exists>d. de_result E (rec_data r) = Some d \<and> rst_action_id d = a)
      \<or> rec_kind r = KRefusal \<and> (\<exists>d. de_refusal E (rec_data r) = Some d
           \<and> rfs_target_kind d = RefAction \<and> rfs_target_id d = a)"
      "st_open_actions s' = st_open_actions s - {a}"
      "st_action_to_request s' = st_action_to_request s"
      "st_request_open_action_count s' =
         closed_count a (st_action_to_request s) (st_request_open_action_count s)"
  | (same) "st_open_actions s' = st_open_actions s"
      "st_action_to_request s' = st_action_to_request s"
      "st_request_open_action_count s' = st_request_open_action_count s"
proof (cases "rec_kind r")
  case KAction
  with assms show thesis
    by (auto simp: apply_kind_def arm_defs helper_upds split: option.splits intro: opened)
next
  case KResult
  with assms show thesis
    by (auto simp: apply_kind_def arm_defs helper_upds intro: closed)
next
  case KRefusal
  with assms obtain d where d: "de_refusal E (rec_data r) = Some d"
    by (auto simp: apply_kind_def arm_defs split: option.splits)
  show thesis
  proof (cases "rfs_target_kind d")
    case RefAction
    show thesis
      by (rule closed [of "rfs_target_id d"])
        (use assms KRefusal d RefAction in
          \<open>auto simp: apply_kind_def arm_defs helper_upds\<close>)
  qed (use assms KRefusal d in \<open>auto simp: apply_kind_def arm_defs intro!: same\<close>)
qed (use assms in \<open>auto simp: apply_kind_def arm_defs helper_upds split: option.splits intro!: same\<close>)

section \<open>The counter is exact\<close>

definition open_for :: "State \<Rightarrow> RecordId \<Rightarrow> RecordId set" where
  "open_for s q = {a \<in> st_open_actions s. Mapping.lookup (st_action_to_request s) a = Some q}"

definition open_count :: "State \<Rightarrow> RecordId \<Rightarrow> u64" where
  "open_count s q = Mapping.lookup_default 0 (st_request_open_action_count s) q"

definition counts_exact :: "Record list \<Rightarrow> State \<Rightarrow> bool" where
  "counts_exact rs s \<longleftrightarrow>
     st_open_actions s \<subseteq> rec_id ` set rs
     \<and> (\<forall>a \<in> st_open_actions s. Mapping.lookup (st_action_to_request s) a \<noteq> None)
     \<and> (length rs < 2 ^ 64 \<longrightarrow>
          (\<forall>q. unat (open_count s q) = card (open_for s q)
               \<and> Mapping.lookup (st_request_open_action_count s) q \<noteq> Some 0))"

lemma open_for_bound:
  assumes "counts_exact rs s"
  shows "finite (open_for s q)" "card (open_for s q) \<le> length rs"
proof -
  have sub: "open_for s q \<subseteq> set (map rec_id rs)"
    using assms by (auto simp: counts_exact_def open_for_def)
  then show "finite (open_for s q)" by (rule finite_subset) simp
  have "card (open_for s q) \<le> card (set (map rec_id rs))"
    by (rule card_mono) (use sub in auto)
  also have "\<dots> \<le> length rs" using card_length [of "map rec_id rs"] by simp
  finally show "card (open_for s q) \<le> length rs" .
qed

lemma counts_exact_open:
  assumes inv: "counts_exact rs s" and fresh: "rec_id r \<notin> rec_id ` set rs"
    and s': "st_open_actions s' = insert (rec_id r) (st_open_actions s)"
      "st_action_to_request s' = Mapping.update (rec_id r) q (st_action_to_request s)"
      "st_request_open_action_count s' =
         Mapping.update q (Mapping.lookup_default 0 (st_request_open_action_count s) q + 1)
           (st_request_open_action_count s)"
    and len: "length rs + 1 < 2 ^ 64"
  shows "unat (open_count s' p) = card (open_for s' p)"
    "Mapping.lookup (st_request_open_action_count s') p \<noteq> Some 0"
proof -
  have new: "rec_id r \<notin> st_open_actions s"
    using inv fresh by (auto simp: counts_exact_def)
  have of': "open_for s' p = (if p = q then insert (rec_id r) (open_for s p) else open_for s p)"
    using new by (auto simp: open_for_def s')
  have cnt: "unat (open_count s p) = card (open_for s p)" for p
    using inv len by (simp add: counts_exact_def)
  have "card (open_for s q) + 1 < 2 ^ 64"
    using open_for_bound(2) [OF inv, of q] len by simp
  then have suc: "unat (open_count s q + 1) = unat (open_count s q) + 1"
    by (simp add: cnt unat_word_ariths)
  have notin: "rec_id r \<notin> open_for s q" using new by (simp add: open_for_def)
  show "unat (open_count s' p) = card (open_for s' p)"
    using suc cnt notin open_for_bound(1) [OF inv]
    by (auto simp: of' open_count_def s')
  show "Mapping.lookup (st_request_open_action_count s') p \<noteq> Some 0"
  proof (cases "p = q")
    case True
    have "unat (open_count s q + 1) \<noteq> 0" using suc by simp
    then have "open_count s q + 1 \<noteq> 0" by (metis unat_0)
    then show ?thesis by (simp add: s' True open_count_def)
  next
    case False
    then show ?thesis using inv len by (simp add: s' counts_exact_def)
  qed
qed

lemma lookup_default_conv:
  "Mapping.lookup_default d m k = (case Mapping.lookup m k of None \<Rightarrow> d | Some v \<Rightarrow> v)"
  by (simp add: Mapping.lookup_default_def)

lemma counts_exact_close:
  assumes inv: "counts_exact rs s" and a: "a \<in> st_open_actions s"
    and s': "st_open_actions s' = st_open_actions s - {a}"
      "st_action_to_request s' = st_action_to_request s"
      "st_request_open_action_count s' =
         closed_count a (st_action_to_request s) (st_request_open_action_count s)"
    and len: "length rs < 2 ^ 64"
  shows "unat (open_count s' p) = card (open_for s' p)"
    "Mapping.lookup (st_request_open_action_count s') p \<noteq> Some 0"
proof -
  obtain q where q: "Mapping.lookup (st_action_to_request s) a = Some q"
    using inv a by (auto simp: counts_exact_def)
  have cnt: "unat (open_count s p) = card (open_for s p)" for p
    using inv len by (simp add: counts_exact_def)
  have aq: "a \<in> open_for s q" using a q by (simp add: open_for_def)
  then have pos: "card (open_for s q) > 0"
    using open_for_bound(1) [OF inv] by (auto simp: card_gt_0_iff)
  then have "open_count s q \<noteq> 0" by (simp flip: cnt add: unat_gt_0)
  then obtain c where c: "Mapping.lookup (st_request_open_action_count s) q = Some c" "c \<noteq> 0"
    "open_count s q = c"
    by (auto simp: open_count_def lookup_default_conv split: option.splits)
  have dec: "unat (c - 1) = unat c - 1"
    using c(2) by (simp add: unat_minus_one)
  have of': "open_for s' p = (if p = q then open_for s q - {a} else open_for s p)"
    using q by (auto simp: open_for_def s')
  have oc': "open_count s' p = (if p = q then c - 1 else open_count s p)"
    by (auto simp: open_count_def s' closed_count_def q c(1) lookup_default_conv)
  show "unat (open_count s' p) = card (open_for s' p)"
    using dec cnt [of q] c(3) aq cnt [of p] open_for_bound(1) [OF inv]
    by (simp add: of' oc' card_Diff_singleton)
  show "Mapping.lookup (st_request_open_action_count s') p \<noteq> Some 0"
    using inv len by (auto simp: counts_exact_def s' closed_count_def q c(1))
qed

text \<open>An accepted result or action refusal names an open action.\<close>

lemma accepted_close_open:
  assumes "check_kind_specific E r p R s = None"
    "rec_kind r = KResult \<and> (\<exists>d. de_result E (rec_data r) = Some d \<and> rst_action_id d = a)
      \<or> rec_kind r = KRefusal \<and> (\<exists>d. de_refusal E (rec_data r) = Some d
           \<and> rfs_target_kind d = RefAction \<and> rfs_target_id d = a)"
  shows "a \<in> st_open_actions s"
  using assms
  by (auto simp: check_kind_specific_def check_result_def check_refusal_def check_refusal_target_def
      split: option.splits)

lemma at_open [simp]: "open_for (at t s) = open_for s" "open_count (at t s) = open_count s"
  by (simp_all add: open_for_def open_count_def fun_eq_iff)

lemma counts_exact_register: "counts_exact rs (register_accepted s r) = counts_exact rs s"
  by (simp add: counts_exact_def open_for_def open_count_def)

lemma counts_exact_at [simp]: "counts_exact rs (at t s) = counts_exact rs s"
  by (simp add: counts_exact_def)

lemma counts_exact_mono:
  "counts_exact rs s \<Longrightarrow> counts_exact (rs @ rs') s"
  by (auto simp: counts_exact_def)

lemma counts_exact_accept:
  assumes inv: "counts_exact rs s" and fresh: "rec_id r \<notin> rec_id ` set rs"
    and chk: "check_kind_specific E r p R s = None"
    and app: "apply_accepted E s r = Some s'"
  shows "counts_exact (rs @ [r, v]) s'"
proof -
  let ?s = "register_accepted s r"
  have inv': "counts_exact rs ?s" using inv by (simp add: counts_exact_register)
  from app have "apply_kind E r ?s = Some s'" by (simp add: apply_accepted_def)
  then show ?thesis
  proof (cases rule: apply_kind_work)
    case (opened d)
    note step = counts_exact_open [OF inv' fresh opened(3,4,5)]
    show ?thesis
      using inv opened(3,4) step by (auto simp: counts_exact_def)
  next
    case (closed a)
    have "a \<in> st_open_actions ?s"
      using accepted_close_open [OF chk closed(1)] by simp
    note step = counts_exact_close [OF inv' this closed(2,3,4)]
    show ?thesis
      using inv closed(2,3) step by (auto simp: counts_exact_def)
  next
    case same
    have "counts_exact rs s'"
      using inv same by (simp add: counts_exact_def open_for_def open_count_def)
    then show ?thesis by (rule counts_exact_mono)
  qed
qed

interpretation counts: checked_invariant E R counts_exact for E :: "'z env_scheme" and R
proof
  show "counts_exact [] default_state"
    by (simp add: counts_exact_def open_count_def open_for_def default_state_def
        Mapping.lookup_default_empty)
next
  fix rs s s' and r v :: Record
  assume *: "counts_exact rs s" "rec_id r \<notin> rec_id ` set rs" "rec_kind r \<noteq> KVerdict"
    "check_record E r (prior_of (rs @ [r])) R s = None" "apply_accepted E s r = Some s'"
  show "counts_exact (rs @ [r, v]) (at (rec_time v) s')"
    unfolding counts_exact_at
    by (rule counts_exact_accept [OF *(1,2) check_record_None(8) [OF *(4,3)] *(5)])
next
  fix rs s r v
  assume "counts_exact rs s"
  then show "counts_exact (rs @ [r, v]) (at (rec_time v) s)"
    using counts_exact_mono by simp
qed

section \<open>Turns\<close>

definition response_to :: "'z env_scheme \<Rightarrow> RecordId \<Rightarrow> Record \<Rightarrow> ResponseData option" where
  "response_to E q r =
     (if rec_kind r = KResponse
      then (case de_response E (rec_data r) of None \<Rightarrow> None
            | Some d \<Rightarrow> if rsp_request_id d = q then Some d else None)
      else None)"

definition accepted_turns :: "'z env_scheme \<Rightarrow> RecordId \<Rightarrow> State \<Rightarrow> Record list \<Rightarrow> u32 list" where
  "accepted_turns E q s rs =
     map rsp_turn_index
       (List.map_filter (\<lambda>r. if rec_id r \<in> st_accepted_records s then response_to E q r else None) rs)"

definition turns_exact :: "'z env_scheme \<Rightarrow> Record list \<Rightarrow> State \<Rightarrow> bool" where
  "turns_exact E rs s \<longleftrightarrow>
     (\<forall>q. map unat (accepted_turns E q s rs)
          = [0..<unat (Mapping.lookup_default 0 (st_response_turns s) q)])"

lemma apply_kind_turns:
  assumes "apply_kind E r s = Some s'"
  shows "st_response_turns s' =
     (case if rec_kind r = KResponse then de_response E (rec_data r) else None of
        None \<Rightarrow> st_response_turns s
      | Some d \<Rightarrow>
          Mapping.update (rsp_request_id d)
            (u32_saturating_add (Mapping.lookup_default 0 (st_response_turns s) (rsp_request_id d)) 1)
            (st_response_turns s))"
  using assms
  by (cases "rec_kind r")
    (auto simp: apply_kind_def arm_defs helper_upds split: option.splits RefusalTarget.splits)

lemma accepted_turns_append:
  "accepted_turns E q s (rs @ rs') = accepted_turns E q s rs @ accepted_turns E q s rs'"
  by (simp add: accepted_turns_def List.map_filter_def)

lemma accepted_turns_fresh:
  assumes "i \<notin> rec_id ` set rs" "st_accepted_records s' = insert i (st_accepted_records s)"
  shows "accepted_turns E q s' rs = accepted_turns E q s rs"
  using assms by (induction rs) (auto simp: accepted_turns_def map_filter_simps split: option.split)

lemma check_response_turn:
  assumes "check_kind_specific E r p R s = None" "rec_kind r = KResponse"
  obtains d where "de_response E (rec_data r) = Some d"
    "rsp_turn_index d = Mapping.lookup_default 0 (st_response_turns s) (rsp_request_id d)"
    "rsp_turn_index d \<noteq> - 1"
  using assms
  by (auto simp: check_kind_specific_def check_response_def Let_def split: option.splits intro: that)

lemma u32_saturating_Suc: "t \<noteq> - 1 \<Longrightarrow> unat (u32_saturating_add t 1) = Suc (unat t)"
proof -
  assume "t \<noteq> - 1"
  then have "t < - 1" by (simp add: word_order.not_eq_extremum)
  then have "unat t < unat (- 1 :: u32)" by (simp only: word_less_nat_alt)
  moreover have "unat (- 1 :: u32) = 2 ^ LENGTH(32) - 1" 
    by (simp add: unsigned_minus_1_eq_mask mask_eq_exp_minus_1)
  ultimately have "unat t + 1 < 2 ^ 32" by simp
  then show ?thesis by (simp add: u32_saturating_add_nat unat_word_ariths)
qed

lemma turns_exact_accept:
  assumes inv: "turns_exact E rs s" and fresh: "rec_id r \<notin> rec_id ` set rs"
    and v: "rec_kind v = KVerdict"
    and chk: "check_kind_specific E r p R s = None"
    and app: "apply_accepted E s r = Some s'"
  shows "turns_exact E (rs @ [r, v]) s'"
  unfolding turns_exact_def
proof
  fix q
  have acc: "st_accepted_records s' = insert (rec_id r) (st_accepted_records s)"
    by (rule apply_accepted_records [OF app])
  have old: "map unat (accepted_turns E q s' rs)
      = [0..<unat (Mapping.lookup_default 0 (st_response_turns s) q)]"
    using inv by (simp add: turns_exact_def accepted_turns_fresh [OF fresh acc])
  have verdict: "accepted_turns E q s' [v] = []"
    by (simp add: accepted_turns_def response_to_def v map_filter_simps)
  have turns: "st_response_turns s' =
     (case if rec_kind r = KResponse then de_response E (rec_data r) else None of
        None \<Rightarrow> st_response_turns s
      | Some d \<Rightarrow>
          Mapping.update (rsp_request_id d)
            (u32_saturating_add (Mapping.lookup_default 0 (st_response_turns s) (rsp_request_id d)) 1)
            (st_response_turns s))"
    using apply_kind_turns [of E r "register_accepted s r" s'] app
    by (simp add: apply_accepted_def split: option.split)
  have "rs @ [r, v] = rs @ [r] @ [v]" by simp
  then have split: "accepted_turns E q s' (rs @ [r, v])
      = accepted_turns E q s' rs @ accepted_turns E q s' [r]"
    by (simp only: accepted_turns_append verdict append_Nil2)
  show "map unat (accepted_turns E q s' (rs @ [r, v]))
      = [0..<unat (Mapping.lookup_default 0 (st_response_turns s') q)]"
  proof (cases "rec_kind r = KResponse")
    case True
    then obtain d where d: "de_response E (rec_data r) = Some d"
      "rsp_turn_index d = Mapping.lookup_default 0 (st_response_turns s) (rsp_request_id d)"
      "rsp_turn_index d \<noteq> - 1"
      using check_response_turn [OF chk] by blast
    with True show ?thesis
      using u32_saturating_Suc [OF d(3)]
      by (simp add: split old turns) (auto simp: accepted_turns_def response_to_def acc map_filter_simps)
  next
    case False
    then show ?thesis
      by (simp add: split old turns) (simp add: accepted_turns_def response_to_def map_filter_simps)
  qed
qed

interpretation turns: checked_invariant E R "turns_exact E" for E :: "'z env_scheme" and R
proof
  show "turns_exact E [] default_state"
    by (simp add: turns_exact_def accepted_turns_def default_state_def map_filter_simps
        Mapping.lookup_default_empty)
next
  fix rs s s' and r v :: Record
  assume *: "turns_exact E rs s" "rec_id r \<notin> rec_id ` set rs" "rec_kind r \<noteq> KVerdict"
    "rec_kind v = KVerdict"
    "check_record E r (prior_of (rs @ [r])) R s = None" "apply_accepted E s r = Some s'"
  have "turns_exact E (rs @ [r, v]) s'"
    by (rule turns_exact_accept [OF *(1,2,4) check_record_None(8) [OF *(5,3)] *(6)])
  then show "turns_exact E (rs @ [r, v]) (at (rec_time v) s')"
    by (simp add: turns_exact_def accepted_turns_def)
next
  fix rs s and r v :: Record
  assume *: "replays E R rs s" "turns_exact E rs s" "rec_id r \<notin> rec_id ` set rs"
    "rec_kind v = KVerdict"
  have "accepted_turns E q s [r, v] = []" for q
    using accepted_not_fresh [OF *(1,3)] *(4)
    by (simp add: accepted_turns_def response_to_def map_filter_simps)
  then have "turns_exact E (rs @ [r, v]) s"
    using *(2) by (simp add: turns_exact_def accepted_turns_append)
  then show "turns_exact E (rs @ [r, v]) (at (rec_time v) s)"
    by (simp add: turns_exact_def accepted_turns_def)
qed

end
