(* ===== verification/Authority_Invariants.thy ===== *)
theory Authority_Invariants
  imports Ledger_Invariants
begin

text \<open>
  The authority maps of the state (active capabilities, class approvals, exact approvals) only
  hold accepted records of the log whose payload says exactly what the map key says, and an exact
  approval that has been consumed never returns.
\<close>

section \<open>Backing records\<close>

definition backs :: "Record list \<Rightarrow> State \<Rightarrow> Kind \<Rightarrow> (bytes \<Rightarrow> bool) \<Rightarrow> RecordId \<Rightarrow> bool" where
  "backs rs s k ok i \<longleftrightarrow>
     (\<exists>c \<in> set rs. rec_id c = i \<and> rec_kind c = k \<and> i \<in> st_accepted_records s \<and> ok (rec_data c))"

definition cap_for :: "'z env_scheme \<Rightarrow> cap_key \<Rightarrow> bytes \<Rightarrow> bool" where
  "cap_for E key data \<longleftrightarrow>
     (case de_capability E data of None \<Rightarrow> False
      | Some d \<Rightarrow> (cap_actor_id d, cap_action_class d, cap_scope d) = key)"

definition class_approval_for :: "'z env_scheme \<Rightarrow> class_key \<Rightarrow> bytes \<Rightarrow> bool" where
  "class_approval_for E key data \<longleftrightarrow>
     (case de_approval E data of None \<Rightarrow> False
      | Some d \<Rightarrow> \<exists>c. apr_action_class d = Some c \<and> (c, apr_scope d, apr_actor_id d) = key)"

definition exact_approval_for :: "'z env_scheme \<Rightarrow> hash256 \<Rightarrow> bytes \<Rightarrow> bool" where
  "exact_approval_for E h data \<longleftrightarrow>
     (case de_approval E data of None \<Rightarrow> False | Some d \<Rightarrow> apr_target_action d = Some h)"

definition authority_backed :: "'z env_scheme \<Rightarrow> Record list \<Rightarrow> State \<Rightarrow> bool" where
  "authority_backed E rs s \<longleftrightarrow>
     (\<forall>key i. Mapping.lookup (st_active_capabilities s) key = Some i
        \<longrightarrow> backs rs s KCapability (cap_for E key) i)
     \<and> (\<forall>key i. Mapping.lookup (st_class_approvals s) key = Some i
        \<longrightarrow> backs rs s KApproval (class_approval_for E key) i)
     \<and> (\<forall>h i. Mapping.lookup (st_valid_approvals s) h = Some i
        \<longrightarrow> backs rs s KApproval (exact_approval_for E h) i
            \<and> Mapping.lookup (st_exact_approval_index s) i = Some h)"

lemma authority_backed_cap:
  "authority_backed E rs s \<Longrightarrow> Mapping.lookup (st_active_capabilities s) key = Some i
   \<Longrightarrow> backs rs s KCapability (cap_for E key) i"
  unfolding authority_backed_def by blast

lemma authority_backed_class:
  "authority_backed E rs s \<Longrightarrow> Mapping.lookup (st_class_approvals s) key = Some i
   \<Longrightarrow> backs rs s KApproval (class_approval_for E key) i"
  unfolding authority_backed_def by blast

lemma authority_backed_exact:
  "authority_backed E rs s \<Longrightarrow> Mapping.lookup (st_valid_approvals s) h = Some i
   \<Longrightarrow> backs rs s KApproval (exact_approval_for E h) i
       \<and> Mapping.lookup (st_exact_approval_index s) i = Some h"
  unfolding authority_backed_def by blast

section \<open>What the fold does to the authority maps\<close>

lemma lookup_release_slot:
  "Mapping.lookup (release_slot t ix m) k = Some i \<Longrightarrow> Mapping.lookup m k = Some i"
  by (auto simp: release_slot_def split: option.splits if_splits)

lemma apply_kind_caps:
  assumes "apply_kind E r s = Some s'" "Mapping.lookup (st_active_capabilities s') key = Some i"
  shows "Mapping.lookup (st_active_capabilities s) key = Some i
     \<or> rec_kind r = KCapability \<and> i = rec_id r \<and> cap_for E key (rec_data r)"
  using assms
  by (cases "rec_kind r")
    (auto simp: apply_kind_def arm_defs helper_upds cap_for_def dest: lookup_release_slot
      split: option.splits RefusalTarget.splits if_splits)

lemma apply_kind_class:
  assumes "apply_kind E r s = Some s'" "Mapping.lookup (st_class_approvals s') key = Some i"
  shows "Mapping.lookup (st_class_approvals s) key = Some i
     \<or> rec_kind r = KApproval \<and> i = rec_id r \<and> class_approval_for E key (rec_data r)"
  using assms
  by (cases "rec_kind r")
    (auto simp: apply_kind_def arm_defs helper_upds class_approval_for_def dest: lookup_release_slot
      split: option.splits RefusalTarget.splits if_splits)

lemma apply_kind_exact:
  assumes "apply_kind E r s = Some s'" "Mapping.lookup (st_valid_approvals s') h = Some i"
  shows "Mapping.lookup (st_valid_approvals s) h = Some i
     \<or> rec_kind r = KApproval \<and> i = rec_id r \<and> exact_approval_for E h (rec_data r)
       \<and> Mapping.lookup (st_exact_approval_index s') i = Some h"
  using assms
  by (cases "rec_kind r")
    (auto simp: apply_kind_def arm_defs helper_upds exact_approval_for_def dest: lookup_release_slot
      split: option.splits RefusalTarget.splits if_splits)

lemma apply_kind_exact_index:
  assumes "apply_kind E r s = Some s'" "Mapping.lookup (st_valid_approvals s') h = Some i"
    "Mapping.lookup (st_valid_approvals s) h = Some i" "i \<noteq> rec_id r"
    and ix: "\<And>h i. Mapping.lookup (st_valid_approvals s) h = Some i
       \<Longrightarrow> Mapping.lookup (st_exact_approval_index s) i = Some h"
  shows "Mapping.lookup (st_exact_approval_index s') i = Some h"
proof -
  note old = ix [OF assms(3)]
  have consumed: "Mapping.lookup (st_exact_approval_index (consume_approval h' refs s0)) i = Some h"
    if "Mapping.lookup (st_valid_approvals (consume_approval h' refs s0)) h = Some i"
      and s0: "st_valid_approvals s0 = st_valid_approvals s"
        "st_exact_approval_index s0 = st_exact_approval_index s" for h' refs s0
    using that old ix [of h']
    by (auto simp: consume_approval_upd consumes_def split: option.splits if_splits)
  show ?thesis
  proof (cases "rec_kind r")
    case KAction
    then show ?thesis
      using assms(1,2) consumed
      by (auto simp: apply_kind_def apply_action_def open_action_def split: option.splits)
  next
    case KSelection
    then show ?thesis
      using assms(1,2) consumed
      by (auto simp: apply_kind_def apply_selection_def note_replaced_upd split: option.splits)
  qed (use assms(1,2,4) old in
      \<open>auto simp: apply_kind_def arm_defs helper_upds split: option.splits RefusalTarget.splits\<close>)
qed

lemma backs_mono:
  "backs rs s k ok i \<Longrightarrow> st_accepted_records s \<subseteq> st_accepted_records s' \<Longrightarrow> backs (rs @ rs') s' k ok i"
  by (auto simp: backs_def)

lemma backs_new:
  "rec_kind r = k \<Longrightarrow> ok (rec_data r) \<Longrightarrow> rec_id r \<in> st_accepted_records s'
   \<Longrightarrow> backs (rs @ [r, v]) s' k ok (rec_id r)"
  by (auto simp: backs_def)

lemma backs_in_log: "backs rs s k ok i \<Longrightarrow> i \<in> rec_id ` set rs"
  by (auto simp: backs_def)

lemma backs_at [simp]: "backs rs (at t s) k ok i = backs rs s k ok i"
  by (simp add: backs_def)

lemma authority_backed_at [simp]: "authority_backed E rs (at t s) = authority_backed E rs s"
  by (simp add: authority_backed_def)

lemma authority_backed_accept:
  assumes inv: "authority_backed E rs s" and fresh: "rec_id r \<notin> rec_id ` set rs"
    and app: "apply_accepted E s r = Some s'"
  shows "authority_backed E (rs @ [r, v]) s'"
proof -
  have kind: "apply_kind E r (register_accepted s r) = Some s'"
    using app by (simp add: apply_accepted_def)
  have acc: "st_accepted_records s \<subseteq> st_accepted_records s'" "rec_id r \<in> st_accepted_records s'"
    using apply_accepted_records [OF app] by auto
  have "backs (rs @ [r, v]) s' KCapability (cap_for E key) i"
    if "Mapping.lookup (st_active_capabilities s') key = Some i" for key i
    using apply_kind_caps [OF kind that] authority_backed_cap [OF inv] backs_mono [OF _ acc(1)]
      backs_new acc(2) unfolding register_sel by blast
  moreover have "backs (rs @ [r, v]) s' KApproval (class_approval_for E key) i"
    if "Mapping.lookup (st_class_approvals s') key = Some i" for key i
    using apply_kind_class [OF kind that] authority_backed_class [OF inv] backs_mono [OF _ acc(1)]
      backs_new acc(2) unfolding register_sel by blast
  moreover have "backs (rs @ [r, v]) s' KApproval (exact_approval_for E h) i
      \<and> Mapping.lookup (st_exact_approval_index s') i = Some h"
    if *: "Mapping.lookup (st_valid_approvals s') h = Some i" for h i
    using apply_kind_exact [OF kind *]
  proof
    assume old: "Mapping.lookup (st_valid_approvals (register_accepted s r)) h = Some i"
    then have b: "backs rs s KApproval (exact_approval_for E h) i"
      using authority_backed_exact [OF inv] by simp
    then have "i \<noteq> rec_id r" using fresh backs_in_log by blast
    moreover have "Mapping.lookup (st_exact_approval_index (register_accepted s r)) i' = Some h'"
      if "Mapping.lookup (st_valid_approvals (register_accepted s r)) h' = Some i'" for h' i'
      using that authority_backed_exact [OF inv] by simp
    ultimately show ?thesis
      using apply_kind_exact_index [OF kind * old] backs_mono [OF b acc(1)] by blast
  qed (use backs_new acc(2) in auto)
  ultimately show ?thesis unfolding authority_backed_def by blast
qed

interpretation authority: checked_invariant E R "authority_backed E"
  for E :: "'z env_scheme" and R
proof
  show "authority_backed E [] default_state"
    by (simp add: authority_backed_def default_state_def)
next
  fix rs s s' and r v :: Record
  assume "authority_backed E rs s" "rec_id r \<notin> rec_id ` set rs" "apply_accepted E s r = Some s'"
  then show "authority_backed E (rs @ [r, v]) (at (rec_time v) s')"
    unfolding authority_backed_at by (rule authority_backed_accept)
next
  fix rs s and r v :: Record
  assume "authority_backed E rs s"
  then show "authority_backed E (rs @ [r, v]) (at (rec_time v) s)"
    unfolding authority_backed_at unfolding authority_backed_def
    using backs_mono [OF _ order_refl] by blast
qed

section \<open>Consumed approvals\<close>

definition live_exact :: "State \<Rightarrow> RecordId \<Rightarrow> bool" where
  "live_exact s i \<longleftrightarrow> (\<exists>h. Mapping.lookup (st_valid_approvals s) h = Some i)"

lemma live_exact_at [simp]: "live_exact (at t s) i = live_exact s i"
  by (simp add: live_exact_def)

lemma live_exact_accept:
  assumes "apply_accepted E s r = Some s'" "live_exact s' i"
  shows "live_exact s i \<or> i = rec_id r"
  using assms apply_kind_exact [of E r "register_accepted s r" s' _ i]
  by (fastforce simp: live_exact_def apply_accepted_def)

lemma apply_record_live:
  assumes "apply_record E s r v = Some s'" "live_exact s' i"
  shows "live_exact s i \<or> i = rec_id r"
  using assms live_exact_accept [of E s r s' i]
  by (auto simp: apply_record_def split: VerdictResult.splits)

text \<open>A record of the log that is not a live exact approval never becomes one later.\<close>

lemma dead_stays_dead:
  assumes "replays E R log s'" "log = rs @ ext" "replays E R rs s" "i \<in> rec_id ` set rs"
    "\<not> live_exact s i"
  shows "\<not> live_exact s' i"
  using assms
proof (induction rule: replays_extend)
  case (step l t r v t')
  then have "i \<noteq> rec_id r" by (metis image_mono subsetD)
  with step.IH [OF step.prems] apply_record_live [OF step.hyps(4)] show ?case by auto
qed blast

lemma consume_kills:
  assumes inv: "authority_backed E rs s" and lookup: "Mapping.lookup (st_valid_approvals s) h = Some i"
    and req: "requires refs i"
  shows "\<not> live_exact (consume_approval h refs s) i"
proof
  assume "live_exact (consume_approval h refs s) i"
  then obtain h' where h': "Mapping.lookup (st_valid_approvals s) h' = Some i" "h' \<noteq> h"
    using lookup req
    by (auto simp: live_exact_def consume_approval_upd consumes_def split: if_splits)
  have "Mapping.lookup (st_exact_approval_index s) i = Some h'"
    using authority_backed_exact [OF inv h'(1)] by simp
  moreover have "Mapping.lookup (st_exact_approval_index s) i = Some h"
    using authority_backed_exact [OF inv lookup] by simp
  ultimately show False using h'(2) by simp
qed

lemma action_consumes:
  assumes inv: "authority_backed E rs s"
    and act: "rec_kind r = KAction" "de_action E (rec_data r) = Some d"
      "action_approval_hash E (au_id (rec_author r)) d = Some h"
    and lookup: "Mapping.lookup (st_valid_approvals s) h = Some i"
    and req: "has_require_ref r i"
    and app: "apply_accepted E s r = Some s'"
  shows "\<not> live_exact s' i"
proof -
  let ?s = "register_accepted s r"
  have s': "s' = open_action (rec_id r) (act_request_id d) (consume_approval h (rec_refs r) ?s)"
    using app act by (simp add: apply_accepted_def apply_kind_def apply_action_def)
  have "requires (rec_refs r) i" using req by (simp add: requires_def has_require_ref_def)
  moreover have "backs rs s k ok j \<Longrightarrow> backs rs ?s k ok j" for k ok j
    by (auto simp: backs_def)
  then have "authority_backed E rs ?s"
    using inv unfolding authority_backed_def register_sel by blast
  ultimately have "\<not> live_exact (consume_approval h (rec_refs r) ?s) i"
    using consume_kills [of E rs ?s h i "rec_refs r"] lookup by simp
  then show ?thesis by (simp add: s' open_action_def live_exact_def)
qed

end
