(* ===== verification/Acceptance.thy ===== *)
theory Acceptance
  imports Work_Invariants Authority_Invariants
begin

text \<open>
  What acceptance means for a record of a replayed log.  Every accepted record was admitted by
  \<open>check_record\<close> over exactly the records before it, so each rule of the verifier becomes a
  property of the accepted records; subjects are found by their own id, whatever SHA-256 does.
\<close>

section \<open>Admission\<close>

definition admitted_at ::
  "'z env_scheme \<Rightarrow> VerifierRules \<Rightarrow> Record list \<Rightarrow> Record \<Rightarrow> Record list \<Rightarrow> State \<Rightarrow> bool" where
  "admitted_at E R rs r pre s0 \<longleftrightarrow>
     (\<exists>v ext. rs = pre @ r # v # ext) \<and> replays E R pre s0 \<and> rec_kind r \<noteq> KVerdict
     \<and> check_record E r (prior_of (pre @ [r])) R s0 = None"

lemma subject_find:
  assumes "replays E R rs s" "c \<in> set rs" "rec_kind c \<noteq> KVerdict"
  shows "scan_find rs (rec_id c) = Some c"
  using assms
proof (induction arbitrary: c rule: replays.induct)
  case (replays_pair rs s r v s')
  show ?case
  proof (cases "c \<in> set rs")
    case True
    then show ?thesis
      using replays_pair.IH [OF True replays_pair.prems(2)] scan.find_prior_append [of "rec_id c" rs]
      by simp
  next
    case False
    with replays_pair have "c = r" by auto
    moreover have "scan_find rs (rec_id r) = None"
      using replays_fresh [OF replays_pair.hyps(1,4,5)] scan.find_prior_None_iff by blast
    ultimately show ?thesis by (simp add: scan_find_def find_append)
  qed
qed simp

lemma subject_unique:
  assumes "replays E R rs s" "c \<in> set rs" "rec_kind c \<noteq> KVerdict"
    "d \<in> set rs" "rec_kind d \<noteq> KVerdict" "rec_id c = rec_id d"
  shows "c = d"
  using subject_find [OF assms(1-3)] subject_find [OF assms(1,4,5)] unfolding assms(6)
  by (simp only: option.inject)

lemma subject_prior_find:
  assumes "replays E R rs s" "c \<in> set rs" "rec_kind c \<noteq> KVerdict"
  shows "prior_find (prior_of (rs @ ext)) (rec_id c) = Some c"
  using subject_find [OF assms] scan.find_prior_append [of "rec_id c" rs ext] assms(2)
  by (simp add: prior_of_find)

lemma admitted:
  assumes "replays E R rs s" "r \<in> set rs" "rec_kind r \<noteq> KVerdict" "rec_id r \<in> st_accepted_records s"
  shows "\<exists>pre s0. admitted_at E R rs r pre s0"
  using assms
proof (induction rule: replays.induct)
  case (replays_pair rs s r' v s')
  have fresh: "rec_id r' \<notin> rec_id ` set rs"
    by (rule replays_fresh [OF replays_pair.hyps(1,4,5)])
  show ?case
  proof (cases "r \<in> set rs")
    case True
    with fresh have "rec_id r \<noteq> rec_id r'" by (metis image_eqI)
    then have "rec_id r \<in> st_accepted_records s"
      using replays_pair.prems(3) replays_pair.hyps(7) apply_accepted_records [of E s r' s']
      by (auto simp: apply_record_def split: VerdictResult.splits)
    then obtain pre s0 where "admitted_at E R rs r pre s0"
      using replays_pair.IH True replays_pair.prems(2) by blast
    then have "admitted_at E R (rs @ [r', v]) r pre s0" by (auto simp: admitted_at_def)
    then show ?thesis by blast
  next
    case False
    with replays_pair have r: "r = r'" by auto
    have "rec_id r \<notin> st_accepted_records s"
      using accepted_not_fresh [OF replays_pair.hyps(1)] fresh r by blast
    then have "check_record E r (prior_of (rs @ [r])) R s = None"
      using replays_pair.prems(3) replays_pair.hyps(7) r
      by (auto simp: apply_record_def verdict_of_def split: option.splits)
    then have "admitted_at E R (rs @ [r', v]) r rs s"
      using replays_pair.hyps(1,2) r by (auto simp: admitted_at_def)
    then show ?thesis by blast
  qed
qed simp

section \<open>Envelope, role and signature of admitted records\<close>

lemma admitted_checks:
  assumes "admitted_at E R rs r pre s0"
  shows "check_envelope E r R = None" "check_author_role r R = None" "check_signature E r R = None"
    "check_refs r (prior_of (pre @ [r])) s0 = None"
    "check_replacement E r (prior_of (pre @ [r])) s0 = None"
    "check_evidence E r (prior_of (pre @ [r])) R s0 = None" "check_payload_decode E r = None"
    "check_kind_specific E r (prior_of (pre @ [r])) R s0 = None"
  using assms check_record_None [of E r "prior_of (pre @ [r])" R s0]
  by (simp_all add: admitted_at_def)

lemma author_role_None:
  assumes "check_author_role r R = None" "rec_kind r \<noteq> KVerdict"
  shows "Mapping.lookup (vr_author_roles R) (au_id (rec_author r)) = Some (au_type (rec_author r))"
    "au_type (rec_author r) \<in> set (allowed_author_types (rec_kind r))"
  using assms
  by (auto simp: check_author_role_def requires_registered_author_iff split: option.splits)

lemma signature_None:
  assumes "check_signature E r R = None"
    "Mapping.lookup (vr_author_keys R) (au_id (rec_author r)) = Some keys"
  shows "\<exists>key \<in> keys. verified_key E r = Some key"
  using assms
  by (auto simp: check_signature_def has_key_def Let_def split: option.splits if_splits)

lemma verified_key_Some:
  assumes "verified_key C r = Some key"
  shows "\<exists>sg msg. au_signature (rec_author r) = Some sg \<and> hex_decode (sig_key_id sg) = Some key
     \<and> length (sig_sig sg) = 64 \<and> signing_bytes C r = Some msg
     \<and> cr_verify_strict C key msg (sig_sig sg)"
  using assms by (auto simp: verified_key_def split: option.splits if_splits)

section \<open>References of admitted records\<close>

lemma admitted_ref:
  assumes "admitted_at E R rs r pre s0" "e \<in> set (rec_refs r)"
  shows "\<exists>t \<in> set (pre @ [r]). rec_id t = ref_target e \<and> rec_space t = rec_space r
     \<and> (ref_type e = RRequire \<longrightarrow> reliable s0 (rec_id t))"
proof -
  obtain t where t: "prior_find (prior_of (pre @ [r])) (ref_target e) = Some t"
    "rec_space t = rec_space r" "ref_type e = RRequire \<Longrightarrow> reliable s0 (rec_id t)"
    using check_refs_None [OF admitted_checks(4) [OF assms(1)] assms(2)] by blast
  from t(1) have "rec_id t = ref_target e" "t \<in> set (pre @ [r])"
    using scan.find_prior_SomeD [of "pre @ [r]" "ref_target e" t] by (simp_all add: prior_of_find)
  with t show ?thesis by blast
qed

text \<open>A record never requires itself: at its own check it is not accepted yet.\<close>

lemma admitted_require:
  assumes "admitted_at E R rs r pre s0" "e \<in> set (rec_refs r)" "ref_type e = RRequire"
  shows "\<exists>t \<in> set pre. rec_id t = ref_target e \<and> rec_space t = rec_space r \<and> reliable s0 (rec_id t)"
proof -
  obtain t where t: "t \<in> set (pre @ [r])" "rec_id t = ref_target e" "rec_space t = rec_space r"
    "reliable s0 (rec_id t)"
    using admitted_ref [OF assms(1,2)] assms(3) by blast
  have "replays E R pre s0" using assms(1) by (simp add: admitted_at_def)
  then have "rec_id t \<in> subject_ids pre"
    using accepted.inv_replays [of E R pre s0] t(4) unfolding accepted_subjects_def reliable_def by blast
  then obtain t' where t': "t' \<in> set pre" "rec_id t' = rec_id t" "rec_kind t' \<noteq> KVerdict"
    by (auto simp: subject_ids_def)
  have "prior_find (prior_of (pre @ [r])) (ref_target e) = Some t'"
    using subject_prior_find [OF \<open>replays E R pre s0\<close> t'(1,3), of "[r]"] t'(2) t(2) by simp
  moreover from check_refs_None [OF admitted_checks(4) [OF assms(1)] assms(2)]
  obtain u where "prior_find (prior_of (pre @ [r])) (ref_target e) = Some u" "rec_space u = rec_space r"
    by blast
  ultimately have "rec_space t' = rec_space r" by simp
  with t t' show ?thesis by metis
qed

section \<open>Authority of admitted actions\<close>

text \<open>
  The authority an action stands on: a capability for its author, class and scope, and for an
  \<open>Ask\<close> capability an approval, both earlier in the log, accepted, neither retracted nor tainted,
  not expired at the action's time, and required by the action.
\<close>

definition granted_by ::
  "'z env_scheme \<Rightarrow> Record list \<Rightarrow> State \<Rightarrow> Record \<Rightarrow> ActionData \<Rightarrow> Record \<Rightarrow> CapabilityData \<Rightarrow> bool" where
  "granted_by E pre s r d c cd \<longleftrightarrow>
     c \<in> set pre \<and> rec_kind c = KCapability \<and> de_capability E (rec_data c) = Some cd
     \<and> cap_actor_id cd = au_id (rec_author r) \<and> cap_action_class cd = act_action_class d
     \<and> cap_scope cd = act_scope d \<and> cap_mode cd \<noteq> Deny
     \<and> reliable s (rec_id c) \<and> \<not> expired (rec_time r) (cap_expiry cd) \<and> has_require_ref r (rec_id c)"

definition approved_by ::
  "'z env_scheme \<Rightarrow> Record list \<Rightarrow> State \<Rightarrow> Record \<Rightarrow> ActionData \<Rightarrow> Record \<Rightarrow> ApprovalData \<Rightarrow> bool" where
  "approved_by E pre s r d a ad \<longleftrightarrow>
     a \<in> set pre \<and> rec_kind a = KApproval \<and> de_approval E (rec_data a) = Some ad
     \<and> (apr_target_action ad = action_approval_hash E (au_id (rec_author r)) d
           \<and> apr_target_action ad \<noteq> None
        \<or> apr_action_class ad = Some (act_action_class d) \<and> apr_scope ad = act_scope d
           \<and> (apr_actor_id ad = None \<or> apr_actor_id ad = Some (au_id (rec_author r))))
     \<and> reliable s (rec_id a) \<and> \<not> expired (rec_time r) (apr_expiry ad) \<and> has_require_ref r (rec_id a)"

lemma backed_subject:
  assumes "replays E R pre s0" "backs pre s0 k ok i" "k \<noteq> KVerdict"
  obtains c where "c \<in> set pre" "rec_id c = i" "rec_kind c = k" "ok (rec_data c)"
    "i \<in> st_accepted_records s0" "prior_find (prior_of (pre @ ext)) i = Some c"
proof -
  from assms(2) obtain c where c: "c \<in> set pre" "rec_id c = i" "rec_kind c = k" "ok (rec_data c)"
    "i \<in> st_accepted_records s0"
    by (auto simp: backs_def)
  from subject_prior_find [OF assms(1) c(1), of ext] c(2,3) assms(3)
  have "prior_find (prior_of (pre @ ext)) i = Some c" by simp
  with c that show thesis by blast
qed

lemma admitted_approval:
  assumes "replays E R pre s0" "check_approval_for_action E r d (prior_of (pre @ [r])) s0 = Inr i"
    "has_require_ref r i"
  shows "\<exists>a ad. approved_by E pre s0 r d a ad"
proof -
  note backed = authority.inv_replays [OF assms(1)]
  note inr = check_approval_for_action_Inr [OF assms(2)]
  from inr(2) obtain ar ad where ar: "prior_find (prior_of (pre @ [r])) i = Some ar"
    "de_approval E (rec_data ar) = Some ad" "\<not> expired (rec_time r) (apr_expiry ad)"
    by blast
  from inr(3) show ?thesis
  proof
    assume "\<exists>h. action_approval_hash E (au_id (rec_author r)) d = Some h
        \<and> Mapping.lookup (st_valid_approvals s0) h = Some i"
    then obtain h where h: "action_approval_hash E (au_id (rec_author r)) d = Some h"
      "Mapping.lookup (st_valid_approvals s0) h = Some i" by blast
    obtain a where a: "a \<in> set pre" "rec_id a = i" "rec_kind a = KApproval"
      "exact_approval_for E h (rec_data a)" "prior_find (prior_of (pre @ [r])) i = Some a"
      by (rule backed_subject [OF assms(1), of KApproval "exact_approval_for E h" i "[r]"])
        (use authority_backed_exact [OF backed h(2)] in auto)
    with ar have "ar = a" by simp
    with a ar h inr(1) assms(3) have "approved_by E pre s0 r d a ad"
      by (simp add: approved_by_def exact_approval_for_def)
    then show ?thesis by blast
  next
    assume "\<exists>who. Mapping.lookup (st_class_approvals s0) (act_action_class d, act_scope d, who) = Some i
        \<and> (who = None \<or> who = Some (au_id (rec_author r)))"
    then obtain who where who:
      "Mapping.lookup (st_class_approvals s0) (act_action_class d, act_scope d, who) = Some i"
      "who = None \<or> who = Some (au_id (rec_author r))" by blast
    let ?key = "(act_action_class d, act_scope d, who)"
    obtain a where a: "a \<in> set pre" "rec_id a = i" "rec_kind a = KApproval"
      "class_approval_for E ?key (rec_data a)" "prior_find (prior_of (pre @ [r])) i = Some a"
      by (rule backed_subject [OF assms(1), of KApproval "class_approval_for E ?key" i "[r]"])
        (use authority_backed_class [OF backed who(1)] in auto)
    with ar have "ar = a" by simp
    with a ar who inr(1) assms(3) have "approved_by E pre s0 r d a ad"
      by (auto simp: approved_by_def class_approval_for_def)
    then show ?thesis by blast
  qed
qed

lemma admitted_action:
  assumes "admitted_at E R rs r pre s0" "rec_kind r = KAction"
  shows "\<exists>d c cd. de_action E (rec_data r) = Some d \<and> act_request_id d \<in> st_active_requests s0
     \<and> granted_by E pre s0 r d c cd
     \<and> (cap_mode cd = Ask \<longrightarrow> (\<exists>a ad. approved_by E pre s0 r d a ad))"
proof -
  have rep: "replays E R pre s0" using assms(1) by (simp add: admitted_at_def)
  have "check_action E r (prior_of (pre @ [r])) s0 = None"
    using admitted_checks(8) [OF assms(1)] assms(2) by (simp add: check_kind_specific_def)
  then obtain d cap_id c cd where d: "de_action E (rec_data r) = Some d"
    "act_request_id d \<in> st_active_requests s0"
    and cap: "Mapping.lookup (st_active_capabilities s0)
       (au_id (rec_author r), act_action_class d, act_scope d) = Some cap_id"
    and c: "prior_find (prior_of (pre @ [r])) cap_id = Some c"
      "cap_id \<notin> st_retracted_records s0" "cap_id \<notin> st_tainted_records s0"
      "de_capability E (rec_data c) = Some cd" "\<not> expired (rec_time r) (cap_expiry cd)"
      "has_require_ref r cap_id"
    and mode: "cap_mode cd = Auto \<or> cap_mode cd = Ask
       \<and> (\<exists>i. check_approval_for_action E r d (prior_of (pre @ [r])) s0 = Inr i \<and> has_require_ref r i)"
    by (rule check_action_None)
  let ?key = "(au_id (rec_author r), act_action_class d, act_scope d)"
  obtain c' where c': "c' \<in> set pre" "rec_id c' = cap_id" "rec_kind c' = KCapability"
    "cap_for E ?key (rec_data c')" "cap_id \<in> st_accepted_records s0"
    "prior_find (prior_of (pre @ [r])) cap_id = Some c'"
    by (rule backed_subject [OF rep, of KCapability "cap_for E ?key" cap_id "[r]"])
      (use authority_backed_cap [OF authority.inv_replays [OF rep] cap] in auto)
  with c(1) have "c' = c" by simp
  with c c' mode have "granted_by E pre s0 r d c cd"
    by (auto simp: granted_by_def cap_for_def reliable_def)
  moreover have "\<exists>a ad. approved_by E pre s0 r d a ad" if "cap_mode cd = Ask"
    using mode that admitted_approval [OF rep] by auto
  ultimately show ?thesis using d by blast
qed

section \<open>From admission to the state after it\<close>

lemma replays_next:
  assumes "replays E R log s" "log = pre @ r # v # ext" "replays E R pre s0"
  shows "\<exists>s1. apply_record E s0 r (verdict_of (check_record E r (prior_of (pre @ [r])) R s0)) = Some s1
     \<and> replays E R (pre @ [r, v]) (at (rec_time v) s1)"
  using assms
proof (induction arbitrary: ext rule: replays.induct)
  case (replays_pair rs s r' v' s')
  show ?case
  proof (cases "ext = []")
    case True
    with replays_pair.prems(1) have eq: "pre = rs" "r = r'" "v = v'" by simp_all
    with replays_pair.prems(2) replays_pair.hyps(1) have "s0 = s" by (blast dest: replays_functional)
    moreover have "replays E R (rs @ [r', v']) (at (rec_time v') s')"
      unfolding at_def using replays_pair.hyps by (rule replays.replays_pair)
    ultimately show ?thesis using eq replays_pair.hyps(7) by blast
  next
    case False
    have "length rs = length pre + length ext"
      using arg_cong [OF replays_pair.prems(1), of length] by simp
    then have "even (length ext)"
      using replays_even [OF replays_pair.hyps(1)] replays_even [OF replays_pair.prems(2)] by simp
    moreover obtain ext1 b where e1: "ext = ext1 @ [b]" using False by (cases ext rule: rev_cases) auto
    ultimately obtain ext2 a where e2: "ext1 = ext2 @ [a]" by (cases ext1 rule: rev_cases) auto
    have "rs = pre @ r # v # ext2" using replays_pair.prems(1) by (simp add: e1 e2)
    then show ?thesis using replays_pair.IH [of ext2] replays_pair.prems(2) by blast
  qed
qed simp

lemma admitted_next:
  assumes "replays E R rs s" "admitted_at E R rs r pre s0"
  obtains v ext s1 where "rs = (pre @ [r, v]) @ ext" "apply_accepted E s0 r = Some s1"
    "replays E R (pre @ [r, v]) (at (rec_time v) s1)"
proof -
  from assms(2) obtain v ext where rs: "rs = pre @ r # v # ext"
    and c: "replays E R pre s0" "check_record E r (prior_of (pre @ [r])) R s0 = None"
    by (auto simp: admitted_at_def)
  from replays_next [OF assms(1) rs c(1)] c(2) obtain s1
    where "apply_accepted E s0 r = Some s1" "replays E R (pre @ [r, v]) (at (rec_time v) s1)"
    by (auto simp: apply_record_def verdict_of_def)
  with rs that show thesis by simp
qed

lemma admitted_accepted:
  assumes "replays E R rs s" "admitted_at E R rs r pre s0"
  shows "rec_id r \<in> st_accepted_records s"
proof -
  obtain v ext s1 where rs: "rs = (pre @ [r, v]) @ ext" and s1: "apply_accepted E s0 r = Some s1"
    and rep1: "replays E R (pre @ [r, v]) (at (rec_time v) s1)"
    by (rule admitted_next [OF assms])
  then show ?thesis
    using accepted_mono [OF assms(1) rs rep1] apply_accepted_records [OF s1] by auto
qed

lemma consumed_for_good:
  assumes rep: "replays E R rs s" and adm: "admitted_at E R rs r pre s0" and act: "rec_kind r = KAction"
    "de_action E (rec_data r) = Some d" "action_approval_hash E (au_id (rec_author r)) d = Some h"
    and live: "Mapping.lookup (st_valid_approvals s0) h = Some i" and req: "has_require_ref r i"
  shows "\<not> live_exact s i"
proof -
  obtain v ext s1 where rs: "rs = (pre @ [r, v]) @ ext" and s1: "apply_accepted E s0 r = Some s1"
    and rep1: "replays E R (pre @ [r, v]) (at (rec_time v) s1)"
    by (rule admitted_next [OF rep adm])
  have pre: "replays E R pre s0" using adm by (simp add: admitted_at_def)
  have "\<not> live_exact (at (rec_time v) s1) i"
    using action_consumes [OF authority.inv_replays [OF pre] act live req s1] by simp
  moreover have "i \<in> rec_id ` set (pre @ [r, v])"
    using authority_backed_exact [OF authority.inv_replays [OF pre] live] backs_in_log by fastforce
  ultimately show ?thesis using dead_stays_dead [OF rep rs rep1] by blast
qed

definition consumes_exact :: "'z env_scheme \<Rightarrow> State \<Rightarrow> Record \<Rightarrow> RecordId \<Rightarrow> bool" where
  "consumes_exact E s r i \<longleftrightarrow>
     (\<exists>d h. de_action E (rec_data r) = Some d \<and> action_approval_hash E (au_id (rec_author r)) d = Some h
        \<and> Mapping.lookup (st_valid_approvals s) h = Some i \<and> has_require_ref r i)"

lemma even_gap: "even m \<Longrightarrow> even n \<Longrightarrow> m < n \<Longrightarrow> \<exists>k. n = m + (2 + k :: nat)"
  by (elim evenE) (auto intro!: exI [of _ "n - m - 2"])

lemma later_admission_extends:
  assumes "admitted_at E R rs r pre s0" "admitted_at E R rs r' pre' s0'" "length pre < length pre'"
  shows "admitted_at E R pre' r pre s0"
proof -
  from assms obtain v ext v' ext' where eq: "rs = pre @ r # v # ext" "rs = pre' @ r' # v' # ext'"
    and rep: "replays E R pre s0" "replays E R pre' s0'"
    and adm: "rec_kind r \<noteq> KVerdict" "check_record E r (prior_of (pre @ [r])) R s0 = None"
    unfolding admitted_at_def by blast
  have "even (length pre)" "even (length pre')" using replays_even rep by blast+
  with assms(3) obtain k where k: "length pre' = length pre + (2 + k)"
    using even_gap by blast
  have "pre' = take (length pre') rs" using eq(2) by simp
  also have "\<dots> = pre @ r # v # take k ext" by (simp add: k eq(1))
  finally show ?thesis using rep(1) adm by (auto simp: admitted_at_def)
qed

lemma admitted_same_place:
  assumes "admitted_at E R rs r pre s0" "admitted_at E R rs r' pre' s0'" "length pre = length pre'"
  shows "r = r'"
  using assms by (auto simp: admitted_at_def)

lemma exact_approval_consumed_once:
  assumes rep: "replays E R rs s"
    and adm: "admitted_at E R rs r pre s0" "admitted_at E R rs r' pre' s0'"
    and act: "rec_kind r = KAction" "rec_kind r' = KAction"
    and use: "consumes_exact E s0 r i" "consumes_exact E s0' r' i"
  shows "r = r'"
proof -
  have False if adm: "admitted_at E R rs a p t" "admitted_at E R rs b p' t'" and lt: "length p < length p'"
    and a: "rec_kind a = KAction" and use: "consumes_exact E t a i" "consumes_exact E t' b i"
    for a b p p' t t'
  proof -
    have "replays E R p' t'" using adm(2) by (simp add: admitted_at_def)
    then have "\<not> live_exact t' i"
      using consumed_for_good [OF _ later_admission_extends [OF adm lt] a] use(1)
      unfolding consumes_exact_def by blast
    then show False using use(2) unfolding consumes_exact_def live_exact_def by blast
  qed
  then show ?thesis
    using adm act use admitted_same_place [OF adm] by (metis nat_neq_iff)
qed

section \<open>Work rules of admitted records\<close>

lemma admitted_closing_response:
  assumes "admitted_at E R rs r pre s0" "rec_kind r = KResponse" "de_response E (rec_data r) = Some d"
    "rsp_closes_request d" "length pre < 2 ^ 64"
  shows "open_for s0 (rsp_request_id d) = {}" "\<not> has_key (st_active_plans s0) (rsp_request_id d)"
proof -
  have pre: "replays E R pre s0" using assms(1) by (simp add: admitted_at_def)
  have "check_response E r (prior_of (pre @ [r])) s0 = None"
    using admitted_checks(8) [OF assms(1)] assms(2) by (simp add: check_kind_specific_def)
  then have "\<not> open_count s0 (rsp_request_id d) > 0" "\<not> has_key (st_active_plans s0) (rsp_request_id d)"
    using assms(3,4) by (simp_all add: check_response_def Let_def open_count_def)
  moreover have "unat (open_count s0 (rsp_request_id d)) = card (open_for s0 (rsp_request_id d))"
    using counts.inv_replays [OF pre] assms(5) by (simp add: counts_exact_def)
  moreover have "finite (open_for s0 (rsp_request_id d))"
    by (rule open_for_bound [OF counts.inv_replays [OF pre]])
  ultimately show "open_for s0 (rsp_request_id d) = {}" "\<not> has_key (st_active_plans s0) (rsp_request_id d)"
    by (simp_all add: word_less_nat_alt)
qed

lemma admitted_result:
  assumes "admitted_at E R rs r pre s0" "rec_kind r = KResult"
  shows "\<exists>d a ad. de_result E (rec_data r) = Some d \<and> rst_action_id d \<in> st_open_actions s0
     \<and> a \<in> set (pre @ [r]) \<and> rec_id a = rst_action_id d \<and> same_place a r \<and> de_action E (rec_data a) = Some ad
     \<and> check_result_schema E r R (act_exec_mode ad) = None"
proof -
  have "check_result E r (prior_of (pre @ [r])) R s0 = None"
    using admitted_checks(8) [OF assms(1)] assms(2) by (simp add: check_kind_specific_def)
  then obtain d a ad where "de_result E (rec_data r) = Some d" "rst_action_id d \<in> st_open_actions s0"
    "prior_find (prior_of (pre @ [r])) (rst_action_id d) = Some a" "same_place a r"
    "de_action E (rec_data a) = Some ad" "check_result_schema E r R (act_exec_mode ad) = None"
    by (auto simp: check_result_def split: option.splits)
  then show ?thesis
    using scan.find_prior_SomeD [of "pre @ [r]" "rst_action_id d" a] unfolding prior_of_find by blast
qed

lemma external_result_signed:
  assumes "admitted_at E R rs r pre s0" "check_result_schema E r R External = None"
  shows "\<exists>keys key. Mapping.lookup (vr_author_keys R) (au_id (rec_author r)) = Some keys
     \<and> key \<in> keys \<and> verified_key E r = Some key"
proof -
  obtain keys where "Mapping.lookup (vr_author_keys R) (au_id (rec_author r)) = Some keys"
    using assms(2) by (auto simp: check_result_schema_def has_key_def)
  then show ?thesis using signature_None [OF admitted_checks(3) [OF assms(1)]] by blast
qed

end
