(* ===== verification/Taint_Log.thy ===== *)
theory Taint_Log
  imports Ledger_Invariants
begin

text \<open>
  Taint read off the log.  The dependence index of the state holds exactly the \<open>Use\<close> and
  \<open>Require\<close> references of the accepted records, and the retracted set exactly the targets of the
  accepted retractions; with the exactness of the cascade, a record is tainted exactly when it
  rests, directly or through other records, on a retracted one.
\<close>

definition log_edges :: "State \<Rightarrow> Record list \<Rightarrow> (RecordId \<times> RecordId) set" where
  "log_edges s rs =
     {(ref_target e, rec_id r) | r e. r \<in> set rs \<and> rec_kind r \<noteq> KVerdict
        \<and> rec_id r \<in> st_accepted_records s \<and> e \<in> set (rec_refs r) \<and> is_epistemic (ref_type e)}"

definition log_retracted :: "'z env_scheme \<Rightarrow> State \<Rightarrow> Record list \<Rightarrow> RecordId set" where
  "log_retracted E s rs =
     {rtr_target_id d | r d. r \<in> set rs \<and> rec_kind r = KRetraction
        \<and> rec_id r \<in> st_accepted_records s \<and> de_retraction E (rec_data r) = Some d}"

lemma log_edges_eval [code]:
  "log_edges s rs =
     set (concat (map (\<lambda>r. if rec_kind r \<noteq> KVerdict \<and> rec_id r \<in> st_accepted_records s
                           then map (\<lambda>e. (ref_target e, rec_id r))
                                  (filter (\<lambda>e. is_epistemic (ref_type e)) (rec_refs r))
                           else []) rs))"
  by (auto simp: log_edges_def split: if_splits)

lemma log_retracted_eval [code]:
  "log_retracted E s rs =
     set (List.map_filter
            (\<lambda>r. if rec_kind r = KRetraction \<and> rec_id r \<in> st_accepted_records s
                 then map_option rtr_target_id (de_retraction E (rec_data r)) else None) rs)"
  by (force simp: log_retracted_def List.map_filter_def split: if_splits)

definition lineage_exact :: "'z env_scheme \<Rightarrow> Record list \<Rightarrow> State \<Rightarrow> bool" where
  "lineage_exact E rs s \<longleftrightarrow>
     epistemic_edges (st_epistemic_dependents s) = log_edges s rs
     \<and> st_retracted_records s = log_retracted E s rs"

lemma log_edges_pair:
  assumes "rec_id r \<notin> rec_id ` set rs" "rec_kind r \<noteq> KVerdict" "rec_kind v = KVerdict"
    "st_accepted_records s' = insert (rec_id r) (st_accepted_records s)"
  shows "log_edges s' (rs @ [r, v]) =
     log_edges s rs \<union> {(ref_target e, rec_id r) | e. e \<in> set (rec_refs r) \<and> is_epistemic (ref_type e)}"
proof -
  have "rec_id x \<noteq> rec_id r" if "x \<in> set rs" for x
    using assms(1) that by (metis image_eqI)
  then show ?thesis
    using assms(2-4) by (auto simp: log_edges_def)
qed

lemma log_retracted_pair:
  assumes "rec_id r \<notin> rec_id ` set rs" "rec_kind v = KVerdict"
    "st_accepted_records s' = insert (rec_id r) (st_accepted_records s)"
  shows "log_retracted E s' (rs @ [r, v]) = log_retracted E s rs
     \<union> {rtr_target_id d | d. rec_kind r = KRetraction \<and> de_retraction E (rec_data r) = Some d}"
proof -
  have "rec_id x \<noteq> rec_id r" if "x \<in> set rs" for x
    using assms(1) that by (metis image_eqI)
  then show ?thesis
    using assms(2,3) by (auto simp: log_retracted_def)
qed

lemma log_same_state:
  assumes "rec_id r \<notin> st_accepted_records s" "rec_kind v = KVerdict"
  shows "log_edges s (rs @ [r, v]) = log_edges s rs"
    "log_retracted E s (rs @ [r, v]) = log_retracted E s rs"
  using assms by (auto simp: log_edges_def log_retracted_def)

lemma register_lineage:
  "epistemic_edges (st_epistemic_dependents (register_accepted s r)) =
     epistemic_edges (st_epistemic_dependents s)
     \<union> {(ref_target e, rec_id r) | e. e \<in> set (rec_refs r) \<and> is_epistemic (ref_type e)}"
  by (simp add: register_accepted_def Let_def fold_add_dependent)

lemma apply_kind_lineage:
  assumes "apply_kind E r s = Some s'"
  shows "st_epistemic_dependents s' = st_epistemic_dependents s"
    "st_retracted_records s' = st_retracted_records s
       \<union> {rtr_target_id d | d. rec_kind r = KRetraction \<and> de_retraction E (rec_data r) = Some d}"
proof (atomize (full), cases "rec_kind r = KRetraction")
  case True
  with assms show "st_epistemic_dependents s' = st_epistemic_dependents s \<and>
      st_retracted_records s' = st_retracted_records s
       \<union> {rtr_target_id d | d. rec_kind r = KRetraction \<and> de_retraction E (rec_data r) = Some d}"
    by (auto simp: apply_kind_def apply_retraction_upd)
next
  case False
  with apply_kind_taint_fields [OF assms]
  show "st_epistemic_dependents s' = st_epistemic_dependents s \<and>
      st_retracted_records s' = st_retracted_records s
       \<union> {rtr_target_id d | d. rec_kind r = KRetraction \<and> de_retraction E (rec_data r) = Some d}"
    by simp
qed

lemma lineage_exact_accept:
  assumes inv: "lineage_exact E rs s" and new: "rec_id r \<notin> rec_id ` set rs" "rec_kind r \<noteq> KVerdict"
    "rec_kind v = KVerdict" and app: "apply_accepted E s r = Some s'"
  shows "lineage_exact E (rs @ [r, v]) s'"
proof -
  have kind: "apply_kind E r (register_accepted s r) = Some s'" using app by (simp add: apply_accepted_def)
  note acc = apply_accepted_records [OF app]
  show ?thesis
    using inv apply_kind_lineage [OF kind]
    by (simp add: lineage_exact_def register_lineage log_edges_pair [OF new acc]
        log_retracted_pair [OF new(1,3) acc])
qed

interpretation lineage: checked_invariant E R "lineage_exact E" for E :: "'z env_scheme" and R
proof
  show "lineage_exact E [] default_state"
    by (simp add: lineage_exact_def default_state_def epistemic_edges_def log_edges_def log_retracted_def)
next
  fix rs s s' and r v :: Record
  assume "lineage_exact E rs s" "rec_kind r \<noteq> KVerdict" "rec_kind v = KVerdict"
    "rec_id r \<notin> rec_id ` set rs" "apply_accepted E s r = Some s'"
  then have "lineage_exact E (rs @ [r, v]) s'" by (intro lineage_exact_accept)
  then show "lineage_exact E (rs @ [r, v]) (at (rec_time v) s')"
    by (simp add: lineage_exact_def log_edges_def log_retracted_def)
next
  fix rs s and r v :: Record
  assume *: "replays E R rs s" "lineage_exact E rs s" "rec_kind v = KVerdict"
    "rec_id r \<notin> rec_id ` set rs"
  have "lineage_exact E (rs @ [r, v]) s"
    using *(2)
    by (simp add: lineage_exact_def log_same_state [OF accepted_not_fresh [OF *(1,4)] *(3)])
  then show "lineage_exact E (rs @ [r, v]) (at (rec_time v) s)"
    by (simp add: lineage_exact_def log_edges_def log_retracted_def)
qed

lemma tainted_iff_rests_on_retracted:
  assumes "replays E R rs s"
  shows "st_tainted_records s = (log_edges s rs)\<^sup>+ `` log_retracted E s rs"
  using taint.replayed.inv_replays [OF assms] lineage.inv_replays [OF assms]
  by (simp add: taint_exact_def lineage_exact_def)

end
