(* ===== verification/Checkpoint_Laws.thy ===== *)
theory Checkpoint_Laws
  imports Replay_Build
begin

text \<open>
  Replaying from a checkpoint is replaying from genesis.  A checkpoint issued for a verified log
  makes \<open>verify_log\<close> start behind that log; on every extension it accepts the same logs with the
  same standing, retractions and taint, and only reports fewer checked records.
\<close>

section \<open>The counter of checked records\<close>

fun add_checked :: "u64 \<Rightarrow> (ReasonCode \<times> u64) + (State \<times> u64) \<Rightarrow> (ReasonCode \<times> u64) + (State \<times> u64)"
where
  "add_checked k (Inl (reason, c)) = Inl (reason, c + k)"
| "add_checked k (Inr (s, c)) = Inr (s, c + k)"

lemma replay_loop_counter:
  "replay_loop E R rs i s ix (c + k) = add_checked k (replay_loop E R rs i s ix c)"
proof (induction "length rs - i" arbitrary: i s ix c rule: less_induct)
  case less
  have step: "replay_loop E R rs (Suc i) s' ix' (c + k + 1) = add_checked k (replay_loop E R rs (Suc i) s' ix' (c + 1))"
    "replay_loop E R rs (Suc (Suc i)) s' ix' (c + k + 2)
       = add_checked k (replay_loop E R rs (Suc (Suc i)) s' ix' (c + 2))"
    if "i < length rs" for s' ix'
    using less [of "Suc i" s' ix' "c + 1"] less [of "Suc (Suc i)" s' ix' "c + 2"] that
    by (simp_all add: ac_simps)
  show ?case
  proof (cases "i < length rs \<and> rec_kind (rs ! i) = KVerdict")
    case True
    then show ?thesis
      by (subst (1 2) replay_loop.simps) (simp add: Let_def step split: sum.split)
  next
    case False
    then show ?thesis
      by (subst (1 2) replay_loop.simps) (auto simp: Let_def step split: sum.split)
  qed
qed

section \<open>Verified logs have checkpoints that fit them\<close>

lemma verified_log_checkpoint:
  assumes "from_verified_log E pre R = Some cp"
  obtains s h where "log_shape E pre" "replays E R pre s" "state_hash E s = Some h"
    "rules_hash E R = Some (tc_rules_hash cp)"
    "tc_checkpoint cp = \<lparr>cp_log_length = of_nat (length pre), cp_last_time = last_time pre,
       cp_last_record_id = last_record_id pre, cp_state_hash = h,
       cp_log_hash = sha256_concat_ids E (map rec_id pre)\<rparr>"
proof -
  from assms have "lv_result (verify_log E pre R None) = Accept"
    by (auto simp: from_verified_log_def split: if_splits)
  then obtain s where s: "log_shape E pre" "replays E R pre s"
    unfolding verify_log_genesis by blast
  from assms replays_build_state [OF s(2)] s show thesis
    by (auto simp: from_verified_log_def create_checkpoint_def assume_verified_def
        split: if_splits option.splits intro: that)
qed

lemma checkpoint_start_verified:
  assumes "from_verified_log E pre R = Some cp" "length pre < 2 ^ 64" "replays E R pre s"
  shows "checkpoint_start E (pre @ ext) R cp =
     (if ext \<noteq> [] \<and> rec_kind (hd ext) = KVerdict then Inl InvalidCheckpoint
      else Inr (length pre, s, index_of pre))"
proof -
  from assms(1) obtain s' h where *: "replays E R pre s'" "state_hash E s' = Some h"
    "rules_hash E R = Some (tc_rules_hash cp)"
    "tc_checkpoint cp = \<lparr>cp_log_length = of_nat (length pre), cp_last_time = last_time pre,
       cp_last_record_id = last_record_id pre, cp_state_hash = h,
       cp_log_hash = sha256_concat_ids E (map rec_id pre)\<rparr>"
    by (rule verified_log_checkpoint)
  have "s' = s" using replays_functional [OF *(1) assms(3)] .
  moreover have "unat (of_nat (length pre) :: u64) = length pre"
    using assms(2) by (simp add: unat_of_nat)
  ultimately show ?thesis
    using * replays_build_state [OF assms(3)]
    by (cases ext) (simp_all add: checkpoint_start_def checkpoint_fields_ok_def Let_def)
qed

section \<open>Equivalence with the replay from genesis\<close>

lemma replay_from_prefix:
  assumes "replays E R pre s"
  shows "replay_loop E R (pre @ ext) 0 default_state default_index 0
     = add_checked (of_nat (length pre)) (replay_loop E R (pre @ ext) (length pre) s (index_of pre) 0)"
  using replay_loop_complete [OF assms, of "length pre" "pre @ ext"]
    replay_loop_counter [of E R "pre @ ext" "length pre" s "index_of pre" 0 "of_nat (length pre)"]
  by simp

lemma replay_ends_counted:
  assumes "replays E R pre s"
    "replay_loop E R (pre @ ext) (length pre) s (index_of pre) 0 = Inr (s', c)"
  shows "c = of_nat (length ext)"
  using replay_loop_sound [of E R "length pre" "pre @ ext" s 0 s' c] assms by simp

lemma verify_log_from_checkpoint:
  assumes cp: "from_verified_log E pre R = Some cp" "length pre < 2 ^ 64" and rs: "rs = pre @ ext"
  shows "lv_result (verify_log E rs R (Some cp)) = Accept \<longleftrightarrow> lv_result (verify_log E rs R None) = Accept"
    "lv_result (verify_log E rs R None) = Accept
       \<Longrightarrow> verify_log E rs R (Some cp)
         = (verify_log E rs R None)\<lparr>lv_checked_records := of_nat (length ext)\<rparr>"
proof -
  obtain s where s: "replays E R pre s" using cp(1) by (rule verified_log_checkpoint)
  let ?loop = "replay_loop E R rs (length pre) s (index_of pre) 0"
  note start = checkpoint_start_verified [OF cp s, of ext, folded rs]
  note prefix = replay_from_prefix [OF s, of ext, folded rs]
  have verdict: "\<exists>reason c. ?loop = Inl (reason, c)" if "ext \<noteq> []" "rec_kind (hd ext) = KVerdict"
    using replay_loop_verdict [of E R "length pre" rs s 0] s that
    by (cases ext) (auto simp: rs)
  have count: "?loop = Inr (s', c) \<Longrightarrow> c = of_nat (length ext)" for s' c
    using replay_ends_counted [OF s, of ext] by (simp add: rs)
  show "lv_result (verify_log E rs R (Some cp)) = Accept \<longleftrightarrow> lv_result (verify_log E rs R None) = Accept"
    using start verdict
    by (auto simp: verify_log_def replay_start_def prefix reject_log_def
        split: option.splits sum.splits if_splits)
  show "verify_log E rs R (Some cp) = (verify_log E rs R None)\<lparr>lv_checked_records := of_nat (length ext)\<rparr>"
    if "lv_result (verify_log E rs R None) = Accept"
    using that start verdict count
    by (auto simp: verify_log_def replay_start_def prefix reject_log_def
        split: option.splits sum.splits if_splits)
qed

end
