(* ===== verification/Sample_Log.thy ===== *)
theory Sample_Log
  imports Record_Laws Acceptance Taint_Log Checkpoint_Laws
begin

text \<open>
  A concrete ledger, used to show that the hypotheses of the theorems can hold together: seven
  subjects with their verdicts, from a request over a capability, an exact approval, an action, its
  result and the closing response to the retraction of the capability.

  The hash parameter is instantiated by a function that gives each record of the sample the id it
  carries and is the identity on all other bytes; the payload parsers recognize the canonical
  bytes of the sample's payloads; a signature is valid when it repeats the key.
\<close>

section \<open>Serialization does not depend on the crates\<close>

lemma write_items_indep:
  "(\<And>v. v \<in> set vs \<Longrightarrow> write_jcs C v = write_jcs C' v) \<Longrightarrow> write_items C vs = write_items C' vs"
  by (induction vs) (auto split: option.splits)

lemma write_members_indep:
  "(\<And>m. m \<in> set ms \<Longrightarrow> write_jcs C (snd m) = write_jcs C' (snd m))
   \<Longrightarrow> write_members C ms = write_members C' ms"
proof (induction ms)
  case (Cons m ms)
  from Cons.prems [of m] Cons.IH Cons.prems show ?case by (cases m) (simp split: option.split)
qed simp

lemma write_jcs_indep: "plain v \<Longrightarrow> write_jcs C v = write_jcs C' v"
proof (induction v)
  case (JNumber n)
  then show ?case by (cases n) simp_all
next
  case (JArray vs)
  then have "write_items C vs = write_items C' vs" by (intro write_items_indep) simp
  then show ?case by simp
next
  case (JObject ms)
  then have "write_members C ms = write_members C' ms"
    by (intro write_members_indep) (auto simp: snds.simps)
  then show ?case by simp
qed simp_all

lemma canonical_json_indep: "plain v \<Longrightarrow> canonical_json C v = canonical_json C' v"
  using write_jcs_indep [of v C C'] by (simp add: canonical_json_def)

section \<open>The environment\<close>

definition plain_crates :: crates where
  "plain_crates =
     \<lparr>cr_sha256 = (\<lambda>bs. bs), cr_format_finite = (\<lambda>_. []),
      cr_key_from_bytes = (\<lambda>k. length k = 32), cr_verify_strict = (\<lambda>k m s. s = k @ k)\<rparr>"

definition form :: "json \<Rightarrow> bytes" where
  "form v = the (canonical_json plain_crates v)"

definition sample_sha :: "Record list \<Rightarrow> bytes \<Rightarrow> hash256" where
  "sample_sha log bs =
     (case List.find (\<lambda>r. canonical_id_form plain_crates r = Some bs) log of
        Some r \<Rightarrow> rec_id r
      | None \<Rightarrow> bs)"

definition parse_one :: "('a \<Rightarrow> json) \<Rightarrow> 'a list \<Rightarrow> bytes \<Rightarrow> 'a option" where
  "parse_one ser ds bs = List.find (\<lambda>d. canonical_json plain_crates (ser d) = Some bs) ds"

lemma canonical_json_form:
  "plain v \<Longrightarrow> writable v \<Longrightarrow> canonical_json C v = Some (form v)"
  using canonical_json_total [of v plain_crates] canonical_json_indep [of v C plain_crates]
  by (auto simp: form_def)

lemma parse_one_head:
  "plain (ser d) \<Longrightarrow> writable (ser d) \<Longrightarrow> parse_one ser (d # ds) (form (ser d)) = Some d"
  by (simp add: parse_one_def canonical_json_form)

lemma canonical_id_form_indep: "canonical_id_form C r = canonical_id_form C' r"
  unfolding canonical_id_form_def
  by (rule canonical_json_indep)
    (simp only: canonical_id_form_json_def plain_envelope plain_author_json)

lemma canonical_id_form_head:
  assumes "canonical_id_form C r = Some bs"
  shows "bs \<noteq> [] \<and> hd bs = of_char (CHR ''{'')"
  using assms
  by (auto simp: canonical_id_form_def canonical_id_form_json_def canonical_json_def as_bytes_def
      write_object_def)

lemma sample_sha_other:
  assumes "bs = [] \<or> hd bs \<noteq> of_char (CHR ''{'')"
  shows "sample_sha log bs = bs"
proof -
  have "List.find (\<lambda>r. canonical_id_form plain_crates r = Some bs) log = None"
    using assms canonical_id_form_head [of plain_crates _ bs] by (auto simp: find_None_iff')
  then show ?thesis by (simp add: sample_sha_def)
qed

definition place :: "Record \<Rightarrow> u64 \<times> Kind \<times> RecordId list" where
  "place r = (rec_time r, rec_kind r, map ref_target (rec_refs r))"

lemma sample_sha_record:
  assumes "r \<in> set log" "distinct (map place log)" "canonical_id_form plain_crates r = Some bs"
  shows "sample_sha log bs = rec_id r"
proof -
  obtain r' where r': "List.find (\<lambda>r. canonical_id_form plain_crates r = Some bs) log = Some r'"
    using assms(1,3) by (cases "List.find (\<lambda>r. canonical_id_form plain_crates r = Some bs) log")
      (auto simp: find_None_iff')
  from find_SomeD [OF this] have "canonical_id_form plain_crates r' = Some bs" "r' \<in> set log" by simp_all
  moreover from canonical_id_form_inj [OF assms(3) this(1)] have "place r' = place r"
    by (cases r; cases r') (simp add: place_def)
  ultimately have "r' = r" using assms(1,2) by (auto simp: distinct_map dest: inj_onD)
  with r' show ?thesis by (simp add: sample_sha_def)
qed

section \<open>Payloads\<close>

definition s_space :: hash256 where "s_space = [200]"
definition s_thread :: hash256 where "s_thread = [200]"
definition s_scope :: hash256 where "s_scope = [200]"
definition s_key :: hash256 where "s_key = replicate 32 7"

definition s_request :: RequestData where
  "s_request = \<lparr>req_objective = ''ship'', req_scope = s_scope, req_attachments = [],
                req_parent_request_id = None\<rparr>"

definition s_capability :: CapabilityData where
  "s_capability = \<lparr>cap_actor_id = ''p'', cap_action_class = ''run'', cap_scope = s_scope,
                   cap_mode = Ask, cap_expiry = None\<rparr>"

definition s_action :: ActionData where
  "s_action = \<lparr>act_request_id = [1], act_action_class = ''run'', act_scope = s_scope,
               act_exec_mode = Internal, act_params = JNull\<rparr>"

definition s_action_hash :: hash256 where
  "s_action_hash = form (JArray [JString ''p'', action_json s_action])"

definition s_approval :: ApprovalData where
  "s_approval = \<lparr>apr_target_action = Some s_action_hash, apr_action_class = None,
                 apr_scope = s_scope, apr_actor_id = Some ''p'', apr_expiry = None\<rparr>"

definition s_result :: ResultData where
  "s_result = \<lparr>rst_action_id = [7], rst_status = Success, rst_output = ''ok'',
               rst_artifacts = None\<rparr>"

definition s_response :: ResponseData where
  "s_response = \<lparr>rsp_request_id = [1], rsp_content = ''done'', rsp_turn_index = 0,
                 rsp_closes_request = True\<rparr>"

definition s_retraction :: RetractionData where
  "s_retraction = \<lparr>rtr_target_id = [3], rtr_reason = ''withdrawn''\<rparr>"

definition k_requirement :: RequirementData where
  "k_requirement = \<lparr>rqm_key = ''R1'', rqm_description = ''tests pass'', rqm_required = True,
                    rqm_expected_evidence = None, rqm_provenance = UserAuthored\<rparr>"

definition g_source :: SourceBinding where
  "g_source = \<lparr>sb_git = \<lparr>git_algo = Sha1, git_tree = replicate 40 (CHR ''a''), git_commit = None\<rparr>,
               sb_manifest_hash = None, sb_binding = BindReported\<rparr>"

definition g_candidate :: "CandidateBasis \<Rightarrow> CandidateData" where
  "g_candidate b = \<lparr>cnd_source = g_source, cnd_basis = b, cnd_parent = None, cnd_note = None, cnd_artifacts = None\<rparr>"

definition k_retraction :: RetractionData where
  "k_retraction = \<lparr>rtr_target_id = [23], rtr_reason = ''wrong''\<rparr>"

definition s_accept :: VerdictData where
  "s_accept = \<lparr>vd_result = Accept, vd_reason = None\<rparr>"

lemmas s_payloads =
  s_request_def s_capability_def s_action_def s_approval_def s_result_def s_response_def
  s_retraction_def s_accept_def k_requirement_def k_retraction_def

lemma ser_u_small [simp]:
  "norm (ser_u64 n) = ser_u64 n" "plain (ser_u64 n)" "writable (ser_u64 n) \<longleftrightarrow> uint n \<le> MAX_SAFE_INTEGER"
  by (simp_all add: ser_u64_def)

lemma s_forms [simp]:
  "plain (request_json s_request)" "writable (request_json s_request)"
  "plain (capability_json s_capability)" "writable (capability_json s_capability)"
  "plain (action_json s_action)" "writable (action_json s_action)"
  "plain (approval_json s_approval)" "writable (approval_json s_approval)"
  "plain (result_json s_result)" "writable (result_json s_result)"
  "plain (response_json s_response)" "writable (response_json s_response)"
  "plain (retraction_json s_retraction)" "writable (retraction_json s_retraction)"
  "plain (verdict_json s_accept)" "writable (verdict_json s_accept)"
  "plain (requirement_json k_requirement)" "writable (requirement_json k_requirement)"
  "plain (retraction_json k_retraction)" "writable (retraction_json k_retraction)"
  by (simp_all add: s_payloads requirement_json_def request_json_def capability_json_def action_json_def
      approval_json_def result_json_def response_json_def retraction_json_def verdict_json_def
      ser_vec_def ser_u32_def MAX_SAFE_INTEGER_def)

lemma g_forms [simp]: "plain (candidate_json (g_candidate b))" "writable (candidate_json (g_candidate b))"
  by (cases b; simp add: g_candidate_def g_source_def candidate_json_def source_binding_json_def git_source_json_def)+

section \<open>Records\<close>

definition s_signed :: Author where
  "s_signed = \<lparr>au_id = ''u'', au_type = AUser,
      au_signature = Some \<lparr>sig_key_id = hex_encode s_key, sig_sig = s_key @ s_key\<rparr>\<rparr>"

definition s_author :: "string \<Rightarrow> AuthorType \<Rightarrow> Author" where
  "s_author i t = \<lparr>au_id = i, au_type = t, au_signature = None\<rparr>"

definition s_record ::
  "u8 \<Rightarrow> u64 \<Rightarrow> Author \<Rightarrow> Kind \<Rightarrow> string \<Rightarrow> json \<Rightarrow> Ref list \<Rightarrow> Evidence \<Rightarrow> Record" where
  "s_record i t a k n v refs e =
     \<lparr>rec_id = [i], rec_space = s_space, rec_thread = s_thread, rec_time = t, rec_author = a,
      rec_kind = k, rec_schema = as_bytes n, rec_data = form v, rec_refs = refs, rec_evidence = e\<rparr>"

definition s_subject :: "u8 \<Rightarrow> u64 \<Rightarrow> Author \<Rightarrow> Kind \<Rightarrow> string \<Rightarrow> json \<Rightarrow> Ref list \<Rightarrow> Record" where
  "s_subject i t a k n v refs = s_record i t a k n v refs Reported"

definition s_verdict :: "u8 \<Rightarrow> u64 \<Rightarrow> u8 \<Rightarrow> Record" where
  "s_verdict i t subject =
     s_record i t (s_author ''verifier'' AVerifier) KVerdict SCHEMA_VERDICT (verdict_json s_accept)
       [\<lparr>ref_type = RCause, ref_target = [subject]\<rparr>] Deterministic"

definition s_req :: Record where
  "s_req = s_subject 1 1 s_signed KRequest SCHEMA_REQUEST (request_json s_request) []"

definition s_cap :: Record where
  "s_cap = s_subject 3 3 s_signed KCapability SCHEMA_CAPABILITY (capability_json s_capability) []"

definition s_apr :: Record where
  "s_apr = s_subject 5 5 s_signed KApproval SCHEMA_APPROVAL (approval_json s_approval) []"

definition s_act :: Record where
  "s_act = s_subject 7 7 (s_author ''p'' AProvider) KAction SCHEMA_ACTION (action_json s_action)
       [\<lparr>ref_type = RRequire, ref_target = [3]\<rparr>, \<lparr>ref_type = RRequire, ref_target = [5]\<rparr>]"

definition s_res :: Record where
  "s_res = s_subject 9 9 (s_author ''x'' AExecutor) KResult SCHEMA_RESULT (result_json s_result)
       [\<lparr>ref_type = RCause, ref_target = [7]\<rparr>]"

definition s_rsp :: Record where
  "s_rsp = s_subject 11 11 (s_author ''p'' AProvider) KResponse SCHEMA_RESPONSE (response_json s_response)
       [\<lparr>ref_type = RUse, ref_target = [7]\<rparr>]"

definition s_ret :: Record where
  "s_ret = s_subject 13 13 s_signed KRetraction SCHEMA_RETRACTION (retraction_json s_retraction)
       [\<lparr>ref_type = RCause, ref_target = [3]\<rparr>]"

definition s_log :: "Record list" where
  "s_log =
     [s_req, s_verdict 2 2 1, s_cap, s_verdict 4 4 3, s_apr, s_verdict 6 6 5, s_act, s_verdict 8 8 7,
      s_res, s_verdict 10 10 9, s_rsp, s_verdict 12 12 11, s_ret, s_verdict 14 14 13]"

text \<open>
  A second ledger that branches off after the request: one requirement is recorded, retracted,
  recorded again and the first one retracted once more.
\<close>

definition k_requires :: "u8 \<Rightarrow> u64 \<Rightarrow> Record" where
  "k_requires i t = s_subject i t s_signed KRequirement SCHEMA_REQUIREMENT (requirement_json k_requirement)
       [\<lparr>ref_type = RCause, ref_target = [1]\<rparr>]"

definition k_retracts :: "u8 \<Rightarrow> u64 \<Rightarrow> Record" where
  "k_retracts i t = s_subject i t s_signed KRetraction SCHEMA_RETRACTION (retraction_json k_retraction)
       [\<lparr>ref_type = RCause, ref_target = [23]\<rparr>]"

definition k_tail :: "Record list" where
  "k_tail =
     [k_requires 23 3, s_verdict 24 4 23, k_retracts 25 5, s_verdict 26 6 25, k_requires 27 7,
      s_verdict 28 8 27, k_retracts 29 9, s_verdict 30 10 29, k_requires 31 11, s_verdict 32 12 31]"

text \<open>A third ledger: a root candidate and a candidate derived from it.\<close>

definition g_c1 :: Record where
  "g_c1 = s_subject 51 1 s_signed KCandidate SCHEMA_CANDIDATE (candidate_json (g_candidate Root)) []"

definition g_c2 :: Record where
  "g_c2 = s_subject 53 3 s_signed KCandidate SCHEMA_CANDIDATE (candidate_json (g_candidate Derivation))
       [\<lparr>ref_type = RCause, ref_target = [51]\<rparr>]"

definition g_log :: "Record list" where
  "g_log = [g_c1, s_verdict 52 2 51, g_c2, s_verdict 54 4 53]"

definition s_world :: "Record list" where
  "s_world = s_log @ k_tail @ g_log"

lemmas s_record_defs =
  s_record_def s_subject_def s_verdict_def s_signed_def s_author_def

lemmas s_subject_defs =
  s_req_def s_cap_def s_apr_def s_act_def s_res_def s_rsp_def s_ret_def
  k_requires_def k_retracts_def g_c1_def g_c2_def

definition s_env :: env where
  "s_env =
     \<lparr>cr_sha256 = sample_sha s_world, cr_format_finite = (\<lambda>_. []),
      cr_key_from_bytes = (\<lambda>k. length k = 32), cr_verify_strict = (\<lambda>k m s. s = k @ k),
      de_request = parse_one request_json [s_request],
      de_action = parse_one action_json [s_action],
      de_response = parse_one response_json [s_response],
      de_result = parse_one result_json [s_result],
      de_requirement = parse_one requirement_json [k_requirement],
      de_capability = parse_one capability_json [s_capability],
      de_approval = parse_one approval_json [s_approval],
      de_summary = (\<lambda>_. None), de_refusal = (\<lambda>_. None),
      de_retraction = parse_one retraction_json [s_retraction, k_retraction],
      de_usage = (\<lambda>_. None),
      de_verdict = parse_one verdict_json [s_accept],
      de_plan = (\<lambda>_. None), de_candidate = parse_one candidate_json [g_candidate Root, g_candidate Derivation], de_evaluation_raw = (\<lambda>_. None),
      de_evaluation_v2_raw = (\<lambda>_. None), de_selection_raw = (\<lambda>_. None)\<rparr>"

definition s_signed_kinds :: "Kind set" where
  "s_signed_kinds = {KCandidate, KEvaluation, KSelection, KRetraction, KRequirement}"

definition s_rules :: VerifierRules where
  "s_rules =
     with_author_role ''u'' AUser (with_author_role ''p'' AProvider
       (with_author_role ''x'' AExecutor
         ((new_rules s_env s_space 16)
            \<lparr>vr_author_keys := Mapping.update ''u'' {s_key} Mapping.empty,
             vr_signature_required_kinds := s_signed_kinds,
             vr_evidence_thresholds := Mapping.update KCandidate Reported (Mapping.update KEvaluation Reported
               (Mapping.update KSelection Inferred Mapping.empty))\<rparr>)))"

section \<open>Ids, schemas and payloads of the sample\<close>

lemma s_log_times: "map rec_time s_log = [1, 2, 3, 4, 5, 6, 7, 8, 9, 10, 11, 12, 13, 14]"
  by (simp add: s_log_def s_subject_defs s_record_defs)

lemma s_world_times:
  "map rec_time s_world = map rec_time s_log @ [3, 4, 5, 6, 7, 8, 9, 10, 11, 12, 1, 2, 3, 4]"
  by (simp add: s_world_def k_tail_def g_log_def s_subject_defs s_record_defs)

lemma s_world_places: "distinct (map place s_world)"
  by (simp add: s_world_def k_tail_def g_log_def s_log_def place_def s_subject_defs s_record_defs)

lemma s_log_in_world: "r \<in> set s_log \<Longrightarrow> r \<in> set s_world"
  by (simp add: s_world_def)

lemma sample_compute_id:
  assumes "cr_sha256 C = sample_sha log" "r \<in> set log" "distinct (map place log)"
    "uint (rec_time r) \<le> MAX_SAFE_INTEGER"
  shows "compute_id C r = Some (rec_id r)"
proof -
  obtain bs where bs: "canonical_id_form plain_crates r = Some bs"
    using canonical_id_form_total [OF assms(4)] by blast
  then have "canonical_id_form C r = Some bs" using canonical_id_form_indep by metis
  then show ?thesis
    using sample_sha_record [OF assms(2,3) bs] by (simp add: compute_id_def sha256_def assms(1))
qed

lemma s_compute_id:
  assumes "r \<in> set s_world"
  shows "compute_id s_env r = Some (rec_id r)"
proof (rule sample_compute_id [OF _ assms s_world_places])
  have "rec_time r \<in> set (map rec_time s_world)" using assms by simp
  then show "uint (rec_time r) \<le> MAX_SAFE_INTEGER"
    unfolding s_world_times s_log_times MAX_SAFE_INTEGER_def by auto
qed (simp add: s_env_def)

lemma sample_schema_id:
  assumes "cr_sha256 C = sample_sha log" "n \<in> set ALL_SCHEMAS"
  shows "schema_id C n = as_bytes n"
proof -
  have "list_all (\<lambda>n. n \<noteq> [] \<and> hd n = CHR ''b'') ALL_SCHEMAS"
    by (simp add: ALL_SCHEMAS_def schema_names)
  with assms(2) have "n \<noteq> []" "hd n = CHR ''b''" by (simp_all add: list_all_iff)
  then have "hd (as_bytes n) \<noteq> of_char (CHR ''{'')" by (simp add: as_bytes_def hd_map)
  then show ?thesis
    by (simp add: schema_id_def sha256_utf8_def sha256_def assms(1) sample_sha_other)
qed

lemma s_schema_id: "n \<in> set ALL_SCHEMAS \<Longrightarrow> schema_id s_env n = as_bytes n"
  by (rule sample_schema_id) (simp_all add: s_env_def)

lemma s_decode [simp]:
  "de_request s_env (form (request_json s_request)) = Some s_request"
  "de_capability s_env (form (capability_json s_capability)) = Some s_capability"
  "de_action s_env (form (action_json s_action)) = Some s_action"
  "de_approval s_env (form (approval_json s_approval)) = Some s_approval"
  "de_result s_env (form (result_json s_result)) = Some s_result"
  "de_response s_env (form (response_json s_response)) = Some s_response"
  "de_retraction s_env (form (retraction_json s_retraction)) = Some s_retraction"
  "de_verdict s_env (form (verdict_json s_accept)) = Some s_accept"
  "de_requirement s_env (form (requirement_json k_requirement)) = Some k_requirement"
  by (simp_all add: s_env_def parse_one_head)

lemma k_decode [simp]: "de_retraction s_env (form (retraction_json k_retraction)) = Some k_retraction"
proof -
  have "norm (retraction_json s_retraction) \<noteq> norm (retraction_json k_retraction)"
  proof
    assume "norm (retraction_json s_retraction) = norm (retraction_json k_retraction)"
    from norm_object_fields [OF this [unfolded retraction_json_def], of "''target_id''"]
    have "ser_bytes [3] = ser_bytes [23]"
      by (simp add: s_retraction_def k_retraction_def del: norm.simps)
    then show False using ser_bytes_inj by fastforce
  qed
  then have "canonical_json plain_crates (retraction_json s_retraction) \<noteq> Some (form (retraction_json k_retraction))"
    using canonical_json_inj [of "retraction_json s_retraction" "retraction_json k_retraction" plain_crates]
      canonical_json_form [of "retraction_json k_retraction" plain_crates] by auto
  then show ?thesis by (simp add: s_env_def parse_one_def canonical_json_form)
qed

lemma s_action_hash: "action_approval_hash s_env ''p'' s_action = Some s_action_hash"
proof -
  let ?v = "JArray [JString ''p'', action_json s_action]"
  have "canonical_json s_env ?v = Some s_action_hash"
    unfolding s_action_hash_def by (rule canonical_json_form) simp_all
  moreover from this obtain t where "s_action_hash = of_char (CHR ''['') # t"
    by (auto simp: canonical_json_def as_bytes_def split: option.splits dest: sym)
  then have "hd s_action_hash = of_char (CHR ''['')" by (metis list.sel(1))
  then have "hd s_action_hash \<noteq> of_char (CHR ''{'')" by simp
  ultimately show ?thesis
    by (simp add: action_approval_hash_def sha256_canonical_def sha256_def s_env_def sample_sha_other)
qed

lemma s_verified:
  assumes "rec_author r = s_signed" "uint (rec_time r) \<le> MAX_SAFE_INTEGER"
  shows "verified_key s_env r = Some s_key"
proof -
  have "writable (signing_form_json r)"
    using writable_envelope [OF plain_author_json(4) assms(2), of "rec_author r"]
    by (simp add: signing_form_json_def)
  then obtain bs where "signing_bytes s_env r = Some bs"
    using canonical_json_total unfolding signing_bytes_def by blast
  then show ?thesis
    using hex_pairs_encode [of s_key] assms(1)
    by (simp add: verified_key_def s_signed_def hex_decode_def s_key_def s_env_def)
qed

section \<open>Checks that the sample passes for the same reason everywhere\<close>

lemma s_verdict_checks:
  assumes "s_verdict i t k \<in> set s_world" "scan_find rs [k] = Some r" "rec_kind r \<noteq> KVerdict"
    "rec_space r = s_space" "rec_thread r = s_thread" "\<not> scan_verdicted rs [k]"
  shows "check_verdict_record s_env (s_verdict i t k) (prior_of rs) s_rules = None"
proof -
  have "schema_id s_env SCHEMA_VERDICT = as_bytes SCHEMA_VERDICT"
    by (rule s_schema_id) (simp add: ALL_SCHEMAS_def)
  moreover have "decodes_canonically s_env (de_verdict s_env) verdict_json (rec_data (s_verdict i t k))"
    by (simp add: decodes_canonically_def s_record_defs canonical_json_form)
  ultimately show ?thesis
    using assms s_compute_id [OF assms(1)]
    by (simp add: check_verdict_record_def check_verdict_subject_def s_record_defs prior_of_find
        prior_of_verdict s_rules_def new_rules_def with_author_role_def)
qed

lemma s_pair:
  assumes "replays s_env s_rules rs s" "v = s_verdict i t k" "v \<in> set s_world"
    "rec_kind r \<noteq> KVerdict" "rec_space r = s_space" "rec_thread r = s_thread" "rec_id r = [k]"
    "scan_find (rs @ [r]) [k] = Some r" "\<not> scan_verdicted (rs @ [r]) [k]"
    "check_record s_env r (prior_of (rs @ [r])) s_rules s = None" "apply_accepted s_env s r = Some s'"
  shows "replays s_env s_rules (rs @ [r, v]) (at t s')"
proof -
  have acc: "verdict_of None = s_accept" by (simp add: verdict_of_def s_accept_def)
  have judged: "check_verdict_record s_env v (prior_of (rs @ [r])) s_rules = None"
    unfolding assms(2) using assms(3)
    by (intro s_verdict_checks [OF _ assms(8,4,5,6,9)]) (simp only: assms(2))
  have v: "rec_kind v = KVerdict" "map ref_target (rec_refs v) = [[k]]"
    "de_verdict s_env (rec_data v) = Some s_accept" "rec_time v = t"
    by (simp_all add: assms(2) s_record_defs)
  have applied: "apply_record s_env s r s_accept = Some s'"
    using assms(11) by (simp add: apply_record_def s_accept_def)
  have accept: "verdict_of (check_record s_env r (prior_of (rs @ [r])) s_rules s) = s_accept"
    by (simp only: assms(10) acc)
  have "replays s_env s_rules (rs @ [r, v]) (s'\<lparr>st_applied_up_to := rec_time v\<rparr>)"
    by (rule replays_pair [OF assms(1,4) v(1) judged]) (simp_all only: accept v assms(7) applied)
  then show ?thesis by (simp add: v at_def)
qed

lemma s_rules_sel [simp]:
  "vr_space s_rules = s_space" "vr_kind_schema_map s_rules = frozen_kind_schema_map s_env"
  "vr_signature_required_kinds s_rules = s_signed_kinds"
  "Mapping.lookup (vr_author_keys s_rules) a = (if a = ''u'' then Some {s_key} else None)"
  "Mapping.lookup (vr_author_roles s_rules) ''u'' = Some AUser"
  "Mapping.lookup (vr_author_roles s_rules) ''p'' = Some AProvider"
  "Mapping.lookup (vr_author_roles s_rules) ''x'' = Some AExecutor"
  "Mapping.lookup (vr_evidence_thresholds s_rules) k =
     (if k \<in> {KCandidate, KEvaluation} then Some Reported else if k = KSelection then Some Inferred else None)"
  by (simp_all add: s_rules_def with_author_role_def new_rules_def)

definition s_authorized :: "Author \<Rightarrow> Kind \<Rightarrow> bool" where
  "s_authorized a k \<longleftrightarrow>
     a = s_signed \<and> AUser \<in> set (allowed_author_types k)
     \<or> k \<notin> s_signed_kinds
        \<and> (a = s_author ''p'' AProvider \<and> AProvider \<in> set (allowed_author_types k)
          \<or> a = s_author ''x'' AExecutor \<and> AExecutor \<in> set (allowed_author_types k))"

definition s_usable :: "Record list \<Rightarrow> State \<Rightarrow> Ref \<Rightarrow> bool" where
  "s_usable rs s e \<longleftrightarrow>
     ref_type e \<noteq> RReplace
     \<and> (case scan_find rs (ref_target e) of None \<Rightarrow> False
        | Some t \<Rightarrow> rec_space t = s_space
            \<and> (is_epistemic (ref_type e) \<longrightarrow> rec_evidence t = Reported \<and> reliable s (rec_id t)))"

lemma s_author_checks:
  assumes "s_authorized (rec_author r) (rec_kind r)" "uint (rec_time r) \<le> MAX_SAFE_INTEGER"
  shows "check_author_role r s_rules = None" "check_signature s_env r s_rules = None"
proof -
  show "check_author_role r s_rules = None"
    using assms(1) unfolding s_authorized_def
    by (elim disjE conjE) (simp_all add: check_author_role_def s_signed_def s_author_def)
  show "check_signature s_env r s_rules = None"
    using assms(1) s_verified [of r] assms(2) unfolding s_authorized_def
    by (elim disjE conjE) (simp_all add: check_signature_def s_signed_def s_author_def has_key_def)
qed

lemma s_ref_checks:
  assumes "\<forall>e \<in> set (rec_refs r). s_usable rs s e" "rec_space r = s_space"
    "base_evidence s_env (rec_schema r) = Reported" "rec_evidence r = Reported"
  shows "check_refs r (prior_of rs) s = None" "check_replacement s_env r (prior_of rs) s = None"
    "check_evidence s_env r (prior_of rs) s_rules s = None"
proof -
  show "check_refs r (prior_of rs) s = None"
    using assms(1,2)
    by (auto simp: check_refs_def check_ref_def prior_of_find s_usable_def split: option.splits)
  have "filter (\<lambda>e. ref_type e = RReplace) (rec_refs r) = []"
    using assms(1) by (auto simp: filter_empty_conv s_usable_def)
  then show "check_replacement s_env r (prior_of rs) s = None" by (simp add: check_replacement_def)
  have "x = Reported"
    if "x \<in> set (List.map_filter (\<lambda>e. Option.bind (prior_find (prior_of rs) (ref_target e))
          (\<lambda>t. ref_evidence s e t)) (rec_refs r))" for x
    using that assms(1)
    by (auto simp: List.map_filter_def prior_of_find s_usable_def ref_evidence_def
        split: option.splits RefType.splits)
  then have "expected_evidence s_env r (prior_of rs) s = Reported"
    unfolding expected_evidence_def derive_evidence_Max assms(3) by (intro Max_eqI) auto
  then show "check_evidence s_env r (prior_of rs) s_rules s = None"
    by (simp add: check_evidence_def assms(4) less_Evidence_def)
qed

lemma s_check_record:
  assumes "r = s_subject i t a k n v refs" "r \<in> set s_world" "windows_less (map ref_key refs)"
    "Mapping.lookup (frozen_kind_schema_map s_env) (as_bytes n) = Some k" "k \<noteq> KVerdict"
    "s_authorized a k" "uint t \<le> MAX_SAFE_INTEGER" "\<forall>e \<in> set refs. s_usable rs s e"
    "base_evidence s_env (as_bytes n) = Reported" "check_payload_decode s_env r = None"
    "check_kind_specific s_env r (prior_of rs) s_rules s = None"
  shows "check_record s_env r (prior_of rs) s_rules s = None"
proof -
  have sel: "rec_kind r = k" "rec_author r = a" "rec_time r = t" "rec_refs r = refs"
    "rec_schema r = as_bytes n" "rec_space r = s_space" "rec_evidence r = Reported"
    by (simp_all add: assms(1) s_record_defs)
  have "check_envelope s_env r s_rules = None"
    using s_compute_id [OF assms(2)] assms(3,4) by (simp add: check_envelope_def sel)
  moreover have "check_author_role r s_rules = None" "check_signature s_env r s_rules = None"
    using s_author_checks [of r] assms(6,7) by (simp_all add: sel)
  moreover have "check_refs r (prior_of rs) s = None"
      "check_replacement s_env r (prior_of rs) s = None"
      "check_evidence s_env r (prior_of rs) s_rules s = None"
    using s_ref_checks [of r rs s] assms(8,9) by (simp_all add: sel)
  ultimately show ?thesis using assms(5,10,11) by (simp add: check_record_def sel)
qed

section \<open>Schemas of the sample\<close>

lemma s_schema_ids [simp]:
  "schema_id s_env SCHEMA_REQUEST = as_bytes SCHEMA_REQUEST"
  "schema_id s_env SCHEMA_ACTION = as_bytes SCHEMA_ACTION"
  "schema_id s_env SCHEMA_RESPONSE = as_bytes SCHEMA_RESPONSE"
  "schema_id s_env SCHEMA_RESULT = as_bytes SCHEMA_RESULT"
  "schema_id s_env SCHEMA_RESULT_EXTERNAL = as_bytes SCHEMA_RESULT_EXTERNAL"
  "schema_id s_env SCHEMA_RESULT_EFFECT_CONFIRMATION = as_bytes SCHEMA_RESULT_EFFECT_CONFIRMATION"
  "schema_id s_env SCHEMA_CAPABILITY = as_bytes SCHEMA_CAPABILITY"
  "schema_id s_env SCHEMA_APPROVAL = as_bytes SCHEMA_APPROVAL"
  "schema_id s_env SCHEMA_SUMMARY = as_bytes SCHEMA_SUMMARY"
  "schema_id s_env SCHEMA_REFUSAL = as_bytes SCHEMA_REFUSAL"
  "schema_id s_env SCHEMA_USAGE = as_bytes SCHEMA_USAGE"
  "schema_id s_env SCHEMA_VERDICT = as_bytes SCHEMA_VERDICT"
  "schema_id s_env SCHEMA_PLAN = as_bytes SCHEMA_PLAN"
  "schema_id s_env SCHEMA_RETRACTION = as_bytes SCHEMA_RETRACTION"
  "schema_id s_env SCHEMA_CANDIDATE = as_bytes SCHEMA_CANDIDATE"
  "schema_id s_env SCHEMA_EVALUATION = as_bytes SCHEMA_EVALUATION"
  "schema_id s_env SCHEMA_SELECTION = as_bytes SCHEMA_SELECTION"
  "schema_id s_env SCHEMA_REQUIREMENT = as_bytes SCHEMA_REQUIREMENT"
  "schema_id s_env SCHEMA_EVALUATION_V2 = as_bytes SCHEMA_EVALUATION_V2"
  "schema_id s_env SCHEMA_EVALUATION_ATTESTED = as_bytes SCHEMA_EVALUATION_ATTESTED"
  by (simp_all add: s_schema_id ALL_SCHEMAS_def)

lemma schemas_distinct: "distinct ALL_SCHEMAS" "distinct (rev ALL_SCHEMAS)"
  using distinct_ALL_SCHEMAS by simp_all

lemmas schemas_differ = schemas_distinct [unfolded ALL_SCHEMAS_def, simplified]

definition s_schema_kinds :: "(string \<times> Kind) list" where
  "s_schema_kinds =
     [(SCHEMA_REQUEST, KRequest), (SCHEMA_CAPABILITY, KCapability), (SCHEMA_APPROVAL, KApproval),
      (SCHEMA_ACTION, KAction), (SCHEMA_RESULT, KResult), (SCHEMA_RESPONSE, KResponse),
      (SCHEMA_RETRACTION, KRetraction), (SCHEMA_REQUIREMENT, KRequirement),
      (SCHEMA_CANDIDATE, KCandidate)]"

lemma s_schema_kind:
  assumes "(n, k) \<in> set s_schema_kinds"
  shows "Mapping.lookup (frozen_kind_schema_map s_env) (as_bytes n) = Some k"
  using assms unfolding s_schema_kinds_def frozen_kind_schema_map_def
  by (simp only: list.set insert_iff empty_iff prod.inject simp_thms, elim disjE conjE)
      (simp_all add: schemas_differ)

lemma sample_base_evidence:
  assumes "cr_sha256 C = sample_sha log" "(n, k) \<in> set s_schema_kinds"
  shows "base_evidence C (as_bytes n) = Reported"
proof -
  note ids = sample_schema_id [OF assms(1)]
  have n: "n \<in> set ALL_SCHEMAS" using assms(2) by (auto simp: s_schema_kinds_def ALL_SCHEMAS_def)
  moreover have "inj_on (schema_id C) (set ALL_SCHEMAS)"
    by (rule inj_onI) (simp add: ids)
  ultimately have "schema_name_for_id C (schema_id C n) = Some n"
    by (intro schema_name_for_id_Some)
  then have "schema_name_for_id C (as_bytes n) = Some n" using ids [OF n] by simp
  with assms(2) show ?thesis
    unfolding s_schema_kinds_def
    by (simp only: list.set insert_iff empty_iff prod.inject simp_thms, elim disjE conjE)
      (simp_all add: base_evidence_def schemas_differ)
qed

lemma s_base_evidence:
  "(n, k) \<in> set s_schema_kinds \<Longrightarrow> base_evidence s_env (as_bytes n) = Reported"
  by (rule sample_base_evidence) (simp_all add: s_env_def)

lemma s_payload_decode:
  assumes "(n, k) \<in> set s_schema_kinds" "rec_schema r = as_bytes n"
    "payload_canonical s_env n (rec_data r)"
  shows "check_payload_decode s_env r = None"
proof -
  have "List.find (\<lambda>m. as_bytes n = schema_id s_env m) decode_order = Some n"
    using assms(1) unfolding s_schema_kinds_def decode_order_def
    by (simp only: list.set insert_iff empty_iff prod.inject simp_thms, elim disjE conjE)
      (simp_all add: schemas_differ)
  then show ?thesis using assms(2,3) by (simp add: check_payload_decode_def)
qed

section \<open>The states of the sample\<close>

definition s_cap_key :: cap_key where "s_cap_key = (''p'', ''run'', s_scope)"

definition s_state1 :: State where
  "s_state1 = default_state\<lparr>st_accepted_records := {[1]}, st_active_requests := {[1]},
     st_applied_up_to := 2\<rparr>"

definition s_state2 :: State where
  "s_state2 = s_state1\<lparr>st_accepted_records := {[3], [1]},
     st_capability_index := Mapping.update [3] s_cap_key Mapping.empty,
     st_active_capabilities := Mapping.update s_cap_key [3] Mapping.empty,
     st_applied_up_to := 4\<rparr>"

definition s_state3 :: State where
  "s_state3 = s_state2\<lparr>st_accepted_records := {[5], [3], [1]},
     st_exact_approval_index := Mapping.update [5] s_action_hash Mapping.empty,
     st_valid_approvals := Mapping.update s_action_hash [5] Mapping.empty,
     st_applied_up_to := 6\<rparr>"

definition s_state4 :: State where
  "s_state4 = s_state3\<lparr>st_accepted_records := {[7], [5], [3], [1]},
     st_exact_approval_index := Mapping.delete [5] (st_exact_approval_index s_state3),
     st_valid_approvals := Mapping.delete s_action_hash (st_valid_approvals s_state3),
     st_epistemic_dependents := Mapping.update [5] {[7]} (Mapping.update [3] {[7]} Mapping.empty),
     st_open_actions := {[7]}, st_action_to_request := Mapping.update [7] [1] Mapping.empty,
     st_request_open_action_count := Mapping.update [1] 1 Mapping.empty, st_applied_up_to := 8\<rparr>"

definition s_state5 :: State where
  "s_state5 = s_state4\<lparr>st_accepted_records := {[9], [7], [5], [3], [1]}, st_open_actions := {},
     st_request_open_action_count := Mapping.delete [1] (st_request_open_action_count s_state4),
     st_applied_up_to := 10\<rparr>"

definition s_state6 :: State where
  "s_state6 = s_state5\<lparr>st_accepted_records := {[11], [9], [7], [5], [3], [1]},
     st_epistemic_dependents := Mapping.update [7] {[11]} (st_epistemic_dependents s_state5),
     st_response_turns := Mapping.update [1] 1 Mapping.empty, st_active_requests := {},
     st_active_plans := Mapping.delete [1] Mapping.empty, st_applied_up_to := 12\<rparr>"

definition s_state7 :: State where
  "s_state7 = at 14 (the (apply_accepted s_env s_state6 s_ret))"

lemmas s_states =
  s_state1_def s_state2_def s_state3_def s_state4_def s_state5_def s_state6_def default_state_def

lemma s_subject_sel [simp]:
  "rec_id (s_subject i t a k n v refs) = [i]" "rec_space (s_subject i t a k n v refs) = s_space"
  "rec_thread (s_subject i t a k n v refs) = s_thread" "rec_time (s_subject i t a k n v refs) = t"
  "rec_author (s_subject i t a k n v refs) = a" "rec_kind (s_subject i t a k n v refs) = k"
  "rec_schema (s_subject i t a k n v refs) = as_bytes n"
  "rec_data (s_subject i t a k n v refs) = form v" "rec_refs (s_subject i t a k n v refs) = refs"
  "rec_evidence (s_subject i t a k n v refs) = Reported"
  by (simp_all add: s_record_defs)

lemma s_verdict_sel [simp]:
  "rec_id (s_verdict i t k) = [i]" "rec_kind (s_verdict i t k) = KVerdict"
  "rec_space (s_verdict i t k) = s_space" "rec_time (s_verdict i t k) = t"
  "rec_refs (s_verdict i t k) = [\<lparr>ref_type = RCause, ref_target = [k]\<rparr>]"
  by (simp_all add: s_record_defs)

lemma s_register:
  "\<not> inherits_taint s (rec_refs r) \<Longrightarrow> register_accepted s r =
     s\<lparr>st_accepted_records := insert (rec_id r) (st_accepted_records s),
       st_epistemic_dependents := dependents_after (rec_id r) (rec_refs r) (st_epistemic_dependents s)\<rparr>"
  by (simp add: register_accepted_def Let_def fold_add_dependent_upd inherits_taint_def)

lemmas s_fold =
  apply_accepted_def s_register inherits_taint_def dependents_after_def dependents_def apply_kind_def
  arm_defs note_replaced_upd consume_approval_upd close_action_upd set_exact_approval_upd
  set_class_approval_upd s_states at_def s_subject_defs s_payloads s_cap_key_def find_replace_ref_def
  lookup_default_conv

lemma s_apply:
  "map_option (at 2) (apply_accepted s_env default_state s_req) = Some s_state1"
  "map_option (at 4) (apply_accepted s_env s_state1 s_cap) = Some s_state2"
  "map_option (at 6) (apply_accepted s_env s_state2 s_apr) = Some s_state3"
  by (simp_all add: s_fold s_decode [unfolded s_payloads])

lemma s_apply_action: "map_option (at 8) (apply_accepted s_env s_state3 s_act) = Some s_state4"
  using s_action_hash
  by (simp add: s_fold s_decode [unfolded s_payloads] s_author_def)
    (simp add: consumes_def open_action_def consume_approval_upd requires_def lookup_default_conv)

lemma s_apply_result: "map_option (at 10) (apply_accepted s_env s_state4 s_res) = Some s_state5"
  by (simp add: s_fold s_decode [unfolded s_payloads] closed_count_def)

lemma s_apply_response: "map_option (at 12) (apply_accepted s_env s_state5 s_rsp) = Some s_state6"
  by (simp add: s_fold s_decode [unfolded s_payloads] u32_saturating_add_def)

lemma s_apply_retraction: "map_option (at 14) (apply_accepted s_env s_state6 s_ret) = Some s_state7"
  unfolding s_state7_def
  by (simp add: apply_accepted_def apply_kind_def apply_retraction_def s_ret_def Let_def)

section \<open>The sample replays\<close>

lemma s_authorized_cases [simp]:
  "s_authorized s_signed k \<longleftrightarrow> AUser \<in> set (allowed_author_types k)"
  "s_authorized (s_author ''p'' AProvider) k \<longleftrightarrow> k \<notin> s_signed_kinds \<and> AProvider \<in> set (allowed_author_types k)"
  "s_authorized (s_author ''x'' AExecutor) k \<longleftrightarrow> k \<notin> s_signed_kinds \<and> AExecutor \<in> set (allowed_author_types k)"
  by (auto simp: s_authorized_def s_signed_def s_author_def)

lemma s_step_check:
  assumes "r = s_subject k t a K n v refs" "r \<in> set s_world"
    "(n, K) \<in> set s_schema_kinds" "K \<noteq> KVerdict" "s_authorized a K" "uint t \<le> MAX_SAFE_INTEGER"
    "windows_less (map ref_key refs)" "\<forall>e \<in> set refs. s_usable (rs @ [r]) s e"
    "payload_canonical s_env n (form v)"
    "check_kind_specific s_env r (prior_of (rs @ [r])) s_rules s = None"
  shows "check_record s_env r (prior_of (rs @ [r])) s_rules s = None"
proof -
  have "rec_schema r = as_bytes n" "rec_data r = form v" by (simp_all add: assms(1))
  then have "check_payload_decode s_env r = None"
    using assms(9) by (intro s_payload_decode [OF assms(3)]) simp_all
  then show ?thesis
    by (rule s_check_record [OF assms(1,2,7) s_schema_kind [OF assms(3)] assms(4,5,6,8)
          s_base_evidence [OF assms(3)] _ assms(10)])
qed

lemma s_step:
  assumes "replays s_env s_rules rs s" "r = s_subject k t a K n v refs" "K \<noteq> KVerdict"
    "check_record s_env r (prior_of (rs @ [r])) s_rules s = None"
    "s_verdict i t' k \<in> set s_world" "[k] \<notin> rec_id ` set rs" "\<not> scan_verdicted rs [k]"
    "map_option (at t') (apply_accepted s_env s r) = Some s'"
  shows "replays s_env s_rules (rs @ [r, s_verdict i t' k]) s'"
proof -
  obtain s0 where s0: "apply_accepted s_env s r = Some s0" "s' = at t' s0"
    using assms(8) by auto
  have sel: "rec_kind r = K" "rec_space r = s_space" "rec_thread r = s_thread" "rec_id r = [k]"
    by (simp_all add: assms(2))
  have "List.find (\<lambda>r. rec_id r = [k]) rs = None"
    using assms(6) scan.find_prior_None_iff [of rs "[k]"] unfolding scan_find_def by blast
  then have "scan_find (rs @ [r]) [k] = Some r"
    by (simp add: scan_find_def find_append sel)
  moreover have "\<not> scan_verdicted (rs @ [r]) [k]"
    using assms(3,7) by (simp add: scan_verdicted_def sel)
  ultimately show ?thesis
    using assms(3,4) s0
    by (simp only: s0(2)) (rule s_pair [OF assms(1) refl assms(5)], simp_all only: sel simp_thms)
qed

lemmas s_step_simps =
  s_signed_kinds_def s_schema_kinds_def s_world_def k_tail_def g_log_def s_log_def s_subject_defs MAX_SAFE_INTEGER_def scan_verdicted_def s_usable_def
  scan_find_def reliable_def ref_key_def decodes_canonically_def canonical_json_form
  payload_canonical_def schemas_differ prior_of_find

lemma s_checked1: "check_record s_env s_req (prior_of ([] @ [s_req])) s_rules default_state = None"
  using s_step_check [OF s_req_def, of "[]" default_state]
  by (simp add: s_step_simps check_kind_specific_def check_request_def cause_refs_def)
    (simp add: s_request_def)

lemma s_replays1: "replays s_env s_rules [s_req, s_verdict 2 2 1] s_state1"
  using s_step [OF replays_Nil s_req_def _ s_checked1, of 2 2 s_state1] s_apply(1)
  by (simp add: s_step_simps)

lemma s_checked2:
  "check_record s_env s_cap (prior_of ([s_req, s_verdict 2 2 1] @ [s_cap])) s_rules s_state1 = None"
  using s_step_check [OF s_cap_def, of "[s_req, s_verdict 2 2 1]" s_state1]
  by (simp add: s_step_simps check_kind_specific_def)

lemma s_replays2:
  "replays s_env s_rules [s_req, s_verdict 2 2 1, s_cap, s_verdict 4 4 3] s_state2"
  using s_step [OF s_replays1 s_cap_def _ s_checked2, of 4 4 s_state2] s_apply(2)
  by (simp add: s_step_simps)

definition s_pre3 :: "Record list" where
  "s_pre3 = [s_req, s_verdict 2 2 1, s_cap, s_verdict 4 4 3, s_apr, s_verdict 6 6 5]"

lemma s_checked3:
  "check_record s_env s_apr (prior_of ([s_req, s_verdict 2 2 1, s_cap, s_verdict 4 4 3] @ [s_apr]))
     s_rules s_state2 = None"
  using s_step_check [OF s_apr_def, of "[s_req, s_verdict 2 2 1, s_cap, s_verdict 4 4 3]" s_state2]
  by (simp add: s_step_simps check_kind_specific_def check_approval_def) (simp add: s_approval_def)

lemma s_replays3: "replays s_env s_rules s_pre3 s_state3"
  using s_step [OF s_replays2 s_apr_def _ s_checked3, of 6 6 s_state3] s_apply(3)
  by (simp add: s_step_simps s_pre3_def)

definition s_pre4 :: "Record list" where "s_pre4 = s_pre3 @ [s_act, s_verdict 8 8 7]"
definition s_pre5 :: "Record list" where "s_pre5 = s_pre4 @ [s_res, s_verdict 10 10 9]"
definition s_pre6 :: "Record list" where "s_pre6 = s_pre5 @ [s_rsp, s_verdict 12 12 11]"

lemmas s_pres = s_pre6_def s_pre5_def s_pre4_def s_pre3_def

lemma s_log_split: "s_log = s_pre6 @ [s_ret, s_verdict 14 14 13]"
  by (simp add: s_log_def s_pres)

lemma s_state_sel [simp]:
  "st_accepted_records s_state3 = {[5], [3], [1]}" "st_active_requests s_state3 = {[1]}"
  "st_retracted_records s_state3 = {}" "st_tainted_records s_state3 = {}"
  "st_active_capabilities s_state3 = Mapping.update s_cap_key [3] Mapping.empty"
  "st_valid_approvals s_state3 = Mapping.update s_action_hash [5] Mapping.empty"
  "st_accepted_records s_state4 = {[7], [5], [3], [1]}" "st_open_actions s_state4 = {[7]}"
  "st_retracted_records s_state4 = {}" "st_tainted_records s_state4 = {}"
  "st_retracted_records s_state6 = {}" "st_tainted_records s_state6 = {}"
  "st_accepted_records s_state5 = {[9], [7], [5], [3], [1]}" "st_active_requests s_state5 = {[1]}"
  "st_retracted_records s_state5 = {}" "st_tainted_records s_state5 = {}"
  "st_response_turns s_state5 = Mapping.empty" "st_active_plans s_state5 = Mapping.empty"
  "Mapping.lookup (st_request_open_action_count s_state5) [1] = None"
  "st_accepted_records s_state6 = {[11], [9], [7], [5], [3], [1]}"
  by (simp_all add: s_states)

lemma s_check_action:
  "check_action s_env s_act (prior_of (s_pre3 @ [s_act])) s_state3 = None"
proof -
  let ?p = "prior_of (s_pre3 @ [s_act])"
  have find: "prior_find ?p [1] = Some s_req" "prior_find ?p [3] = Some s_cap"
    "prior_find ?p [5] = Some s_apr"
    by (simp_all add: prior_of_find scan_find_def s_subject_defs s_pres)
  have sel: "rec_data s_act = form (action_json s_action)"
    "rec_data s_req = form (request_json s_request)"
    "rec_data s_cap = form (capability_json s_capability)"
    "rec_data s_apr = form (approval_json s_approval)"
    "au_id (rec_author s_act) = ''p''" "rec_thread s_req = rec_thread s_act"
    "rec_space s_req = rec_space s_act" "has_require_ref s_act [3]" "has_require_ref s_act [5]"
    by (simp_all add: s_subject_defs has_require_ref_def s_author_def)
  have data: "act_request_id s_action = [1]" "act_scope s_action = s_scope"
    "req_scope s_request = s_scope" "act_action_class s_action = ''run''"
    "cap_mode s_capability = Ask" "cap_expiry s_capability = None" "apr_expiry s_approval = None"
    "apr_actor_id s_approval = Some ''p''" "apr_scope s_approval = s_scope"
    by (simp_all add: s_payloads)
  have "exact_approval_match s_env s_act s_action ?p s_state3 s_action_hash = Some (Inr [5])"
    by (simp add: exact_approval_match_def find sel data reliable_def expired_def)
  then have "check_approval_for_action s_env s_act s_action ?p s_state3 = Inr [5]"
    by (simp add: check_approval_for_action_def sel s_action_hash)
  then have "check_action_capability s_env s_act s_action ?p s_state3 [3] = None"
    by (simp add: check_action_capability_def check_action_mode_def find sel data expired_def)
  then show ?thesis
    by (simp add: check_action_def sel find data s_cap_key_def)
qed

lemma s_checked4: "check_record s_env s_act (prior_of (s_pre3 @ [s_act])) s_rules s_state3 = None"
  using s_step_check [OF s_act_def, of s_pre3 s_state3] s_check_action
  by (simp add: s_step_simps s_pres check_kind_specific_def)

lemma s_replays4: "replays s_env s_rules s_pre4 s_state4"
  using s_step [OF s_replays3 s_act_def _ s_checked4, of 8 8 s_state4] s_apply_action
  by (simp add: s_step_simps s_pres)

lemma s_check_result:
  "check_result s_env s_res (prior_of (s_pre4 @ [s_res])) s_rules s_state4 = None"
proof -
  have "prior_find (prior_of (s_pre4 @ [s_res])) [7] = Some s_act"
    by (simp add: prior_of_find scan_find_def s_subject_defs s_pres)
  moreover have "rst_action_id s_result = [7]" "rst_artifacts s_result = None"
    "act_exec_mode s_action = Internal" "rec_data s_res = form (result_json s_result)"
    "rec_data s_act = form (action_json s_action)" "same_place s_act s_res" "sole_cause s_res [7]"
    "rec_schema s_res = as_bytes SCHEMA_RESULT"
    by (simp_all add: s_payloads s_subject_defs same_place_def sole_cause_def cause_refs_def)
  ultimately show ?thesis
    by (simp add: check_result_def check_result_schema_def schemas_differ)
qed

lemma s_checked5: "check_record s_env s_res (prior_of (s_pre4 @ [s_res])) s_rules s_state4 = None"
  using s_step_check [OF s_res_def, of s_pre4 s_state4] s_check_result
  by (simp add: s_step_simps s_pres check_kind_specific_def)

lemma s_replays5: "replays s_env s_rules s_pre5 s_state5"
  using s_step [OF s_replays4 s_res_def _ s_checked5, of 10 10 s_state5] s_apply_result
  by (simp add: s_step_simps s_pres)

lemma s_check_response:
  "check_response s_env s_rsp (prior_of (s_pre5 @ [s_rsp])) s_state5 = None"
proof -
  have "prior_find (prior_of (s_pre5 @ [s_rsp])) [1] = Some s_req"
    by (simp add: prior_of_find scan_find_def s_subject_defs s_pres)
  moreover have "rsp_request_id s_response = [1]" "rsp_turn_index s_response = 0"
    "rec_data s_rsp = form (response_json s_response)" "same_place s_req s_rsp"
    by (simp_all add: s_payloads s_subject_defs same_place_def)
  ultimately show ?thesis
    by (simp add: check_response_def lookup_default_conv)
qed

lemma s_checked6: "check_record s_env s_rsp (prior_of (s_pre5 @ [s_rsp])) s_rules s_state5 = None"
  using s_step_check [OF s_rsp_def, of s_pre5 s_state5] s_check_response
  by (simp add: s_step_simps s_pres check_kind_specific_def)

lemma s_replays6: "replays s_env s_rules s_pre6 s_state6"
  using s_step [OF s_replays5 s_rsp_def _ s_checked6, of 12 12 s_state6] s_apply_response
  by (simp add: s_step_simps s_pres)

lemma s_check_retraction:
  "check_retraction s_env s_ret (prior_of (s_pre6 @ [s_ret])) s_rules s_state6 = None"
proof -
  have "prior_find (prior_of (s_pre6 @ [s_ret])) [3] = Some s_cap"
    by (simp add: prior_of_find scan_find_def s_subject_defs s_pres)
  moreover have "rtr_target_id s_retraction = [3]" "rec_kind s_cap = KCapability"
    "rec_data s_ret = form (retraction_json s_retraction)" "sole_cause s_ret [3]"
    "rec_author s_ret = rec_author s_cap"
    by (simp_all add: s_payloads s_subject_defs sole_cause_def cause_refs_def)
  ultimately show ?thesis by (simp add: check_retraction_def)
qed

lemma s_checked7: "check_record s_env s_ret (prior_of (s_pre6 @ [s_ret])) s_rules s_state6 = None"
  using s_step_check [OF s_ret_def, of s_pre6 s_state6] s_check_retraction
  by (simp add: s_step_simps s_pres check_kind_specific_def)

lemma s_replays: "replays s_env s_rules s_log s_state7"
  using s_step [OF s_replays6 s_ret_def _ s_checked7, of 14 14 s_state7] s_apply_retraction
  by (simp add: s_step_simps s_pres)

lemma s_log_shape: "log_shape s_env s_log"
proof -
  have "length s_log = 14" by (simp add: s_log_def)
  moreover have "unat (rec_time (s_log ! i)) = Suc i" if "i < 14" for i
  proof -
    have "list_all (\<lambda>i. unat (map rec_time s_log ! i) = Suc i) [0..<14]"
      unfolding s_log_times by (simp add: upt_rec)
    from list_all_uptD [OF this that] show ?thesis
      using that \<open>length s_log = 14\<close> by (simp only: nth_map)
  qed
  ultimately show ?thesis
    by (simp add: log_shape_def s_compute_id s_log_in_world)
qed

section \<open>Admissions in the sample\<close>

lemma s_admitted_action: "admitted_at s_env s_rules s_log s_act s_pre3 s_state3"
  using s_replays3 s_checked4 by (simp add: admitted_at_def s_log_def s_pre3_def) (simp add: s_act_def)

lemma s_accepted [simp]: "st_accepted_records s_state7 = {[13], [11], [9], [7], [5], [3], [1]}"
proof -
  obtain s1 where "apply_accepted s_env s_state6 s_ret = Some s1"
    using s_apply_retraction by auto
  with apply_accepted_records [OF this] show ?thesis
    by (simp add: s_state7_def) (simp add: s_ret_def)
qed

lemma s_verified_log: "lv_result (verify_log s_env s_log s_rules None) = Accept"
  using verify_log_genesis s_log_shape s_replays by blast

section \<open>A checkpoint of the sample\<close>

lemma writable_ser_set: "(\<And>x. writable (f x)) \<Longrightarrow> writable (ser_set f A)"
  by (simp add: ser_set_def)

lemma ordered_keys_lookup: "k \<in> set (Mapping.ordered_keys m) \<Longrightarrow> Mapping.lookup m k \<noteq> None"
  by (cases "finite (Mapping.keys m)")
    (auto simp: Mapping.ordered_keys_def keys_is_none_rep Option.is_none_def)

lemma writable_map_as_pairs:
  assumes "\<And>k. writable (f k)" "\<And>k v. Mapping.lookup m k = Some v \<Longrightarrow> writable (g v)"
  shows "writable (map_as_pairs f g m)"
  using assms ordered_keys_lookup [of _ m] by (fastforce simp: map_as_pairs_def)

lemma writable_ser_map:
  assumes "\<And>k v. Mapping.lookup m k = Some v \<Longrightarrow> writable (g v)"
  shows "writable (ser_map f g m)"
  using assms ordered_keys_lookup [of _ m] by (fastforce simp: ser_map_def)

lemma map_as_pairs_empty [simp]: "map_as_pairs f g Mapping.empty = JArray []"
  by (simp add: map_as_pairs_def Mapping.ordered_keys_def)

lemma writable_summary_type [simp]: "writable (summary_type_json t)"
  by (cases t) simp_all

lemma s_state3_writable: "writable (state_json s_state3)"
  by (simp add: state_json_def writable_ser_set writable_map_as_pairs s_states cap_key_json_def
      class_key_json_def ser_u64_def MAX_SAFE_INTEGER_def split: prod.split option.split)

lemma s_rules_writable: "writable (rules_json s_rules)"
  by (simp add: rules_json_def s_rules_def with_author_role_def new_rules_def writable_ser_set
      writable_map_as_pairs writable_ser_map ser_u32_def default_max_considered_def
      default_min_binding_def MAX_SAFE_INTEGER_def ser_u64_def)

lemma s_shape_prefix: "log_shape s_env s_pre3"
  using s_log_shape by (simp add: log_shape_def s_log_def s_pre3_def All_less_Suc)

definition s_checkpoint :: TrustedCheckpoint where
  "s_checkpoint = the (from_verified_log s_env s_pre3 s_rules)"

lemma s_checkpoint: "from_verified_log s_env s_pre3 s_rules = Some s_checkpoint"
proof -
  have "lv_result (verify_log s_env s_pre3 s_rules None) = Accept"
    using verify_log_genesis s_shape_prefix s_replays3 by blast
  moreover obtain h where "state_hash s_env s_state3 = Some h"
    using canonical_json_total [OF s_state3_writable, of s_env] by (auto simp: state_hash_def sha256_canonical_def)
  moreover obtain h' where "rules_hash s_env s_rules = Some h'"
    using canonical_json_total [OF s_rules_writable, of s_env] by (auto simp: rules_hash_def sha256_canonical_def)
  ultimately have "from_verified_log s_env s_pre3 s_rules \<noteq> None"
    using replays_build_state [OF s_replays3]
    by (simp add: from_verified_log_def create_checkpoint_def assume_verified_def)
  then show ?thesis by (simp add: s_checkpoint_def)
qed

lemma s_log_ids: "map rec_id s_log = [[1], [2], [3], [4], [5], [6], [7], [8], [9], [10], [11], [12], [13], [14]]"
  by (simp add: s_log_def s_subject_defs)

lemma s_no_collision: "inj_on (sha256 s_env) (id_forms s_env (s_log @ s_log))"
proof (rule inj_onI)
  fix x y
  assume "x \<in> id_forms s_env (s_log @ s_log)" "y \<in> id_forms s_env (s_log @ s_log)"
    and eq: "sha256 s_env x = sha256 s_env y"
  then obtain r r' where r: "r \<in> set s_log" "canonical_id_form s_env r = Some x"
      "r' \<in> set s_log" "canonical_id_form s_env r' = Some y"
    by (auto simp: id_forms_def)
  then have "sha256 s_env x = rec_id r" "sha256 s_env y = rec_id r'"
    using s_compute_id [of r] s_compute_id [of r'] s_log_in_world by (auto simp: compute_id_def)
  with eq have "rec_id r = rec_id r'" by simp
  moreover have "distinct (map rec_id s_log)" unfolding s_log_ids by simp
  ultimately have "r = r'" using r(1,3) unfolding distinct_map by (blast dest: inj_onD)
  with r show "x = y" by simp
qed

end
