(* ===== verification/Requirement_Keys.thy ===== *)
theory Requirement_Keys
  imports Sample_Log
begin

text \<open>
  Keys of requirements.  A requirement's key is meant to be unique among the accepted, unretracted
  requirements of its request.  The concrete ledger of this theory is accepted and breaks that: the
  retraction of an already retracted requirement releases the key a later requirement holds.
\<close>

section \<open>The ledger step by step\<close>

definition k_pre1 :: "Record list" where
  "k_pre1 = [s_req, s_verdict 2 2 1, k_requires 23 3, s_verdict 24 4 23]"
definition k_pre2 :: "Record list" where "k_pre2 = k_pre1 @ [k_retracts 25 5, s_verdict 26 6 25]"
definition k_pre3 :: "Record list" where "k_pre3 = k_pre2 @ [k_requires 27 7, s_verdict 28 8 27]"
definition k_pre4 :: "Record list" where "k_pre4 = k_pre3 @ [k_retracts 29 9, s_verdict 30 10 29]"
definition k_log :: "Record list" where "k_log = k_pre4 @ [k_requires 31 11, s_verdict 32 12 31]"

lemmas k_pres = k_log_def k_pre4_def k_pre3_def k_pre2_def k_pre1_def

definition k_keys :: "(RecordId, string set) mapping" where
  "k_keys = Mapping.update [1] {''R1''} Mapping.empty"

definition k_state1 :: State where
  "k_state1 = s_state1\<lparr>st_accepted_records := {[23], [1]}, st_requirement_keys := k_keys,
     st_requirement_index := Mapping.update [23] ([1], ''R1'') Mapping.empty, st_applied_up_to := 4\<rparr>"

definition k_state2 :: State where
  "k_state2 = k_state1\<lparr>st_accepted_records := {[25], [23], [1]}, st_retracted_records := {[23]},
     st_requirement_keys := Mapping.delete [1] k_keys, st_applied_up_to := 6\<rparr>"

lemmas k_fold = s_fold deactivate_def release_requirement_key_def release_slot_def
  taint_dependents_def find_cause_ref_def cascade_def retract_def

lemma k_apply1: "map_option (at 4) (apply_accepted s_env s_state1 (k_requires 23 3)) = Some k_state1"
  by (simp add: k_fold s_decode [unfolded s_payloads] k_state1_def k_keys_def)

lemma k_apply2: "map_option (at 6) (apply_accepted s_env k_state1 (k_retracts 25 5)) = Some k_state2"
  by (simp add: k_fold k_decode [unfolded s_payloads] k_state1_def k_state2_def k_keys_def)

definition k_state3 :: State where
  "k_state3 = k_state2\<lparr>st_accepted_records := {[27], [25], [23], [1]},
     st_requirement_keys := Mapping.update [1] {''R1''} (st_requirement_keys k_state2),
     st_requirement_index := Mapping.update [27] ([1], ''R1'') (st_requirement_index k_state2),
     st_applied_up_to := 8\<rparr>"

definition k_state4 :: State where
  "k_state4 = k_state3\<lparr>st_accepted_records := {[29], [27], [25], [23], [1]},
     st_requirement_keys := Mapping.delete [1] (st_requirement_keys k_state3), st_applied_up_to := 10\<rparr>"

definition k_state5 :: State where
  "k_state5 = k_state4\<lparr>st_accepted_records := {[31], [29], [27], [25], [23], [1]},
     st_requirement_keys := Mapping.update [1] {''R1''} (st_requirement_keys k_state4),
     st_requirement_index := Mapping.update [31] ([1], ''R1'') (st_requirement_index k_state4),
     st_applied_up_to := 12\<rparr>"

lemmas k_states = k_state1_def k_state2_def k_state3_def k_state4_def k_state5_def k_keys_def

lemma k_apply3: "map_option (at 8) (apply_accepted s_env k_state2 (k_requires 27 7)) = Some k_state3"
  by (simp add: k_fold s_decode [unfolded s_payloads] k_states)

lemma k_apply4: "map_option (at 10) (apply_accepted s_env k_state3 (k_retracts 29 9)) = Some k_state4"
  by (simp add: k_fold k_decode [unfolded s_payloads] k_states)

lemma k_apply5: "map_option (at 12) (apply_accepted s_env k_state4 (k_requires 31 11)) = Some k_state5"
  by (simp add: k_fold s_decode [unfolded s_payloads] k_states)

section \<open>Every step is accepted\<close>

lemma k_check_requirement:
  assumes "scan_find (rs @ [k_requires i t]) [1] = Some s_req" "[1] \<in> st_accepted_records s"
    "''R1'' \<notin> Mapping.lookup_default {} (st_requirement_keys s) [1]"
  shows "check_requirement s_env (k_requires i t) (prior_of (rs @ [k_requires i t])) s = None"
proof -
  have "rec_data (k_requires i t) = form (requirement_json k_requirement)" "same_place s_req (k_requires i t)"
    "map ref_target (cause_refs (k_requires i t)) = [[1]]" "au_type (rec_author (k_requires i t)) = AUser"
    "rec_kind s_req = KRequest"
    by (simp_all add: s_subject_defs same_place_def cause_refs_def s_signed_def)
  moreover have "rqm_key k_requirement = ''R1''" "rqm_description k_requirement \<noteq> []"
    "rqm_provenance k_requirement = UserAuthored" by (simp_all add: k_requirement_def)
  ultimately show ?thesis using assms by (simp add: check_requirement_def prior_of_find)
qed

lemma k_check_retraction:
  assumes "scan_find (rs @ [k_retracts i t]) [23] = Some (k_requires 23 3)" "[23] \<in> st_accepted_records s"
  shows "check_retraction s_env (k_retracts i t) (prior_of (rs @ [k_retracts i t])) s_rules s = None"
proof -
  have "rec_data (k_retracts i t) = form (retraction_json k_retraction)" "sole_cause (k_retracts i t) [23]"
    "rec_author (k_retracts i t) = rec_author (k_requires 23 3)" "rec_kind (k_requires 23 3) = KRequirement"
    "rtr_target_id k_retraction = [23]"
    by (simp_all add: s_subject_defs sole_cause_def cause_refs_def k_retraction_def)
  then show ?thesis using assms by (simp add: check_retraction_def prior_of_find)
qed

lemma k_state_sel [simp]:
  "st_accepted_records s_state1 = {[1]}" "st_requirement_keys s_state1 = Mapping.empty"
  "st_accepted_records k_state1 = {[23], [1]}" "st_accepted_records k_state2 = {[25], [23], [1]}"
  "st_accepted_records k_state3 = {[27], [25], [23], [1]}"
  "st_accepted_records k_state4 = {[29], [27], [25], [23], [1]}"
  "Mapping.lookup_default {} (st_requirement_keys k_state2) [1] = {}"
  "Mapping.lookup_default {} (st_requirement_keys k_state4) [1] = {}"
  by (simp_all add: k_states s_state1_def default_state_def lookup_default_conv)

lemmas k_step_simps = s_step_simps k_pres check_kind_specific_def is_epistemic.simps

lemma k_checked1:
  "check_record s_env (k_requires 23 3) (prior_of ([s_req, s_verdict 2 2 1] @ [k_requires 23 3])) s_rules s_state1 = None"
  using s_step_check [OF k_requires_def, of 23 3 "[s_req, s_verdict 2 2 1]" s_state1]
    k_check_requirement [of "[s_req, s_verdict 2 2 1]" 23 3 s_state1]
  by (simp add: k_step_simps lookup_default_conv)

lemma k_replays1: "replays s_env s_rules k_pre1 k_state1"
  using s_step [OF s_replays1 k_requires_def _ k_checked1, of 24 4 k_state1] k_apply1
  by (simp add: k_step_simps)

lemma k_checked2:
  "check_record s_env (k_retracts 25 5) (prior_of (k_pre1 @ [k_retracts 25 5])) s_rules k_state1 = None"
  using s_step_check [OF k_retracts_def, of 25 5 k_pre1 k_state1] k_check_retraction [of k_pre1 25 5 k_state1]
  by (simp add: k_step_simps)

lemma k_replays2: "replays s_env s_rules k_pre2 k_state2"
  using s_step [OF k_replays1 k_retracts_def _ k_checked2, of 26 6 k_state2] k_apply2
  by (simp add: k_step_simps)

lemma k_checked3:
  "check_record s_env (k_requires 27 7) (prior_of (k_pre2 @ [k_requires 27 7])) s_rules k_state2 = None"
  using s_step_check [OF k_requires_def, of 27 7 k_pre2 k_state2] k_check_requirement [of k_pre2 27 7 k_state2]
  by (simp add: k_step_simps)

lemma k_replays3: "replays s_env s_rules k_pre3 k_state3"
  using s_step [OF k_replays2 k_requires_def _ k_checked3, of 28 8 k_state3] k_apply3
  by (simp add: k_step_simps)

lemma k_checked4:
  "check_record s_env (k_retracts 29 9) (prior_of (k_pre3 @ [k_retracts 29 9])) s_rules k_state3 = None"
  using s_step_check [OF k_retracts_def, of 29 9 k_pre3 k_state3] k_check_retraction [of k_pre3 29 9 k_state3]
  by (simp add: k_step_simps)

lemma k_replays4: "replays s_env s_rules k_pre4 k_state4"
  using s_step [OF k_replays3 k_retracts_def _ k_checked4, of 30 10 k_state4] k_apply4
  by (simp add: k_step_simps)

lemma k_checked5:
  "check_record s_env (k_requires 31 11) (prior_of (k_pre4 @ [k_requires 31 11])) s_rules k_state4 = None"
  using s_step_check [OF k_requires_def, of 31 11 k_pre4 k_state4] k_check_requirement [of k_pre4 31 11 k_state4]
  by (simp add: k_step_simps)

lemma k_replays: "replays s_env s_rules k_log k_state5"
  using s_step [OF k_replays4 k_requires_def _ k_checked5, of 32 12 k_state5] k_apply5
  by (simp add: k_step_simps)

lemma k_log_shape: "log_shape s_env k_log"
proof -
  have len: "length k_log = 12" by (simp add: k_pres)
  have times: "map rec_time k_log = [1, 2, 3, 4, 5, 6, 7, 8, 9, 10, 11, 12]"
    by (simp add: k_pres s_subject_defs)
  have "unat (rec_time (k_log ! i)) = Suc i" if "i < 12" for i
  proof -
    have "list_all (\<lambda>i. unat (map rec_time k_log ! i) = Suc i) [0..<12]"
      unfolding times by (simp add: upt_rec)
    from list_all_uptD [OF this that] show ?thesis using that len by (simp only: nth_map)
  qed
  moreover have "set k_log \<subseteq> set s_world" by (simp add: k_pres s_world_def k_tail_def s_log_def)
  then have "compute_id s_env (k_log ! i) = Some (rec_id (k_log ! i))" if "i < 12" for i
    using that len nth_mem [of i k_log] by (intro s_compute_id) auto
  ultimately show ?thesis by (simp add: log_shape_def len)
qed

end
