(* ===== verification/Work_Log.thy ===== *)
theory Work_Log
  imports Acceptance
begin

text \<open>
  Work in progress read off the log.  The sets of open actions and of active requests that the
  fold maintains step by step are functions of the accepted records alone: what was opened, less
  what was closed.  An action is closed by at most one accepted record.
\<close>

section \<open>Facts read off the accepted records\<close>

definition from_accepted :: "(Record \<Rightarrow> 'a option) \<Rightarrow> State \<Rightarrow> Record list \<Rightarrow> 'a set" where
  "from_accepted g s rs =
     set (List.map_filter (\<lambda>r. if rec_id r \<in> st_accepted_records s then g r else None) rs)"

lemma from_accepted_iff:
  "x \<in> from_accepted g s rs \<longleftrightarrow> (\<exists>r \<in> set rs. rec_id r \<in> st_accepted_records s \<and> g r = Some x)"
  by (force simp: from_accepted_def List.map_filter_def split: if_splits)

lemma from_accepted_Nil [simp]: "from_accepted g s [] = {}"
  by (simp add: from_accepted_def map_filter_simps)

lemma from_accepted_at [simp]: "from_accepted g (at t s) rs = from_accepted g s rs"
  by (simp add: from_accepted_def)

lemma from_accepted_accept:
  assumes "rec_id r \<notin> rec_id ` set rs" "g v = None"
    "st_accepted_records s' = insert (rec_id r) (st_accepted_records s)"
  shows "from_accepted g s' (rs @ [r, v]) = from_accepted g s rs \<union> set_option (g r)"
proof -
  have "rec_id x \<noteq> rec_id r" if "x \<in> set rs" for x
    using assms(1) that by (metis image_eqI)
  then show ?thesis
    using assms(2,3) by (auto simp: from_accepted_iff)
qed

lemma from_accepted_reject:
  assumes "rec_id r \<notin> st_accepted_records s" "g v = None"
  shows "from_accepted g s (rs @ [r, v]) = from_accepted g s rs"
  using assms by (auto simp: from_accepted_iff)

section \<open>Opening and closing\<close>

definition opens :: "'z env_scheme \<Rightarrow> Record \<Rightarrow> (RecordId \<times> RecordId) option" where
  "opens E r =
     (if rec_kind r = KAction
      then map_option (\<lambda>d. (rec_id r, act_request_id d)) (de_action E (rec_data r)) else None)"

definition closes_action :: "'z env_scheme \<Rightarrow> Record \<Rightarrow> RecordId option" where
  "closes_action E r =
     (if rec_kind r = KResult then map_option rst_action_id (de_result E (rec_data r))
      else if rec_kind r = KRefusal
      then (case de_refusal E (rec_data r) of None \<Rightarrow> None
            | Some d \<Rightarrow> if rfs_target_kind d = RefAction then Some (rfs_target_id d) else None)
      else None)"

definition asks :: "Record \<Rightarrow> RecordId option" where
  "asks r = (if rec_kind r = KRequest then Some (rec_id r) else None)"

definition ends_request :: "'z env_scheme \<Rightarrow> Record \<Rightarrow> RecordId option" where
  "ends_request E r =
     (if rec_kind r = KResponse
      then (case de_response E (rec_data r) of None \<Rightarrow> None
            | Some d \<Rightarrow> if rsp_closes_request d then Some (rsp_request_id d) else None)
      else if rec_kind r = KRefusal
      then (case de_refusal E (rec_data r) of None \<Rightarrow> None
            | Some d \<Rightarrow> if rfs_target_kind d = RefRequest then Some (rfs_target_id d) else None)
      else None)"

lemma work_of_verdict [simp]:
  "rec_kind v = KVerdict \<Longrightarrow> opens E v = None" "rec_kind v = KVerdict \<Longrightarrow> closes_action E v = None"
  "rec_kind v = KVerdict \<Longrightarrow> asks v = None" "rec_kind v = KVerdict \<Longrightarrow> ends_request E v = None"
  by (simp_all add: opens_def closes_action_def asks_def ends_request_def)

lemmas work_defs = opens_def closes_action_def asks_def ends_request_def

lemma apply_kind_open:
  assumes "apply_kind E r s = Some s'"
  shows "st_open_actions s' =
     st_open_actions s \<union> fst ` set_option (opens E r) - set_option (closes_action E r)"
    "Mapping.lookup (st_action_to_request s') =
       (case opens E r of None \<Rightarrow> Mapping.lookup (st_action_to_request s)
        | Some (a, q) \<Rightarrow> (Mapping.lookup (st_action_to_request s))(a \<mapsto> q))"
  using assms
  by (cases "rec_kind r";
      auto simp: work_defs apply_kind_def arm_defs helper_upds split: option.splits RefusalTarget.splits)+

lemma apply_kind_requests:
  assumes "apply_kind E r s = Some s'"
  shows "st_active_requests s' =
     st_active_requests s \<union> set_option (asks r) - set_option (ends_request E r)"
  using assms
  by (cases "rec_kind r";
      auto simp: work_defs apply_kind_def arm_defs helper_upds Let_def
        split: option.splits RefusalTarget.splits if_splits)

lemma closing_needs_open:
  assumes "check_kind_specific E r p R s = None" "closes_action E r = Some a"
  shows "a \<in> st_open_actions s"
  by (rule accepted_close_open [OF assms(1)])
    (use assms(2) in \<open>auto simp: closes_action_def split: if_splits option.splits\<close>)

lemma ending_needs_active:
  assumes "check_kind_specific E r p R s = None" "ends_request E r = Some q"
  shows "q \<in> st_active_requests s"
  using assms
  by (auto simp: ends_request_def check_kind_specific_def check_response_def check_refusal_def
      check_refusal_target_def Let_def split: if_splits option.splits)

section \<open>The sets are exact\<close>

definition owners_exact :: "'z env_scheme \<Rightarrow> Record list \<Rightarrow> State \<Rightarrow> bool" where
  "owners_exact E rs s \<longleftrightarrow>
     (\<forall>a q. Mapping.lookup (st_action_to_request s) a = Some q \<longleftrightarrow> (a, q) \<in> from_accepted (opens E) s rs)"

definition work_exact :: "'z env_scheme \<Rightarrow> Record list \<Rightarrow> State \<Rightarrow> bool" where
  "work_exact E rs s \<longleftrightarrow>
     st_open_actions s = fst ` from_accepted (opens E) s rs - from_accepted (closes_action E) s rs
     \<and> st_active_requests s = from_accepted asks s rs - from_accepted (ends_request E) s rs
     \<and> from_accepted (closes_action E) s rs \<subseteq> rec_id ` set rs
     \<and> from_accepted (ends_request E) s rs \<subseteq> rec_id ` set rs
     \<and> owners_exact E rs s"

lemma opened_in_log:
  "fst ` from_accepted (opens E) s rs \<subseteq> rec_id ` set rs" "from_accepted asks s rs \<subseteq> rec_id ` set rs"
  by (auto simp: from_accepted_iff opens_def asks_def split: if_splits)

lemma work_exact_accept:
  assumes inv: "work_exact E rs s" and new: "rec_id r \<notin> rec_id ` set rs" "rec_kind v = KVerdict"
    and chk: "check_kind_specific E r p R s = None" and app: "apply_accepted E s r = Some s'"
  shows "work_exact E (rs @ [r, v]) s'"
proof -
  have kind: "apply_kind E r (register_accepted s r) = Some s'" using app by (simp add: apply_accepted_def)
  note acc = apply_accepted_records [OF app]
  note step = from_accepted_accept [OF new(1) _ acc]
  have closes: "set_option (closes_action E r) \<subseteq> st_open_actions s"
    using closing_needs_open [OF chk] by auto
  have ends: "set_option (ends_request E r) \<subseteq> st_active_requests s"
    using ending_needs_active [OF chk] by auto
  have open_new: "fst ` set_option (opens E r) \<subseteq> {rec_id r}" "set_option (asks r) \<subseteq> {rec_id r}"
    by (auto simp: opens_def asks_def)
  have "st_open_actions s \<subseteq> rec_id ` set rs" "st_active_requests s \<subseteq> rec_id ` set rs"
    using inv opened_in_log(1) [of E s rs] opened_in_log(2) [of s rs] unfolding work_exact_def by blast+
  then have in_log: "set_option (closes_action E r) \<subseteq> rec_id ` set rs"
    "set_option (ends_request E r) \<subseteq> rec_id ` set rs"
    using closes ends by blast+
  have owners: "\<And>a q. (Mapping.lookup (st_action_to_request s) a = Some q)
      = ((a, q) \<in> from_accepted (opens E) s rs)"
    using inv by (simp add: work_exact_def owners_exact_def)
  have other: "a \<noteq> rec_id r" if "(a, q) \<in> from_accepted (opens E) s rs" for a q
    using subsetD [OF opened_in_log(1) image_eqI [OF _ that]] new(1)
    by (metis fst_conv)
  have "owners_exact E (rs @ [r, v]) s'"
    unfolding owners_exact_def apply_kind_open(2) [OF kind] step [of "opens E", OF work_of_verdict(1) [OF new(2)]]
    by (auto simp: owners opens_def dest: other split: option.splits if_splits)
  then show ?thesis
    using inv apply_kind_open(1) [OF kind] apply_kind_requests [OF kind] closes ends open_new new in_log
    by (auto simp: work_exact_def step image_Un)
qed

interpretation work: checked_invariant E R "work_exact E" for E :: "'z env_scheme" and R
proof
  show "work_exact E [] default_state" by (simp add: work_exact_def owners_exact_def default_state_def)
next
  fix rs s s' and r v :: Record
  assume *: "work_exact E rs s" "rec_kind r \<noteq> KVerdict" "rec_kind v = KVerdict"
    "rec_id r \<notin> rec_id ` set rs" "check_record E r (prior_of (rs @ [r])) R s = None"
    "apply_accepted E s r = Some s'"
  have "work_exact E (rs @ [r, v]) s'"
    by (rule work_exact_accept [OF *(1,4,3) check_record_None(8) [OF *(5,2)] *(6)])
  then show "work_exact E (rs @ [r, v]) (at (rec_time v) s')"
    by (simp add: work_exact_def owners_exact_def)
next
  fix rs s and r v :: Record
  assume *: "replays E R rs s" "work_exact E rs s" "rec_kind v = KVerdict"
    "rec_id r \<notin> rec_id ` set rs"
  then show "work_exact E (rs @ [r, v]) (at (rec_time v) s)"
    by (auto simp: work_exact_def owners_exact_def from_accepted_reject [OF accepted_not_fresh [OF *(1,4)]])
qed

section \<open>Closed once\<close>

lemma admitted_prefix:
  assumes "admitted_at E R rs r pre s0" "admitted_at E R rs r' pre' s0'" "length pre < length pre'"
  shows "r \<in> set pre'" "rec_id r \<in> st_accepted_records s0'"
proof -
  have adm: "admitted_at E R pre' r pre s0" by (rule later_admission_extends [OF assms])
  then show "r \<in> set pre'" by (auto simp: admitted_at_def)
  have "replays E R pre' s0'" using assms(2) by (simp add: admitted_at_def)
  then show "rec_id r \<in> st_accepted_records s0'" using adm by (rule admitted_accepted)
qed

lemma closed_once:
  assumes adm: "admitted_at E R rs r pre s0" "admitted_at E R rs r' pre' s0'"
    and cl: "closes_action E r = Some a" "closes_action E r' = Some a"
  shows "r = r'"
proof -
  have False
    if adm: "admitted_at E R rs b p t" "admitted_at E R rs c p' t'" and lt: "length p < length p'"
      and cl: "closes_action E b = Some a" "closes_action E c = Some a" for b p t c p' t'
  proof -
    have "a \<in> from_accepted (closes_action E) t' p'"
      using admitted_prefix [OF adm lt] cl(1) by (auto simp: from_accepted_iff)
    moreover have "replays E R p' t'" using adm(2) by (simp add: admitted_at_def)
    then have "work_exact E p' t'" by (rule work.inv_replays)
    moreover have "a \<in> st_open_actions t'"
      by (rule closing_needs_open [OF admitted_checks(8) [OF adm(2)] cl(2)])
    ultimately show False by (simp add: work_exact_def)
  qed
  from this [OF adm] this [OF adm(2,1)] cl have "length pre = length pre'" by (meson linorder_neqE_nat)
  with adm show ?thesis by (rule admitted_same_place)
qed

section \<open>The counter against the log\<close>

lemma open_for_log:
  assumes "replays E R rs s"
  shows "open_for s q = {a \<in> st_open_actions s. (a, q) \<in> from_accepted (opens E) s rs}"
  using work.inv_replays [OF assms] by (simp add: work_exact_def owners_exact_def open_for_def)

lemma open_count_of_log:
  assumes "replays E R rs s" "length rs < 2 ^ 64"
  shows "unat (open_count s q)
     = card {a. (a, q) \<in> from_accepted (opens E) s rs \<and> a \<notin> from_accepted (closes_action E) s rs}"
proof -
  have "open_for s q = {a. (a, q) \<in> from_accepted (opens E) s rs \<and> a \<notin> from_accepted (closes_action E) s rs}"
    using work.inv_replays [OF assms(1)]
    by (auto simp: work_exact_def owners_exact_def open_for_def intro: image_eqI [of _ fst "(_, q)"])
  then show ?thesis
    using counts.inv_replays [OF assms(1)] assms(2) by (simp add: counts_exact_def)
qed

end
