(* ===== verification/Key_Invariant.thy ===== *)
theory Key_Invariant
  imports Work_Log
begin

text \<open>
  When requirement keys are unique.  As long as no record of the log is retracted twice, the keys
  the state holds for a request are exactly those of its accepted, unretracted requirements, and
  no two of these share a key.
\<close>

section \<open>Requirements and retractions of the log\<close>

definition holds_key :: "'z env_scheme \<Rightarrow> Record \<Rightarrow> (RecordId \<times> RecordId \<times> string) option" where
  "holds_key E r =
     (if rec_kind r = KRequirement
      then (case (de_requirement E (rec_data r), find_cause_ref (rec_refs r)) of
              (Some d, Some q) \<Rightarrow> Some (rec_id r, q, rqm_key d)
            | _ \<Rightarrow> None)
      else None)"

definition retracts :: "'z env_scheme \<Rightarrow> Record \<Rightarrow> RecordId option" where
  "retracts E r = (if rec_kind r = KRetraction then map_option rtr_target_id (de_retraction E (rec_data r)) else None)"

definition retractions :: "'z env_scheme \<Rightarrow> State \<Rightarrow> Record list \<Rightarrow> RecordId list" where
  "retractions E s rs =
     List.map_filter (\<lambda>r. if rec_id r \<in> st_accepted_records s then retracts E r else None) rs"

lemma set_retractions: "set (retractions E s rs) = from_accepted (retracts E) s rs"
  by (simp add: retractions_def from_accepted_def)

lemma key_facts_of_verdict [simp]:
  "rec_kind v = KVerdict \<Longrightarrow> holds_key E v = None" "rec_kind v = KVerdict \<Longrightarrow> retracts E v = None"
  by (simp_all add: holds_key_def retracts_def)

lemma retractions_accept:
  assumes "rec_id r \<notin> rec_id ` set rs" "rec_kind v = KVerdict"
    "st_accepted_records s' = insert (rec_id r) (st_accepted_records s)"
  shows "retractions E s' (rs @ [r, v]) = retractions E s rs @ (case retracts E r of None \<Rightarrow> [] | Some t \<Rightarrow> [t])"
proof -
  have "List.map_filter (\<lambda>x. if rec_id x \<in> st_accepted_records s' then retracts E x else None) rs
      = List.map_filter (\<lambda>x. if rec_id x \<in> st_accepted_records s then retracts E x else None) rs"
    using assms(1) by (induction rs) (auto simp: map_filter_simps assms(3) split: option.split)
  then show ?thesis
    using assms(2,3) by (simp add: retractions_def map_filter_append map_filter_simps split: option.split)
qed

lemma retractions_reject:
  assumes "rec_id r \<notin> st_accepted_records s" "rec_kind v = KVerdict"
  shows "retractions E s (rs @ [r, v]) = retractions E s rs"
  using assms by (simp add: retractions_def map_filter_append map_filter_simps)

section \<open>What the fold does to keys\<close>

lemma register_keys [simp]:
  "st_requirement_keys (register_accepted s r) = st_requirement_keys s"
  "st_requirement_index (register_accepted s r) = st_requirement_index s"
  "st_retracted_records (register_accepted s r) = st_retracted_records s"
  by (simp_all add: register_accepted_upd)

lemma apply_kind_keys:
  assumes "apply_kind E r s = Some s'"
  shows "Mapping.lookup (st_requirement_index s') =
       (case holds_key E r of None \<Rightarrow> Mapping.lookup (st_requirement_index s)
        | Some (i, q, k) \<Rightarrow> (Mapping.lookup (st_requirement_index s))(i \<mapsto> (q, k)))"
    "st_retracted_records s' = st_retracted_records s \<union> set_option (retracts E r)"
    "st_requirement_keys s' =
       (case (holds_key E r, retracts E r) of
          (Some (i, q, k), _) \<Rightarrow>
            Mapping.update q (insert k (Mapping.lookup_default {} (st_requirement_keys s) q)) (st_requirement_keys s)
        | (None, Some t) \<Rightarrow> release_requirement_key t (st_requirement_index s) (st_requirement_keys s)
        | (None, None) \<Rightarrow> st_requirement_keys s)"
  using assms
  by (cases "rec_kind r";
      auto simp: holds_key_def retracts_def apply_kind_def arm_defs helper_upds
        split: option.splits RefusalTarget.splits)+

lemma release_key_lookup:
  "Mapping.lookup_default {} (release_requirement_key t index keys) q =
     (case Mapping.lookup index t of None \<Rightarrow> Mapping.lookup_default {} keys q
      | Some (q', k) \<Rightarrow> if q' = q then Mapping.lookup_default {} keys q - {k} else Mapping.lookup_default {} keys q)"
  by (auto simp: release_requirement_key_def lookup_default_conv lookup_update' lookup_delete_if
      split: option.splits if_splits)

section \<open>The invariant\<close>

definition live_key :: "'z env_scheme \<Rightarrow> State \<Rightarrow> Record list \<Rightarrow> RecordId \<Rightarrow> RecordId \<Rightarrow> string \<Rightarrow> bool" where
  "live_key E s rs i q k \<longleftrightarrow> (i, q, k) \<in> from_accepted (holds_key E) s rs \<and> i \<notin> st_retracted_records s"

definition index_exact :: "'z env_scheme \<Rightarrow> Record list \<Rightarrow> State \<Rightarrow> bool" where
  "index_exact E rs s \<longleftrightarrow>
     (\<forall>i q k. Mapping.lookup (st_requirement_index s) i = Some (q, k)
            \<longleftrightarrow> (i, q, k) \<in> from_accepted (holds_key E) s rs)
     \<and> st_retracted_records s = set (retractions E s rs) \<and> st_retracted_records s \<subseteq> rec_id ` set rs"

definition keys_exact :: "'z env_scheme \<Rightarrow> Record list \<Rightarrow> State \<Rightarrow> bool" where
  "keys_exact E rs s \<longleftrightarrow>
     (distinct (retractions E s rs) \<longrightarrow>
        (\<forall>q k. k \<in> Mapping.lookup_default {} (st_requirement_keys s) q \<longleftrightarrow> (\<exists>i. live_key E s rs i q k))
        \<and> (\<forall>q k i i'. live_key E s rs i q k \<longrightarrow> live_key E s rs i' q k \<longrightarrow> i = i'))"

lemma key_invariant_at [simp]:
  "index_exact E rs (at t s) = index_exact E rs s" "keys_exact E rs (at t s) = keys_exact E rs s"
proof -
  have "retractions E (at t s) rs = retractions E s rs" "live_key E (at t s) rs = live_key E s rs"
    by (simp_all add: retractions_def live_key_def fun_eq_iff)
  then show "index_exact E rs (at t s) = index_exact E rs s" "keys_exact E rs (at t s) = keys_exact E rs s"
    by (simp_all add: index_exact_def keys_exact_def)
qed

lemma holds_key_id: "holds_key E r = Some (i, q, k) \<Longrightarrow> i = rec_id r"
  by (auto simp: holds_key_def split: if_splits option.splits)

lemma held_in_log: "(i, q, k) \<in> from_accepted (holds_key E) s rs \<Longrightarrow> i \<in> rec_id ` set rs"
  by (auto simp: from_accepted_iff dest!: holds_key_id)

lemma holds_or_retracts: "holds_key E r = None \<or> retracts E r = None"
  by (simp add: holds_key_def retracts_def)

lemma retraction_target_accepted:
  assumes "check_kind_specific E r p R s = None" "retracts E r = Some t"
  shows "t \<in> st_accepted_records s"
  using assms
  by (auto simp: retracts_def check_kind_specific_def check_retraction_def split: if_splits option.splits)

lemma requirement_key_new:
  assumes "check_kind_specific E r p R s = None" "holds_key E r = Some (i, q, k)"
  shows "k \<notin> Mapping.lookup_default {} (st_requirement_keys s) q"
proof -
  obtain d where d: "rec_kind r = KRequirement" "de_requirement E (rec_data r) = Some d"
    "find_cause_ref (rec_refs r) = Some q" "rqm_key d = k"
    using assms(2) by (auto simp: holds_key_def split: if_splits option.splits)
  have "check_requirement E r p s = None" using assms(1) d(1) by (simp add: check_kind_specific_def)
  then obtain q' where q': "map ref_target (cause_refs r) = [q']"
    "rqm_key d \<notin> Mapping.lookup_default {} (st_requirement_keys s) q'"
    using d(2) by (auto simp: check_requirement_def split: list.splits option.splits)
  have "q' = q"
  proof -
    obtain e where e: "cause_refs r = [e]" "ref_target e = q'" using q'(1) by auto
    then have "List.find (\<lambda>e. ref_type e = RCause) (rec_refs r) = Some e"
      by (metis cause_refs_def find_filter_hd)
    then show ?thesis using d(3) e(2) by (simp add: find_cause_ref_def)
  qed
  with q' d show ?thesis by simp
qed

lemma index_exact_accept:
  assumes rep: "replays E R rs s" and inv: "index_exact E rs s"
    and new: "rec_id r \<notin> rec_id ` set rs" "rec_kind v = KVerdict"
    and chk: "check_kind_specific E r p R s = None" and app: "apply_accepted E s r = Some s'"
  shows "index_exact E (rs @ [r, v]) s'"
proof -
  have kind: "apply_kind E r (register_accepted s r) = Some s'" using app by (simp add: apply_accepted_def)
  note acc = apply_accepted_records [OF app]
  note held = from_accepted_accept [where g = "holds_key E", OF new(1) key_facts_of_verdict(1) [OF new(2)] acc]
  have old: "\<And>i q k. (Mapping.lookup (st_requirement_index s) i = Some (q, k))
      = ((i, q, k) \<in> from_accepted (holds_key E) s rs)"
    and ret: "st_retracted_records s = set (retractions E s rs)" "st_retracted_records s \<subseteq> rec_id ` set rs"
    using inv unfolding index_exact_def by blast+
  have fresh: "i \<noteq> rec_id r" if "(i, q, k) \<in> from_accepted (holds_key E) s rs" for i q k
    using held_in_log [OF that] new(1) by blast
  have "(Mapping.lookup (st_requirement_index s') i = Some (q, k))
      = ((i, q, k) \<in> from_accepted (holds_key E) s' (rs @ [r, v]))" for i q k
    unfolding held apply_kind_keys(1) [OF kind]
    by (auto simp: old dest: fresh holds_key_id split: option.split)
  moreover have "st_retracted_records s' = set (retractions E s' (rs @ [r, v]))"
    using apply_kind_keys(2) [OF kind] ret(1)
    by (auto simp: retractions_accept [OF new acc] split: option.splits)
  moreover have "st_retracted_records s' \<subseteq> rec_id ` set (rs @ [r, v])"
  proof -
    have "t \<in> rec_id ` set rs" if "retracts E r = Some t" for t
      using retraction_target_accepted [OF chk that] accepted_not_fresh [OF rep] by blast
    then show ?thesis using apply_kind_keys(2) [OF kind] ret(2) by auto
  qed
  ultimately show ?thesis by (simp add: index_exact_def)
qed

lemma live_key_accept:
  assumes inv: "index_exact E rs s" and new: "rec_id r \<notin> rec_id ` set rs" "rec_kind v = KVerdict"
    and app: "apply_accepted E s r = Some s'"
  shows "live_key E s' (rs @ [r, v]) i q k \<longleftrightarrow>
     live_key E s rs i q k \<and> retracts E r \<noteq> Some i \<or> holds_key E r = Some (i, q, k)"
proof -
  have kind: "apply_kind E r (register_accepted s r) = Some s'" using app by (simp add: apply_accepted_def)
  note held = from_accepted_accept [where g = "holds_key E", OF new(1) key_facts_of_verdict(1) [OF new(2)]
      apply_accepted_records [OF app]]
  have "rec_id r \<notin> st_retracted_records s" using inv new(1) by (auto simp: index_exact_def)
  then show ?thesis
    using apply_kind_keys(2) [OF kind] holds_or_retracts [of E r] holds_key_id [of E r i q k]
    by (auto simp: live_key_def held)
qed

lemma keys_exact_accept:
  assumes rep: "replays E R rs s" and ix: "index_exact E rs s" and inv: "keys_exact E rs s"
    and new: "rec_id r \<notin> rec_id ` set rs" "rec_kind v = KVerdict"
    and chk: "check_kind_specific E r p R s = None" and app: "apply_accepted E s r = Some s'"
  shows "keys_exact E (rs @ [r, v]) s'"
  unfolding keys_exact_def
proof
  assume dist: "distinct (retractions E s' (rs @ [r, v]))"
  have kind: "apply_kind E r (register_accepted s r) = Some s'" using app by (simp add: apply_accepted_def)
  note live = live_key_accept [OF ix new app]
  have dist': "distinct (retractions E s rs)" "\<And>t. retracts E r = Some t \<Longrightarrow> t \<notin> st_retracted_records s"
    using dist ix by (auto simp: retractions_accept [OF new apply_accepted_records [OF app]] index_exact_def)
  have keys: "\<And>q k. (k \<in> Mapping.lookup_default {} (st_requirement_keys s) q) = (\<exists>i. live_key E s rs i q k)"
    and uniq: "\<And>q k i i'. live_key E s rs i q k \<Longrightarrow> live_key E s rs i' q k \<Longrightarrow> i = i'"
    using inv dist'(1) unfolding keys_exact_def by blast+
  have index: "\<And>i q k. (Mapping.lookup (st_requirement_index s) i = Some (q, k))
      = ((i, q, k) \<in> from_accepted (holds_key E) s rs)"
    using ix by (simp add: index_exact_def)
  have upd: "st_requirement_keys s' =
       (case (holds_key E r, retracts E r) of
          (Some (i, q, k), _) \<Rightarrow>
            Mapping.update q (insert k (Mapping.lookup_default {} (st_requirement_keys s) q)) (st_requirement_keys s)
        | (None, Some t) \<Rightarrow> release_requirement_key t (st_requirement_index s) (st_requirement_keys s)
        | (None, None) \<Rightarrow> st_requirement_keys s)"
    using apply_kind_keys(3) [OF kind] unfolding register_keys .
  consider (plain) "holds_key E r = None" "retracts E r = None"
    | (hold) j a b where "holds_key E r = Some (j, a, b)" "retracts E r = None"
    | (drop) t where "holds_key E r = None" "retracts E r = Some t"
    using holds_or_retracts [of E r] by (cases "holds_key E r"; cases "retracts E r") auto
  then show "(\<forall>q k. k \<in> Mapping.lookup_default {} (st_requirement_keys s') q \<longleftrightarrow>
        (\<exists>i. live_key E s' (rs @ [r, v]) i q k))
      \<and> (\<forall>q k i i'. live_key E s' (rs @ [r, v]) i q k \<longrightarrow> live_key E s' (rs @ [r, v]) i' q k \<longrightarrow> i = i')"
  proof cases
    case plain
    then show ?thesis using keys uniq by (simp add: live upd)
  next
    case (hold j a b)
    have "\<not> live_key E s rs i a b" for i using requirement_key_new [OF chk hold(1)] keys by blast
    then show ?thesis using keys uniq hold by (auto simp: live upd lookup_default_update_if)
  next
    case (drop t)
    have "live_key E s rs t q k \<longleftrightarrow> Mapping.lookup (st_requirement_index s) t = Some (q, k)" for q k
      using dist'(2) [OF drop(2)] index [of t q k] by (simp add: live_key_def)
    then have "k \<in> Mapping.lookup_default {} (st_requirement_keys s') q \<longleftrightarrow>
        (\<exists>i. live_key E s rs i q k) \<and> \<not> live_key E s rs t q k" for q k
      using drop keys [of k q] by (auto simp: upd release_key_lookup split: option.splits)
    then show ?thesis using uniq drop by (auto simp: live)
  qed
qed

interpretation req_keys: checked_invariant E R "\<lambda>rs s. index_exact E rs s \<and> keys_exact E rs s"
  for E :: "'z env_scheme" and R
proof
  show "index_exact E [] default_state \<and> keys_exact E [] default_state"
    by (simp add: index_exact_def keys_exact_def live_key_def retractions_def default_state_def
        map_filter_simps lookup_default_conv)
next
  fix rs s s' and r v :: Record
  assume *: "replays E R rs s" "index_exact E rs s \<and> keys_exact E rs s" "rec_kind r \<noteq> KVerdict"
    "rec_kind v = KVerdict" "rec_id r \<notin> rec_id ` set rs"
    "check_record E r (prior_of (rs @ [r])) R s = None" "apply_accepted E s r = Some s'"
  note chk = check_record_None(8) [OF *(6,3)]
  have "index_exact E (rs @ [r, v]) s' \<and> keys_exact E (rs @ [r, v]) s'"
    using index_exact_accept [OF *(1) conjunct1 [OF *(2)] *(5,4) chk *(7)]
      keys_exact_accept [OF *(1) conjunct1 [OF *(2)] conjunct2 [OF *(2)] *(5,4) chk *(7)] by simp
  then show "index_exact E (rs @ [r, v]) (at (rec_time v) s') \<and> keys_exact E (rs @ [r, v]) (at (rec_time v) s')"
    by simp
next
  fix rs s and r v :: Record
  assume *: "replays E R rs s" "index_exact E rs s \<and> keys_exact E rs s" "rec_kind v = KVerdict"
    "rec_id r \<notin> rec_id ` set rs"
  note rej = accepted_not_fresh [OF *(1,4)]
  have "index_exact E (rs @ [r, v]) s \<and> keys_exact E (rs @ [r, v]) s"
    using *(2) from_accepted_reject [OF rej, of "holds_key E" v rs] retractions_reject [OF rej *(3), of E rs] *(3)
    by (auto simp: index_exact_def keys_exact_def live_key_def)
  then show "index_exact E (rs @ [r, v]) (at (rec_time v) s) \<and> keys_exact E (rs @ [r, v]) (at (rec_time v) s)"
    by simp
qed

end
