(* ===== verification/Evidence_Log.thy ===== *)
theory Evidence_Log
  imports Taint_Log Work_Log
begin

text \<open>
  Evidence classes of accepted records.  The class a record declares is the one its schema and the
  records it rests on derive, so no accepted record claims stronger evidence than anything it
  depends on, however long the chain.
\<close>

definition contributed :: "State \<Rightarrow> Record list \<Rightarrow> Ref list \<Rightarrow> Evidence list" where
  "contributed s rs refs =
     List.map_filter
       (\<lambda>e. if is_epistemic (ref_type e)
            then map_option (\<lambda>t. if reliable s (rec_id t) then rec_evidence t else Assumed)
                   (scan_find rs (ref_target e))
            else None) refs"

lemma expected_evidence_log:
  "expected_evidence C r (prior_of rs) s
   = Max (insert (base_evidence C (rec_schema r)) (set (contributed s rs (rec_refs r))))"
proof -
  have "(\<lambda>e. Option.bind (prior_find (prior_of rs) (ref_target e)) (\<lambda>t. ref_evidence s e t))
      = (\<lambda>e. if is_epistemic (ref_type e)
            then map_option (\<lambda>t. if reliable s (rec_id t) then rec_evidence t else Assumed)
                   (scan_find rs (ref_target e))
            else None)"
    by (auto simp: fun_eq_iff prior_of_find ref_evidence_epistemic split: Option.bind_split)
  then show ?thesis
    by (simp add: expected_evidence_def contributed_def derive_evidence_Max)
qed

lemma admitted_evidence:
  assumes "admitted_at E R rs r pre s0"
  shows "rec_evidence r
     = Max (insert (base_evidence E (rec_schema r)) (set (contributed s0 (pre @ [r]) (rec_refs r))))"
    "Mapping.lookup (vr_evidence_thresholds R) (rec_kind r) = Some threshold
     \<Longrightarrow> rec_evidence r \<le> threshold"
proof -
  have "rec_evidence r = expected_evidence E r (prior_of (pre @ [r])) s0"
    and "Mapping.lookup (vr_evidence_thresholds R) (rec_kind r) = Some threshold
      \<Longrightarrow> expected_evidence E r (prior_of (pre @ [r])) s0 \<le> threshold"
    using admitted_checks(6) [OF assms] by (auto simp: check_evidence_def Let_def)
  then show "rec_evidence r
     = Max (insert (base_evidence E (rec_schema r)) (set (contributed s0 (pre @ [r]) (rec_refs r))))"
    "Mapping.lookup (vr_evidence_thresholds R) (rec_kind r) = Some threshold
     \<Longrightarrow> rec_evidence r \<le> threshold"
    by (simp_all only: expected_evidence_log)
qed

lemma target_evidence_le:
  assumes "admitted_at E R rs r pre s0" "e \<in> set (rec_refs r)" "is_epistemic (ref_type e)"
    "scan_find (pre @ [r]) (ref_target e) = Some t"
  shows "rec_evidence t \<le> rec_evidence r"
proof -
  let ?c = "if reliable s0 (rec_id t) then rec_evidence t else Assumed"
  have "?c \<in> set (contributed s0 (pre @ [r]) (rec_refs r))"
    using assms(2-4) by (force simp: contributed_def List.map_filter_def)
  then have "?c \<le> rec_evidence r"
    unfolding admitted_evidence(1) [OF assms(1)] by (intro Max_ge) auto
  then show ?thesis using order_trans [OF Assumed_weakest] by (auto split: if_splits)
qed

lemma edge_evidence_le:
  assumes rep: "replays E R rs s" and r: "r \<in> set rs" "rec_kind r \<noteq> KVerdict"
    and edge: "(rec_id r, rec_id r') \<in> log_edges s rs" and r': "r' \<in> set rs" "rec_kind r' \<noteq> KVerdict"
  shows "rec_evidence r \<le> rec_evidence r'"
proof -
  obtain r2 e where r2: "r2 \<in> set rs" "rec_kind r2 \<noteq> KVerdict" "rec_id r2 = rec_id r'"
    "rec_id r2 \<in> st_accepted_records s" and e: "e \<in> set (rec_refs r2)" "is_epistemic (ref_type e)"
    "ref_target e = rec_id r"
    using edge by (auto simp: log_edges_def)
  have "r2 = r'" by (rule subject_unique [OF rep r2(1,2) r' r2(3)])
  with r2 obtain pre s0 where adm: "admitted_at E R rs r' pre s0" using admitted [OF rep r'] by auto
  then obtain ext where rs: "rs = (pre @ [r']) @ ext" by (auto simp: admitted_at_def)
  obtain t where t: "t \<in> set (pre @ [r'])" "rec_id t = rec_id r"
    using admitted_ref [OF adm] e \<open>r2 = r'\<close> by metis
  have "scan_find (pre @ [r']) (rec_id r) = Some r"
    using subject_find [OF rep r] scan.find_prior_append [of "rec_id r" "pre @ [r']" ext] t unfolding rs
    by (metis image_eqI)
  then show ?thesis using target_evidence_le [OF adm] e \<open>r2 = r'\<close> by metis
qed

lemma edge_target:
  assumes "(i, j) \<in> log_edges s rs"
  obtains r where "r \<in> set rs" "rec_kind r \<noteq> KVerdict" "rec_id r = j"
  using assms by (auto simp: log_edges_def)

lemma chain_evidence_le:
  assumes rep: "replays E R rs s" and r: "r \<in> set rs" "rec_kind r \<noteq> KVerdict"
    and "(rec_id r, j) \<in> (log_edges s rs)\<^sup>+" and "r' \<in> set rs" "rec_kind r' \<noteq> KVerdict" "rec_id r' = j"
  shows "rec_evidence r \<le> rec_evidence r'"
  using assms(4-)
proof (induction arbitrary: r' rule: trancl_induct)
  case (base j)
  then show ?case using edge_evidence_le [OF rep r] by blast
next
  case (step j k)
  then obtain m where m: "m \<in> set rs" "rec_kind m \<noteq> KVerdict" "rec_id m = j"
    by (cases rule: trancl.cases) (auto elim: edge_target)
  then have "rec_evidence m \<le> rec_evidence r'" using edge_evidence_le [OF rep m(1,2)] step by blast
  with step.IH [OF m] show ?case by (rule order_trans)
qed

end
