(* ===== verification/Plan_Laws.thy ===== *)
theory Plan_Laws
  imports Acceptance
begin

text \<open>
  The cycle test of plans is exact.  Kahn's loop counts the tasks in the well-founded part of the
  dependence relation, whatever order the initial queue has; no degree is decremented below zero;
  so a plan passes the test exactly when its dependence relation is acyclic, and the tasks of every
  accepted plan can be run in an order that respects their dependences.
\<close>

section \<open>Dependences of a task list\<close>

definition task_ids :: "PlanTask list \<Rightarrow> string set" where
  "task_ids tasks = tsk_id ` set tasks"

definition task_edges :: "PlanTask list \<Rightarrow> (string \<times> string) set" where
  "task_edges tasks = {(d, tsk_id t) | d t. t \<in> set tasks \<and> d \<in> set (tsk_depends_on t)}"

definition deps_of :: "PlanTask list \<Rightarrow> string \<Rightarrow> string list" where
  "deps_of tasks i = concat (map tsk_depends_on (filter (\<lambda>t. tsk_id t = i) tasks))"

lemma edges_deps_of: "(d, i) \<in> task_edges tasks \<longleftrightarrow> d \<in> set (deps_of tasks i)"
  by (auto simp: task_edges_def deps_of_def)

lemma deps_of_Nil [simp]: "i \<notin> task_ids tasks \<Longrightarrow> deps_of tasks i = []"
  by (auto simp: deps_of_def task_ids_def filter_empty_conv)

lemma finite_task_ids [simp]: "finite (task_ids tasks)" by (simp add: task_ids_def)

section \<open>The graph the loop starts from\<close>

definition degree :: "KahnState \<Rightarrow> string \<Rightarrow> nat option" where
  "degree k = Mapping.lookup (kn_in_degree k)"

definition edges_between :: "KahnState \<Rightarrow> string \<Rightarrow> string \<Rightarrow> nat" where
  "edges_between k i j = count_list (Mapping.lookup_default [] (kn_adj k) i) j"

lemma kahn_edges:
  assumes "degree k i = Some n"
  shows "degree (fold (kahn_edge i) ds k) = (degree k)(i \<mapsto> n + length ds)"
    "edges_between (fold (kahn_edge i) ds k) x y
     = edges_between k x y + (if y = i then count_list ds x else 0)"
  using assms
proof (induction ds arbitrary: k n)
  case (Cons d ds)
  {
    case 1
    have step: "degree (kahn_edge i d k) = (degree k)(i \<mapsto> n + 1)"
      using 1 by (simp add: degree_def kahn_edge_def lookup_default_conv fun_eq_iff)
    then show ?case using Cons.IH(1) [of "kahn_edge i d k" "n + 1"] by (simp add: fun_eq_iff)
  next
    case 2
    have "degree (kahn_edge i d k) i = Some (n + 1)"
      using 2 by (simp add: degree_def kahn_edge_def lookup_default_conv)
    from Cons.IH(2) [OF this] show ?case
      by (simp add: edges_between_def kahn_edge_def lookup_default_update_if)
  }
qed auto

lemma lookup_default_idle: "Mapping.lookup_default d (Mapping.default i d m) x = Mapping.lookup_default d m x"
  unfolding lookup_default_conv Mapping.lookup_default' by (cases "i = x") (simp_all only: if_True if_False simp_thms option.case)

lemma kahn_task_graph:
  "degree (kahn_task t k)
   = (degree k)(tsk_id t \<mapsto> (case degree k (tsk_id t) of None \<Rightarrow> 0 | Some n \<Rightarrow> n) + length (tsk_depends_on t))"
  "edges_between (kahn_task t k) x y
   = edges_between k x y + (if y = tsk_id t then count_list (tsk_depends_on t) x else 0)"
proof -
  let ?i = "tsk_id t"
  let ?k = "\<lparr>kn_in_degree = Mapping.default ?i 0 (kn_in_degree k),
             kn_adj = Mapping.default ?i [] (kn_adj k)\<rparr>"
  have d: "degree ?k = (degree k)(?i \<mapsto> case degree k ?i of None \<Rightarrow> 0 | Some n \<Rightarrow> n)"
    by (simp add: degree_def lookup_default_conv Mapping.lookup_default' fun_eq_iff)
  then have i: "degree ?k ?i = Some (case degree k ?i of None \<Rightarrow> 0 | Some n \<Rightarrow> n)" by simp
  have e: "edges_between ?k x y = edges_between k x y"
    by (simp only: edges_between_def KahnState.simps lookup_default_idle)
  show "degree (kahn_task t k)
     = (degree k)(?i \<mapsto> (case degree k ?i of None \<Rightarrow> 0 | Some n \<Rightarrow> n) + length (tsk_depends_on t))"
    unfolding kahn_task_def kahn_edges(1) [OF i] d by (rule fun_upd_upd)
  show "edges_between (kahn_task t k) x y
     = edges_between k x y + (if y = ?i then count_list (tsk_depends_on t) x else 0)"
    using kahn_edges(2) [OF i, of "tsk_depends_on t" x y] e by (simp add: kahn_task_def)
qed

lemma count_list_concat: "count_list (concat xss) x = (\<Sum>xs \<leftarrow> xss. count_list xs x)"
  by (induction xss) simp_all

lemma kahn_tasks_graph:
  "degree (fold kahn_task tasks k) j
   = (if j \<in> task_ids tasks
      then Some ((case degree k j of None \<Rightarrow> 0 | Some n \<Rightarrow> n) + length (deps_of tasks j)) else degree k j)"
  "edges_between (fold kahn_task tasks k) x y = edges_between k x y + count_list (deps_of tasks y) x"
proof (induction tasks arbitrary: k)
  case (Cons t tasks)
  {
    case 1
    show ?case using Cons.IH(1) [of "kahn_task t k"] deps_of_Nil [of j tasks]
      by (auto simp: kahn_task_graph task_ids_def deps_of_def)
  next
    case 2
    show ?case using Cons.IH(2) [of "kahn_task t k"]
      by (simp add: kahn_task_graph deps_of_def)
  }
qed (simp_all add: task_ids_def deps_of_def)

lemma kahn_build_graph:
  "degree (kahn_build tasks) j = (if j \<in> task_ids tasks then Some (length (deps_of tasks j)) else None)"
  "edges_between (kahn_build tasks) x y = count_list (deps_of tasks y) x"
  by (simp_all add: kahn_build_def kahn_tasks_graph)
    (simp_all add: degree_def edges_between_def lookup_default_conv)

section \<open>Relaxing the neighbours of a task\<close>

text \<open>
  The precondition says that no degree is decremented below zero: the subtraction of the code never
  underflows.
\<close>

lemma kahn_relax_spec:
  assumes "kahn_relax nbs deg queue = (deg', queue')"
    and "\<And>j. j \<in> set nbs \<Longrightarrow> \<exists>d. Mapping.lookup deg j = Some d \<and> count_list nbs j \<le> d"
  shows "(\<forall>j. Mapping.lookup deg' j = map_option (\<lambda>d. d - count_list nbs j) (Mapping.lookup deg j))
     \<and> (\<exists>new. queue' = queue @ new \<and> distinct new
           \<and> set new = {j \<in> set nbs. Mapping.lookup deg j = Some (count_list nbs j)})"
  using assms
proof (induction nbs arbitrary: deg queue)
  case Nil
  then show ?case by (simp add: option.map_ident)
next
  case (Cons nb nbs)
  obtain d where d: "Mapping.lookup deg nb = Some d" "Suc (count_list nbs nb) \<le> d"
    using Cons.prems(2) [of nb] by auto
  let ?deg = "Mapping.update nb (d - 1) deg" and ?queue = "if d - 1 = 0 then queue @ [nb] else queue"
  have rest: "kahn_relax nbs ?deg ?queue = (deg', queue')"
    using Cons.prems(1) d(1) by (simp add: Let_def)
  have pre: "\<exists>d. Mapping.lookup ?deg j = Some d \<and> count_list nbs j \<le> d" if "j \<in> set nbs" for j
    using Cons.prems(2) [of j] that d by (cases "j = nb") (auto split: if_splits)
  obtain new where IH: "\<And>j. Mapping.lookup deg' j = map_option (\<lambda>d. d - count_list nbs j) (Mapping.lookup ?deg j)"
    and new: "queue' = ?queue @ new" "distinct new"
      "set new = {j \<in> set nbs. Mapping.lookup ?deg j = Some (count_list nbs j)}"
    using Cons.IH [OF rest pre] by blast
  have "Mapping.lookup deg' j = map_option (\<lambda>d. d - count_list (nb # nbs) j) (Mapping.lookup deg j)" for j
    using IH [of j] d by (auto simp: lookup_update')
  moreover have "\<exists>new. queue' = queue @ new \<and> distinct new
      \<and> set new = {j \<in> set (nb # nbs). Mapping.lookup deg j = Some (count_list (nb # nbs) j)}"
  proof (cases "d = 1")
    case True
    then have nb: "nb \<notin> set nbs" "count_list nbs nb = 0" using d(2) count_list_0_iff [of nbs nb] by simp_all
    have "j \<in> set (nb # new) \<longleftrightarrow> j \<in> set (nb # nbs) \<and> Mapping.lookup deg j = Some (count_list (nb # nbs) j)" for j
      using new(3) d(1) True nb by (cases "j = nb") simp_all
    moreover have "queue' = queue @ (nb # new)" "distinct (nb # new)" using new True nb(1) by simp_all
    ultimately show ?thesis by blast
  next
    case False
    then have q: "queue' = queue @ new" using new(1) d(2) by auto
    have "j \<in> set new \<longleftrightarrow> j \<in> set (nb # nbs) \<and> Mapping.lookup deg j = Some (count_list (nb # nbs) j)" for j
    proof (cases "j = nb")
      case True
      have "nb \<in> set nbs" if "d = Suc (count_list nbs nb)"
        using that False count_list_0_iff [of nbs nb] by auto
      then show ?thesis using True d new(3) by auto
    qed (auto simp: new(3))
    with q new(2) show ?thesis by blast
  qed
  ultimately show ?case by blast
qed

lemma kahn_relax_extends:
  "kahn_relax nbs deg queue = (deg', queue') \<Longrightarrow> set queue \<subseteq> set queue'"
  by (induction nbs arbitrary: deg queue) (fastforce simp: Let_def split: option.splits if_splits)+

section \<open>The loop\<close>

text \<open>
  \<open>D\<close> is the set of tasks taken from the queue so far.
\<close>

definition kahn_inv ::
  "PlanTask list \<Rightarrow> string set \<Rightarrow> (string, nat) mapping \<Rightarrow> string list \<Rightarrow> bool" where
  "kahn_inv tasks D deg queue \<longleftrightarrow>
     distinct queue \<and> set queue \<inter> D = {} \<and> D \<union> set queue \<subseteq> task_ids tasks
     \<and> (\<forall>j. Mapping.lookup deg j =
            (if j \<in> task_ids tasks then Some (length (filter (\<lambda>d. d \<notin> D) (deps_of tasks j))) else None))
     \<and> D \<union> set queue = {j \<in> task_ids tasks. set (deps_of tasks j) \<subseteq> D}"

lemma length_filter_insert:
  "i \<notin> D \<Longrightarrow> length (filter (\<lambda>d. d \<notin> insert i D) xs) + count_list xs i = length (filter (\<lambda>d. d \<notin> D) xs)"
  by (induction xs) auto

lemma kahn_inv_step:
  assumes inv: "kahn_inv tasks D deg (i # queue)"
    and adj: "\<And>j. count_list nbs j = count_list (deps_of tasks j) i"
    and relax: "kahn_relax nbs deg queue = (deg', queue')"
  shows "kahn_inv tasks (insert i D) deg' queue'"
proof -
  have i: "i \<notin> D" "i \<notin> set queue" "i \<in> task_ids tasks" and dq: "distinct queue" "set queue \<inter> D = {}"
    and ready: "insert i (D \<union> set queue) = {j \<in> task_ids tasks. set (deps_of tasks j) \<subseteq> D}"
    and deg: "\<And>j. Mapping.lookup deg j =
            (if j \<in> task_ids tasks then Some (length (filter (\<lambda>d. d \<notin> D) (deps_of tasks j))) else None)"
    using inv by (auto simp: kahn_inv_def)
  have nbs: "j \<in> set nbs \<longleftrightarrow> i \<in> set (deps_of tasks j)" for j
    using adj [of j] count_list_0_iff by metis
  have in_ids: "j \<in> task_ids tasks" if "i \<in> set (deps_of tasks j)" for j
    using that by (cases "j \<in> task_ids tasks") auto
  note split = length_filter_insert [OF i(1)]
  have pre: "\<exists>d. Mapping.lookup deg j = Some d \<and> count_list nbs j \<le> d" if "j \<in> set nbs" for j
    using that nbs in_ids split [of "deps_of tasks j"] by (simp add: deg adj)
  obtain new where deg': "\<And>j. Mapping.lookup deg' j = map_option (\<lambda>d. d - count_list nbs j) (Mapping.lookup deg j)"
    and new: "queue' = queue @ new" "distinct new"
      "set new = {j \<in> set nbs. Mapping.lookup deg j = Some (count_list nbs j)}"
    using kahn_relax_spec [OF relax pre] by blast
  have len: "Mapping.lookup deg' j = (if j \<in> task_ids tasks
      then Some (length (filter (\<lambda>d. d \<notin> insert i D) (deps_of tasks j))) else None)" for j
    using split [of "deps_of tasks j"] by (auto simp: deg' deg adj)
  have zero: "length (filter (\<lambda>d. d \<notin> D) xs) = count_list xs i \<longleftrightarrow> set xs \<subseteq> insert i D" for xs
    using split [of xs] filter_empty_conv [of "\<lambda>d. d \<notin> insert i D" xs] by auto
  have fresh: "set new = {j \<in> task_ids tasks. i \<in> set (deps_of tasks j) \<and> set (deps_of tasks j) \<subseteq> insert i D}"
    using in_ids zero by (auto simp: new(3) nbs deg adj)
  show ?thesis
    unfolding kahn_inv_def using i dq ready fresh new(1,2) len by auto
qed

lemma kahn_loop_counts:
  assumes "kahn_inv tasks D deg queue" "card (task_ids tasks) < n + card D"
    "D \<subseteq> Wellfounded.acc (task_edges tasks)"
    "\<And>i j. count_list (Mapping.lookup_default [] adj i) j = count_list (deps_of tasks j) i"
  shows "\<exists>D'. kahn_loop n adj deg queue (card D) = card D' \<and> D \<union> set queue \<subseteq> D' \<and> D' \<subseteq> task_ids tasks
     \<and> D' = {j \<in> task_ids tasks. set (deps_of tasks j) \<subseteq> D'}
     \<and> D' \<subseteq> Wellfounded.acc (task_edges tasks)"
  using assms(1-3)
proof (induction n arbitrary: D deg queue)
  case 0
  then have "D \<subseteq> task_ids tasks" by (auto simp: kahn_inv_def)
  then have "card D \<le> card (task_ids tasks)" by (intro card_mono) simp_all
  with 0 show ?case by simp
next
  case (Suc n)
  show ?case
  proof (cases queue)
    case Nil
    with Suc.prems(1,3) show ?thesis by (intro exI [of _ D]) (auto simp: kahn_inv_def)
  next
    case (Cons i q)
    obtain deg' q' where relax: "kahn_relax (Mapping.lookup_default [] adj i) deg q = (deg', q')"
      by fastforce
    have inv': "kahn_inv tasks (insert i D) deg' q'"
      by (rule kahn_inv_step [OF _ assms(4) relax]) (use Suc.prems(1) Cons in simp)
    have D: "i \<notin> D" "finite D" "i \<in> task_ids tasks" "set (deps_of tasks i) \<subseteq> D"
      using Suc.prems(1) Cons by (auto simp: kahn_inv_def dest: finite_subset)
    then have card: "card (insert i D) = Suc (card D)" by simp
    then have "card (task_ids tasks) < n + card (insert i D)" using Suc.prems(2) by simp
    moreover have "i \<in> Wellfounded.acc (task_edges tasks)"
      by (rule acc.accI) (use D(4) Suc.prems(3) in \<open>auto simp: edges_deps_of\<close>)
    ultimately obtain D' where
      D': "kahn_loop n adj deg' q' (card (insert i D)) = card D'" "insert i D \<union> set q' \<subseteq> D'"
        "D' \<subseteq> task_ids tasks" "D' = {j \<in> task_ids tasks. set (deps_of tasks j) \<subseteq> D'}"
        "D' \<subseteq> Wellfounded.acc (task_edges tasks)"
      using Suc.IH [OF inv'] Suc.prems(3) by blast
    moreover have "set q \<subseteq> set q'"
      using kahn_relax_extends [OF relax] by blast
    ultimately show ?thesis using Cons relax card by (intro exI [of _ D']) auto
  qed
qed

lemma fixpoint_contains_acc:
  assumes "D = {j \<in> task_ids tasks. set (deps_of tasks j) \<subseteq> D}" "task_edges tasks \<subseteq> task_ids tasks \<times> UNIV"
    "j \<in> Wellfounded.acc (task_edges tasks)" "j \<in> task_ids tasks"
  shows "j \<in> D"
  using assms(3,4)
proof (induction rule: acc.induct)
  case (accI j)
  then have "set (deps_of tasks j) \<subseteq> D" using assms(2) by (auto simp: edges_deps_of [symmetric])
  with accI.prems assms(1) show ?case by blast
qed

lemma kahn_inv_start:
  assumes "distinct queue" "set queue = set (kahn_queue tasks (kn_in_degree (kahn_build tasks)))"
  shows "kahn_inv tasks {} (kn_in_degree (kahn_build tasks)) queue"
  using assms kahn_build_graph(1) [of tasks]
  by (auto simp: kahn_inv_def kahn_queue_def degree_def task_ids_def)

lemma kahn_loop_visits:
  assumes "distinct (map tsk_id tasks)" "task_edges tasks \<subseteq> task_ids tasks \<times> UNIV"
    and "distinct queue" "set queue = set (kahn_queue tasks (kn_in_degree (kahn_build tasks)))"
  shows "kahn_loop (Suc (length tasks)) (kn_adj (kahn_build tasks)) (kn_in_degree (kahn_build tasks)) queue 0
     = card (task_ids tasks \<inter> Wellfounded.acc (task_edges tasks))"
proof -
  have len: "card (task_ids tasks) = length tasks"
    using distinct_card [OF assms(1)] by (simp add: task_ids_def)
  have adj: "count_list (Mapping.lookup_default [] (kn_adj (kahn_build tasks)) i) j = count_list (deps_of tasks j) i"
    for i j using kahn_build_graph(2) [of tasks i j] by (simp add: edges_between_def)
  obtain D where D: "kahn_loop (Suc (length tasks)) (kn_adj (kahn_build tasks))
      (kn_in_degree (kahn_build tasks)) queue 0 = card D"
    "D \<subseteq> task_ids tasks" "D = {j \<in> task_ids tasks. set (deps_of tasks j) \<subseteq> D}"
    "D \<subseteq> Wellfounded.acc (task_edges tasks)"
    using kahn_loop_counts [OF kahn_inv_start [OF assms(3,4)] _ _ adj, of "Suc (length tasks)"] len by auto
  have "D = task_ids tasks \<inter> Wellfounded.acc (task_edges tasks)"
    using D(2,4) fixpoint_contains_acc [OF D(3) assms(2)] by blast
  with D(1) show ?thesis by simp
qed

section \<open>The test\<close>

lemma acyclic_acc:
  assumes "task_edges tasks \<subseteq> task_ids tasks \<times> UNIV"
  shows "acyclic (task_edges tasks) \<longleftrightarrow> task_ids tasks \<subseteq> Wellfounded.acc (task_edges tasks)"
proof
  have "task_edges tasks \<subseteq> task_ids tasks \<times> task_ids tasks"
    using assms by (auto simp: task_edges_def task_ids_def)
  then have fin: "finite (task_edges tasks)" by (rule finite_subset) simp
  show "task_ids tasks \<subseteq> Wellfounded.acc (task_edges tasks)" if "acyclic (task_edges tasks)"
    by (rule subsetI, rule acc_wfD, rule finite_acyclic_wf [OF fin that])
  show "acyclic (task_edges tasks)" if *: "task_ids tasks \<subseteq> Wellfounded.acc (task_edges tasks)"
  proof -
    have "j \<in> Wellfounded.acc (task_edges tasks)" for j
    proof (cases "j \<in> task_ids tasks")
      case False
      show ?thesis by (rule acc.accI) (use False in \<open>auto simp: task_edges_def task_ids_def\<close>)
    qed (use * in blast)
    then have "wf (task_edges tasks)" by (intro acc_wfI) blast
    then show ?thesis by (rule wf_acyclic)
  qed
qed

lemma kahn_exact:
  assumes "distinct (map tsk_id tasks)" "task_edges tasks \<subseteq> task_ids tasks \<times> UNIV"
    and "distinct queue" "set queue = set (kahn_queue tasks (kn_in_degree (kahn_build tasks)))"
  shows "kahn_loop (Suc (length tasks)) (kn_adj (kahn_build tasks)) (kn_in_degree (kahn_build tasks)) queue 0
       = length tasks \<longleftrightarrow> acyclic (task_edges tasks)"
proof -
  have "card (task_ids tasks) = length tasks"
    using distinct_card [OF assms(1)] by (simp add: task_ids_def)
  then have "card (task_ids tasks \<inter> Wellfounded.acc (task_edges tasks)) = length tasks
      \<longleftrightarrow> task_ids tasks \<subseteq> Wellfounded.acc (task_edges tasks)"
    using card_subset_eq [of "task_ids tasks" "task_ids tasks \<inter> Wellfounded.acc (task_edges tasks)"]
    by (auto simp: Int_absorb2)
  then show ?thesis unfolding kahn_loop_visits [OF assms] acyclic_acc [OF assms(2)] .
qed

lemma check_task_ids_graph:
  assumes "check_task_ids tasks = None"
  shows "distinct (map tsk_id tasks)" "task_edges tasks \<subseteq> task_ids tasks \<times> UNIV"
  using assms by (auto simp: check_task_ids_def task_edges_def task_ids_def first_reason_map_None)

lemma has_cycle_exact:
  assumes "check_task_ids tasks = None"
  shows "has_cycle tasks \<longleftrightarrow> \<not> acyclic (task_edges tasks)"
  using kahn_exact [OF check_task_ids_graph [OF assms] _ refl]
  by (simp add: has_cycle_def Let_def kahn_queue_def)

section \<open>Small task lists\<close>

definition sample_task :: "string \<Rightarrow> string list \<Rightarrow> PlanTask" where
  "sample_task i ds =
     \<lparr>tsk_id = i, tsk_description = [], tsk_kind = TkGeneric, tsk_tool_hint = None, tsk_inputs_from = [],
      tsk_produces = None, tsk_done_when = DwToolSuccess, tsk_status = TaskPending,
      tsk_result_record_id = None, tsk_depends_on = ds, tsk_on_failure = FailAbort\<rparr>"

end
