(* ===== verification/Profiles.thy ===== *)
theory Profiles
  imports Replay
begin

text \<open>
  \<open>src/src/profiles/mod.rs\<close>, with the receipt and report types of \<open>src/src/receipt.rs\<close> that a
  profile reads: the clause tables and their hashes, declarations, and the evaluation of the
  baseline profile \<open>bellbook-core-v1\<close>.

  The detail of a clause result is a text for a reader in the source.  Here it is the data that the
  text is formatted from (the datatype \<open>Detail\<close>); no decision depends on it.
\<close>

section \<open>Receipts and reports (receipt.rs)\<close>

record ProfileRef =
  pr_id :: string
  pr_version :: u32
  pr_hash :: hash256

record Receipt =
  rcp_spec_version :: string
  rcp_profiles :: "ProfileRef list"
  rcp_rules :: VerifierRules
  rcp_records :: "Record list"

datatype ValidationStatus = Clean | Tainted | Invalid

datatype ProfileStatus = Conformant | NonConformant | Unknown

datatype EvidenceNote =
    ChoosesCandidates nat
  | WithoutEvidenceSet nat
  | JudgesAnother string
  | NoEvidence string
  | NotOnRecord string ArtifactRef

datatype BindingNote = WithoutBinding nat | LacksHashes string | NoEvaluationUsed

datatype Detail =
    Text string
  | ReplayStatus ValidationStatus
  | RegisteredRoles nat
  | Thresholds "(Kind \<times> Evidence option) list"
  | ContextBound u32
  | Authority "string list" "string list"
  | BindingModes nat nat
  | CoreResult ProfileStatus bool "bool option"
  | UnsignedKinds "Kind list"
  | PinnedAuthors "string list"
  | UnpinnedAuthors "(string \<times> string list) list"
  | Attested nat
  | NotAttested nat "string list"
  | Claims "(string \<times> string) list" "string list"
  | Coverage "(string \<times> nat \<times> string list) list"
  | Outcomes "(string \<times> (string \<times> string) list) list"
  | Evidences "(string \<times> nat \<times> EvidenceNote list) list"
  | Separation "(string \<times> string option \<times> string list) list"
  | Deciders "(string \<times> BindingNote list \<times> string) list"
  | StandingNotes "(string \<times> string list) list"

record ClauseResult =
  clr_id :: string
  clr_passed :: bool
  clr_detail :: Detail

record ProfileResult =
  prs_id :: string
  prs_hash :: hash256
  prs_status :: ProfileStatus
  prs_clauses :: "ClauseResult list"
  prs_declared :: bool
  prs_declaration_matches :: "bool option"

datatype Problem =
    SizeLimit nat nat
  | Unparseable
  | RecordLimit nat nat
  | PayloadLimit nat
  | RefCountLimit nat
  | UnsupportedVersion string
  | DeclarationsTooEarly string
  | EmptyDeclaration nat
  | DuplicateDeclaration string
  | RulesNotCanonical

record Report =
  rep_status :: ValidationStatus
  rep_reason :: "ReasonCode option"
  rep_problem :: "Problem option"
  rep_spec_version :: string
  rep_record_count :: u64
  rep_checked_records :: u64
  rep_last_time :: u64
  rep_head_hash :: hash256
  rep_rules_hash :: hash256
  rep_retracted_records :: "RecordId set"
  rep_tainted_records :: "RecordId set"
  rep_standing :: StandingSection
  rep_profiles :: "ProfileResult list"

section \<open>Clause tables and profile hashes\<close>

record Clause =
  cls_id :: string
  cls_statement :: string

record ProfileTable =
  pt_id :: string
  pt_version :: u32
  pt_clauses :: "Clause list"

definition BELLBOOK_CORE_V1 :: string where "BELLBOOK_CORE_V1 = ''bellbook-core-v1''"
definition DELIVERY_RECEIPT_V1 :: string where "DELIVERY_RECEIPT_V1 = ''delivery-receipt-v1''"
definition BELLBOOK_CORE_SIGNED_V1 :: string where "BELLBOOK_CORE_SIGNED_V1 = ''bellbook-core-signed-v1''"

lemmas profile_ids = BELLBOOK_CORE_V1_def DELIVERY_RECEIPT_V1_def BELLBOOK_CORE_SIGNED_V1_def

definition known_profiles :: "string list" where
  "known_profiles = [BELLBOOK_CORE_V1, DELIVERY_RECEIPT_V1, BELLBOOK_CORE_SIGNED_V1]"

definition core_v1_table :: ProfileTable where
  "core_v1_table =
     \<lparr>pt_id = BELLBOOK_CORE_V1, pt_version = 1, pt_clauses =
        [\<lparr>cls_id = ''B1'',
           cls_statement = ''The receipt validates Clean or Tainted; an Invalid receipt never conforms.''\<rparr>,
         \<lparr>cls_id = ''B2'',
           cls_statement = ''author_roles is non-empty, and every accepted record's author is registered in it.''\<rparr>,
         \<lparr>cls_id = ''B3'',
           cls_statement = ''evidence_thresholds carries entries for Candidate, Evaluation, and Selection, each no weaker than the schema base class (Reported, Reported, Inferred).''\<rparr>,
         \<lparr>cls_id = ''B4'',
           cls_statement = ''max_context_records is declared within 1..=100000.''\<rparr>,
         \<lparr>cls_id = ''B5'',
           cls_statement = ''Retraction and reaffirmation authority are readable from the rules: admin_retraction_actors and reaffirmation_actors are reported.''\<rparr>,
         \<lparr>cls_id = ''B6'',
           cls_statement = ''The source binding mode of every accepted Candidate (Manifest or Reported) is reported; neither is required.''\<rparr>]\<rparr>"

definition signed_v1_table :: ProfileTable where
  "signed_v1_table =
     \<lparr>pt_id = BELLBOOK_CORE_SIGNED_V1, pt_version = 1, pt_clauses =
        [\<lparr>cls_id = ''S0'',
           cls_statement = ''The receipt conforms to bellbook-core-v1, and if it declares that profile the declaration names the evaluated table.''\<rparr>,
         \<lparr>cls_id = ''S1'',
           cls_statement = ''signature_required_kinds includes Candidate, Evaluation, Selection, Retraction, and Requirement.''\<rparr>,
         \<lparr>cls_id = ''S2'',
           cls_statement = ''author_keys pins every actor that authored an accepted Candidate, Evaluation, Selection, Retraction, or Requirement.''\<rparr>,
         \<lparr>cls_id = ''S3'',
           cls_statement = ''Every evaluation Used by an accepted Selection with outcome Selected carries the schema bellbook.evaluation.attested.v1.''\<rparr>]\<rparr>"

definition delivery_v1_table :: ProfileTable where
  "delivery_v1_table =
     \<lparr>pt_id = DELIVERY_RECEIPT_V1, pt_version = 1, pt_clauses =
        [\<lparr>cls_id = ''D0'',
           cls_statement = ''At least one delivery claim exists: an accepted Selection with outcome Selected whose Used evaluations bind to requirements of exactly one Request. For each request the latest sound claim is evaluated; earlier ones are reported superseded.''\<rparr>,
         \<lparr>cls_id = ''D1'',
           cls_statement = ''Every accepted, unretracted Requirement with required true under the claim's request, as of the receipt head, has at least one evaluation among the claim's Used evaluations that references it with outcome passed.''\<rparr>,
         \<lparr>cls_id = ''D2'',
           cls_statement = ''No evaluation among the claim's Used evaluations that references a required requirement has an outcome other than passed.''\<rparr>,
         \<lparr>cls_id = ''D3'',
           cls_statement = ''The claim chooses exactly one candidate; every evaluation it uses judges that candidate, carries a non-empty evidence set, and every evidence reference appears in the candidate's artifacts or in the artifacts of an accepted Result in the same thread.''\<rparr>,
         \<lparr>cls_id = ''D4'',
           cls_statement = ''The author of every evaluation the claim uses is a different actor from the author of the claimed candidate.''\<rparr>,
         \<lparr>cls_id = ''D5'',
           cls_statement = ''Every evaluation the claim uses carries evaluator.id, evaluator.procedure_hash, evaluator.input_hash, and a declared basis; the weakest basis in the claim is reported.''\<rparr>,
         \<lparr>cls_id = ''D6'',
           cls_statement = ''The receipt conforms to bellbook-core-v1 (or a stronger tier), and if it declares that profile the declaration names the evaluated table.''\<rparr>,
         \<lparr>cls_id = ''D7'',
           cls_statement = ''The claim's Selection is sound, untainted, and unretracted at the receipt head.''\<rparr>]\<rparr>"

definition profile_table :: "string \<Rightarrow> ProfileTable option" where
  "profile_table i =
     (if i = BELLBOOK_CORE_V1 then Some core_v1_table
      else if i = DELIVERY_RECEIPT_V1 then Some delivery_v1_table
      else if i = BELLBOOK_CORE_SIGNED_V1 then Some signed_v1_table
      else None)"

definition clause_json :: "Clause \<Rightarrow> json" where
  "clause_json c = JObject [(''id'', JString (cls_id c)), (''statement'', JString (cls_statement c))]"

definition profile_table_json :: "ProfileTable \<Rightarrow> json" where
  "profile_table_json t =
     JObject [(''id'', JString (pt_id t)), (''version'', ser_u32 (pt_version t)),
              (''clauses'', ser_vec clause_json (pt_clauses t))]"

definition profile_hash :: "'z crates_scheme \<Rightarrow> ProfileTable \<Rightarrow> hash256" where
  "profile_hash C t = (case sha256_canonical C (profile_table_json t) of None \<Rightarrow> replicate 32 0 | Some h \<Rightarrow> h)"

definition profile_ref :: "'z crates_scheme \<Rightarrow> string \<Rightarrow> ProfileRef option" where
  "profile_ref C i =
     map_option (\<lambda>t. \<lparr>pr_id = pt_id t, pr_version = pt_version t, pr_hash = profile_hash C t\<rparr>) (profile_table i)"

section \<open>Results\<close>

definition met :: "ProfileResult \<Rightarrow> bool" where
  "met p \<longleftrightarrow> prs_status p = Conformant \<and> prs_declaration_matches p \<noteq> Some False"

text \<open>The end of each evaluator: the status is the conjunction of the clauses.\<close>

definition finish :: "'z crates_scheme \<Rightarrow> ProfileTable \<Rightarrow> ClauseResult list \<Rightarrow> ProfileResult" where
  "finish C t clauses =
     \<lparr>prs_id = pt_id t, prs_hash = profile_hash C t,
      prs_status = (if list_all clr_passed clauses then Conformant else NonConformant),
      prs_clauses = clauses, prs_declared = False, prs_declaration_matches = None\<rparr>"

definition all_failed :: "'z crates_scheme \<Rightarrow> ProfileTable \<Rightarrow> string \<Rightarrow> ProfileResult" where
  "all_failed C t reason =
     finish C t (map (\<lambda>c. \<lparr>clr_id = cls_id c, clr_passed = False, clr_detail = Text reason\<rparr>) (pt_clauses t))"

text \<open>What \<open>evaluate_declared\<close> adds to the evaluation of the profile it names.\<close>

definition compare_declaration :: "ProfileRef \<Rightarrow> ProfileResult \<Rightarrow> ProfileResult" where
  "compare_declaration decl p =
     p\<lparr>prs_declared := True,
       prs_declaration_matches :=
         (case profile_table (pr_id decl) of None \<Rightarrow> prs_declaration_matches p
          | Some t \<Rightarrow> Some (pr_version decl = pt_version t \<and> pr_hash decl = prs_hash p))\<rparr>"

section \<open>The baseline\<close>

definition core_thresholds :: "(Kind \<times> Evidence) list" where
  "core_thresholds = [(KCandidate, Reported), (KEvaluation, Reported), (KSelection, Inferred)]"

definition threshold_ok :: "VerifierRules \<Rightarrow> Kind \<times> Evidence \<Rightarrow> bool" where
  "threshold_ok R = (\<lambda>(k, base).
     case Mapping.lookup (vr_evidence_thresholds R) k of None \<Rightarrow> False | Some t \<Rightarrow> t \<le> base)"

definition accepted_ids :: "'z env_scheme \<Rightarrow> Record list \<Rightarrow> RecordId set" where
  "accepted_ids E rs = (case build_state_unchecked E rs of None \<Rightarrow> {} | Some s \<Rightarrow> st_accepted_records s)"

definition candidate_bindings :: "'z env_scheme \<Rightarrow> Receipt \<Rightarrow> BindingMode list" where
  "candidate_bindings E rc =
     List.map_filter
       (\<lambda>r. if rec_kind r \<noteq> KCandidate \<or> rec_id r \<notin> accepted_ids E (rcp_records rc) then None
            else map_option (sb_binding \<circ> cnd_source) (de_candidate E (rec_data r))) (rcp_records rc)"

definition evaluate_core_v1 :: "'z env_scheme \<Rightarrow> Receipt \<Rightarrow> Report \<Rightarrow> ProfileResult" where
  "evaluate_core_v1 E rc rep =
     (let R = rcp_rules rc;
          bindings = (if rep_status rep = Invalid then [] else candidate_bindings E rc)
      in finish E core_v1_table
           [\<lparr>clr_id = ''B1'', clr_passed = (rep_status rep \<noteq> Invalid), clr_detail = ReplayStatus (rep_status rep)\<rparr>,
            \<lparr>clr_id = ''B2'', clr_passed = (Mapping.keys (vr_author_roles R) \<noteq> {}),
              clr_detail = RegisteredRoles (card (Mapping.keys (vr_author_roles R)))\<rparr>,
            \<lparr>clr_id = ''B3'', clr_passed = list_all (threshold_ok R) core_thresholds,
              clr_detail = Thresholds (map (\<lambda>(k, _). (k, Mapping.lookup (vr_evidence_thresholds R) k)) core_thresholds)\<rparr>,
            \<lparr>clr_id = ''B4'', clr_passed = (1 \<le> vr_max_context_records R \<and> vr_max_context_records R \<le> 100000),
              clr_detail = ContextBound (vr_max_context_records R)\<rparr>,
            \<lparr>clr_id = ''B5'', clr_passed = True,
              clr_detail = Authority (sorted_list_of_set (vr_admin_retraction_actors R))
                             (sorted_list_of_set (vr_reaffirmation_actors R))\<rparr>,
            \<lparr>clr_id = ''B6'', clr_passed = True,
              clr_detail = BindingModes (length (filter (\<lambda>b. b = BindManifest) bindings))
                             (length (filter (\<lambda>b. b = BindReported) bindings))\<rparr>])"

text \<open>The baseline as the other profiles ask for it: as declared, or evaluated as the fallback.\<close>

definition core_result :: "'z env_scheme \<Rightarrow> Receipt \<Rightarrow> Report \<Rightarrow> ProfileResult" where
  "core_result E rc rep =
     (case List.find (\<lambda>p. pr_id p = BELLBOOK_CORE_V1) (rcp_profiles rc) of
        Some decl \<Rightarrow> compare_declaration decl (evaluate_core_v1 E rc rep)
      | None \<Rightarrow> evaluate_core_v1 E rc rep)"

definition core_clause :: "'z env_scheme \<Rightarrow> string \<Rightarrow> Receipt \<Rightarrow> Report \<Rightarrow> ClauseResult" where
  "core_clause E i rc rep =
     (let core = core_result E rc rep
      in \<lparr>clr_id = i, clr_passed = met core,
          clr_detail = CoreResult (prs_status core) (prs_declared core) (prs_declaration_matches core)\<rparr>)"

section \<open>The records a profile judges\<close>

definition find_by_id :: "Record list \<Rightarrow> RecordId \<Rightarrow> Record option" where
  "find_by_id rs = map_of (rev (map (\<lambda>r. (rec_id r, r)) rs))"

definition is_accepted :: "Record list \<Rightarrow> RecordId set \<Rightarrow> RecordId \<Rightarrow> bool" where
  "is_accepted rs accepted i \<longleftrightarrow> i \<in> accepted \<and> find_by_id rs i \<noteq> None"

definition short :: "RecordId \<Rightarrow> string" where
  "short i = take 12 (hex_encode i)"

definition claim_evaluations :: "Record list \<Rightarrow> RecordId set \<Rightarrow> Record \<Rightarrow> Record list" where
  "claim_evaluations rs accepted r =
     filter (\<lambda>t. rec_kind t = KEvaluation \<and> is_accepted rs accepted (rec_id t))
       (List.map_filter (\<lambda>e. find_by_id rs (ref_target e)) (filter (\<lambda>e. ref_type e = RUse) (rec_refs r)))"

end
