(* ===== verification/Profile_Signed.thy ===== *)
theory Profile_Signed
  imports Profiles
begin

text \<open>
  \<open>src/src/profiles/signed_v1.rs\<close>: the signed tier \<open>bellbook-core-signed-v1\<close> above the baseline.
\<close>

definition SIGNED_KINDS :: "Kind list" where
  "SIGNED_KINDS = [KCandidate, KEvaluation, KSelection, KRetraction, KRequirement]"

definition evolution_records :: "Record list \<Rightarrow> RecordId set \<Rightarrow> Record list" where
  "evolution_records rs accepted =
     filter (\<lambda>r. rec_kind r \<in> set SIGNED_KINDS \<and> is_accepted rs accepted (rec_id r)) rs"

definition signatures_clause :: "VerifierRules \<Rightarrow> ClauseResult" where
  "signatures_clause R =
     (let missing = filter (\<lambda>k. k \<notin> vr_signature_required_kinds R) SIGNED_KINDS
      in \<lparr>clr_id = ''S1'', clr_passed = (missing = []), clr_detail = UnsignedKinds missing\<rparr>)"

definition pinned_clause :: "Record list \<Rightarrow> RecordId set \<Rightarrow> VerifierRules \<Rightarrow> ClauseResult" where
  "pinned_clause rs accepted R =
     (let recs = evolution_records rs accepted;
          author = (\<lambda>r. au_id (rec_author r));
          pinned = set (map author (filter (\<lambda>r. has_key (vr_author_keys R) (author r)) recs));
          unpinned = filter (\<lambda>r. \<not> has_key (vr_author_keys R) (author r)) recs;
          kinds = (\<lambda>a. set (map (\<lambda>r. kind_name (rec_kind r)) (filter (\<lambda>r. author r = a) unpinned)))
      in \<lparr>clr_id = ''S2'', clr_passed = (unpinned = []),
          clr_detail =
            (if unpinned = [] then PinnedAuthors (sorted_list_of_set pinned)
             else UnpinnedAuthors (map (\<lambda>a. (a, sorted_list_of_set (kinds a)))
                    (sorted_list_of_set (set (map author unpinned)))))\<rparr>)"

definition is_selected :: "'z env_scheme \<Rightarrow> Record list \<Rightarrow> RecordId set \<Rightarrow> Record \<Rightarrow> bool" where
  "is_selected E rs accepted r \<longleftrightarrow>
     rec_kind r = KSelection \<and> is_accepted rs accepted (rec_id r)
     \<and> (case decode_selection E (rec_data r) of None \<Rightarrow> False
        | Some sd \<Rightarrow> (case sel_outcome sd of Selected _ \<Rightarrow> True | NoneSelected \<Rightarrow> False))"

definition attested_clause :: "'z env_scheme \<Rightarrow> Record list \<Rightarrow> RecordId set \<Rightarrow> ClauseResult" where
  "attested_clause E rs accepted =
     (let used = concat (map (claim_evaluations rs accepted) (filter (is_selected E rs accepted) rs));
          attested = schema_id E SCHEMA_EVALUATION_ATTESTED;
          not_attested = remdups_adj (sort (map (\<lambda>t. short (rec_id t)) (filter (\<lambda>t. rec_schema t \<noteq> attested) used)))
      in \<lparr>clr_id = ''S3'', clr_passed = (not_attested = []),
          clr_detail =
            (if not_attested = [] then Attested (length used) else NotAttested (length used) not_attested)\<rparr>)"

definition evaluate_signed_v1 :: "'z env_scheme \<Rightarrow> Receipt \<Rightarrow> Report \<Rightarrow> ProfileResult" where
  "evaluate_signed_v1 E rc rep =
     (if rep_status rep = Invalid then all_failed E signed_v1_table ''receipt is Invalid''
      else (case build_state_unchecked E (rcp_records rc) of
          None \<Rightarrow> all_failed E signed_v1_table ''state could not be rebuilt''
        | Some s \<Rightarrow>
            finish E signed_v1_table
              [core_clause E ''S0'' rc rep,
               signatures_clause (rcp_rules rc),
               pinned_clause (rcp_records rc) (st_accepted_records s) (rcp_rules rc),
               attested_clause E (rcp_records rc) (st_accepted_records s)]))"

end
