(* ===== verification/Profile_Delivery.thy ===== *)
theory Profile_Delivery
  imports Profiles
begin

text \<open>
  \<open>src/src/profiles/delivery_v1.rs\<close>: the delivery profile \<open>delivery-receipt-v1\<close>.  The parts of
  \<open>evaluate\<close> are definitions of their own: the claims, the pick of one claim per request, and one
  definition per clause over a claim.
\<close>

section \<open>Claims\<close>

record Claim =
  clm_selection :: Record
  clm_request :: RecordId
  clm_chosen :: "RecordId list"
  clm_used :: "Record list"

definition requirement_request :: "Record list \<Rightarrow> RecordId set \<Rightarrow> RecordId \<Rightarrow> RecordId option" where
  "requirement_request rs accepted i =
     (case find_by_id rs i of None \<Rightarrow> None
      | Some r \<Rightarrow>
          if rec_kind r \<noteq> KRequirement \<or> \<not> is_accepted rs accepted i then None
          else map_option ref_target (List.find (\<lambda>e. ref_type e = RCause) (rec_refs r)))"

definition claim_requests :: "'z env_scheme \<Rightarrow> Record list \<Rightarrow> RecordId set \<Rightarrow> Record list \<Rightarrow> RecordId set" where
  "claim_requests E rs accepted used =
     set (List.map_filter (requirement_request rs accepted)
       (concat (map (\<lambda>e. case decode_evaluation_v2 E (rec_data e) of None \<Rightarrow> [] | Some ev \<Rightarrow> ev2_requirements ev) used)))"

definition claim_of :: "'z env_scheme \<Rightarrow> Record list \<Rightarrow> RecordId set \<Rightarrow> Record \<Rightarrow> Claim option" where
  "claim_of E rs accepted r =
     (if rec_kind r \<noteq> KSelection \<or> \<not> is_accepted rs accepted (rec_id r) then None
      else (case decode_selection E (rec_data r) of None \<Rightarrow> None
        | Some sd \<Rightarrow>
            (case sel_outcome sd of NoneSelected \<Rightarrow> None
             | Selected chosen \<Rightarrow>
                 let used = claim_evaluations rs accepted r
                 in (case sorted_list_of_set (claim_requests E rs accepted used) of
                       [q] \<Rightarrow> Some \<lparr>clm_selection = r, clm_request = q, clm_chosen = chosen, clm_used = used\<rparr>
                     | _ \<Rightarrow> None))))"

definition all_claims :: "'z env_scheme \<Rightarrow> Record list \<Rightarrow> RecordId set \<Rightarrow> Claim list" where
  "all_claims E rs accepted = List.map_filter (claim_of E rs accepted) rs"

definition claim_sound :: "Report \<Rightarrow> Record \<Rightarrow> bool" where
  "claim_sound rep sel \<longleftrightarrow>
     rec_id sel \<notin> sg_unsound (rep_standing rep) \<and> rec_id sel \<notin> rep_retracted_records rep
     \<and> rec_id sel \<notin> rep_tainted_records rep"

definition rposition :: "('a \<Rightarrow> bool) \<Rightarrow> 'a list \<Rightarrow> nat option" where
  "rposition P xs = (case filter (\<lambda>i. P (xs ! i)) [0..<length xs] of [] \<Rightarrow> None | is \<Rightarrow> Some (last is))"

definition claim_time :: "Claim \<Rightarrow> u64" where
  "claim_time c = rec_time (clm_selection c)"

text \<open>
  The groups of \<open>by_request\<close>, by ascending request id; \<open>sort_by_key\<close> is stable, as \<open>sort_key\<close> is.
\<close>

definition claim_groups :: "Claim list \<Rightarrow> Claim list list" where
  "claim_groups cs =
     map (\<lambda>q. sort_key claim_time (filter (\<lambda>c. clm_request c = q) cs))
       (sorted_list_of_set (set (map clm_request cs)))"

definition pick_claim :: "Report \<Rightarrow> Claim list \<Rightarrow> nat" where
  "pick_claim rep g =
     (case rposition (\<lambda>c. claim_sound rep (clm_selection c)) g of Some i \<Rightarrow> i | None \<Rightarrow> length g - 1)"

definition evaluated_claims :: "Report \<Rightarrow> Claim list \<Rightarrow> Claim list" where
  "evaluated_claims rep cs = sort_key claim_time (map (\<lambda>g. g ! pick_claim rep g) (claim_groups cs))"

definition superseded_claims :: "Report \<Rightarrow> Claim list \<Rightarrow> RecordId list" where
  "superseded_claims rep cs =
     concat (map (\<lambda>g. map (\<lambda>(_, c). rec_id (clm_selection c))
       (filter (\<lambda>(i, _). i \<noteq> pick_claim rep g) (List.enumerate 0 g))) (claim_groups cs))"

section \<open>The facts of a claim\<close>

definition used_v2 :: "'z env_scheme \<Rightarrow> Claim \<Rightarrow> (Record \<times> EvaluationDataV2) list" where
  "used_v2 E c = List.map_filter (\<lambda>e. map_option (Pair e) (decode_evaluation_v2 E (rec_data e))) (clm_used c)"

definition required_requirements ::
  "'z env_scheme \<Rightarrow> Record list \<Rightarrow> RecordId set \<Rightarrow> RecordId set \<Rightarrow> RecordId \<Rightarrow> (RecordId \<times> string) list" where
  "required_requirements E rs accepted retracted request =
     List.map_filter
       (\<lambda>r. if rec_kind r \<noteq> KRequirement \<or> \<not> is_accepted rs accepted (rec_id r) \<or> rec_id r \<in> retracted
                \<or> requirement_request rs accepted (rec_id r) \<noteq> Some request then None
            else (case de_requirement E (rec_data r) of None \<Rightarrow> None
              | Some rd \<Rightarrow> if rqm_required rd then Some (rec_id r, rqm_key rd) else None)) rs"

definition is_covered :: "RecordId set \<Rightarrow> (Record \<times> EvaluationDataV2) list \<Rightarrow> RecordId \<Rightarrow> bool" where
  "is_covered retracted used i \<longleftrightarrow>
     (\<exists>(e, d) \<in> set used. rec_id e \<notin> retracted \<and> ev2_outcome d = Ev2Passed \<and> i \<in> set (ev2_requirements d))"

definition uncovered ::
  "RecordId set \<Rightarrow> (Record \<times> EvaluationDataV2) list \<Rightarrow> (RecordId \<times> string) list \<Rightarrow> string list" where
  "uncovered retracted used required = map snd (filter (\<lambda>(i, _). \<not> is_covered retracted used i) required)"

definition non_passing ::
  "(Record \<times> EvaluationDataV2) list \<Rightarrow> (RecordId \<times> string) list \<Rightarrow> (string \<times> string) list" where
  "non_passing used required =
     map (\<lambda>(e, d). (short (rec_id e), evaluation_v2_label (ev2_outcome d)))
       (filter (\<lambda>(e, d). set (ev2_requirements d) \<inter> fst ` set required \<noteq> {} \<and> ev2_outcome d \<noteq> Ev2Passed) used)"

definition chosen_candidate :: "Claim \<Rightarrow> RecordId option" where
  "chosen_candidate c = (case clm_chosen c of [i] \<Rightarrow> Some i | _ \<Rightarrow> None)"

definition candidate_record :: "Record list \<Rightarrow> Claim \<Rightarrow> Record option" where
  "candidate_record rs c = Option.bind (chosen_candidate c) (find_by_id rs)"

definition artifact_keys :: "ArtifactRef list option \<Rightarrow> (string \<times> string) list" where
  "artifact_keys as = map (\<lambda>a. (ar_scheme a, ar_digest a)) (case as of None \<Rightarrow> [] | Some l \<Rightarrow> l)"

definition on_record ::
  "'z env_scheme \<Rightarrow> Record list \<Rightarrow> RecordId set \<Rightarrow> Claim \<Rightarrow> (string \<times> string) set" where
  "on_record E rs accepted c =
     (case candidate_record rs c of None \<Rightarrow> {}
      | Some r \<Rightarrow>
          set (artifact_keys (Option.bind (de_candidate E (rec_data r)) cnd_artifacts))
          \<union> set (concat (map (\<lambda>t. artifact_keys (Option.bind (de_result E (rec_data t)) rst_artifacts))
              (filter (\<lambda>t. rec_kind t = KResult \<and> is_accepted rs accepted (rec_id t)
                 \<and> rec_thread t = rec_thread (clm_selection c)) rs))))"

definition evidence_notes ::
  "RecordId option \<Rightarrow> (string \<times> string) set \<Rightarrow> Record \<times> EvaluationDataV2 \<Rightarrow> EvidenceNote list" where
  "evidence_notes chosen recorded = (\<lambda>(e, d).
     (if Some (ev2_candidate d) \<noteq> chosen then [JudgesAnother (short (rec_id e))] else [])
     @ (if ev2_evidence d = [] then [NoEvidence (short (rec_id e))] else [])
     @ map (NotOnRecord (short (rec_id e)))
         (filter (\<lambda>a. (ar_scheme a, ar_digest a) \<notin> recorded) (ev2_evidence d)))"

definition d3_notes :: "'z env_scheme \<Rightarrow> Record list \<Rightarrow> RecordId set \<Rightarrow> Claim \<Rightarrow> EvidenceNote list" where
  "d3_notes E rs accepted c =
     (if length (clm_chosen c) = 1 then [] else [ChoosesCandidates (length (clm_chosen c))])
     @ (if length (used_v2 E c) \<noteq> length (clm_used c)
        then [WithoutEvidenceSet (length (clm_used c) - length (used_v2 E c))] else [])
     @ concat (map (evidence_notes (chosen_candidate c) (on_record E rs accepted c)) (used_v2 E c))"

definition producer :: "Record list \<Rightarrow> Claim \<Rightarrow> string option" where
  "producer rs c = map_option (\<lambda>r. au_id (rec_author r)) (candidate_record rs c)"

definition self_judged :: "Record list \<Rightarrow> Claim \<Rightarrow> string list" where
  "self_judged rs c =
     map (\<lambda>e. short (rec_id e)) (filter (\<lambda>e. Some (au_id (rec_author e)) = producer rs c) (clm_used c))"

definition unbound :: "'z env_scheme \<Rightarrow> Claim \<Rightarrow> BindingNote list" where
  "unbound E c =
     (if length (used_v2 E c) \<noteq> length (clm_used c)
      then [WithoutBinding (length (clm_used c) - length (used_v2 E c))] else [])
     @ map (\<lambda>(e, d). LacksHashes (short (rec_id e)))
         (filter (\<lambda>(e, d). db_procedure_hash (ev2_evaluator d) = None \<or> db_input_hash (ev2_evaluator d) = None)
           (used_v2 E c))"

definition weakest_basis :: "(Record \<times> EvaluationDataV2) list \<Rightarrow> string" where
  "weakest_basis used =
     (if used = [] then ''none''
      else if \<exists>(e, d) \<in> set used. ev2_basis d = Declared then ''declared'' else ''recomputed'')"

definition standing_notes :: "Report \<Rightarrow> Record \<Rightarrow> string list" where
  "standing_notes rep sel =
     (if rec_id sel \<in> sg_unsound (rep_standing rep) then [''unsound''] else [])
     @ (if rec_id sel \<in> rep_tainted_records rep then [''tainted''] else [])
     @ (if rec_id sel \<in> rep_retracted_records rep then [''retracted''] else [])"

section \<open>The clauses\<close>

text \<open>A clause passes when it holds for every evaluated claim.\<close>

definition tagged :: "Claim \<Rightarrow> string" where
  "tagged c = short (rec_id (clm_selection c))"

definition clause_d1 ::
  "'z env_scheme \<Rightarrow> Record list \<Rightarrow> RecordId set \<Rightarrow> RecordId set \<Rightarrow> Claim list \<Rightarrow> ClauseResult" where
  "clause_d1 E rs accepted retracted claims =
     (let notes = map (\<lambda>c.
            let required = required_requirements E rs accepted retracted (clm_request c)
            in (tagged c, length required, uncovered retracted (used_v2 E c) required)) claims
      in \<lparr>clr_id = ''D1'', clr_passed = list_all (\<lambda>(_, _, missing). missing = []) notes,
          clr_detail = Coverage notes\<rparr>)"

definition clause_d2 ::
  "'z env_scheme \<Rightarrow> Record list \<Rightarrow> RecordId set \<Rightarrow> RecordId set \<Rightarrow> Claim list \<Rightarrow> ClauseResult" where
  "clause_d2 E rs accepted retracted claims =
     (let notes = map (\<lambda>c. (tagged c,
            non_passing (used_v2 E c) (required_requirements E rs accepted retracted (clm_request c)))) claims
      in \<lparr>clr_id = ''D2'', clr_passed = list_all (\<lambda>(_, bad). bad = []) notes, clr_detail = Outcomes notes\<rparr>)"

definition clause_d3 :: "'z env_scheme \<Rightarrow> Record list \<Rightarrow> RecordId set \<Rightarrow> Claim list \<Rightarrow> ClauseResult" where
  "clause_d3 E rs accepted claims =
     (let notes = map (\<lambda>c. (tagged c, length (used_v2 E c), d3_notes E rs accepted c)) claims
      in \<lparr>clr_id = ''D3'', clr_passed = list_all (\<lambda>(_, _, bad). bad = []) notes, clr_detail = Evidences notes\<rparr>)"

definition clause_d4 :: "Record list \<Rightarrow> Claim list \<Rightarrow> ClauseResult" where
  "clause_d4 rs claims =
     (let notes = map (\<lambda>c. (tagged c, producer rs c, self_judged rs c)) claims
      in \<lparr>clr_id = ''D4'', clr_passed = list_all (\<lambda>(_, p, bad). p \<noteq> None \<and> bad = []) notes,
          clr_detail = Separation notes\<rparr>)"

definition clause_d5 :: "'z env_scheme \<Rightarrow> Claim list \<Rightarrow> ClauseResult" where
  "clause_d5 E claims =
     (let notes = map (\<lambda>c. (tagged c,
            (if unbound E c = [] \<and> used_v2 E c = [] then [NoEvaluationUsed] else unbound E c),
            weakest_basis (used_v2 E c))) claims
      in \<lparr>clr_id = ''D5'', clr_passed = list_all (\<lambda>(_, bad, _). bad = []) notes, clr_detail = Deciders notes\<rparr>)"

definition clause_d7 :: "Report \<Rightarrow> Claim list \<Rightarrow> ClauseResult" where
  "clause_d7 rep claims =
     (let notes = map (\<lambda>c. (tagged c, standing_notes rep (clm_selection c))) claims
      in \<lparr>clr_id = ''D7'', clr_passed = list_all (\<lambda>(_, bad). bad = []) notes, clr_detail = StandingNotes notes\<rparr>)"

definition no_claim :: "ClauseResult list" where
  "no_claim =
     \<lparr>clr_id = ''D0'', clr_passed = False, clr_detail = Text
        ''no delivery claim: no accepted Selected selection whose used evaluations bind to requirements of exactly one request''\<rparr>
     # map (\<lambda>i. \<lparr>clr_id = i, clr_passed = False, clr_detail = Text ''no claim to evaluate''\<rparr>)
         [''D1'', ''D2'', ''D3'', ''D4'', ''D5'', ''D6'', ''D7'']"

definition evaluate_delivery_v1 :: "'z env_scheme \<Rightarrow> Receipt \<Rightarrow> Report \<Rightarrow> ProfileResult" where
  "evaluate_delivery_v1 E rc rep =
     (if rep_status rep = Invalid then all_failed E delivery_v1_table ''receipt is Invalid''
      else (case build_state_unchecked E (rcp_records rc) of
          None \<Rightarrow> all_failed E delivery_v1_table ''state could not be rebuilt''
        | Some s \<Rightarrow>
            let rs = rcp_records rc; accepted = st_accepted_records s; retracted = rep_retracted_records rep;
                cs = all_claims E rs accepted; claims = evaluated_claims rep cs
            in if claims = [] then finish E delivery_v1_table no_claim
               else finish E delivery_v1_table
                 [\<lparr>clr_id = ''D0'', clr_passed = True,
                    clr_detail = Claims (map (\<lambda>c. (tagged c, short (clm_request c))) claims)
                                   (map short (superseded_claims rep cs))\<rparr>,
                  clause_d1 E rs accepted retracted claims,
                  clause_d2 E rs accepted retracted claims,
                  clause_d3 E rs accepted claims,
                  clause_d4 rs claims,
                  clause_d5 E claims,
                  core_clause E ''D6'' rc rep,
                  clause_d7 rep claims]))"

end
