(* ===== verification/Profile_Set.thy ===== *)
theory Profile_Set
  imports Profile_Signed Profile_Delivery
begin

text \<open>
  The dispatch of \<open>src/src/profiles/mod.rs\<close> over the known profiles.  The locale \<open>profile\<close> is what
  the dispatch relies on: an evaluator reports on the table of its id and its status is the
  conjunction of the table's clauses.
\<close>

definition evaluate_profile :: "'z env_scheme \<Rightarrow> string \<Rightarrow> Receipt \<Rightarrow> Report \<Rightarrow> ProfileResult" where
  "evaluate_profile E i rc rep =
     (if i = BELLBOOK_CORE_V1 then evaluate_core_v1 E rc rep
      else if i = DELIVERY_RECEIPT_V1 then evaluate_delivery_v1 E rc rep
      else if i = BELLBOOK_CORE_SIGNED_V1 then evaluate_signed_v1 E rc rep
      else \<lparr>prs_id = i, prs_hash = replicate 32 0, prs_status = Unknown, prs_clauses = [],
            prs_declared = False, prs_declaration_matches = None\<rparr>)"

definition evaluate_declared :: "'z env_scheme \<Rightarrow> ProfileRef \<Rightarrow> Receipt \<Rightarrow> Report \<Rightarrow> ProfileResult" where
  "evaluate_declared E decl rc rep = compare_declaration decl (evaluate_profile E (pr_id decl) rc rep)"

definition add_required :: "'z env_scheme \<Rightarrow> Receipt \<Rightarrow> Report \<Rightarrow> string \<Rightarrow> ProfileResult list \<Rightarrow> ProfileResult list" where
  "add_required E rc rep i out =
     (if \<exists>p \<in> set out. prs_id p = i then out else out @ [evaluate_profile E i rc rep])"

definition evaluate_profiles :: "'z env_scheme \<Rightarrow> Receipt \<Rightarrow> Report \<Rightarrow> string list \<Rightarrow> ProfileResult list" where
  "evaluate_profiles E rc rep required =
     fold (add_required E rc rep) required (map (\<lambda>decl. evaluate_declared E decl rc rep) (rcp_profiles rc))"

section \<open>What an evaluator promises\<close>

locale profile =
  fixes E :: "'z env_scheme" and i :: string and table :: ProfileTable
    and evaluate :: "Receipt \<Rightarrow> Report \<Rightarrow> ProfileResult"
  assumes table: "profile_table i = Some table" "pt_id table = i"
    and result: "\<exists>clauses. evaluate rc rep = finish E table clauses \<and> map clr_id clauses = map cls_id (pt_clauses table)"
begin

lemma identity: "prs_id (evaluate rc rep) = i" "prs_hash (evaluate rc rep) = profile_hash E table"
  using result [of rc rep] table(2) by (auto simp: finish_def)

lemma known: "prs_status (evaluate rc rep) \<noteq> Unknown"
  using result [of rc rep] by (auto simp: finish_def split: if_splits)

lemma clauses: "map clr_id (prs_clauses (evaluate rc rep)) = map cls_id (pt_clauses table)"
  using result [of rc rep] by (auto simp: finish_def split: if_splits)

lemma conformant: "prs_status (evaluate rc rep) = Conformant \<longleftrightarrow> (\<forall>c \<in> set (prs_clauses (evaluate rc rep)). clr_passed c)"
  using result [of rc rep] by (auto simp: finish_def list_all_iff split: if_splits)

lemma declared:
  assumes "pr_id decl = i"
  shows "prs_declaration_matches (compare_declaration decl (evaluate rc rep)) = Some (profile_ref E i = Some decl)"
  using result [of rc rep] assms table by (cases decl) (auto simp: compare_declaration_def profile_ref_def finish_def)

end

lemma failed_clauses: "map clr_id (map (\<lambda>c. \<lparr>clr_id = cls_id c, clr_passed = False, clr_detail = d\<rparr>) cs) = map cls_id cs"
  by simp

lemmas clause_defs = core_clause_def signatures_clause_def pinned_clause_def attested_clause_def clause_d1_def
  clause_d2_def clause_d3_def clause_d4_def clause_d5_def clause_d7_def no_claim_def Let_def

interpretation core: profile E BELLBOOK_CORE_V1 core_v1_table "evaluate_core_v1 E" for E :: "'z env_scheme"
proof unfold_locales
  show "profile_table BELLBOOK_CORE_V1 = Some core_v1_table" by (simp add: profile_table_def)
  show "pt_id core_v1_table = BELLBOOK_CORE_V1" by (simp add: core_v1_table_def)
  show "\<exists>clauses. evaluate_core_v1 E rc rep = finish E core_v1_table clauses
     \<and> map clr_id clauses = map cls_id (pt_clauses core_v1_table)" for rc rep
    unfolding evaluate_core_v1_def Let_def by (intro exI conjI, rule refl) (simp add: core_v1_table_def)
qed

interpretation signed: profile E BELLBOOK_CORE_SIGNED_V1 signed_v1_table "evaluate_signed_v1 E" for E :: "'z env_scheme"
proof unfold_locales
  show "profile_table BELLBOOK_CORE_SIGNED_V1 = Some signed_v1_table" by (simp add: profile_table_def profile_ids)
  show "pt_id signed_v1_table = BELLBOOK_CORE_SIGNED_V1" by (simp add: signed_v1_table_def)
  show "\<exists>clauses. evaluate_signed_v1 E rc rep = finish E signed_v1_table clauses
     \<and> map clr_id clauses = map cls_id (pt_clauses signed_v1_table)" for rc rep
    unfolding evaluate_signed_v1_def all_failed_def
    by (cases "rep_status rep = Invalid"; cases "build_state_unchecked E (rcp_records rc)")
      (auto intro!: exI simp: clause_defs signed_v1_table_def)
qed

interpretation delivery: profile E DELIVERY_RECEIPT_V1 delivery_v1_table "evaluate_delivery_v1 E" for E :: "'z env_scheme"
proof unfold_locales
  show "profile_table DELIVERY_RECEIPT_V1 = Some delivery_v1_table" by (simp add: profile_table_def profile_ids)
  show "pt_id delivery_v1_table = DELIVERY_RECEIPT_V1" by (simp add: delivery_v1_table_def)
  show "\<exists>clauses. evaluate_delivery_v1 E rc rep = finish E delivery_v1_table clauses
     \<and> map clr_id clauses = map cls_id (pt_clauses delivery_v1_table)" for rc rep
    unfolding evaluate_delivery_v1_def all_failed_def
    by (cases "rep_status rep = Invalid"; cases "build_state_unchecked E (rcp_records rc)")
      (auto intro!: exI simp: clause_defs delivery_v1_table_def)
qed

end
