(* ===== verification/Receipts.thy ===== *)
theory Receipts
  imports Profile_Set
begin

text \<open>
  \<open>src/src/receipt.rs\<close>: exporting a log as a receipt and validating a receipt offline.  The JSON
  parser of \<open>Receipt::from_bytes\<close> is a parameter; the problem of a structural failure is a value of
  the datatype \<open>Problem\<close> instead of a text.
\<close>

section \<open>Receipts\<close>

definition PROFILE_DECLARATIONS_SINCE :: string where
  "PROFILE_DECLARATIONS_SINCE = ''0.4''"

definition receipt_new :: "Record list \<Rightarrow> VerifierRules \<Rightarrow> Receipt" where
  "receipt_new rs R =
     \<lparr>rcp_spec_version = SPEC_VERSION, rcp_profiles = [], rcp_rules = R, rcp_records = rs\<rparr>"

datatype DeclareError = DeclaredTwice string | UnknownProfile string

fun with_declared_profiles :: "'z crates_scheme \<Rightarrow> Receipt \<Rightarrow> string list \<Rightarrow> DeclareError + Receipt" where
  "with_declared_profiles C rc [] = Inr rc"
| "with_declared_profiles C rc (i # is) =
     (if \<exists>p \<in> set (rcp_profiles rc). pr_id p = i then Inl (DeclaredTwice i)
      else (case profile_ref C i of None \<Rightarrow> Inl (UnknownProfile i)
        | Some decl \<Rightarrow> with_declared_profiles C (rc\<lparr>rcp_profiles := rcp_profiles rc @ [decl]\<rparr>) is))"

definition profile_ref_json :: "ProfileRef \<Rightarrow> json" where
  "profile_ref_json p =
     JObject [(''id'', JString (pr_id p)), (''version'', ser_u32 (pr_version p)), (''hash'', ser_bytes (pr_hash p))]"

definition receipt_json :: "Receipt \<Rightarrow> json" where
  "receipt_json rc =
     JObject ([(''spec_version'', JString (rcp_spec_version rc))]
       @ (if rcp_profiles rc = [] then [] else [(''profiles'', ser_vec profile_ref_json (rcp_profiles rc))])
       @ [(''rules'', rules_json (rcp_rules rc)), (''records'', ser_vec record_json (rcp_records rc))])"

definition to_bytes :: "'z crates_scheme \<Rightarrow> Receipt \<Rightarrow> bytes option" where
  "to_bytes C rc = canonical_json C (receipt_json rc)"

section \<open>Validation\<close>

definition structural_failure :: "Problem \<Rightarrow> string \<Rightarrow> Report" where
  "structural_failure problem spec_version =
     \<lparr>rep_status = Invalid, rep_reason = None, rep_problem = Some problem, rep_spec_version = spec_version,
      rep_record_count = 0, rep_checked_records = 0, rep_last_time = 0, rep_head_hash = replicate 32 0,
      rep_rules_hash = replicate 32 0, rep_retracted_records = {}, rep_tainted_records = {},
      rep_standing = empty_standing, rep_profiles = []\<rparr>"

definition rules_for_epoch :: "'z crates_scheme \<Rightarrow> VerifierRules \<Rightarrow> string list \<Rightarrow> VerifierRules" where
  "rules_for_epoch C R schemas =
     R\<lparr>vr_kind_schema_map := Mapping.filter (\<lambda>schema _. schema \<in> set (map (schema_id C) schemas)) (vr_kind_schema_map R)\<rparr>"

text \<open>\<open>position\<close> is compared as an \<open>Option\<close>: \<open>None\<close> is below every \<open>Some\<close>.\<close>

fun position :: "string list \<Rightarrow> string \<Rightarrow> nat option" where
  "position [] v = None"
| "position (x # xs) v = (if x = v then Some 0 else map_option Suc (position xs v))"

fun option_less :: "nat option \<Rightarrow> nat option \<Rightarrow> bool" where
  "option_less None None = False"
| "option_less None (Some _) = True"
| "option_less (Some _) None = False"
| "option_less (Some a) (Some b) = (a < b)"

fun check_declared_ids :: "nat \<Rightarrow> string set \<Rightarrow> ProfileRef list \<Rightarrow> Problem option" where
  "check_declared_ids idx seen [] = None"
| "check_declared_ids idx seen (decl # decls) =
     (if pr_id decl = [] then Some (EmptyDeclaration idx)
      else if pr_id decl \<in> seen then Some (DuplicateDeclaration (pr_id decl))
      else check_declared_ids (Suc idx) (insert (pr_id decl) seen) decls)"

definition check_declarations :: "Receipt \<Rightarrow> Problem option" where
  "check_declarations rc =
     (if rcp_profiles rc = [] then None
      else if option_less (position SUPPORTED_SPEC_VERSIONS (rcp_spec_version rc))
                (position SUPPORTED_SPEC_VERSIONS PROFILE_DECLARATIONS_SINCE)
      then Some (DeclarationsTooEarly (rcp_spec_version rc))
      else check_declared_ids 0 {} (rcp_profiles rc))"

record ValidationLimits =
  vl_max_bytes :: nat
  vl_max_records :: nat
  vl_max_payload_bytes :: nat
  vl_max_refs_per_record :: nat

definition default_limits :: ValidationLimits where
  "default_limits =
     \<lparr>vl_max_bytes = 64 * 2 ^ 20, vl_max_records = 1000000, vl_max_payload_bytes = 16 * 2 ^ 20,
      vl_max_refs_per_record = 4096\<rparr>"

definition unlimited :: ValidationLimits where
  "unlimited =
     \<lparr>vl_max_bytes = 2 ^ 64 - 1, vl_max_records = 2 ^ 64 - 1, vl_max_payload_bytes = 2 ^ 64 - 1,
      vl_max_refs_per_record = 2 ^ 64 - 1\<rparr>"

fun check_record_limits :: "ValidationLimits \<Rightarrow> nat \<Rightarrow> Record list \<Rightarrow> Problem option" where
  "check_record_limits limits idx [] = None"
| "check_record_limits limits idx (r # rs) =
     (if vl_max_payload_bytes limits < length (rec_data r) then Some (PayloadLimit idx)
      else if vl_max_refs_per_record limits < length (rec_refs r) then Some (RefCountLimit idx)
      else check_record_limits limits (Suc idx) rs)"

definition status_of_verdict :: "LogVerdict \<Rightarrow> ValidationStatus" where
  "status_of_verdict v =
     (case lv_result v of Reject \<Rightarrow> Invalid
      | Accept \<Rightarrow> if lv_retracted_records v = {} \<and> lv_tainted_records v = {} then Clean else Tainted)"

definition replay_report :: "'z env_scheme \<Rightarrow> Receipt \<Rightarrow> VerifierRules \<Rightarrow> hash256 \<Rightarrow> Report" where
  "replay_report E rc R h =
     (let verdict = verify_log E (rcp_records rc) R None;
          rep = \<lparr>rep_status = status_of_verdict verdict, rep_reason = lv_reason verdict, rep_problem = None,
                 rep_spec_version = rcp_spec_version rc, rep_record_count = of_nat (length (rcp_records rc)),
                 rep_checked_records = lv_checked_records verdict, rep_last_time = lv_last_time verdict,
                 rep_head_hash = sha256_concat_ids E (map rec_id (rcp_records rc)), rep_rules_hash = h,
                 rep_retracted_records = lv_retracted_records verdict,
                 rep_tainted_records = lv_tainted_records verdict,
                 rep_standing = lv_standing verdict, rep_profiles = []\<rparr>
      in rep\<lparr>rep_profiles := evaluate_profiles E rc rep []\<rparr>)"

definition validate_receipt :: "'z env_scheme \<Rightarrow> Receipt \<Rightarrow> ValidationLimits \<Rightarrow> Report" where
  "validate_receipt E rc limits =
     (if vl_max_records limits < length (rcp_records rc)
      then structural_failure (RecordLimit (length (rcp_records rc)) (vl_max_records limits)) (rcp_spec_version rc)
      else (case check_record_limits limits 0 (rcp_records rc) of
          Some problem \<Rightarrow> structural_failure problem (rcp_spec_version rc)
        | None \<Rightarrow>
            (case schemas_for_epoch (rcp_spec_version rc) of
               None \<Rightarrow> structural_failure (UnsupportedVersion (rcp_spec_version rc)) (rcp_spec_version rc)
             | Some epoch_schemas \<Rightarrow>
                 (case check_declarations rc of
                    Some problem \<Rightarrow> structural_failure problem (rcp_spec_version rc)
                  | None \<Rightarrow>
                      (case sha256_canonical E (rules_json (rcp_rules rc)) of
                         None \<Rightarrow> structural_failure RulesNotCanonical (rcp_spec_version rc)
                       | Some h \<Rightarrow> replay_report E rc (rules_for_epoch E (rcp_rules rc) epoch_schemas) h)))))"

definition validate_with_limits ::
  "'z env_scheme \<Rightarrow> (bytes \<Rightarrow> Receipt option) \<Rightarrow> bytes \<Rightarrow> ValidationLimits \<Rightarrow> Report" where
  "validate_with_limits E from_bytes bytes limits =
     (if vl_max_bytes limits < length bytes
      then structural_failure (SizeLimit (length bytes) (vl_max_bytes limits)) []
      else (case from_bytes bytes of None \<Rightarrow> structural_failure Unparseable []
        | Some rc \<Rightarrow> validate_receipt E rc limits))"

definition validate :: "'z env_scheme \<Rightarrow> (bytes \<Rightarrow> Receipt option) \<Rightarrow> bytes \<Rightarrow> Report" where
  "validate E from_bytes bytes = validate_with_limits E from_bytes bytes default_limits"

definition validate_with_profiles ::
  "'z env_scheme \<Rightarrow> (bytes \<Rightarrow> Receipt option) \<Rightarrow> bytes \<Rightarrow> ValidationLimits \<Rightarrow> string list \<Rightarrow> Report" where
  "validate_with_profiles E from_bytes bytes limits profiles =
     (let rep = validate_with_limits E from_bytes bytes limits
      in if profiles = [] \<or> rep_problem rep \<noteq> None then rep
         else (case from_bytes bytes of None \<Rightarrow> rep
           | Some rc \<Rightarrow> rep\<lparr>rep_profiles := evaluate_profiles E rc rep profiles\<rparr>))"

end
