(* ===== verification/Fresh_Ids.thy ===== *)
theory Fresh_Ids
  imports Work_Log
begin

text \<open>
  The writer judges a record against the records before it; the replay judges it against these and
  the record itself.  The two agree when the new id is fresh: no record of the log, and not the new
  record either, names it.  A record that names its own id would be a fixed point of SHA-256.
\<close>

section \<open>The ids a payload names\<close>

definition payload_ids :: "'z env_scheme \<Rightarrow> Record \<Rightarrow> RecordId set" where
  "payload_ids E r =
     (case rec_kind r of
        KResult \<Rightarrow> (case de_result E (rec_data r) of None \<Rightarrow> {} | Some d \<Rightarrow> {rst_action_id d})
      | KRefusal \<Rightarrow> (case de_refusal E (rec_data r) of None \<Rightarrow> {} | Some d \<Rightarrow> {rfs_target_id d})
      | KUsage \<Rightarrow>
          (case de_usage E (rec_data r) of None \<Rightarrow> {}
           | Some d \<Rightarrow> {usg_used_record d, usg_consuming_record d})
      | KPlan \<Rightarrow>
          (case de_plan E (rec_data r) of None \<Rightarrow> {}
           | Some d \<Rightarrow> \<Union>t \<in> set (pln_tasks d). set_option (tsk_result_record_id t))
      | KCandidate \<Rightarrow>
          (case de_candidate E (rec_data r) of None \<Rightarrow> {} | Some d \<Rightarrow> set_option (cnd_parent d))
      | KEvaluation \<Rightarrow>
          (case decode_evaluation E (rec_data r) of None \<Rightarrow> {} | Some d \<Rightarrow> {evl_candidate d})
          \<union> (case decode_evaluation_v2 E (rec_data r) of None \<Rightarrow> {}
             | Some d \<Rightarrow> insert (ev2_candidate d) (set (ev2_requirements d)))
      | KSelection \<Rightarrow>
          (case decode_selection E (rec_data r) of None \<Rightarrow> {} | Some d \<Rightarrow> set (sel_considered d))
      | _ \<Rightarrow> {})"

definition names_id :: "'z env_scheme \<Rightarrow> Record \<Rightarrow> RecordId \<Rightarrow> bool" where
  "names_id E r i \<longleftrightarrow> i \<in> ref_target ` set (rec_refs r) \<or> i \<in> payload_ids E r"

definition fresh_id :: "'z env_scheme \<Rightarrow> Record list \<Rightarrow> Record \<Rightarrow> bool" where
  "fresh_id E rs r \<longleftrightarrow>
     rec_id r \<notin> rec_id ` set rs \<and> (\<forall>t \<in> set (rs @ [r]). \<not> names_id E t (rec_id r))"

section \<open>Checks that do not look an id up\<close>

definition agree_off :: "RecordId \<Rightarrow> Prior \<Rightarrow> Prior \<Rightarrow> bool" where
  "agree_off i p q \<longleftrightarrow> (\<forall>j. j \<noteq> i \<longrightarrow> prior_find p j = prior_find q j)"

lemma agree_offD: "agree_off i p q \<Longrightarrow> j \<noteq> i \<Longrightarrow> prior_find p j = prior_find q j"
  by (simp add: agree_off_def)

lemma agree_off_snoc: "agree_off (rec_id r) (prior_of (rs @ [r])) (prior_of rs)"
  unfolding agree_off_def prior_of_find by (auto simp: scan_find_def find_append split: option.splits)

lemma map_filter_cong: "(\<And>x. x \<in> set xs \<Longrightarrow> f x = g x) \<Longrightarrow> List.map_filter f xs = List.map_filter g xs"
  by (induction xs) (auto simp: map_filter_simps split: option.split)

lemma refs_off:
  assumes "agree_off i p q" "i \<notin> ref_target ` set (rec_refs r)"
  shows "check_refs r p s = check_refs r q s" "check_replacement E r p s = check_replacement E r q s"
    "check_evidence C r p R s = check_evidence C r q R s"
    "resolve_causes p (cause_refs r) = resolve_causes q (cause_refs r)"
    "used_evaluations r p s = used_evaluations r q s"
proof -
  have eq: "prior_find p (ref_target e) = prior_find q (ref_target e)" if "e \<in> set (rec_refs r)" for e
    by (rule agree_offD [OF assms(1)]) (use that assms(2) in auto)
  show "check_refs r p s = check_refs r q s"
    unfolding check_refs_def
    by (rule arg_cong [where f = first_reason], rule map_cong [OF refl]) (simp add: check_ref_def eq)
  show "check_replacement E r p s = check_replacement E r q s"
  proof (cases "filter (\<lambda>e. ref_type e = RReplace) (rec_refs r)")
    case (Cons e es)
    then have "e \<in> set (filter (\<lambda>e. ref_type e = RReplace) (rec_refs r))" by simp
    then have "prior_find p (ref_target e) = prior_find q (ref_target e)" using eq by simp
    with Cons show ?thesis by (simp add: check_replacement_def split: list.split)
  qed (simp add: check_replacement_def)
  have "expected_evidence C r p s = expected_evidence C r q s"
    unfolding expected_evidence_def
    by (rule arg_cong [where f = "derive_evidence C (rec_schema r)"], rule map_filter_cong) (simp add: eq)
  then show "check_evidence C r p R s = check_evidence C r q R s" by (simp add: check_evidence_def)
  have "resolve_causes p es = resolve_causes q es" if "set es \<subseteq> set (rec_refs r)" for es
    using that by (induction es) (auto simp: eq split: option.split)
  then show "resolve_causes p (cause_refs r) = resolve_causes q (cause_refs r)"
    by (simp add: cause_refs_def)
  show "used_evaluations r p s = used_evaluations r q s"
    unfolding used_evaluations_def use_refs_def by (rule map_filter_cong) (simp add: eq)
qed

section \<open>Kind-specific checks\<close>

lemma cause_refs_off:
  assumes "agree_off i p q" "i \<notin> ref_target ` set (rec_refs r)" "t \<in> set (map ref_target (cause_refs r))"
  shows "prior_find p t = prior_find q t"
  by (rule agree_offD [OF assms(1)]) (use assms(2,3) in \<open>auto simp: cause_refs_def\<close>)

lemma request_off:
  assumes "agree_off i p q" "i \<notin> ref_target ` set (rec_refs r)"
  shows "check_request E r p s = check_request E r q s"
proof -
  have "map (check_request_parent r p s) (map ref_target (cause_refs r))
      = map (check_request_parent r q s) (map ref_target (cause_refs r))"
    by (rule map_cong [OF refl]) (simp add: check_request_parent_def cause_refs_off [OF assms])
  then show ?thesis unfolding check_request_def by (simp only: Let_def)
qed

lemma action_off:
  assumes "agree_off i p q" "replays E R rs s" "i \<notin> rec_id ` set rs"
  shows "check_action E r p s = check_action E r q s"
proof -
  note auth = authority.inv_replays [OF assms(2)] and work = work.inv_replays [OF assms(2)]
  have old: "prior_find p j = prior_find q j" if "j \<in> rec_id ` set rs" for j
    by (rule agree_offD [OF assms(1)]) (use that assms(3) in auto)
  have exact: "prior_find p j = prior_find q j" if "Mapping.lookup (st_valid_approvals s) h = Some j" for h j
    by (rule old [OF backs_in_log [OF conjunct1 [OF authority_backed_exact [OF auth that]]]])
  have cls: "prior_find p j = prior_find q j" if "Mapping.lookup (st_class_approvals s) k = Some j" for k j
    by (rule old [OF backs_in_log [OF authority_backed_class [OF auth that]]])
  have cap: "prior_find p j = prior_find q j" if "Mapping.lookup (st_active_capabilities s) k = Some j" for k j
    by (rule old [OF backs_in_log [OF authority_backed_cap [OF auth that]]])
  have req: "prior_find p j = prior_find q j" if "j \<in> st_active_requests s" for j
  proof (rule old)
    from that work have "j \<in> from_accepted asks s rs" by (auto simp: work_exact_def)
    then show "j \<in> rec_id ` set rs" by (auto simp: from_accepted_iff asks_def split: if_splits)
  qed
  have mode: "check_action_mode E r d c p s = check_action_mode E r d c q s" for d c
  proof -
    have ex: "exact_approval_match E r d p s h = exact_approval_match E r d q s h" for h
      unfolding exact_approval_match_def by (auto split: option.split simp: exact)
    have cl: "class_approval_match E r p s k = class_approval_match E r q s k" for k
      unfolding class_approval_match_def by (auto split: option.split simp: cls)
    show ?thesis unfolding check_action_mode_def check_approval_for_action_def ex cl by (rule refl)
  qed
  have "check_action_capability E r d p s c = check_action_capability E r d q s c"
    if "Mapping.lookup (st_active_capabilities s) k = Some c" for d c k
    unfolding check_action_capability_def mode cap [OF that] by (rule refl)
  then show ?thesis
    unfolding check_action_def by (auto split: option.split simp: req)
qed

lemma result_off:
  assumes "agree_off i p q" "i \<notin> payload_ids E r" "rec_kind r = KResult"
  shows "check_result E r p R s = check_result E r q R s"
proof (cases "de_result E (rec_data r)")
  case (Some d)
  with assms(2,3) have "prior_find p (rst_action_id d) = prior_find q (rst_action_id d)"
    by (intro agree_offD [OF assms(1)]) (auto simp: payload_ids_def)
  with Some show ?thesis by (simp add: check_result_def)
qed (simp add: check_result_def)

lemma refusal_off:
  assumes "agree_off i p q" "i \<notin> payload_ids E r" "rec_kind r = KRefusal"
  shows "check_refusal E r p s = check_refusal E r q s"
proof (cases "de_refusal E (rec_data r)")
  case (Some d)
  with assms(2,3) have "prior_find p (rfs_target_id d) = prior_find q (rfs_target_id d)"
    by (intro agree_offD [OF assms(1)]) (auto simp: payload_ids_def)
  with Some show ?thesis by (simp add: check_refusal_def)
qed (simp add: check_refusal_def)

lemma usage_off:
  assumes "agree_off i p q" "i \<notin> payload_ids E r" "rec_kind r = KUsage"
  shows "check_usage E r p s = check_usage E r q s"
proof (cases "de_usage E (rec_data r)")
  case (Some d)
  with assms(2,3) have "prior_find p (usg_used_record d) = prior_find q (usg_used_record d)"
    "prior_find p (usg_consuming_record d) = prior_find q (usg_consuming_record d)"
    by (intro agree_offD [OF assms(1)]; auto simp: payload_ids_def)+
  with Some show ?thesis by (simp add: check_usage_def)
qed (simp add: check_usage_def)

lemma response_off:
  assumes "agree_off i p q" "i \<notin> st_active_requests s"
  shows "check_response E r p s = check_response E r q s"
proof (cases "de_response E (rec_data r)")
  case (Some d)
  show ?thesis
  proof (cases "rsp_request_id d \<in> st_active_requests s")
    case True
    with assms(2) have "prior_find p (rsp_request_id d) = prior_find q (rsp_request_id d)"
      by (intro agree_offD [OF assms(1)]) auto
    with Some show ?thesis by (simp add: check_response_def Let_def)
  qed (use Some in \<open>simp add: check_response_def Let_def first_reason.simps\<close>)
qed (simp add: check_response_def)

lemma plan_off:
  assumes "agree_off i p q" "i \<notin> st_active_requests s" "i \<notin> payload_ids E r" "rec_kind r = KPlan"
    and old: "\<And>j t. prior_find q j = Some t \<Longrightarrow> j \<noteq> i \<Longrightarrow> rec_kind t = KResult \<Longrightarrow> i \<notin> payload_ids E t"
  shows "check_plan E r p s = check_plan E r q s"
proof (cases "de_plan E (rec_data r)")
  case (Some d)
  have task: "check_task_result E r d p s t = check_task_result E r d q s t" if t: "t \<in> set (pln_tasks d)" for t
  proof (cases "tsk_result_record_id t")
    case (Some j)
    then have "j \<in> payload_ids E r"
      using assms(4) \<open>de_plan E (rec_data r) = Some d\<close> t by (auto simp: payload_ids_def intro!: bexI [of _ t])
    then have j: "j \<noteq> i" using assms(3) by auto
    have eq: "prior_find p j = prior_find q j" by (rule agree_offD [OF assms(1) j])
    have "prior_find p (rst_action_id rd) = prior_find q (rst_action_id rd)"
      if "prior_find q j = Some rr" "rec_kind rr = KResult" "de_result E (rec_data rr) = Some rd" for rr rd
      by (rule agree_offD [OF assms(1)])
        (use old [OF that(1) j that(2)] that(2,3) in \<open>auto simp: payload_ids_def\<close>)
    with Some eq show ?thesis
      unfolding check_task_result_def by (auto split: option.split)
  qed (simp add: check_task_result_def)
  have tasks: "map (check_task_result E r d p s) (pln_tasks d) = map (check_task_result E r d q s) (pln_tasks d)"
    by (rule map_cong [OF refl]) (rule task)
  show ?thesis
  proof (cases "pln_request_id d \<in> st_active_requests s")
    case True
    with assms(2) have eq: "prior_find p (pln_request_id d) = prior_find q (pln_request_id d)"
      by (intro agree_offD [OF assms(1)]) auto
    show ?thesis unfolding check_plan_def Some option.case tasks eq by (rule refl)
  qed (use Some in \<open>simp add: check_plan_def first_reason.simps split: option.split\<close>)
qed (simp add: check_plan_def)

lemma retraction_off:
  assumes "agree_off i p q" "i \<notin> ref_target ` set (rec_refs r)"
  shows "check_retraction E r p R s = check_retraction E r q R s"
proof (cases "de_retraction E (rec_data r)")
  case (Some d)
  show ?thesis
  proof (cases "sole_cause r (rtr_target_id d)")
    case True
    then have "rtr_target_id d \<in> set (map ref_target (cause_refs r))" by (simp add: sole_cause_def)
    from cause_refs_off [OF assms this] Some show ?thesis by (simp add: check_retraction_def)
  qed (use Some in \<open>simp add: check_retraction_def first_reason.simps\<close>)
qed (simp add: check_retraction_def)

lemma resolve_candidate_off:
  "agree_off i p q \<Longrightarrow> j \<noteq> i \<Longrightarrow> resolve_candidate j r p s = resolve_candidate j r q s"
  unfolding resolve_candidate_def by (simp add: agree_offD)

lemma candidate_off:
  assumes "agree_off i p q" "i \<notin> ref_target ` set (rec_refs r)" "i \<notin> payload_ids E r" "rec_kind r = KCandidate"
  shows "check_candidate E r p R s = check_candidate E r q R s"
proof (cases "de_candidate E (rec_data r)")
  case (Some d)
  have "resolve_candidate j r p s = resolve_candidate j r q s" if "cnd_parent d = Some j" for j
    by (rule resolve_candidate_off [OF assms(1)]) (use assms(3,4) Some that in \<open>auto simp: payload_ids_def\<close>)
  then have "(case cnd_parent d of None \<Rightarrow> None | Some j \<Rightarrow> err_of (resolve_candidate j r p s))
      = (case cnd_parent d of None \<Rightarrow> None | Some j \<Rightarrow> err_of (resolve_candidate j r q s))"
    by (simp split: option.split)
  with Some show ?thesis
    unfolding check_candidate_def refs_off(4) [OF assms(1,2)] by simp
qed (simp add: check_candidate_def)

lemma evaluation_off:
  assumes "agree_off i p q" "i \<notin> payload_ids E r" "rec_kind r = KEvaluation"
  shows "check_evaluation E r p R s = check_evaluation E r q R s"
proof -
  have v1: "resolve_candidate (evl_candidate d) r p s = resolve_candidate (evl_candidate d) r q s"
    if "decode_evaluation E (rec_data r) = Some d" for d
    by (rule resolve_candidate_off [OF assms(1)]) (use assms(2,3) that in \<open>auto simp: payload_ids_def\<close>)
  have v2: "resolve_candidate (ev2_candidate d) r p s = resolve_candidate (ev2_candidate d) r q s"
    "map (check_requirement_binding r p s) (ev2_requirements d)
      = map (check_requirement_binding r q s) (ev2_requirements d)"
    if d: "decode_evaluation_v2 E (rec_data r) = Some d" for d
  proof -
    show "resolve_candidate (ev2_candidate d) r p s = resolve_candidate (ev2_candidate d) r q s"
      by (rule resolve_candidate_off [OF assms(1)]) (use assms(2,3) d in \<open>auto simp: payload_ids_def\<close>)
    have "check_requirement_binding r p s j = check_requirement_binding r q s j" if "j \<in> set (ev2_requirements d)" for j
    proof -
      have "prior_find p j = prior_find q j"
        by (rule agree_offD [OF assms(1)]) (use assms(2,3) d that in \<open>auto simp: payload_ids_def\<close>)
      then show ?thesis by (simp add: check_requirement_binding_def)
    qed
    then show "map (check_requirement_binding r p s) (ev2_requirements d)
      = map (check_requirement_binding r q s) (ev2_requirements d)" by simp
  qed
  have "check_evaluation_v2 E r p R s = check_evaluation_v2 E r q R s"
  proof (cases "decode_evaluation_v2 E (rec_data r)")
    case (Some d)
    show ?thesis unfolding check_evaluation_v2_def Some option.case v2 [OF Some] by (rule refl)
  qed (simp add: check_evaluation_v2_def)
  with v1 show ?thesis unfolding check_evaluation_def by (simp split: option.split)
qed

lemma requirement_off:
  assumes "agree_off i p q" "i \<notin> ref_target ` set (rec_refs r)"
  shows "check_requirement E r p s = check_requirement E r q s"
proof -
  consider "map ref_target (cause_refs r) = []" | j where "map ref_target (cause_refs r) = [j]"
    | j k js where "map ref_target (cause_refs r) = j # k # js"
    by (metis list.exhaust)
  then show ?thesis
  proof cases
    case 2
    then have eq: "prior_find p j = prior_find q j" by (intro cause_refs_off [OF assms]) simp
    show ?thesis unfolding check_requirement_def 2 list.case eq by (rule refl)
  qed (simp_all only: check_requirement_def list.case)
qed

lemma selection_off:
  assumes off: "agree_off i p q" and refs: "i \<notin> ref_target ` set (rec_refs r)"
    and payload: "i \<notin> payload_ids E r" "rec_kind r = KSelection"
  shows "check_selection E r p R s = check_selection E r q R s"
proof (cases "decode_selection E (rec_data r)")
  case (Some d)
  with payload have d: "j \<noteq> i" if "j \<in> set (sel_considered d)" for j
    using that by (auto simp: payload_ids_def)
  have considered: "map (\<lambda>c. err_of (resolve_candidate c r p s)) (sel_considered d)
      = map (\<lambda>c. err_of (resolve_candidate c r q s)) (sel_considered d)"
    by (rule map_cong [OF refl]) (simp add: resolve_candidate_off [OF off d])
  have winners: "check_winners E d p R n cs = check_winners E d q R n cs" for n cs
  proof (cases "set cs \<subseteq> set (sel_considered d)")
    case True
    have "map (check_winner_binding E p) (sorted_list_of_set (set cs))
        = map (check_winner_binding E q) (sorted_list_of_set (set cs))"
      by (rule map_cong [OF refl]) (use True agree_offD [OF off d] in \<open>auto simp: check_winner_binding_def\<close>)
    then show ?thesis by (simp only: check_winners_def)
  qed (simp add: check_winners_def first_reason.simps)
  have approval: "resolve_selection_approval E r d p R s = resolve_selection_approval E r d q R s"
  proof -
    have "prior_find p j = prior_find q j" if "requires (rec_refs r) j" for j
      by (rule agree_offD [OF off]) (use that refs in \<open>auto simp: requires_def list_ex_iff\<close>)
    then show ?thesis unfolding resolve_selection_approval_def by (auto split: option.split)
  qed
  have again: "check_reaffirmation E r d p R = check_reaffirmation E r d q R"
  proof (cases "find_replace_ref (rec_refs r)")
    case (Some j)
    then have "j \<in> ref_target ` set (rec_refs r)"
      unfolding find_replace_ref_def by (auto dest!: find_SomeD)
    then have "prior_find p j = prior_find q j" by (intro agree_offD [OF off]) (use refs in auto)
    with Some show ?thesis by (simp add: check_reaffirmation_def)
  qed (simp add: check_reaffirmation_def)
  show ?thesis
    unfolding check_selection_def Some option.case refs_off(5) [OF off refs] considered winners approval again
    by (rule refl)
qed (simp add: check_selection_def)

section \<open>The whole check\<close>

lemma fresh_idD:
  assumes "fresh_id E rs r"
  shows "rec_id r \<notin> rec_id ` set rs" "rec_id r \<notin> ref_target ` set (rec_refs r)"
    "rec_id r \<notin> payload_ids E r" "t \<in> set rs \<Longrightarrow> rec_id r \<notin> payload_ids E t"
    "t \<in> set rs \<Longrightarrow> rec_id r \<notin> ref_target ` set (rec_refs t)"
  using assms by (auto simp: fresh_id_def names_id_def)

lemma active_in_log:
  assumes "replays E R rs s"
  shows "st_active_requests s \<subseteq> rec_id ` set rs"
proof
  fix j assume "j \<in> st_active_requests s"
  with work.inv_replays [OF assms] have "j \<in> from_accepted asks s rs" by (auto simp: work_exact_def)
  then show "j \<in> rec_id ` set rs" by (auto simp: from_accepted_iff asks_def split: if_splits)
qed

lemma check_record_fresh:
  assumes "replays E R rs s" "fresh_id E rs r" "rec_kind r \<noteq> KVerdict"
  shows "check_record E r (prior_of (rs @ [r])) R s = check_record E r (prior_of rs) R s"
proof -
  let ?p = "prior_of (rs @ [r])" and ?q = "prior_of rs"
  note off = agree_off_snoc [of r rs] and fresh = fresh_idD [OF assms(2)]
  note refs = refs_off [OF off fresh(2)]
  have active: "rec_id r \<notin> st_active_requests s"
    using active_in_log [OF assms(1)] fresh(1) by blast
  have old: "rec_id r \<notin> payload_ids E t" if "prior_find ?q j = Some t" for j t
    using that fresh(4) unfolding prior_of_find scan_find_def by (auto dest: find_SomeD)
  have kind: "check_kind_specific E r ?p R s = check_kind_specific E r ?q R s"
    unfolding check_kind_specific_def
    using request_off [OF off fresh(2)] action_off [OF off assms(1) fresh(1)] result_off [OF off fresh(3)]
      refusal_off [OF off fresh(3)] usage_off [OF off fresh(3)] response_off [OF off active]
      plan_off [OF off active fresh(3) _ old] retraction_off [OF off fresh(2)]
      candidate_off [OF off fresh(2,3)] evaluation_off [OF off fresh(3)]
      selection_off [OF off fresh(2,3)] requirement_off [OF off fresh(2)]
    by (cases "rec_kind r") simp_all
  show ?thesis
    using assms(3) by (simp only: check_record_def refs kind if_False)
qed

end
