(* ===== verification/Fold_Total.thy ===== *)
theory Fold_Total
  imports Fresh_Ids Record_Laws
begin

text \<open>
  The state fold is total on what the verifier accepts: under the frozen kind-to-schema map an
  accepted record has a payload that decodes and hashes, so \<open>apply_record\<close> never fails on it.
\<close>

section \<open>Canonical forms of sequences\<close>

lemma write_items_iff: "write_items C vs = None \<longleftrightarrow> (\<exists>v \<in> set vs. write_jcs C v = None)"
  by (induction vs) (auto split: option.splits)

lemma hash_array:
  "sha256_canonical C (JArray vs) = None \<longleftrightarrow> (\<exists>v \<in> set vs. canonical_json C v = None)"
  by (auto simp: sha256_canonical_def canonical_json_def write_items_iff)

lemma canonical_string [simp]: "canonical_json C (JString s) \<noteq> None"
  by (simp add: canonical_json_def)

lemma canonical_bytes [simp]: "canonical_json C (ser_bytes bs) \<noteq> None"
  using canonical_json_total [of "ser_bytes bs" C] by auto

lemma canonical_option [simp]: "canonical_json C (ser_option ser_bytes x) \<noteq> None"
  by (cases x) (simp_all add: canonical_json_def [of C JNull])

section \<open>Schemas of a kind\<close>

lemma lookup_fold_update:
  assumes "Mapping.lookup (fold (\<lambda>(n, k). Mapping.update (f n) k) xs m) i = Some k"
  shows "(\<exists>n. (n, k) \<in> set xs \<and> f n = i) \<or> Mapping.lookup m i = Some k"
  using assms
proof (induction xs arbitrary: m)
  case (Cons x xs)
  then show ?case by (cases x) (fastforce split: if_splits)
qed simp

definition schema_hashes_distinct :: "'z crates_scheme \<Rightarrow> bool" where
  "schema_hashes_distinct C \<longleftrightarrow> inj_on (schema_id C) (set ALL_SCHEMAS)"

definition frozen_rules :: "'z crates_scheme \<Rightarrow> VerifierRules \<Rightarrow> bool" where
  "frozen_rules C R \<longleftrightarrow> vr_kind_schema_map R = frozen_kind_schema_map C"

lemma frozen_kind:
  assumes "Mapping.lookup (frozen_kind_schema_map C) i = Some k"
  shows "k = KCapability \<Longrightarrow> i = schema_id C SCHEMA_CAPABILITY"
    "k = KAction \<Longrightarrow> i = schema_id C SCHEMA_ACTION" "k = KSelection \<Longrightarrow> i = schema_id C SCHEMA_SELECTION"
  using lookup_fold_update [OF assms [unfolded frozen_kind_schema_map_def]] by auto

lemma decode_order_find:
  assumes "schema_hashes_distinct C" "n \<in> set decode_order"
  shows "List.find (\<lambda>m. schema_id C n = schema_id C m) decode_order = Some n"
proof -
  have "set decode_order = set ALL_SCHEMAS" by (auto simp: decode_order_def ALL_SCHEMAS_def)
  moreover have "distinct decode_order" by (simp add: decode_order_def schema_names)
  ultimately have "distinct (map (schema_id C) decode_order)"
    using assms(1) by (simp add: distinct_map schema_hashes_distinct_def)
  from find_distinct_map [OF this assms(2)] show ?thesis by (simp add: eq_commute)
qed

lemma accepted_payload:
  assumes "check_envelope E r R = None" "check_payload_decode E r = None" "frozen_rules E R"
    "schema_hashes_distinct E"
  shows "rec_kind r = KCapability \<Longrightarrow> payload_canonical E SCHEMA_CAPABILITY (rec_data r)"
    "rec_kind r = KAction \<Longrightarrow> payload_canonical E SCHEMA_ACTION (rec_data r)"
    "rec_kind r = KSelection \<Longrightarrow> payload_canonical E SCHEMA_SELECTION (rec_data r)"
proof -
  from assms(1,3) have kind: "Mapping.lookup (frozen_kind_schema_map E) (rec_schema r) = Some (rec_kind r)"
    by (auto simp: check_envelope_def frozen_rules_def split: option.splits)
  have "payload_canonical E n (rec_data r)" if "rec_schema r = schema_id E n" "n \<in> set decode_order" for n
    using assms(2) decode_order_find [OF assms(4) that(2)] that(1) by (simp add: check_payload_decode_def)
  moreover have "SCHEMA_CAPABILITY \<in> set decode_order" "SCHEMA_ACTION \<in> set decode_order"
    "SCHEMA_SELECTION \<in> set decode_order" by (simp_all add: decode_order_def)
  ultimately show "rec_kind r = KCapability \<Longrightarrow> payload_canonical E SCHEMA_CAPABILITY (rec_data r)"
    "rec_kind r = KAction \<Longrightarrow> payload_canonical E SCHEMA_ACTION (rec_data r)"
    "rec_kind r = KSelection \<Longrightarrow> payload_canonical E SCHEMA_SELECTION (rec_data r)"
    using frozen_kind [OF kind] by blast+
qed

section \<open>Accepted records fold\<close>

lemma payload_capability: "payload_canonical E SCHEMA_CAPABILITY data \<Longrightarrow> de_capability E data \<noteq> None"
  by (simp add: payload_canonical_def schema_names decodes_canonically_def split: option.splits)

lemma payload_action:
  "payload_canonical E SCHEMA_ACTION data \<Longrightarrow> de_action E data = Some d \<Longrightarrow> canonical_json E (action_json d) \<noteq> None"
  by (simp add: payload_canonical_def schema_names decodes_canonically_def split: option.splits)

lemma payload_selection:
  "payload_canonical E SCHEMA_SELECTION data \<Longrightarrow> decode_selection E data = Some d
   \<Longrightarrow> canonical_json E (selection_json d) \<noteq> None"
  by (simp add: payload_canonical_def schema_names decodes_canonically_def split: option.splits)

lemma summary_key_hash_Some: "summary_key_hash E d \<noteq> None"
proof -
  have "canonical_json E (summary_type_json (sum_summary_type d)) \<noteq> None"
    by (cases "sum_summary_type d") simp_all
  then show ?thesis by (auto simp: summary_key_hash_def hash_array)
qed

lemma accepted_applies:
  assumes acc: "check_record E r p R s = None" and kind: "rec_kind r \<noteq> KVerdict"
    and rules: "frozen_rules E R" "schema_hashes_distinct E"
  shows "apply_record E s0 r (verdict_of None) \<noteq> None"
proof -
  note checks = check_record_None [OF acc kind]
  note payload = accepted_payload [OF checks(1,7) rules]
  have "apply_kind E r s1 \<noteq> None" for s1
  proof (cases "rec_kind r")
    case KAction
    then obtain d where d: "de_action E (rec_data r) = Some d"
      using checks(8) by (auto simp: check_kind_specific_def check_action_def split: option.splits)
    then have "action_approval_hash E (au_id (rec_author r)) d \<noteq> None"
      using payload_action [OF payload(2) [OF KAction] d] by (auto simp: action_approval_hash_def hash_array)
    with KAction d show ?thesis by (auto simp: apply_kind_def apply_action_def)
  next
    case KSelection
    then obtain d where d: "decode_selection E (rec_data r) = Some d"
      using checks(8) by (auto simp: check_kind_specific_def check_selection_def split: option.splits)
    then have "selection_approval_subject_hash E (au_id (rec_author r)) (find_replace_ref (rec_refs r)) d \<noteq> None"
      using payload_selection [OF payload(3) [OF KSelection] d]
      by (auto simp: selection_approval_subject_hash_def hash_array)
    with KSelection d show ?thesis by (auto simp: apply_kind_def apply_selection_def)
  next
    case KCapability
    then show ?thesis
      using payload_capability [OF payload(1)] by (auto simp: apply_kind_def apply_capability_def Let_def)
  qed (use checks(8) in
      \<open>auto simp: summary_key_hash_Some check_kind_specific_def check_result_def check_refusal_def check_usage_def check_summary_def
        check_response_def check_approval_def check_plan_def check_retraction_def check_requirement_def
        apply_kind_def arm_defs Let_def split: option.splits\<close>)
  then show ?thesis by (simp add: apply_record_def apply_accepted_def verdict_of_def)
qed

end
