(* ===== verification/Receipt_Laws.thy ===== *)
theory Receipt_Laws
  imports Receipts Acceptance Fold_Total
begin

text \<open>
  What a report says: validation reaches replay exactly when the structure of the receipt is in
  order, its verdict is that of \<open>verify_log\<close> under the rules of the receipt's epoch, and profiles are
  reported beside it.
\<close>

section \<open>Validation is replay\<close>

lemma failure_is_invalid:
  "rep_problem (structural_failure p v) = Some p" "rep_status (structural_failure p v) = Invalid"
  "rep_profiles (structural_failure p v) = []"
  by (simp_all add: structural_failure_def)

lemma replay_report_no_problem: "rep_problem (replay_report E rc R h) = None"
  by (simp add: replay_report_def Let_def)

text \<open>No evaluator reads the profiles of a report.\<close>

lemma evaluate_profile_ignores [simp]:
  "evaluate_profile E i rc (rep\<lparr>rep_profiles := x\<rparr>) = evaluate_profile E i rc rep"
proof -
  have core: "evaluate_core_v1 E rc (rep\<lparr>rep_profiles := x\<rparr>) = evaluate_core_v1 E rc rep"
    by (simp add: evaluate_core_v1_def)
  moreover have *: "core_clause E j rc (rep\<lparr>rep_profiles := x\<rparr>) = core_clause E j rc rep" for j
    unfolding core_clause_def core_result_def core by (rule refl)
  moreover have "evaluate_delivery_v1 E rc (rep\<lparr>rep_profiles := x\<rparr>) = evaluate_delivery_v1 E rc rep"
  proof -
    have "pick_claim (rep\<lparr>rep_profiles := x\<rparr>) = pick_claim rep"
      by (simp add: fun_eq_iff pick_claim_def claim_sound_def)
    then have claims: "evaluated_claims (rep\<lparr>rep_profiles := x\<rparr>) = evaluated_claims rep"
      "superseded_claims (rep\<lparr>rep_profiles := x\<rparr>) = superseded_claims rep"
      by (simp_all add: fun_eq_iff evaluated_claims_def superseded_claims_def)
    have fields: "rep_status (rep\<lparr>rep_profiles := x\<rparr>) = rep_status rep"
      "rep_retracted_records (rep\<lparr>rep_profiles := x\<rparr>) = rep_retracted_records rep"
      "clause_d7 (rep\<lparr>rep_profiles := x\<rparr>) = clause_d7 rep"
      by (simp_all add: fun_eq_iff clause_d7_def standing_notes_def)
    show ?thesis unfolding evaluate_delivery_v1_def claims fields * by (rule refl)
  qed
  moreover have "evaluate_signed_v1 E rc (rep\<lparr>rep_profiles := x\<rparr>) = evaluate_signed_v1 E rc rep"
    unfolding evaluate_signed_v1_def * by simp
  ultimately show ?thesis by (simp add: evaluate_profile_def)
qed

lemma evaluate_profiles_ignores [simp]:
  "evaluate_profiles E rc (rep\<lparr>rep_profiles := x\<rparr>) ps = evaluate_profiles E rc rep ps"
proof -
  have "add_required E rc (rep\<lparr>rep_profiles := x\<rparr>) = add_required E rc rep"
    by (simp add: fun_eq_iff add_required_def)
  then show ?thesis by (simp add: evaluate_profiles_def evaluate_declared_def)
qed

definition replayable :: "'z env_scheme \<Rightarrow> Receipt \<Rightarrow> ValidationLimits \<Rightarrow> VerifierRules \<Rightarrow> hash256 \<Rightarrow> bool" where
  "replayable E rc limits R h \<longleftrightarrow>
     length (rcp_records rc) \<le> vl_max_records limits \<and> check_record_limits limits 0 (rcp_records rc) = None
     \<and> map_option (rules_for_epoch E (rcp_rules rc)) (schemas_for_epoch (rcp_spec_version rc)) = Some R
     \<and> check_declarations rc = None \<and> rules_hash E (rcp_rules rc) = Some h"

lemma validate_receipt_replays:
  assumes "replayable E rc limits R h"
  shows "validate_receipt E rc limits = replay_report E rc R h"
  using assms by (auto simp: replayable_def validate_receipt_def rules_hash_def)

lemma validate_receipt_cases:
  obtains (fails) p v where "validate_receipt E rc limits = structural_failure p v"
  | (replays) R h where "replayable E rc limits R h" "validate_receipt E rc limits = replay_report E rc R h"
proof (cases "\<exists>R h. replayable E rc limits R h")
  case True
  then show thesis using validate_receipt_replays that(2) by blast
next
  case False
  then have "\<exists>p v. validate_receipt E rc limits = structural_failure p v"
    unfolding validate_receipt_def replayable_def rules_hash_def
    by (auto split: option.splits simp: not_less)
  then show thesis using that(1) by blast
qed

lemma validated:
  assumes "rep = validate_with_profiles E from_bytes bytes limits ps" "rep_problem rep = None"
  obtains rc R h where "from_bytes bytes = Some rc" "length bytes \<le> vl_max_bytes limits" "replayable E rc limits R h"
    "rep = replay_report E rc R h\<lparr>rep_profiles := evaluate_profiles E rc (replay_report E rc R h) ps\<rparr>"
proof -
  have *: "validate_with_profiles E from_bytes bytes limits ps = structural_failure p v"
    if "validate_with_limits E from_bytes bytes limits = structural_failure p v" for p v
    using that by (simp add: validate_with_profiles_def Let_def structural_failure_def)
  have failed: "validate_with_limits E from_bytes bytes limits \<noteq> structural_failure p v" for p v
    using * [of p v] assms by (auto simp: structural_failure_def)
  then obtain rc where rc: "from_bytes bytes = Some rc" "length bytes \<le> vl_max_bytes limits"
    "validate_with_limits E from_bytes bytes limits = validate_receipt E rc limits"
    using failed [of "SizeLimit (length bytes) (vl_max_bytes limits)" "[]"] failed [of Unparseable "[]"]
    by (cases "vl_max_bytes limits < length bytes"; cases "from_bytes bytes") (simp_all add: validate_with_limits_def)
  then show thesis
  proof (cases rule: validate_receipt_cases [of E rc limits])
    case (replays R h)
    have "evaluate_profiles E rc (replay_report E rc R h) [] = rep_profiles (replay_report E rc R h)"
      by (simp only: replay_report_def Let_def evaluate_profiles_ignores) simp
    then have "rep = replay_report E rc R h\<lparr>rep_profiles := evaluate_profiles E rc (replay_report E rc R h) ps\<rparr>"
      using assms(1) rc replays(2) replay_report_no_problem [of E rc R h]
      by (auto simp: validate_with_profiles_def Let_def)
    then show thesis using that rc(1,2) replays(1) by blast
  qed (use failed in simp)
qed

lemma report_fields:
  fixes E rc R h x
  defines "rep \<equiv> replay_report E rc R h\<lparr>rep_profiles := x\<rparr>"
  shows "rep_status rep \<noteq> Invalid \<longleftrightarrow> log_shape E (rcp_records rc) \<and> (\<exists>s. replays E R (rcp_records rc) s)"
    and "rep_head_hash rep = sha256_concat_ids E (map rec_id (rcp_records rc))" and "rep_rules_hash rep = h"
    and "rep_spec_version rep = rcp_spec_version rc" and "rep_record_count rep = of_nat (length (rcp_records rc))"
    and "log_shape E (rcp_records rc) \<Longrightarrow> replays E R (rcp_records rc) s \<Longrightarrow>
      rep_reason rep = None \<and> rep_retracted_records rep = st_retracted_records s
      \<and> rep_tainted_records rep = st_tainted_records s \<and> rep_standing rep = derive_standing E (rcp_records rc) s
      \<and> (rep_status rep = Clean \<longleftrightarrow> st_retracted_records s = {} \<and> st_tainted_records s = {})"
proof -
  have "status_of_verdict v \<noteq> Invalid \<longleftrightarrow> lv_result v = Accept" for v
    by (auto simp: status_of_verdict_def split: VerdictResult.splits)
  then show "rep_status rep \<noteq> Invalid \<longleftrightarrow> log_shape E (rcp_records rc) \<and> (\<exists>s. replays E R (rcp_records rc) s)"
    by (simp add: rep_def replay_report_def Let_def verify_log_genesis)
  show "rep_head_hash rep = sha256_concat_ids E (map rec_id (rcp_records rc))" "rep_rules_hash rep = h"
    "rep_spec_version rep = rcp_spec_version rc" "rep_record_count rep = of_nat (length (rcp_records rc))"
    by (simp_all add: rep_def replay_report_def Let_def)
  assume "log_shape E (rcp_records rc)" "replays E R (rcp_records rc) s"
  from verify_log_Accept_fields [OF this] show
    "rep_reason rep = None \<and> rep_retracted_records rep = st_retracted_records s
      \<and> rep_tainted_records rep = st_tainted_records s \<and> rep_standing rep = derive_standing E (rcp_records rc) s
      \<and> (rep_status rep = Clean \<longleftrightarrow> st_retracted_records s = {} \<and> st_tainted_records s = {})"
    by (simp add: rep_def replay_report_def Let_def status_of_verdict_def)
qed

section \<open>Exported receipts\<close>

lemma rules_for_current_epoch:
  assumes "Mapping.keys (vr_kind_schema_map R) \<subseteq> schema_id C ` set ALL_SCHEMAS"
  shows "rules_for_epoch C R ALL_SCHEMAS = R"
proof -
  have "Mapping.filter (\<lambda>schema _. schema \<in> set (map (schema_id C) ALL_SCHEMAS)) (vr_kind_schema_map R) = vr_kind_schema_map R"
  proof (rule mapping_eqI)
    fix k
    show "Mapping.lookup (Mapping.filter (\<lambda>schema _. schema \<in> set (map (schema_id C) ALL_SCHEMAS)) (vr_kind_schema_map R)) k
        = Mapping.lookup (vr_kind_schema_map R) k"
      using assms unfolding keys_dom_lookup by (auto simp: lookup_filter split: option.splits)
  qed
  then show ?thesis by (simp add: rules_for_epoch_def)
qed

lemma profile_ref_id: "profile_ref C i = Some decl \<Longrightarrow> pr_id decl = i"
  by (auto simp: profile_ref_def profile_table_def core_v1_table_def delivery_v1_table_def signed_v1_table_def
    split: if_splits)

lemma profile_ref_known: "i \<in> set known_profiles \<Longrightarrow> \<exists>decl. profile_ref C i = Some decl"
  by (auto simp: known_profiles_def profile_ref_def profile_table_def)

lemma declared_profiles:
  assumes "with_declared_profiles C rc is = Inr rc'" "distinct (map pr_id (rcp_profiles rc))"
  shows "\<exists>decls. rc' = rc\<lparr>rcp_profiles := rcp_profiles rc @ decls\<rparr> \<and> map (profile_ref C) is = map Some decls
     \<and> map pr_id decls = is \<and> distinct (map pr_id (rcp_profiles rc @ decls))"
  using assms
proof (induction "is" arbitrary: rc)
  case Nil
  then show ?case by simp
next
  case (Cons i "is")
  from Cons.prems(1) obtain decl where decl: "profile_ref C i = Some decl" "i \<notin> pr_id ` set (rcp_profiles rc)"
    "with_declared_profiles C (rc\<lparr>rcp_profiles := rcp_profiles rc @ [decl]\<rparr>) is = Inr rc'"
    by (auto split: if_splits option.splits)
  have i: "pr_id decl = i" by (rule profile_ref_id [OF decl(1)])
  with Cons.IH [OF decl(3)] Cons.prems(2) decl(2) obtain decls where
    "rc' = rc\<lparr>rcp_profiles := rcp_profiles rc @ decl # decls\<rparr>" "map (profile_ref C) is = map Some decls"
    "map pr_id decls = is" "distinct (map pr_id (rcp_profiles rc @ decl # decls))"
    by auto
  then show ?case using decl(1) i by (intro exI [of _ "decl # decls"]) simp
qed

lemma known_ids_nonempty: "profile_ref C i = Some d \<Longrightarrow> i \<noteq> []"
  by (auto simp: profile_ref_def profile_table_def profile_ids split: if_splits)

lemma check_declared_ids_None:
  assumes "distinct (map pr_id decls)" "[] \<notin> pr_id ` set decls" "pr_id ` set decls \<inter> seen = {}"
  shows "check_declared_ids n seen decls = None"
  using assms by (induction decls arbitrary: n seen) auto

lemma member_canonical:
  assumes "canonical_json C (JObject ms) \<noteq> None" "(k, v) \<in> set ms"
  shows "canonical_json C v \<noteq> None"
proof -
  have "write_members C ms = None" if "(k, v) \<in> set ms" "write_jcs C v = None" for ms
    using that by (induction ms) (auto split: option.splits)
  from this [OF assms(2)] assms(1) show ?thesis by (cases "write_jcs C v") (auto simp: canonical_json_def)
qed

lemma check_record_limits_None:
  assumes "\<forall>r \<in> set rs. length (rec_data r) \<le> vl_max_payload_bytes limits \<and> length (rec_refs r) \<le> vl_max_refs_per_record limits"
  shows "check_record_limits limits n rs = None"
  using assms by (induction rs arbitrary: n) (simp_all add: not_less)

lemma exported_replayable:
  assumes keys: "Mapping.keys (vr_kind_schema_map R) \<subseteq> schema_id E ` set ALL_SCHEMAS"
    and decl: "with_declared_profiles E (receipt_new rs R) ids = Inr rc" and bytes: "to_bytes E rc \<noteq> None"
    and lim: "length rs \<le> vl_max_records limits"
      "\<forall>r \<in> set rs. length (rec_data r) \<le> vl_max_payload_bytes limits \<and> length (rec_refs r) \<le> vl_max_refs_per_record limits"
  obtains h decls where "replayable E rc limits R h" "rcp_records rc = rs" "rcp_profiles rc = decls"
    "map (profile_ref E) ids = map Some decls" "map pr_id decls = ids" "distinct ids"
proof -
  obtain decls where d: "rc = receipt_new rs R\<lparr>rcp_profiles := decls\<rparr>" "map (profile_ref E) ids = map Some decls"
    "map pr_id decls = ids" "distinct ids"
    using declared_profiles [OF decl] by (auto simp: receipt_new_def)
  have rc: "rcp_records rc = rs" "rcp_profiles rc = decls" "rcp_rules rc = R" "rcp_spec_version rc = SPEC_VERSION"
    by (simp_all add: d(1) receipt_new_def)
  have "profile_ref E i \<noteq> None" if "i \<in> set ids" for i
    using d(2) that by (metis image_eqI list.set_map option.distinct(1) imageE)
  then have "[] \<notin> pr_id ` set decls" using known_ids_nonempty d(3) by (metis list.set_map option.collapse)
  then have "check_declarations rc = None"
    using d(3,4) check_declared_ids_None [of decls "{}" 0]
    by (simp add: check_declarations_def rc SPEC_VERSION_def PROFILE_DECLARATIONS_SINCE_def SUPPORTED_SPEC_VERSIONS_def)
  moreover have "canonical_json E (rules_json R) \<noteq> None"
    using bytes unfolding to_bytes_def receipt_json_def rc(3) by (rule member_canonical [where k = "''rules''"]) simp
  then obtain h where "rules_hash E R = Some h" by (auto simp: rules_hash_def sha256_canonical_def)
  moreover have "schemas_for_epoch SPEC_VERSION = Some ALL_SCHEMAS" by (simp add: schemas_for_epoch_def SPEC_VERSION_def)
  ultimately have "replayable E rc limits R h"
    using lim check_record_limits_None rules_for_current_epoch [OF keys] by (simp add: replayable_def rc)
  then show thesis using that rc(1,2) d(2-4) by blast
qed

lemma problem_reported:
  assumes "rep_problem (validate_with_profiles E from_bytes bytes limits ps) \<noteq> None"
  shows "rep_status (validate_with_profiles E from_bytes bytes limits ps) = Invalid"
    "rep_profiles (validate_with_profiles E from_bytes bytes limits ps) = []"
proof -
  have "rep_status (validate_with_limits E from_bytes bytes limits) = Invalid
      \<and> rep_profiles (validate_with_limits E from_bytes bytes limits) = []"
    if problem: "rep_problem (validate_with_limits E from_bytes bytes limits) \<noteq> None"
  proof (cases "vl_max_bytes limits < length bytes")
    case True
    then show ?thesis by (simp add: validate_with_limits_def failure_is_invalid)
  next
    case False
    show ?thesis
    proof (cases "from_bytes bytes")
      case None
      with False show ?thesis by (simp add: validate_with_limits_def failure_is_invalid)
    next
      case (Some rc)
      with False have rc: "validate_with_limits E from_bytes bytes limits = validate_receipt E rc limits"
        by (simp add: validate_with_limits_def)
      show ?thesis
        by (cases rule: validate_receipt_cases [of E rc limits])
          (use problem in \<open>simp_all add: rc failure_is_invalid replay_report_no_problem\<close>)
    qed
  qed
  with assms show "rep_status (validate_with_profiles E from_bytes bytes limits ps) = Invalid"
    "rep_profiles (validate_with_profiles E from_bytes bytes limits ps) = []"
    by (auto simp: validate_with_profiles_def Let_def split: if_splits option.splits)
qed

lemma replay_report_profiles:
  "rep_profiles (replay_report E rc R h) = evaluate_profiles E rc (replay_report E rc R h) []"
  by (simp only: replay_report_def Let_def evaluate_profiles_ignores) simp

section \<open>The rules of an epoch\<close>

text \<open>
  \<open>epoch_rules C rc R\<close>: \<open>R\<close> are the rules of the receipt, but with the schemas of the receipt's epoch
  only; \<open>epoch_schemas\<close> writes these out.
\<close>

definition epoch_schemas :: "string \<Rightarrow> string set" where
  "epoch_schemas v =
     (let v03 = {''bellbook.request.v1'', ''bellbook.action.v1'', ''bellbook.response.v1'', ''bellbook.result.v1'',
         ''bellbook.result.external_receipt.v1'', ''bellbook.result.effect_confirmation.v1'', ''bellbook.capability.v1'',
         ''bellbook.approval.v1'', ''bellbook.summary.v1'', ''bellbook.refusal.v1'', ''bellbook.usage.v1'',
         ''bellbook.verdict.v1'', ''bellbook.plan.v1'', ''bellbook.retraction.v1'', ''bellbook.candidate.v1'',
         ''bellbook.evaluation.v1'', ''bellbook.selection.v1''}
      in if v = ''0.3'' then v03
         else if v = ''0.4''
         then v03 \<union> {''bellbook.requirement.v1'', ''bellbook.evaluation.v2'', ''bellbook.evaluation.attested.v1''}
         else {})"

definition epoch_rules :: "'z crates_scheme \<Rightarrow> Receipt \<Rightarrow> VerifierRules \<Rightarrow> bool" where
  "epoch_rules C rc R \<longleftrightarrow>
     rcp_spec_version rc \<in> {''0.3'', ''0.4''}
     \<and> R\<lparr>vr_kind_schema_map := vr_kind_schema_map (rcp_rules rc)\<rparr> = rcp_rules rc
     \<and> (\<forall>h k. Mapping.lookup (vr_kind_schema_map R) h = Some k \<longleftrightarrow>
          Mapping.lookup (vr_kind_schema_map (rcp_rules rc)) h = Some k
          \<and> h \<in> schema_id C ` epoch_schemas (rcp_spec_version rc))"

lemma schemas_of_epoch:
  "schemas_for_epoch v = Some names \<longleftrightarrow> v = ''0.3'' \<and> names = SCHEMAS_V03 \<or> v = ''0.4'' \<and> names = ALL_SCHEMAS"
  by (auto simp: schemas_for_epoch_def)

lemma epoch_schemas_set: "schemas_for_epoch v = Some names \<Longrightarrow> set names = epoch_schemas v"
  unfolding schemas_of_epoch
  by (elim disjE) (simp_all add: epoch_schemas_def SCHEMAS_V03_def ALL_SCHEMAS_def schema_names Let_def insert_commute)

lemma rules_of_epoch:
  assumes "schemas_for_epoch (rcp_spec_version rc) = Some names"
  shows "epoch_rules C rc (rules_for_epoch C (rcp_rules rc) names)"
  using assms epoch_schemas_set [OF assms]
  by (auto simp: epoch_rules_def rules_for_epoch_def lookup_filter schemas_of_epoch split: option.splits)

lemma epoch_rules_unique:
  assumes "epoch_rules C rc R" "epoch_rules C rc R'"
  shows "R = R'"
proof -
  have "Mapping.lookup (vr_kind_schema_map R) h = Some k \<longleftrightarrow> Mapping.lookup (vr_kind_schema_map R') h = Some k" for h k
    using assms unfolding epoch_rules_def by blast
  then have "Mapping.lookup (vr_kind_schema_map R) h = Mapping.lookup (vr_kind_schema_map R') h" for h
    by (metis option.exhaust)
  then have "vr_kind_schema_map R = vr_kind_schema_map R'" by (intro mapping_eqI)
  moreover have "R\<lparr>vr_kind_schema_map := m\<rparr> = R'\<lparr>vr_kind_schema_map := m\<rparr>" if "m = vr_kind_schema_map (rcp_rules rc)" for m
    using assms that by (simp add: epoch_rules_def)
  ultimately show ?thesis by (cases R; cases R') simp
qed

end
