(* ===== verification/Profile_Laws.thy ===== *)
theory Profile_Laws
  imports Receipt_Laws
begin

text \<open>
  What conformance to a profile means for the records of the receipt.
\<close>

section \<open>The reported results\<close>

lemma evaluate_profile_identity [simp]: "prs_id (evaluate_profile E i rc rep) = i"
  by (simp add: evaluate_profile_def core.identity signed.identity delivery.identity)

lemma compare_declaration_sel [simp]:
  "prs_id (compare_declaration decl p) = prs_id p" "prs_status (compare_declaration decl p) = prs_status p"
  "prs_declared (compare_declaration decl p)"
  by (simp_all add: compare_declaration_def)

lemma fold_add_required:
  assumes "\<forall>p \<in> set out. P p" "\<And>i. P (evaluate_profile E i rc rep)"
  shows "\<forall>p \<in> set (fold (add_required E rc rep) ps out). P p"
  using assms(1)
proof (induction ps arbitrary: out)
  case (Cons i ps)
  from Cons.prems have "\<forall>p \<in> set (add_required E rc rep i out). P p" by (simp add: add_required_def assms(2))
  from Cons.IH [OF this] show ?case by simp
qed simp

lemma reported_status:
  assumes "p \<in> set (evaluate_profiles E rc rep ps)"
  shows "prs_status p = prs_status (evaluate_profile E (prs_id p) rc rep)"
proof -
  define P where "P p \<longleftrightarrow> prs_status p = prs_status (evaluate_profile E (prs_id p) rc rep)" for p :: ProfileResult
  have "\<forall>p \<in> set (map (\<lambda>decl. evaluate_declared E decl rc rep) (rcp_profiles rc)). P p"
    by (simp add: P_def evaluate_declared_def)
  moreover have "P (evaluate_profile E i rc rep)" for i by (simp add: P_def)
  ultimately have "\<forall>p \<in> set (evaluate_profiles E rc rep ps). P p"
    unfolding evaluate_profiles_def by (rule fold_add_required)
  with assms show ?thesis by (simp add: P_def)
qed

lemma declared_results:
  assumes "map (profile_ref E) ids = map Some decls" "rcp_profiles rc = decls"
  shows "map prs_id (evaluate_profiles E rc rep []) = ids"
    and "\<forall>p \<in> set (evaluate_profiles E rc rep []). prs_declared p \<and> prs_declaration_matches p = Some True"
proof -
  note id = profile_ref_id [of E]
  have "map pr_id decls = ids"
    using assms(1) by (induction ids arbitrary: decls) (auto simp: Cons_eq_map_conv map_eq_Cons_conv id)
  then show "map prs_id (evaluate_profiles E rc rep []) = ids"
    by (simp add: evaluate_profiles_def evaluate_declared_def assms(2) comp_def)
  have "prs_declaration_matches (evaluate_declared E decl rc rep) = Some True" if "profile_ref E i = Some decl" for i decl
    using that core.declared [of decl E rc rep] signed.declared [of decl E rc rep] delivery.declared [of decl E rc rep]
      id [OF that]
    by (auto simp: evaluate_declared_def evaluate_profile_def profile_ref_def profile_table_def split: if_splits)
  moreover have "\<exists>i. profile_ref E i = Some decl" if "decl \<in> set decls" for decl
    using assms(1) that by (metis (no_types, lifting) image_iff list.set_map)
  ultimately show "\<forall>p \<in> set (evaluate_profiles E rc rep []). prs_declared p \<and> prs_declaration_matches p = Some True"
    by (fastforce simp: evaluate_profiles_def assms(2) evaluate_declared_def)
qed

section \<open>The baseline and the signed tier\<close>

lemma core_conformant:
  assumes "prs_status (evaluate_core_v1 E rc rep) = Conformant"
  shows "rep_status rep \<noteq> Invalid" "\<forall>kb \<in> set core_thresholds. threshold_ok (rcp_rules rc) kb"
  using assms by (auto simp: evaluate_core_v1_def Let_def finish_def list_all_iff split: if_splits)

lemma core_clause_conformant:
  assumes "clr_passed (core_clause E i rc rep)"
  shows "prs_status (evaluate_core_v1 E rc rep) = Conformant"
  using assms by (auto simp: core_clause_def core_result_def met_def Let_def split: option.splits)

lemma find_by_id_None: "find_by_id rs i = None \<longleftrightarrow> i \<notin> rec_id ` set rs"
  by (force simp: find_by_id_def map_of_eq_None_iff)

lemma signed_conformant:
  assumes "prs_status (evaluate_signed_v1 E rc rep) = Conformant"
  shows "prs_status (evaluate_core_v1 E rc rep) = Conformant"
    and "set SIGNED_KINDS \<subseteq> vr_signature_required_kinds (rcp_rules rc)"
    and "\<forall>r \<in> set (rcp_records rc). rec_kind r \<in> set SIGNED_KINDS \<longrightarrow> rec_id r \<in> accepted_ids E (rcp_records rc) \<longrightarrow>
           has_key (vr_author_keys (rcp_rules rc)) (au_id (rec_author r))"
proof -
  obtain s where s: "build_state_unchecked E (rcp_records rc) = Some s"
    and clauses: "clr_passed (core_clause E ''S0'' rc rep)" "clr_passed (signatures_clause (rcp_rules rc))"
      "clr_passed (pinned_clause (rcp_records rc) (st_accepted_records s) (rcp_rules rc))"
    using assms by (auto simp: evaluate_signed_v1_def all_failed_def finish_def signed_v1_table_def
      split: if_splits option.splits)
  show "prs_status (evaluate_core_v1 E rc rep) = Conformant" by (rule core_clause_conformant [OF clauses(1)])
  show "set SIGNED_KINDS \<subseteq> vr_signature_required_kinds (rcp_rules rc)"
    using clauses(2) by (auto simp: signatures_clause_def Let_def filter_empty_conv)
  show "\<forall>r \<in> set (rcp_records rc). rec_kind r \<in> set SIGNED_KINDS \<longrightarrow> rec_id r \<in> accepted_ids E (rcp_records rc) \<longrightarrow>
           has_key (vr_author_keys (rcp_rules rc)) (au_id (rec_author r))"
    using clauses(3) s
    by (auto simp: pinned_clause_def Let_def filter_empty_conv evolution_records_def is_accepted_def accepted_ids_def
      find_by_id_None)
qed

lemma replayable_keys:
  assumes "replayable E rc limits R h"
  shows "vr_author_keys R = vr_author_keys (rcp_rules rc)"
  using assms by (auto simp: replayable_def rules_for_epoch_def)

lemma signed_receipt_signed:
  assumes "replayable E rc limits R h" "prs_status (evaluate_signed_v1 E rc (replay_report E rc R h)) = Conformant"
  shows "\<forall>r \<in> set (rcp_records rc). rec_kind r \<in> set SIGNED_KINDS \<longrightarrow> rec_id r \<in> accepted_ids E (rcp_records rc) \<longrightarrow>
    (\<exists>keys key sg msg. Mapping.lookup (vr_author_keys (rcp_rules rc)) (au_id (rec_author r)) = Some keys \<and> key \<in> keys
       \<and> au_signature (rec_author r) = Some sg \<and> hex_decode (sig_key_id sg) = Some key
       \<and> signing_bytes E r = Some msg \<and> cr_verify_strict E key msg (sig_sig sg))"
proof (intro ballI impI)
  fix r assume r: "r \<in> set (rcp_records rc)" "rec_kind r \<in> set SIGNED_KINDS" "rec_id r \<in> accepted_ids E (rcp_records rc)"
  note signed = signed_conformant [OF assms(2)]
  obtain s where s: "replays E R (rcp_records rc) s"
    using report_fields(1) [where E = E and rc = rc and R = R and h = h and x = "rep_profiles (replay_report E rc R h)"] core_conformant(1) [OF signed(1)] by auto
  then have acc: "rec_id r \<in> st_accepted_records s" using r(3) replays_build_state [OF s] by (simp add: accepted_ids_def)
  have "rec_kind r \<noteq> KVerdict" using r(2) by (auto simp: SIGNED_KINDS_def)
  then obtain pre s0 where adm: "admitted_at E R (rcp_records rc) r pre s0" using admitted [OF s r(1) _ acc] by blast
  obtain keys where keys: "Mapping.lookup (vr_author_keys (rcp_rules rc)) (au_id (rec_author r)) = Some keys"
    using signed(3) r by (auto simp: has_key_def)
  then have "Mapping.lookup (vr_author_keys R) (au_id (rec_author r)) = Some keys"
    by (simp add: replayable_keys [OF assms(1)])
  from signature_None [OF admitted_checks(3) [OF adm] this] obtain key where "key \<in> keys" "verified_key E r = Some key" by blast
  with keys verified_key_Some [of E r key] show "\<exists>keys key sg msg.
      Mapping.lookup (vr_author_keys (rcp_rules rc)) (au_id (rec_author r)) = Some keys \<and> key \<in> keys
       \<and> au_signature (rec_author r) = Some sg \<and> hex_decode (sig_key_id sg) = Some key
       \<and> signing_bytes E r = Some msg \<and> cr_verify_strict E key msg (sig_sig sg)" by blast
qed

end
