(* ===== verification/Delivery_Laws.thy ===== *)
theory Delivery_Laws
  imports Profile_Laws
begin

text \<open>
  What conformance to \<open>delivery-receipt-v1\<close> means: every request that a claim addresses has been
  delivered, in the sense of \<open>delivered\<close>, which speaks of the records only.
\<close>

definition required_for :: "'z env_scheme \<Rightarrow> Record list \<Rightarrow> RecordId set \<Rightarrow> Report \<Rightarrow> RecordId \<Rightarrow> Record \<Rightarrow> bool" where
  "required_for E rs accepted rep q req \<longleftrightarrow>
     req \<in> set rs \<and> rec_kind req = KRequirement \<and> rec_id req \<in> accepted \<and> rec_id req \<notin> rep_retracted_records rep
     \<and> map_option ref_target (List.find (\<lambda>e. ref_type e = RCause) (rec_refs req)) = Some q
     \<and> (\<exists>rd. de_requirement E (rec_data req) = Some rd \<and> rqm_required rd)"

definition judged_met ::
  "'z env_scheme \<Rightarrow> Record list \<Rightarrow> RecordId set \<Rightarrow> Report \<Rightarrow> Record \<Rightarrow> Record \<Rightarrow> RecordId \<Rightarrow> bool" where
  "judged_met E rs accepted rep sel cand i \<longleftrightarrow>
     (\<exists>e \<in> set rs. \<exists>d. rec_kind e = KEvaluation \<and> rec_id e \<in> accepted \<and> rec_id e \<notin> rep_retracted_records rep
        \<and> (\<exists>f \<in> set (rec_refs sel). ref_type f = RUse \<and> ref_target f = rec_id e)
        \<and> decode_evaluation_v2 E (rec_data e) = Some d \<and> ev2_outcome d = Ev2Passed \<and> i \<in> set (ev2_requirements d)
        \<and> ev2_candidate d = rec_id cand \<and> ev2_evidence d \<noteq> []
        \<and> db_procedure_hash (ev2_evaluator d) \<noteq> None \<and> db_input_hash (ev2_evaluator d) \<noteq> None
        \<and> au_id (rec_author e) \<noteq> au_id (rec_author cand))"

definition delivered :: "'z env_scheme \<Rightarrow> Record list \<Rightarrow> RecordId set \<Rightarrow> Report \<Rightarrow> RecordId \<Rightarrow> bool" where
  "delivered E rs accepted rep q \<longleftrightarrow>
     (\<exists>sel \<in> set rs. \<exists>cand \<in> set rs. \<exists>sd. rec_kind sel = KSelection \<and> rec_id sel \<in> accepted
        \<and> decode_selection E (rec_data sel) = Some sd \<and> sel_outcome sd = Selected [rec_id cand]
        \<and> claim_sound rep sel
        \<and> (\<forall>req. required_for E rs accepted rep q req \<longrightarrow> judged_met E rs accepted rep sel cand (rec_id req)))"

section \<open>Claims\<close>

lemma find_by_id_Some:
  assumes "find_by_id rs i = Some r"
  shows "r \<in> set rs" "rec_id r = i"
  using map_of_SomeD [OF assms [unfolded find_by_id_def]] by auto

lemma find_by_id_distinct:
  assumes "distinct (map rec_id rs)" "r \<in> set rs"
  shows "find_by_id rs (rec_id r) = Some r"
proof -
  have "distinct (map fst (rev (map (\<lambda>r. (rec_id r, r)) rs)))" using assms(1) by (simp add: rev_map [symmetric] comp_def)
  then show ?thesis unfolding find_by_id_def by (rule map_of_is_SomeI) (use assms(2) in auto)
qed

lemma claim_of_Some:
  assumes "claim_of E rs accepted r = Some c"
  shows "clm_selection c = r" "rec_kind r = KSelection" "rec_id r \<in> accepted"
    "\<exists>sd. decode_selection E (rec_data r) = Some sd \<and> sel_outcome sd = Selected (clm_chosen c)"
    "clm_used c = claim_evaluations rs accepted r"
  using assms
  by (auto simp: claim_of_def is_accepted_def Let_def split: if_splits option.splits SelectionOutcome.splits list.splits)

lemma all_claimsD:
  assumes "c \<in> set (all_claims E rs accepted)"
  shows "clm_selection c \<in> set rs" "claim_of E rs accepted (clm_selection c) = Some c"
proof -
  from assms obtain r where "r \<in> set rs" "claim_of E rs accepted r = Some c"
    by (auto simp: all_claims_def List.map_filter_def)
  with claim_of_Some(1) show "clm_selection c \<in> set rs" "claim_of E rs accepted (clm_selection c) = Some c" by fastforce+
qed

lemma pick_in_group:
  assumes "g \<noteq> []"
  shows "g ! pick_claim rep g \<in> set g"
proof -
  have "i < length xs" if "rposition P xs = Some i" for P and xs :: "Claim list" and i
    using that last_in_set [of "filter (\<lambda>i. P (xs ! i)) [0..<length xs]"]
    by (auto simp: rposition_def split: list.splits)
  with assms show ?thesis by (intro nth_mem) (auto simp: pick_claim_def split: option.splits)
qed

lemma evaluated_claim:
  assumes "q \<in> clm_request ` set cs"
  obtains c where "c \<in> set (evaluated_claims rep cs)" "c \<in> set cs" "clm_request c = q"
proof -
  let ?g = "sort_key claim_time (filter (\<lambda>c. clm_request c = q) cs)"
  have "?g \<in> set (claim_groups cs)" using assms by (auto simp: claim_groups_def)
  moreover have "?g \<noteq> []" using assms by (auto simp: filter_empty_conv simp flip: set_empty)
  from pick_in_group [OF this, of rep] have "?g ! pick_claim rep ?g \<in> set cs" "clm_request (?g ! pick_claim rep ?g) = q"
    by simp_all
  ultimately show thesis using that [of "?g ! pick_claim rep ?g"] by (auto simp: evaluated_claims_def)
qed

lemma claim_evaluationsD:
  assumes "e \<in> set (claim_evaluations rs accepted r)"
  shows "e \<in> set rs" "rec_kind e = KEvaluation" "rec_id e \<in> accepted"
    "\<exists>f \<in> set (rec_refs r). ref_type f = RUse \<and> ref_target f = rec_id e"
  using assms find_by_id_Some by (fastforce simp: claim_evaluations_def List.map_filter_def is_accepted_def)+

section \<open>The clauses of a claim\<close>

lemma used_v2D: "(e, d) \<in> set (used_v2 E c) \<Longrightarrow> e \<in> set (clm_used c) \<and> decode_evaluation_v2 E (rec_data e) = Some d"
  by (auto simp: used_v2_def List.map_filter_def)

definition claim_passes :: "'z env_scheme \<Rightarrow> Record list \<Rightarrow> RecordId set \<Rightarrow> Report \<Rightarrow> Claim \<Rightarrow> bool" where
  "claim_passes E rs accepted rep c \<longleftrightarrow>
     uncovered (rep_retracted_records rep) (used_v2 E c)
       (required_requirements E rs accepted (rep_retracted_records rep) (clm_request c)) = []
     \<and> d3_notes E rs accepted c = [] \<and> producer rs c \<noteq> None \<and> self_judged rs c = [] \<and> unbound E c = []
     \<and> standing_notes rep (clm_selection c) = []"

lemma delivery_conformant:
  assumes "prs_status (evaluate_delivery_v1 E rc rep) = Conformant" "build_state_unchecked E (rcp_records rc) = Some s"
  defines "cs \<equiv> all_claims E (rcp_records rc) (st_accepted_records s)"
  shows "cs \<noteq> []" and "\<forall>c \<in> set (evaluated_claims rep cs). claim_passes E (rcp_records rc) (st_accepted_records s) rep c"
    and "prs_status (evaluate_core_v1 E rc rep) = Conformant"
proof -
  let ?rs = "rcp_records rc" and ?acc = "st_accepted_records s" and ?claims = "evaluated_claims rep cs"
  have claims: "?claims \<noteq> []" and clauses:
    "clr_passed (clause_d1 E ?rs ?acc (rep_retracted_records rep) ?claims)" "clr_passed (clause_d3 E ?rs ?acc ?claims)"
    "clr_passed (clause_d4 ?rs ?claims)" "clr_passed (clause_d5 E ?claims)" "clr_passed (clause_d7 rep ?claims)"
    "clr_passed (core_clause E ''D6'' rc rep)"
    using assms(1,2) unfolding cs_def
    by (auto simp: evaluate_delivery_v1_def all_failed_def finish_def delivery_v1_table_def no_claim_def Let_def
      split: if_splits)
  then show "cs \<noteq> []" by (auto simp: evaluated_claims_def claim_groups_def)
  show "prs_status (evaluate_core_v1 E rc rep) = Conformant" by (rule core_clause_conformant [OF clauses(6)])
  show "\<forall>c \<in> set ?claims. claim_passes E ?rs ?acc rep c"
    using clauses(1-5)
    by (auto simp: claim_passes_def clause_d1_def clause_d3_def clause_d4_def clause_d5_def clause_d7_def Let_def
      list_all_iff split: if_splits)
qed

lemma required_for_listed:
  assumes "distinct (map rec_id rs)" "required_for E rs accepted rep q req"
  shows "rec_id req \<in> fst ` set (required_requirements E rs accepted (rep_retracted_records rep) q)"
proof -
  obtain rd where req: "req \<in> set rs" "rec_kind req = KRequirement" "rec_id req \<in> accepted"
    "rec_id req \<notin> rep_retracted_records rep" "de_requirement E (rec_data req) = Some rd" "rqm_required rd"
    "map_option ref_target (List.find (\<lambda>e. ref_type e = RCause) (rec_refs req)) = Some q"
    using assms(2) by (auto simp: required_for_def)
  note found = find_by_id_distinct [OF assms(1) req(1)]
  then have "requirement_request rs accepted (rec_id req) = Some q"
    using req by (simp add: requirement_request_def is_accepted_def)
  with req found show ?thesis
    by (force simp: required_requirements_def List.map_filter_def is_accepted_def image_iff)
qed

lemma passing_claim_delivers:
  assumes ids: "distinct (map rec_id rs)" and c: "c \<in> set (all_claims E rs accepted)" "claim_passes E rs accepted rep c"
  shows "delivered E rs accepted rep (clm_request c)"
proof -
  let ?sel = "clm_selection c"
  note sel = all_claimsD [OF c(1)]
  note clm = claim_of_Some [OF sel(2)]
  obtain cand where cand: "candidate_record rs c = Some cand" "producer rs c = Some (au_id (rec_author cand))"
    using c(2) by (auto simp: claim_passes_def producer_def)
  have chosen: "clm_chosen c = [rec_id cand]" "chosen_candidate c = Some (rec_id cand)" "cand \<in> set rs"
    using cand(1) find_by_id_Some
    by (auto simp: candidate_record_def chosen_candidate_def bind_eq_Some_conv split: list.splits)
  have used: "ev2_candidate d = rec_id cand" "ev2_evidence d \<noteq> []" "db_procedure_hash (ev2_evaluator d) \<noteq> None"
    "db_input_hash (ev2_evaluator d) \<noteq> None" "au_id (rec_author e) \<noteq> au_id (rec_author cand)"
    if "(e, d) \<in> set (used_v2 E c)" for e d
    using c(2) that used_v2D [OF that] cand(2)
    by (auto simp: claim_passes_def d3_notes_def evidence_notes_def chosen(2) unbound_def self_judged_def filter_empty_conv
      split: if_splits)
  have "judged_met E rs accepted rep ?sel cand (rec_id req)" if req: "required_for E rs accepted rep (clm_request c) req" for req
  proof -
    from c(2) required_for_listed [OF ids req] have "is_covered (rep_retracted_records rep) (used_v2 E c) (rec_id req)"
      by (auto simp: claim_passes_def uncovered_def filter_empty_conv)
    then obtain e d where ed: "(e, d) \<in> set (used_v2 E c)" "rec_id e \<notin> rep_retracted_records rep" "ev2_outcome d = Ev2Passed"
      "rec_id req \<in> set (ev2_requirements d)" by (auto simp: is_covered_def)
    with used_v2D [OF ed(1)] used [OF ed(1)] claim_evaluationsD [of e rs accepted ?sel] clm(5) show ?thesis
      unfolding judged_met_def by (intro bexI [of _ e] exI [of _ d]) auto
  qed
  moreover have "claim_sound rep ?sel"
    using c(2) by (auto simp: claim_passes_def standing_notes_def claim_sound_def split: if_splits)
  ultimately show ?thesis using clm sel(1) chosen by (auto simp: delivered_def)
qed

end
