(* ===== verification/Queries.thy ===== *)
theory Queries
  imports Replay
begin

text \<open>
  The read-side queries of \<open>src/src/queries.rs\<close>: descent, descendants, siblings, frontier, standing,
  evidence and selected, over a verified log.  Reports are records with the fields of the source.

  The \<open>BTreeMap\<close> from ids to positions is the association list that collecting the enumerated
  records gives, later entries first; a \<open>VecDeque\<close> is a list.
\<close>

section \<open>Errors and reports\<close>

datatype QueryError =
    LogInvalid "ReasonCode option"
  | NotFound RecordId
  | NotAccepted RecordId
  | KindMismatch RecordId string

record Node =
  nd_id :: string
  nd_kind :: string
  nd_standing :: string
  nd_tainted :: bool
  nd_retracted :: bool
  nd_artifacts :: "ArtifactRef list"
  nd_requirements :: "string list"

record DescentStep =
  ds_node :: Node
  ds_via :: string

record DescentReport =
  dr_target :: Node
  dr_line :: "DescentStep list"

record DescendantsReport =
  dn_target :: Node
  dn_descendants :: "Node list"

record SiblingsReport =
  sb_target :: Node
  sb_siblings :: "Node list"

record FrontierEntry =
  fe_node :: Node
  fe_reason :: string

record StandingReport =
  sr_node :: Node
  sr_restorations :: "string list"

record EvidenceEntry =
  ee_node :: Node
  ee_criterion :: string
  ee_outcome :: string

record SelectionEvidence =
  se_selection :: Node
  se_evidence :: "EvidenceEntry list"

record EvidenceReport =
  er_target :: Node
  er_rests_on :: "SelectionEvidence list"

record SelectedEntry =
  sl_selection :: Node
  sl_chosen :: "Node list"
  sl_evidence :: "EvidenceEntry list"

record SelectedReport =
  sd_objective :: string
  sd_selections :: "SelectedEntry list"

section \<open>The query context\<close>

record Queries =
  q_records :: "Record list"
  q_verdict :: LogVerdict
  q_state :: State
  q_by_id :: "(RecordId \<times> nat) list"

definition index_records :: "Record list \<Rightarrow> (RecordId \<times> nat) list" where
  "index_records rs = rev (map (\<lambda>(i, r). (rec_id r, i)) (List.enumerate 0 rs))"

definition queries_new :: "'z env_scheme \<Rightarrow> Record list \<Rightarrow> VerifierRules \<Rightarrow> QueryError + Queries" where
  "queries_new E rs R =
     (let verdict = verify_log E rs R None
      in if lv_result verdict \<noteq> Accept then Inl (LogInvalid (lv_reason verdict))
         else (case build_state_unchecked E rs of None \<Rightarrow> Inl (LogInvalid None)
           | Some s \<Rightarrow> Inr \<lparr>q_records = rs, q_verdict = verdict, q_state = s, q_by_id = index_records rs\<rparr>))"

definition q_get :: "Queries \<Rightarrow> RecordId \<Rightarrow> QueryError + Record" where
  "q_get q i = (case map_of (q_by_id q) i of None \<Rightarrow> Inl (NotFound i) | Some n \<Rightarrow> Inr (q_records q ! n))"

definition get_accepted :: "Queries \<Rightarrow> RecordId \<Rightarrow> QueryError + Record" where
  "get_accepted q i =
     (case q_get q i of Inl e \<Rightarrow> Inl e
      | Inr r \<Rightarrow> if i \<notin> st_accepted_records (q_state q) then Inl (NotAccepted i) else Inr r)"

definition node_standing :: "Queries \<Rightarrow> Record \<Rightarrow> string" where
  "node_standing q r =
     (case rec_kind r of
        KCandidate \<Rightarrow>
          if rec_id r \<in> sg_compromised (lv_standing (q_verdict q)) then ''compromised'' else ''sound''
      | KSelection \<Rightarrow>
          if rec_id r \<in> sg_unsound (lv_standing (q_verdict q)) then ''unsound'' else ''sound''
      | _ \<Rightarrow> ''n/a'')"

definition node_bindings :: "'z env_scheme \<Rightarrow> Record \<Rightarrow> ArtifactRef list \<times> string list" where
  "node_bindings E r =
     (case rec_kind r of
        KCandidate \<Rightarrow>
          (case Option.bind (de_candidate E (rec_data r)) cnd_artifacts of None \<Rightarrow> [] | Some as \<Rightarrow> as, [])
      | KResult \<Rightarrow>
          (case Option.bind (de_result E (rec_data r)) rst_artifacts of None \<Rightarrow> [] | Some as \<Rightarrow> as, [])
      | KEvaluation \<Rightarrow>
          (case decode_evaluation_v2 E (rec_data r) of None \<Rightarrow> ([], [])
           | Some d \<Rightarrow> (ev2_evidence d, map hex_encode (ev2_requirements d)))
      | _ \<Rightarrow> ([], []))"

definition node :: "'z env_scheme \<Rightarrow> Queries \<Rightarrow> Record \<Rightarrow> Node" where
  "node E q r =
     \<lparr>nd_id = hex_encode (rec_id r), nd_kind = kind_name (rec_kind r), nd_standing = node_standing q r,
      nd_tainted = (rec_id r \<in> lv_tainted_records (q_verdict q)),
      nd_retracted = (rec_id r \<in> lv_retracted_records (q_verdict q)),
      nd_artifacts = fst (node_bindings E r), nd_requirements = snd (node_bindings E r)\<rparr>"

definition candidate_data :: "'z env_scheme \<Rightarrow> Record \<Rightarrow> QueryError + CandidateData" where
  "candidate_data E r =
     (if rec_kind r \<noteq> KCandidate then Inl (KindMismatch (rec_id r) ''Candidate'')
      else (case de_candidate E (rec_data r) of None \<Rightarrow> Inl (NotFound (rec_id r)) | Some d \<Rightarrow> Inr d))"

definition sorted_causes :: "Record \<Rightarrow> RecordId list" where
  "sorted_causes r = sort (map ref_target (filter (\<lambda>e. ref_type e = RCause) (rec_refs r)))"

definition back_edges :: "Queries \<Rightarrow> Record \<Rightarrow> CandidateData \<Rightarrow> (RecordId \<times> string) list" where
  "back_edges q r d =
     (case cnd_basis d of
        Root \<Rightarrow> []
      | Continuation \<Rightarrow>
          map (\<lambda>a. (a, ''continuation-anchor'')) (sorted_causes r)
          @ (case cnd_parent d of None \<Rightarrow> [] | Some p \<Rightarrow> [(p, ''parent'')])
      | Derivation \<Rightarrow>
          map (\<lambda>c. (c, ''derivation''))
            (filter (\<lambda>c. case q_get q c of Inl _ \<Rightarrow> False | Inr t \<Rightarrow> rec_kind t = KCandidate) (sorted_causes r)))"

definition evidence_entry :: "'z env_scheme \<Rightarrow> Queries \<Rightarrow> Ref \<Rightarrow> EvidenceEntry option" where
  "evidence_entry E q e =
     (case q_get q (ref_target e) of Inl _ \<Rightarrow> None
      | Inr t \<Rightarrow>
          if rec_kind t \<noteq> KEvaluation then None
          else (case evaluation_summary E (rec_schema t) (rec_data t) of None \<Rightarrow> None
            | Some (_, criterion, outcome) \<Rightarrow>
                Some \<lparr>ee_node = node E q t, ee_criterion = criterion, ee_outcome = outcome\<rparr>))"

definition selection_evidence :: "'z env_scheme \<Rightarrow> Queries \<Rightarrow> Record \<Rightarrow> EvidenceEntry list" where
  "selection_evidence E q r =
     List.map_filter (evidence_entry E q) (filter (\<lambda>e. ref_type e = RUse) (rec_refs r))"

section \<open>q1: descent\<close>

text \<open>
  The loop ends: a step either consumes the queue or visits one more of the finitely many ids the
  index knows.
\<close>

function descent_loop ::
  "'z env_scheme \<Rightarrow> Queries \<Rightarrow> RecordId set \<Rightarrow> (RecordId \<times> string) list \<Rightarrow> DescentStep list
     \<Rightarrow> QueryError + DescentStep list" where
  "descent_loop E q seen [] line = Inr line"
| "descent_loop E q seen ((i, via) # queue) line =
     (if i \<in> seen then descent_loop E q seen queue line
      else (case q_get q i of Inl e \<Rightarrow> Inl e
        | Inr anc \<Rightarrow>
            if rec_kind anc = KCandidate
            then (case candidate_data E anc of Inl e \<Rightarrow> Inl e
              | Inr ad \<Rightarrow>
                  descent_loop E q (insert i seen) (queue @ back_edges q anc ad)
                    (line @ [\<lparr>ds_node = node E q anc, ds_via = via\<rparr>]))
            else descent_loop E q (insert i seen) queue (line @ [\<lparr>ds_node = node E q anc, ds_via = via\<rparr>])))"
  by pat_completeness auto

lemma q_get_known: "q_get q i = Inr r \<Longrightarrow> i \<in> fst ` set (q_by_id q)"
  by (auto simp: q_get_def split: option.splits dest!: map_of_SomeD intro: rev_image_eqI)

lemma unseen_decreases:
  assumes "q_get q i = Inr r" "i \<notin> seen"
  shows "card (fst ` set (q_by_id q) - insert i seen) < card (fst ` set (q_by_id q) - seen)"
  using q_get_known [OF assms(1)] assms(2) by (intro psubset_card_mono) auto

termination descent_loop
  by (relation "measures [\<lambda>(E, q, seen, queue, line). card (fst ` set (q_by_id q) - seen),
                          \<lambda>(E, q, seen, queue, line). length queue]")
    (auto dest: unseen_decreases)

definition descent :: "'z env_scheme \<Rightarrow> Queries \<Rightarrow> RecordId \<Rightarrow> QueryError + DescentReport" where
  "descent E q i =
     (case get_accepted q i of Inl e \<Rightarrow> Inl e
      | Inr r \<Rightarrow>
          (case candidate_data E r of Inl e \<Rightarrow> Inl e
           | Inr d \<Rightarrow>
               (case descent_loop E q {i} (back_edges q r d) [] of Inl e \<Rightarrow> Inl e
                | Inr line \<Rightarrow> Inr \<lparr>dr_target = node E q r, dr_line = line\<rparr>)))"

section \<open>q2: descendants\<close>

definition accepted_of :: "Queries \<Rightarrow> Kind \<Rightarrow> Record \<Rightarrow> bool" where
  "accepted_of q k r \<longleftrightarrow> rec_kind r = k \<and> rec_id r \<in> st_accepted_records (q_state q)"

fun descendants_loop ::
  "'z env_scheme \<Rightarrow> Queries \<Rightarrow> RecordId \<Rightarrow> Record list \<Rightarrow> Node list \<Rightarrow> QueryError + Node list" where
  "descendants_loop E q i [] found = Inr found"
| "descendants_loop E q i (r # rs) found =
     (if \<not> accepted_of q KCandidate r \<or> rec_id r = i then descendants_loop E q i rs found
      else (case descent E q (rec_id r) of Inl e \<Rightarrow> Inl e
        | Inr rep \<Rightarrow>
            if \<exists>st \<in> set (dr_line rep). nd_id (ds_node st) = hex_encode i
            then descendants_loop E q i rs (found @ [node E q r])
            else descendants_loop E q i rs found))"

definition descendants :: "'z env_scheme \<Rightarrow> Queries \<Rightarrow> RecordId \<Rightarrow> QueryError + DescendantsReport" where
  "descendants E q i =
     (case get_accepted q i of Inl e \<Rightarrow> Inl e
      | Inr target \<Rightarrow>
          (case descendants_loop E q i (q_records q) [] of Inl e \<Rightarrow> Inl e
           | Inr found \<Rightarrow> Inr \<lparr>dn_target = node E q target, dn_descendants = found\<rparr>))"

section \<open>q3: siblings\<close>

definition cause_set :: "Record \<Rightarrow> RecordId set" where
  "cause_set r = set (map ref_target (filter (\<lambda>e. ref_type e = RCause) (rec_refs r)))"

definition same_generation :: "Record \<Rightarrow> CandidateData \<Rightarrow> Record \<Rightarrow> CandidateData \<Rightarrow> bool" where
  "same_generation r d other od =
     (case (cnd_basis d, cnd_basis od) of
        (Continuation, Continuation) \<Rightarrow> cause_set other = cause_set r
      | (Derivation, Derivation) \<Rightarrow> cause_set other = cause_set r
      | _ \<Rightarrow> False)"

definition siblings :: "'z env_scheme \<Rightarrow> Queries \<Rightarrow> RecordId \<Rightarrow> QueryError + SiblingsReport" where
  "siblings E q i =
     (case get_accepted q i of Inl e \<Rightarrow> Inl e
      | Inr r \<Rightarrow>
          (case candidate_data E r of Inl e \<Rightarrow> Inl e
           | Inr d \<Rightarrow>
               Inr \<lparr>sb_target = node E q r,
                    sb_siblings = map (node E q)
                      (filter (\<lambda>other. accepted_of q KCandidate other \<and> rec_id other \<noteq> i
                                 \<and> (case candidate_data E other of Inl _ \<Rightarrow> False
                                    | Inr od \<Rightarrow> same_generation r d other od)) (q_records q))\<rparr>))"

section \<open>q4: frontier\<close>

definition accepted_selections :: "'z env_scheme \<Rightarrow> Queries \<Rightarrow> SelectionData list" where
  "accepted_selections E q =
     List.map_filter (\<lambda>r. if accepted_of q KSelection r then decode_selection E (rec_data r) else None)
       (q_records q)"

fun chosen_of :: "SelectionOutcome \<Rightarrow> RecordId set" where
  "chosen_of (Selected candidates) = set candidates"
| "chosen_of NoneSelected = {}"

definition continued_by :: "'z env_scheme \<Rightarrow> Queries \<Rightarrow> Record \<Rightarrow> RecordId option" where
  "continued_by E q r =
     (if accepted_of q KCandidate r
      then (case de_candidate E (rec_data r) of None \<Rightarrow> None
        | Some d \<Rightarrow> if cnd_basis d = Continuation then cnd_parent d else None)
      else None)"

definition frontier_reason ::
  "RecordId set \<Rightarrow> RecordId set \<Rightarrow> RecordId set \<Rightarrow> RecordId \<Rightarrow> string option" where
  "frontier_reason considered chosen continued i =
     (if i \<notin> considered then Some ''unconsidered''
      else if i \<in> chosen \<and> i \<notin> continued then Some ''selected-no-continuation''
      else None)"

definition frontier :: "'z env_scheme \<Rightarrow> Queries \<Rightarrow> FrontierEntry list" where
  "frontier E q =
     (let considered = (\<Union>sd \<in> set (accepted_selections E q). set (sel_considered sd));
          chosen = (\<Union>sd \<in> set (accepted_selections E q). chosen_of (sel_outcome sd));
          continued = set (List.map_filter (continued_by E q) (q_records q))
      in List.map_filter
           (\<lambda>r. if accepted_of q KCandidate r
                then map_option (\<lambda>reason. \<lparr>fe_node = node E q r, fe_reason = reason\<rparr>)
                       (frontier_reason considered chosen continued (rec_id r))
                else None) (q_records q))"

section \<open>q5: standing\<close>

definition standing :: "'z env_scheme \<Rightarrow> Queries \<Rightarrow> RecordId \<Rightarrow> QueryError + StandingReport" where
  "standing E q i =
     (case get_accepted q i of Inl e \<Rightarrow> Inl e
      | Inr r \<Rightarrow>
          Inr \<lparr>sr_node = node E q r,
               sr_restorations =
                 (case Mapping.lookup (sg_restorations (lv_standing (q_verdict q))) i of None \<Rightarrow> []
                  | Some A \<Rightarrow> map hex_encode (sorted_list_of_set A))\<rparr>)"

section \<open>q6: evidence\<close>

text \<open>
  \<open>parse_hex\<close> reads two characters for each of the 32 bytes of an id; the slices are in range
  because ids are arrays of 32 bytes, and what is not a hex number counts as 0.
\<close>

definition parse_hex :: "string \<Rightarrow> RecordId" where
  "parse_hex s =
     map (\<lambda>i. case hex_pairs (take 2 (drop (2 * i) s)) of Some [b] \<Rightarrow> b | _ \<Rightarrow> 0) [0..<32]"

fun evidence_loop ::
  "'z env_scheme \<Rightarrow> Queries \<Rightarrow> DescentStep list \<Rightarrow> SelectionEvidence list
     \<Rightarrow> QueryError + SelectionEvidence list" where
  "evidence_loop E q [] found = Inr found"
| "evidence_loop E q (st # sts) found =
     (if nd_kind (ds_node st) = ''Selection''
      then (case q_get q (parse_hex (nd_id (ds_node st))) of Inl e \<Rightarrow> Inl e
        | Inr sel \<Rightarrow>
            evidence_loop E q sts
              (found @ [\<lparr>se_selection = ds_node st, se_evidence = selection_evidence E q sel\<rparr>]))
      else evidence_loop E q sts found)"

definition evidence :: "'z env_scheme \<Rightarrow> Queries \<Rightarrow> RecordId \<Rightarrow> QueryError + EvidenceReport" where
  "evidence E q i =
     (case get_accepted q i of Inl e \<Rightarrow> Inl e
      | Inr r \<Rightarrow>
          (case rec_kind r of
             KSelection \<Rightarrow>
               Inr \<lparr>er_target = node E q r,
                    er_rests_on = [\<lparr>se_selection = node E q r, se_evidence = selection_evidence E q r\<rparr>]\<rparr>
           | KCandidate \<Rightarrow>
               (case descent E q i of Inl e \<Rightarrow> Inl e
                | Inr rep \<Rightarrow>
                    (case evidence_loop E q (dr_line rep) [] of Inl e \<Rightarrow> Inl e
                     | Inr found \<Rightarrow> Inr \<lparr>er_target = node E q r, er_rests_on = found\<rparr>))
           | _ \<Rightarrow> Inl (KindMismatch i ''Candidate or Selection'')))"

section \<open>q7: selected\<close>

definition selected_entry :: "'z env_scheme \<Rightarrow> Queries \<Rightarrow> string \<Rightarrow> Record \<Rightarrow> SelectedEntry option" where
  "selected_entry E q objective r =
     (if \<not> accepted_of q KSelection r then None
      else (case decode_selection E (rec_data r) of None \<Rightarrow> None
        | Some sd \<Rightarrow>
            if sel_objective sd \<noteq> objective then None
            else (case sel_outcome sd of NoneSelected \<Rightarrow> None
              | Selected candidates \<Rightarrow>
                  Some \<lparr>sl_selection = node E q r,
                        sl_chosen = List.map_filter
                          (\<lambda>c. case q_get q c of Inl _ \<Rightarrow> None | Inr t \<Rightarrow> Some (node E q t)) candidates,
                        sl_evidence = selection_evidence E q r\<rparr>)))"

definition selected :: "'z env_scheme \<Rightarrow> Queries \<Rightarrow> string \<Rightarrow> SelectedReport" where
  "selected E q objective =
     \<lparr>sd_objective = objective, sd_selections = List.map_filter (selected_entry E q objective) (q_records q)\<rparr>"

end
