(* ===== verification/Standing_Laws.thy ===== *)
theory Standing_Laws
  imports Standing Work_Log
begin

text \<open>
  Standing is derived correctly.  The depth-first evaluation with an explicit stack ends within its
  fuel on every lineage whose dependences point backwards, and gives each candidate the value of
  the recursive specification \<open>stands\<close>, whatever order the candidates are visited in; the
  replacement walk collects exactly the sound selections whose replacement chain reaches an
  anchor.
\<close>

section \<open>The specification\<close>

inductive stands ::
  "State \<Rightarrow> cand_map \<Rightarrow> (RecordId \<Rightarrow> RecordId \<Rightarrow> bool) \<Rightarrow> RecordId \<Rightarrow> bool"
  for s :: State and cs :: cand_map and ok :: "RecordId \<Rightarrow> RecordId \<Rightarrow> bool" where
  stands_root:
    "Mapping.lookup cs i = Some info \<Longrightarrow> i \<notin> st_retracted_records s \<Longrightarrow> ci_basis info = Root
     \<Longrightarrow> stands s cs ok i"
| stands_continuation:
    "Mapping.lookup cs i = Some info \<Longrightarrow> i \<notin> st_retracted_records s \<Longrightarrow> ci_basis info = Continuation
     \<Longrightarrow> ci_causes info = anchor # rest \<Longrightarrow> ci_parent info = Some parent \<Longrightarrow> ok anchor parent
     \<Longrightarrow> stands s cs ok parent \<Longrightarrow> stands s cs ok i"
| stands_derivation:
    "Mapping.lookup cs i = Some info \<Longrightarrow> i \<notin> st_retracted_records s \<Longrightarrow> ci_basis info = Derivation
     \<Longrightarrow> (\<And>d. d \<in> set (ci_causes info) \<Longrightarrow> has_key cs d \<Longrightarrow> stands s cs ok d) \<Longrightarrow> stands s cs ok i"

inductive_cases stands_cases: "stands s cs ok i"

lemma stands_key: "stands s cs ok i \<Longrightarrow> has_key cs i \<and> i \<notin> st_retracted_records s"
  by (auto elim: stands_cases simp: has_key_def)

lemma stands_value:
  assumes "Mapping.lookup cs i = Some info" "i \<notin> st_retracted_records s"
  shows "stands s cs ok i \<longleftrightarrow> cand_value cs ok (stands s cs ok) info"
proof
  assume "stands s cs ok i"
  then show "cand_value cs ok (stands s cs ok) info"
    by (rule stands_cases) (use assms(1) in \<open>auto simp: cand_value_def cand_deps_def list_all_iff\<close>)
next
  assume *: "cand_value cs ok (stands s cs ok) info"
  show "stands s cs ok i"
  proof (cases "ci_basis info")
    case Root
    with assms show ?thesis by (rule stands_root)
  next
    case Continuation
    with * show ?thesis
      by (auto simp: cand_value_def split: list.splits option.splits
          intro: stands_continuation [OF assms Continuation])
  next
    case Derivation
    with * show ?thesis
      by (auto simp: cand_value_def cand_deps_def list_all_iff intro: stands_derivation [OF assms Derivation])
  qed
qed

section \<open>Dependences that point backwards\<close>

definition ranked :: "cand_map \<Rightarrow> (RecordId \<Rightarrow> nat) \<Rightarrow> bool" where
  "ranked cs rank \<longleftrightarrow>
     (\<forall>i info d. Mapping.lookup cs i = Some info \<longrightarrow> d \<in> set (cand_deps cs info) \<longrightarrow> has_key cs d \<longrightarrow> rank d < rank i)"

definition right_values :: "State \<Rightarrow> cand_map \<Rightarrow> (RecordId \<Rightarrow> RecordId \<Rightarrow> bool) \<Rightarrow> (RecordId, bool) mapping \<Rightarrow> bool" where
  "right_values s cs ok sound \<longleftrightarrow> (\<forall>i b. Mapping.lookup sound i = Some b \<longrightarrow> b = stands s cs ok i)"

lemma cand_value_cong:
  assumes "\<And>d. d \<in> set (cand_deps cs info) \<Longrightarrow> f d = g d"
  shows "cand_value cs ok f info = cand_value cs ok g info"
  using assms
  by (auto simp: cand_value_def cand_deps_def list_all_iff split: CandidateBasis.splits list.splits option.splits)

text \<open>A candidate whose candidate dependences all have their value gets the right one.\<close>

lemma computed_value:
  assumes "Mapping.lookup cs i = Some info" "i \<notin> st_retracted_records s" "right_values s cs ok sound"
    "\<And>d. d \<in> set (cand_deps cs info) \<Longrightarrow> has_key cs d \<Longrightarrow> has_key sound d"
  shows "cand_value cs ok (\<lambda>d. Mapping.lookup_default False sound d) info = stands s cs ok i"
proof -
  have "Mapping.lookup_default False sound d = stands s cs ok d" if d: "d \<in> set (cand_deps cs info)" for d
  proof (cases "Mapping.lookup sound d")
    case None
    then have "\<not> has_key sound d" by (simp add: has_key_def)
    then have "\<not> has_key cs d" using assms(4) [OF d] by blast
    then show ?thesis using stands_key [of s cs ok d] None by (auto simp: lookup_default_conv)
  next
    case (Some b)
    with assms(3) show ?thesis by (simp add: right_values_def lookup_default_conv)
  qed
  then show ?thesis unfolding stands_value [OF assms(1,2)] by (rule cand_value_cong)
qed

section \<open>The stack\<close>

text \<open>
  An entry marked as expanded has its unresolved dependences above it, and everything above it has
  a lower rank, so no candidate is expanded twice.
\<close>

definition entry_ok ::
  "cand_map \<Rightarrow> (RecordId \<Rightarrow> nat) \<Rightarrow> (RecordId, bool) mapping \<Rightarrow> (RecordId \<times> bool) list \<Rightarrow> RecordId \<Rightarrow> bool" where
  "entry_ok cs rank sound upper i \<longleftrightarrow>
     (\<forall>e \<in> set upper. has_key cs (fst e) \<longrightarrow> rank (fst e) < rank i)
     \<and> (\<forall>info d. Mapping.lookup cs i = Some info \<longrightarrow> d \<in> set (cand_deps cs info) \<longrightarrow> has_key cs d
          \<longrightarrow> has_key sound d \<or> d \<in> fst ` set upper)"

definition stack_ok ::
  "cand_map \<Rightarrow> (RecordId \<Rightarrow> nat) \<Rightarrow> (RecordId, bool) mapping \<Rightarrow> (RecordId \<times> bool) list \<Rightarrow> bool" where
  "stack_ok cs rank sound stack \<longleftrightarrow>
     (\<forall>upper i lower. stack = upper @ (i, True) # lower \<longrightarrow> entry_ok cs rank sound upper i)"

lemma stack_ok_pop:
  assumes "stack_ok cs rank sound ((i, b) # stack)"
    "has_key cs i \<Longrightarrow> has_key sound' i" "\<And>d. has_key sound d \<Longrightarrow> has_key sound' d"
  shows "stack_ok cs rank sound' stack"
  unfolding stack_ok_def
proof (intro allI impI)
  fix upper j lower
  assume "stack = upper @ (j, True) # lower"
  then have "entry_ok cs rank sound ((i, b) # upper) j" using assms(1) by (simp add: stack_ok_def)
  then show "entry_ok cs rank sound' upper j" using assms(2,3) by (auto simp: entry_ok_def)
qed

lemma split_after_prefix:
  assumes "p @ x # xs = upper @ y # lower" "y \<notin> set p"
  shows "upper = p \<and> y = x \<or> (\<exists>zs. upper = p @ x # zs \<and> xs = zs @ y # lower)"
  using assms by (induction p arbitrary: upper) (auto simp: Cons_eq_append_conv)

lemma stack_ok_expand:
  assumes ok: "stack_ok cs rank sound ((i, False) # stack)" and rk: "ranked cs rank"
    and info: "Mapping.lookup cs i = Some info"
    and u: "u = filter (\<lambda>d. \<not> has_key sound d \<and> has_key cs d) (cand_deps cs info)"
  shows "stack_ok cs rank sound (rev (map (\<lambda>d. (d, False)) u) @ (i, True) # stack)"
  unfolding stack_ok_def
proof (intro allI impI)
  fix upper j lower
  let ?p = "rev (map (\<lambda>d. (d, False)) u)"
  assume "?p @ (i, True) # stack = upper @ (j, True) # lower"
  moreover have "(j, True) \<notin> set ?p" by auto
  ultimately consider "upper = ?p" "j = i" | zs where "upper = ?p @ (i, True) # zs" "stack = zs @ (j, True) # lower"
    using split_after_prefix [of ?p "(i, True)" stack upper "(j, True)" lower] by blast
  then show "entry_ok cs rank sound upper j"
  proof cases
    case 1
    then show ?thesis using rk info u by (auto simp: entry_ok_def ranked_def image_image)
  next
    case 2
    then have "entry_ok cs rank sound ((i, False) # zs) j" using ok by (simp add: stack_ok_def)
    moreover from this have "rank i < rank j" using info by (simp add: entry_ok_def has_key_def)
    moreover have "rank d < rank i" if "d \<in> set u" for d using that rk info u by (auto simp: ranked_def)
    ultimately show ?thesis using 2(1) by (fastforce simp: entry_ok_def)
  qed
qed

lemma stack_ok_unexpanded:
  assumes "stack_ok cs rank sound ((i, b) # stack)" "has_key cs i"
  shows "(i, True) \<notin> set stack"
proof
  assume "(i, True) \<in> set stack"
  then obtain upper lower where "stack = upper @ (i, True) # lower" by (auto dest: split_list)
  then have "entry_ok cs rank sound ((i, b) # upper) i" using assms(1) by (simp add: stack_ok_def)
  then show False using assms(2) by (simp add: entry_ok_def)
qed

lemma stack_ok_top:
  assumes "stack_ok cs rank sound ((i, True) # stack)" "Mapping.lookup cs i = Some info"
    "d \<in> set (cand_deps cs info)" "has_key cs d"
  shows "has_key sound d"
proof -
  have "entry_ok cs rank sound [] i" using assms(1) by (simp add: stack_ok_def)
  with assms(2-4) show ?thesis by (simp add: entry_ok_def)
qed

section \<open>The potential\<close>

definition cost :: "cand_map \<Rightarrow> RecordId \<Rightarrow> nat" where
  "cost cs i = Suc (case Mapping.lookup cs i of None \<Rightarrow> 0 | Some info \<Rightarrow> length (cand_deps cs info))"

definition potential :: "cand_map \<Rightarrow> (RecordId, bool) mapping \<Rightarrow> (RecordId \<times> bool) list \<Rightarrow> nat" where
  "potential cs sound stack =
     length stack + sum (cost cs) {i \<in> Mapping.keys cs. \<not> has_key sound i \<and> (i, True) \<notin> set stack}"

lemma has_key_keys: "has_key m k \<longleftrightarrow> k \<in> Mapping.keys m"
  by (simp add: has_key_def keys_is_none_rep Option.is_none_def)

lemma potential_pop:
  assumes "finite (Mapping.keys cs)" "\<And>d. has_key sound d \<Longrightarrow> has_key sound' d"
    "has_key cs i \<Longrightarrow> has_key sound' i \<or> \<not> b"
  shows "potential cs sound' stack < potential cs sound ((i, b) # stack)"
proof -
  have "{j \<in> Mapping.keys cs. \<not> has_key sound' j \<and> (j, True) \<notin> set stack}
      \<subseteq> {j \<in> Mapping.keys cs. \<not> has_key sound j \<and> (j, True) \<notin> set ((i, b) # stack)}"
    using assms(2,3) by (auto simp: has_key_keys)
  from sum_mono2 [OF _ this, of "cost cs"] assms(1) show ?thesis by (simp add: potential_def)
qed

lemma potential_expand:
  assumes fin: "finite (Mapping.keys cs)" and info: "Mapping.lookup cs i = Some info"
    and new: "\<not> has_key sound i" "(i, True) \<notin> set stack" and u: "length u \<le> length (cand_deps cs info)"
  shows "potential cs sound (rev (map (\<lambda>d. (d, False)) u) @ (i, True) # stack) < potential cs sound ((i, False) # stack)"
proof -
  let ?A = "{j \<in> Mapping.keys cs. \<not> has_key sound j \<and> (j, True) \<notin> set stack}"
  have "i \<in> ?A" using info new by (simp add: has_key_keys [symmetric] has_key_def)
  then have "sum (cost cs) ?A = cost cs i + sum (cost cs) (?A - {i})"
    using fin by (intro sum.remove) simp_all
  moreover have "{j \<in> Mapping.keys cs. \<not> has_key sound j \<and> (j, True) \<notin> set (rev (map (\<lambda>d. (d, False)) u) @ (i, True) # stack)}
      = ?A - {i}" by auto
  moreover have "cost cs i = Suc (length (cand_deps cs info))" using info by (simp add: cost_def)
  ultimately show ?thesis using u by (simp add: potential_def)
qed

section \<open>The loop\<close>

lemma standing_loop_right:
  assumes fin: "finite (Mapping.keys cs)" and rk: "ranked cs rank"
    and "right_values s cs ok sound" "stack_ok cs rank sound stack" "potential cs sound stack < n"
  shows "right_values s cs ok (standing_loop n s cs ok sound stack)
     \<and> (\<forall>j. has_key sound j \<or> j \<in> fst ` set stack \<and> has_key cs j
            \<longrightarrow> has_key (standing_loop n s cs ok sound stack) j)"
  using assms(3-)
proof (induction n arbitrary: sound stack)
  case (Suc n)
  show ?case
  proof (cases stack)
    case Nil
    with Suc.prems(1) show ?thesis by simp
  next
    case (Cons e st)
    obtain i b where e: "e = (i, b)" by fastforce
    note ok = Suc.prems(2) [unfolded Cons e]
    have ids: "fst ` set stack = insert i (fst ` set st)" by (simp add: Cons e)
    have continue: ?thesis
      if keys: "\<And>d. has_key sound d \<Longrightarrow> has_key sound' d" "has_key cs i \<Longrightarrow> has_key sound' i"
        and right: "right_values s cs ok sound'"
        and step: "standing_loop (Suc n) s cs ok sound stack = standing_loop n s cs ok sound' st" for sound'
    proof -
      have "potential cs sound' st < potential cs sound ((i, b) # st)"
        by (rule potential_pop [OF fin]) (use keys in blast)+
      then have "potential cs sound' st < n" using Suc.prems(3) unfolding Cons e by simp
      from this Suc.IH [OF right stack_ok_pop [OF ok keys(2,1)]] keys show ?thesis
        unfolding step ids by blast
    qed
    consider (known) "has_key sound i" | (other) "\<not> has_key sound i" "Mapping.lookup cs i = None"
      | (cand) info where "\<not> has_key sound i" "Mapping.lookup cs i = Some info"
      by (cases "has_key sound i"; cases "Mapping.lookup cs i") auto
    then show ?thesis
    proof cases
      case known
      show ?thesis by (rule continue [of sound]) (use known Suc.prems(1) Cons e in simp_all)
    next
      case other
      show ?thesis by (rule continue [of sound]) (use other Suc.prems(1) Cons e in \<open>simp_all add: has_key_def\<close>)
    next
      case cand
      let ?u = "filter (\<lambda>d. \<not> has_key sound d \<and> has_key cs d) (cand_deps cs info)"
      consider (retracted) "i \<in> st_retracted_records s"
        | (expand) "i \<notin> st_retracted_records s" "\<not> b" "?u \<noteq> []"
        | (compute) "i \<notin> st_retracted_records s" "b \<or> ?u = []" by blast
      then show ?thesis
      proof cases
        case retracted
        then have "\<not> stands s cs ok i" using stands_key by blast
        then have "right_values s cs ok (Mapping.update i False sound)"
          using Suc.prems(1) by (auto simp: right_values_def lookup_update')
        then show ?thesis
          by (rule continue [rotated 2]) (use retracted cand Cons e in simp_all)
      next
        case expand
        let ?st = "rev (map (\<lambda>d. (d, False)) ?u) @ (i, True) # st"
        have step: "standing_loop (Suc n) s cs ok sound stack = standing_loop n s cs ok sound ?st"
          using expand cand Cons e by (simp add: Let_def)
        have key: "has_key cs i" using cand by (simp add: has_key_def)
        have "potential cs sound ?st < potential cs sound ((i, False) # st)"
          using stack_ok_unexpanded [OF ok key] cand by (intro potential_expand [OF fin cand(2) _ _ length_filter_le]) simp_all
        then have "potential cs sound ?st < n" using Suc.prems(3) expand(2) unfolding Cons e by simp
        from Suc.IH [OF Suc.prems(1) stack_ok_expand [OF _ rk cand(2) refl] this] ok expand(2)
        show ?thesis unfolding step ids by auto
      next
        case compute
        have "has_key sound d" if "d \<in> set (cand_deps cs info)" "has_key cs d" for d
          using compute(2) that stack_ok_top [of cs rank sound i st info d] ok cand(2)
          by (auto simp: filter_empty_conv)
        note val = computed_value [OF cand(2) compute(1) Suc.prems(1) this]
        have "right_values s cs ok (Mapping.update i (stands s cs ok i) sound)"
          using Suc.prems(1) by (auto simp: right_values_def lookup_update')
        then show ?thesis
          by (rule continue [rotated 2]) (use compute cand Cons e val in \<open>auto simp: Let_def\<close>)
      qed
    qed
  qed
qed simp

lemma standing_fuel_enough:
  assumes "finite (Mapping.keys cs)"
  shows "potential cs sound [(i, False)] < standing_fuel cs"
proof -
  have "sum (cost cs) {i \<in> Mapping.keys cs. \<not> has_key sound i \<and> (i, True) \<notin> set [(i, False)]}
      \<le> sum (cost cs) (Mapping.keys cs)"
    by (rule sum_mono2) (use assms in auto)
  also have "\<dots> = (\<Sum>i \<leftarrow> Mapping.ordered_keys cs. cost cs i)"
    using assms by (simp add: Mapping.ordered_keys_def sum_list_distinct_conv_sum_set)
  finally show ?thesis by (simp add: potential_def standing_fuel_def cost_def)
qed

lemma standing_from_right:
  assumes "finite (Mapping.keys cs)" "ranked cs rank" "right_values s cs ok sound"
  shows "right_values s cs ok (standing_from s cs ok i sound)"
    "has_key sound j \<or> j = i \<and> has_key cs i \<Longrightarrow> has_key (standing_from s cs ok i sound) j"
proof -
  have "stack_ok cs rank sound [(i, False)]" by (auto simp: stack_ok_def Cons_eq_append_conv)
  note loop = standing_loop_right [OF assms this standing_fuel_enough [OF assms(1)]]
  from loop assms(3) show "right_values s cs ok (standing_from s cs ok i sound)"
    by (simp add: standing_from_def)
  from loop show "has_key sound j \<or> j = i \<and> has_key cs i \<Longrightarrow> has_key (standing_from s cs ok i sound) j"
    by (auto simp: standing_from_def)
qed

lemma standing_all_right:
  assumes "finite (Mapping.keys cs)" "ranked cs rank" "right_values s cs ok sound"
  shows "right_values s cs ok (fold (standing_from s cs ok) starts sound)
     \<and> (\<forall>j. has_key sound j \<or> j \<in> set starts \<and> has_key cs j
            \<longrightarrow> has_key (fold (standing_from s cs ok) starts sound) j)"
  using assms(3)
proof (induction starts arbitrary: sound)
  case (Cons i starts)
  note start = standing_from_right [OF assms(1,2) Cons.prems]
  from Cons.IH [OF start(1) [of i]] start(2) [of _ i] show ?case by auto
qed simp

text \<open>The candidates may be visited in any order.\<close>

lemma standing_values:
  assumes "finite (Mapping.keys cs)" "ranked cs rank" "set starts = Mapping.keys cs" "has_key cs i"
  shows "Mapping.lookup (fold (standing_from s cs ok) starts Mapping.empty) i = Some (stands s cs ok i)"
proof -
  have "right_values s cs ok Mapping.empty" by (simp add: right_values_def)
  note all = standing_all_right [OF assms(1,2) this, of starts]
  then have "has_key (fold (standing_from s cs ok) starts Mapping.empty) i"
    using assms(3,4) by (simp add: has_key_keys)
  with all show ?thesis by (auto simp: has_key_def right_values_def)
qed

section \<open>Replacement chains\<close>

inductive replaces :: "sel_map \<Rightarrow> RecordId \<Rightarrow> RecordId \<Rightarrow> bool" for ss :: sel_map where
  replaces_step:
    "Mapping.lookup ss i = Some info \<Longrightarrow> si_replace_target info = Some a \<Longrightarrow> replaces ss i a"
| replaces_trans:
    "Mapping.lookup ss i = Some info \<Longrightarrow> si_replace_target info = Some a \<Longrightarrow> replaces ss a b \<Longrightarrow> replaces ss i b"

inductive_cases replaces_cases: "replaces ss i a"

definition hop :: "sel_map \<Rightarrow> RecordId \<Rightarrow> RecordId option" where
  "hop ss i = Option.bind (Mapping.lookup ss i) si_replace_target"

lemma replaces_hop: "replaces ss i b \<longleftrightarrow> (\<exists>a. hop ss i = Some a \<and> (a = b \<or> replaces ss a b))"
  by (auto elim: replaces_cases intro: replaces.intros simp: hop_def bind_eq_Some_conv)

definition reaches :: "sel_map \<Rightarrow> RecordId option \<Rightarrow> RecordId \<Rightarrow> bool" where
  "reaches ss h b \<longleftrightarrow> (\<exists>a. h = Some a \<and> (a = b \<or> replaces ss a b))"

lemma reaches_hop: "reaches ss (hop ss i) b \<longleftrightarrow> replaces ss i b"
  by (simp add: reaches_def replaces_hop [of ss i])

text \<open>With targets of lower rank, the guard of the walk is never reached.\<close>

lemma walk_chain_spec:
  fixes rank :: "RecordId \<Rightarrow> nat"
  assumes dec: "\<And>i a. hop ss i = Some a \<Longrightarrow> rank a < rank i" and fin: "finite (Mapping.keys ss)"
    and "\<And>a. h = Some a \<Longrightarrow> card {i \<in> Mapping.keys ss. rank i \<le> rank a} < n"
  shows "Mapping.lookup_default {} (walk_chain n ss s2 h reps) b
     = Mapping.lookup_default {} reps b \<union> (if reaches ss h b then {s2} else {})"
  using assms
proof (induction n ss s2 h reps rule: walk_chain.induct)
  case (1 ss s2 h reps)
  then show ?case by (auto simp: reaches_def)
next
  case (3 n ss s2 a reps)
  have smaller: "card {i \<in> Mapping.keys ss. rank i \<le> rank c} < n" if c: "hop ss a = Some c" for c
  proof -
    have "a \<in> Mapping.keys ss" using c by (auto simp: hop_def bind_eq_Some_conv has_key_keys [symmetric] has_key_def)
    then have "{i \<in> Mapping.keys ss. rank i \<le> rank c} \<subset> {i \<in> Mapping.keys ss. rank i \<le> rank a}"
      using "3.prems"(1) [OF c] by (intro psubsetI subsetI notI) (auto simp: set_eq_iff dest: spec [of _ a])
    then have "card {i \<in> Mapping.keys ss. rank i \<le> rank c} < card {i \<in> Mapping.keys ss. rank i \<le> rank a}"
      using "3.prems"(2) by (intro psubset_card_mono) simp_all
    with "3.prems"(3) [of a] show ?thesis by simp
  qed
  have "Mapping.lookup_default {} (walk_chain (Suc n) ss s2 (Some a) reps) b
      = Mapping.lookup_default {} (Mapping.update a (insert s2 (Mapping.lookup_default {} reps a)) reps) b
        \<union> (if reaches ss (hop ss a) b then {s2} else {})"
    using "3.IH" [OF "3.prems"(1,2)] smaller gr_zeroI by (fastforce simp: hop_def)
  then show ?case
    unfolding reaches_hop by (auto simp: lookup_default_update_if reaches_def simp del: walk_chain.simps)
qed (simp add: reaches_def)

lemma add_replacer_spec:
  fixes rank :: "RecordId \<Rightarrow> nat"
  assumes dec: "\<And>i a. hop ss i = Some a \<Longrightarrow> rank a < rank i" and fin: "finite (Mapping.keys ss)"
    and key: "has_key ss s2"
  shows "Mapping.lookup_default {} (add_replacer s ss s2 reps) b
     = Mapping.lookup_default {} reps b \<union> (if \<not> is_unsound s s2 \<and> replaces ss s2 b then {s2} else {})"
proof (cases "is_unsound s s2")
  case False
  have bound: "card {i \<in> Mapping.keys ss. rank i \<le> rank a} < Suc (Mapping.size ss)" for a
    using card_mono [of "Mapping.keys ss" "{i \<in> Mapping.keys ss. rank i \<le> rank a}"] fin
    by (simp add: Mapping.size_def)
  have "Mapping.lookup_default {} (walk_chain (Suc (Mapping.size ss)) ss s2 (hop ss s2) reps) b
      = Mapping.lookup_default {} reps b \<union> (if reaches ss (hop ss s2) b then {s2} else {})"
    by (rule walk_chain_spec [OF dec fin bound])
  with False show ?thesis by (simp only: add_replacer_def hop_def [symmetric] reaches_hop) simp
qed (simp add: add_replacer_def)

lemma replacers_spec:
  fixes rank :: "RecordId \<Rightarrow> nat"
  assumes dec: "\<And>i a. hop ss i = Some a \<Longrightarrow> rank a < rank i" and fin: "finite (Mapping.keys ss)"
    and "set order \<subseteq> Mapping.keys ss"
  shows "Mapping.lookup_default {} (fold (add_replacer s ss) order reps) b
     = Mapping.lookup_default {} reps b \<union> {s2 \<in> set order. \<not> is_unsound s s2 \<and> replaces ss s2 b}"
  using assms(3)
proof (induction order arbitrary: reps)
  case (Cons s2 order)
  then have "has_key ss s2" by (simp add: has_key_keys)
  from add_replacer_spec [OF dec fin this] Cons show ?case by auto
qed simp

lemma compute_replacers_spec:
  fixes rank :: "RecordId \<Rightarrow> nat"
  assumes "\<And>i a. hop ss i = Some a \<Longrightarrow> rank a < rank i" "finite (Mapping.keys ss)"
  shows "Mapping.lookup_default {} (compute_replacers s ss) b = {s2. \<not> is_unsound s s2 \<and> replaces ss s2 b}"
proof -
  have "has_key ss s2" if "replaces ss s2 b" for s2
    using that by (auto elim: replaces_cases simp: has_key_def)
  then show ?thesis
    using replacers_spec [where order = "Mapping.ordered_keys ss", OF assms] assms(2)
    by (auto simp: compute_replacers_def Mapping.ordered_keys_def Mapping.lookup_default_empty has_key_keys)
qed

lemma compute_restorations_spec:
  assumes "finite A"
  shows "Mapping.lookup (compute_restorations reps A) i
     = (if i \<in> A \<and> Mapping.lookup_default {} reps i \<noteq> {} then Some (Mapping.lookup_default {} reps i) else None)"
proof -
  have "Mapping.lookup (fold (\<lambda>i m. case Mapping.lookup reps i of None \<Rightarrow> m
          | Some A \<Rightarrow> if A = {} then m else Mapping.update i A m) xs m) i
      = (if i \<in> set xs \<and> Mapping.lookup_default {} reps i \<noteq> {} then Some (Mapping.lookup_default {} reps i)
         else Mapping.lookup m i)" for xs m
    by (induction xs arbitrary: m) (auto simp: lookup_default_conv lookup_update' split: option.splits)
  with assms show ?thesis by (simp add: compute_restorations_def)
qed

section \<open>The lineage of a log\<close>

definition cand_fact :: "'z env_scheme \<Rightarrow> Record \<Rightarrow> (RecordId \<times> CandInfo) option" where
  "cand_fact E r =
     (if rec_kind r = KCandidate
      then map_option (\<lambda>d. (rec_id r, \<lparr>ci_basis = cnd_basis d, ci_parent = cnd_parent d,
                                       ci_causes = map ref_target (cause_refs r)\<rparr>))
             (de_candidate E (rec_data r))
      else None)"

definition sel_fact :: "'z env_scheme \<Rightarrow> Record \<Rightarrow> (RecordId \<times> SelInfo) option" where
  "sel_fact E r =
     (if rec_kind r = KSelection
      then map_option (\<lambda>d. (rec_id r, \<lparr>si_selected = winners (sel_outcome d),
                                       si_replace_target = find_replace_ref (rec_refs r)\<rparr>))
             (decode_selection E (rec_data r))
      else None)"

lemma collect_record_facts:
  "collect_record E s r (cs, ss) =
     (if rec_id r \<in> st_accepted_records s
      then (case cand_fact E r of None \<Rightarrow> cs | Some (i, info) \<Rightarrow> Mapping.update i info cs,
            case sel_fact E r of None \<Rightarrow> ss | Some (i, info) \<Rightarrow> Mapping.update i info ss)
      else (cs, ss))"
  by (cases "rec_kind r") (auto simp: collect_record_def cand_fact_def sel_fact_def split: option.splits)

end

