(* ===== verification/Standing_Log.thy ===== *)
theory Standing_Log
  imports Standing_Laws
begin

text \<open>
  Standing of an accepted log.  The lineage collected from the log holds exactly the accepted
  candidates and selections; their dependences point to records accepted before them, so the
  evaluation of \<open>Standing_Laws\<close> applies, and \<open>derive_standing\<close> is the section the specification
  describes.
\<close>

section \<open>Collected facts\<close>

definition put :: "(Record \<Rightarrow> (RecordId \<times> 'a) option) \<Rightarrow> State \<Rightarrow> Record \<Rightarrow> (RecordId, 'a) mapping \<Rightarrow> (RecordId, 'a) mapping" where
  "put g s r m =
     (if rec_id r \<in> st_accepted_records s
      then (case g r of None \<Rightarrow> m | Some (i, x) \<Rightarrow> Mapping.update i x m) else m)"

lemma collect_lineage_put:
  "collect_lineage E s rs = (fold (put (cand_fact E) s) rs Mapping.empty, fold (put (sel_fact E) s) rs Mapping.empty)"
proof -
  have "fold (collect_record E s) rs (cs, ss) = (fold (put (cand_fact E) s) rs cs, fold (put (sel_fact E) s) rs ss)"
    for cs ss
    by (induction rs arbitrary: cs ss) (simp_all add: collect_record_facts put_def)
  then show ?thesis by (simp add: collect_lineage_def)
qed

lemma finite_put: "finite (Mapping.keys m) \<Longrightarrow> finite (Mapping.keys (fold (put g s) rs m))"
  by (induction rs arbitrary: m) (auto simp: put_def split: option.split)

lemma lookup_put:
  assumes "\<And>r r' i x x'. r \<in> set rs \<Longrightarrow> r' \<in> set rs \<Longrightarrow> g r = Some (i, x) \<Longrightarrow> g r' = Some (i, x') \<Longrightarrow> x = x'"
  shows "Mapping.lookup (fold (put g s) rs m) i = Some x \<longleftrightarrow>
     (i, x) \<in> from_accepted g s rs \<or> i \<notin> fst ` from_accepted g s rs \<and> Mapping.lookup m i = Some x"
  using assms
proof (induction rs rule: rev_induct)
  case (snoc r rs)
  have IH: "Mapping.lookup (fold (put g s) rs m) i = Some x \<longleftrightarrow>
     (i, x) \<in> from_accepted g s rs \<or> i \<notin> fst ` from_accepted g s rs \<and> Mapping.lookup m i = Some x"
    by (rule snoc.IH) (erule (1) snoc.prems [rotated 2], simp_all)
  have new: "from_accepted g s (rs @ [r])
      = from_accepted g s rs \<union> (if rec_id r \<in> st_accepted_records s then set_option (g r) else {})"
    by (auto simp: from_accepted_iff)
  have same: "x' = x" if "g r = Some (i, x)" "(i, x') \<in> from_accepted g s rs" for x x'
    using that snoc.prems [of _ r i x' x] by (auto simp: from_accepted_iff)
  show ?case
  proof (cases "rec_id r \<in> st_accepted_records s \<and> (\<exists>y. g r = Some (i, y))")
    case True
    then obtain y where y: "rec_id r \<in> st_accepted_records s" "g r = Some (i, y)" by blast
    then have "Mapping.lookup (fold (put g s) (rs @ [r]) m) i = Some y" by (simp add: put_def)
    with y same [OF y(2)] show ?thesis by (auto simp: new)
  next
    case False
    then have "Mapping.lookup (fold (put g s) (rs @ [r]) m) i = Mapping.lookup (fold (put g s) rs m) i"
      by (auto simp: put_def lookup_update' split: option.split)
    moreover have "(i, z) \<in> from_accepted g s (rs @ [r]) \<longleftrightarrow> (i, z) \<in> from_accepted g s rs" for z
      using False by (auto simp: new)
    then have "i \<in> fst ` from_accepted g s (rs @ [r]) \<longleftrightarrow> i \<in> fst ` from_accepted g s rs" by force
    ultimately show ?thesis using IH False by (auto simp: new)
  qed
qed simp

section \<open>Positions in the log\<close>

definition pos :: "Record list \<Rightarrow> RecordId \<Rightarrow> nat" where
  "pos rs i = length (takeWhile (\<lambda>r. rec_id r \<noteq> i) rs)"

lemma pos_prefix: "i \<in> rec_id ` set pre \<Longrightarrow> pos (pre @ ext) i < length pre"
proof (induction pre)
  case (Cons a pre)
  then show ?case by (auto simp: pos_def)
qed simp

lemma pos_next: "rec_id r \<notin> rec_id ` set pre \<Longrightarrow> pos (pre @ r # ext) (rec_id r) = length pre"
  by (induction pre) (auto simp: pos_def)

lemma admitted_fresh:
  assumes "replays E R rs s" "admitted_at E R rs r pre s0"
  shows "rec_id r \<notin> rec_id ` set pre"
proof -
  obtain v ext s1 where "rs = (pre @ [r, v]) @ ext" "replays E R (pre @ [r, v]) (at (rec_time v) s1)"
    by (rule admitted_next [OF assms])
  from this(2) show ?thesis
  proof (cases rule: replays.cases)
    case (replays_pair l t r' v' t')
    then have "pre = l" "r = r'" "v = v'" by simp_all
    with replays_fresh [OF replays_pair(3,6,7)] show ?thesis by simp
  qed simp
qed

lemma pos_admitted:
  assumes "replays E R rs s" "admitted_at E R rs r pre s0" "i \<in> st_accepted_records s0"
  shows "pos rs i < pos rs (rec_id r)"
proof -
  obtain v ext where rs: "rs = pre @ r # v # ext" and pre: "replays E R pre s0"
    using assms(2) by (auto simp: admitted_at_def)
  have "i \<in> rec_id ` set pre" using accepted_not_fresh [OF pre] assms(3) by blast
  then have "pos rs i < length pre" unfolding rs by (rule pos_prefix)
  also have "\<dots> = pos rs (rec_id r)" unfolding rs by (simp add: pos_next [OF admitted_fresh [OF assms(1,2)]])
  finally show ?thesis .
qed

section \<open>Dependences point backwards\<close>

lemma resolved_causes_accepted:
  assumes "resolve_causes prior es = Some causes" "\<And>c. c \<in> set causes \<Longrightarrow> rec_id c \<in> A"
    "\<And>i c. prior_find prior i = Some c \<Longrightarrow> rec_id c = i"
  shows "ref_target ` set es \<subseteq> A"
  using assms(1,2)
proof (induction es arbitrary: causes)
  case (Cons e es)
  then obtain t ts where t: "prior_find prior (ref_target e) = Some t" "resolve_causes prior es = Some ts"
    "causes = t # ts" by (auto split: option.splits)
  with Cons.IH [OF t(2)] Cons.prems(2) [of t] Cons.prems(2) assms(3) [OF t(1)] show ?case by simp
qed simp

lemma prior_of_id: "prior_find (prior_of rs) i = Some c \<Longrightarrow> rec_id c = i"
  unfolding prior_of_find using scan.find_prior_SomeD by blast

lemma candidate_parent_accepted:
  assumes "check_candidate E r (prior_of rs) R s = None" "de_candidate E (rec_data r) = Some data"
    "cnd_parent data = Some p"
  shows "p \<in> st_accepted_records s"
  using assms
  by (auto simp: check_candidate_def resolve_candidate_def err_of_def dest: prior_of_id
      split: option.splits if_splits)

lemma candidate_causes_accepted:
  assumes "check_candidate E r (prior_of rs) R s = None" "de_candidate E (rec_data r) = Some data"
    "cnd_basis data \<noteq> Root"
  shows "ref_target ` set (cause_refs r) \<subseteq> st_accepted_records s"
proof -
  obtain cs where cs: "resolve_causes (prior_of rs) (cause_refs r) = Some cs"
    "check_derivation data s cs = None \<or> check_continuation E data R s cs = None"
    using assms by (auto simp: check_candidate_def split: option.splits CandidateBasis.splits)
  show ?thesis
    by (rule resolved_causes_accepted [OF cs(1) _ prior_of_id])
      (use cs(2) in \<open>auto simp: check_derivation_def check_continuation_def first_reason_map_None split: list.splits\<close>)
qed

lemma candidate_deps_accepted:
  assumes "check_candidate E r (prior_of rs) R s = None" "rec_kind r = KCandidate"
    "cand_fact E r = Some (i, info)" "d \<in> set (cand_deps cs info)"
  shows "d \<in> st_accepted_records s"
proof -
  obtain data where data: "de_candidate E (rec_data r) = Some data"
    and info: "info = \<lparr>ci_basis = cnd_basis data, ci_parent = cnd_parent data,
                       ci_causes = map ref_target (cause_refs r)\<rparr>"
    using assms(2,3) by (auto simp: cand_fact_def)
  show ?thesis
    using assms(4) candidate_parent_accepted [OF assms(1) data] candidate_causes_accepted [OF assms(1) data]
    by (auto simp: cand_deps_def info split: CandidateBasis.splits option.splits)
qed

lemma replace_target_accepted:
  assumes "check_replacement E r (prior_of rs) s = None" "find_replace_ref (rec_refs r) = Some t"
  shows "t \<in> st_accepted_records s"
proof -
  obtain e es where e: "filter (\<lambda>e. ref_type e = RReplace) (rec_refs r) = e # es"
    using assms(2) by (cases "filter (\<lambda>e. ref_type e = RReplace) (rec_refs r)")
      (auto simp: find_replace_ref_def filter_empty_conv find_Some_iff)
  with assms(2) have t: "t = ref_target e" by (auto simp: find_replace_ref_def dest: find_filter_hd)
  from assms(1) e show ?thesis
    by (auto simp: check_replacement_def t dest: prior_of_id split: list.splits option.splits if_splits)
qed

lemma fact_ids:
  "cand_fact E r = Some (i, x) \<Longrightarrow> rec_id r = i \<and> rec_kind r \<noteq> KVerdict"
  "sel_fact E r = Some (i, y) \<Longrightarrow> rec_id r = i \<and> rec_kind r \<noteq> KVerdict"
  by (auto simp: cand_fact_def sel_fact_def split: if_splits)

lemma fact_functional:
  assumes "replays E R rs s" "r \<in> set rs" "r' \<in> set rs" "g r = Some (i, x)" "g r' = Some (i, x')"
    "\<And>r x. g r = Some (i, x) \<Longrightarrow> rec_id r = i \<and> rec_kind r \<noteq> KVerdict"
  shows "x = x'"
proof -
  have "r = r'" using subject_unique [OF assms(1,2) _ assms(3)] assms(6) [OF assms(4)] assms(6) [OF assms(5)] by metis
  with assms(4,5) show ?thesis by simp
qed

lemma lineage_lookup:
  assumes rep: "replays E R rs s" and lin: "collect_lineage E s rs = (cs, ss)"
  shows "Mapping.lookup cs i = Some ci \<longleftrightarrow> (i, ci) \<in> from_accepted (cand_fact E) s rs"
    "Mapping.lookup ss i = Some si \<longleftrightarrow> (i, si) \<in> from_accepted (sel_fact E) s rs"
    "finite (Mapping.keys cs)" "finite (Mapping.keys ss)"
proof -
  have maps: "cs = fold (put (cand_fact E) s) rs Mapping.empty" "ss = fold (put (sel_fact E) s) rs Mapping.empty"
    using lin by (simp_all add: collect_lineage_put)
  note functional = fact_functional [OF rep]
  show "Mapping.lookup cs i = Some ci \<longleftrightarrow> (i, ci) \<in> from_accepted (cand_fact E) s rs"
    unfolding maps by (subst lookup_put) (auto intro: functional [where g = "cand_fact E"] dest: fact_ids)
  show "Mapping.lookup ss i = Some si \<longleftrightarrow> (i, si) \<in> from_accepted (sel_fact E) s rs"
    unfolding maps by (subst lookup_put) (auto intro: functional [where g = "sel_fact E"] dest: fact_ids)
  show "finite (Mapping.keys cs)" "finite (Mapping.keys ss)" unfolding maps by (simp_all add: finite_put)
qed

lemma lineage_ranked:
  assumes rep: "replays E R rs s" and lin: "collect_lineage E s rs = (cs, ss)"
  shows "ranked cs (pos rs)" "hop ss i = Some a \<Longrightarrow> pos rs a < pos rs i"
proof -
  show "ranked cs (pos rs)"
    unfolding ranked_def
  proof (intro allI impI)
    fix i info d
    assume "Mapping.lookup cs i = Some info" and d: "d \<in> set (cand_deps cs info)"
    then obtain r where r: "r \<in> set rs" "rec_id r \<in> st_accepted_records s" "cand_fact E r = Some (i, info)"
      unfolding lineage_lookup(1) [OF assms] from_accepted_iff by blast
    then have k: "rec_kind r = KCandidate" "rec_id r = i" by (auto simp: cand_fact_def split: if_splits)
    then obtain pre s0 where adm: "admitted_at E R rs r pre s0" using admitted [OF rep r(1) _ r(2)] by auto
    have "check_candidate E r (prior_of (pre @ [r])) R s0 = None"
      using admitted_checks(8) [OF adm] k(1) by (simp add: check_kind_specific_def)
    from candidate_deps_accepted [OF this k(1) r(3) d] pos_admitted [OF rep adm] k(2)
    show "pos rs d < pos rs i" by blast
  qed
  show "pos rs a < pos rs i" if "hop ss i = Some a"
  proof -
    from that obtain info where "Mapping.lookup ss i = Some info" and a: "si_replace_target info = Some a"
      by (auto simp: hop_def bind_eq_Some_conv)
    then obtain r where r: "r \<in> set rs" "rec_id r \<in> st_accepted_records s" "sel_fact E r = Some (i, info)"
      unfolding lineage_lookup(2) [OF assms] from_accepted_iff by blast
    then have k: "rec_kind r = KSelection" "rec_id r = i" "find_replace_ref (rec_refs r) = Some a"
      using a by (auto simp: sel_fact_def split: if_splits)
    then obtain pre s0 where adm: "admitted_at E R rs r pre s0" using admitted [OF rep r(1) _ r(2)] by auto
    from replace_target_accepted [OF admitted_checks(5) [OF adm] k(3)] pos_admitted [OF rep adm] k(2)
    show ?thesis by blast
  qed
qed

section \<open>The section\<close>

definition anchor_holds :: "State \<Rightarrow> sel_map \<Rightarrow> RecordId \<Rightarrow> RecordId \<Rightarrow> bool" where
  "anchor_holds s ss anchor parent \<longleftrightarrow>
     \<not> is_unsound s anchor
     \<or> (\<exists>s2 info. \<not> is_unsound s s2 \<and> replaces ss s2 anchor \<and> Mapping.lookup ss s2 = Some info
          \<and> parent \<in> si_selected info)"

lemma anchor_sound_spec:
  assumes "\<And>b. Mapping.lookup_default {} reps b = {s2. \<not> is_unsound s s2 \<and> replaces ss s2 b}"
  shows "anchor_sound s ss reps = anchor_holds s ss"
  by (intro ext) (auto simp: anchor_sound_def anchor_holds_def assms split: option.splits)

lemma derive_standing_spec:
  assumes rep: "replays E R rs s" and lin: "collect_lineage E s rs = (cs, ss)"
  shows "sg_compromised (derive_standing E rs s) = {i. has_key cs i \<and> \<not> stands s cs (anchor_holds s ss) i}"
    "sg_unsound (derive_standing E rs s) = {i. has_key ss i \<and> is_unsound s i}"
    "Mapping.lookup (sg_restorations (derive_standing E rs s)) i =
       (let A = {s2. \<not> is_unsound s s2 \<and> replaces ss s2 i}
        in if has_key ss i \<and> is_unsound s i \<and> A \<noteq> {} then Some A else None)"
proof -
  note fin = lineage_lookup(3,4) [OF assms]
  have reps: "Mapping.lookup_default {} (compute_replacers s ss) b = {s2. \<not> is_unsound s s2 \<and> replaces ss s2 b}" for b
    by (rule compute_replacers_spec [OF lineage_ranked(2) [OF assms] fin(2)])
  have unsound: "compute_unsound s ss = {i. has_key ss i \<and> is_unsound s i}"
    by (auto simp: compute_unsound_def has_key_keys)
  have order: "set (Mapping.ordered_keys cs) = Mapping.keys cs"
    using fin(1) by (simp add: Mapping.ordered_keys_def)
  have val: "Mapping.lookup_default False
      (fold (standing_from s cs (anchor_holds s ss)) (Mapping.ordered_keys cs) Mapping.empty) i
      = stands s cs (anchor_holds s ss) i" if "has_key cs i" for i
    using standing_values [OF fin(1) lineage_ranked(1) [OF assms] order that] by (simp add: lookup_default_conv)
  show "sg_compromised (derive_standing E rs s) = {i. has_key cs i \<and> \<not> stands s cs (anchor_holds s ss) i}"
    using val by (auto simp: derive_standing_def lin Let_def anchor_sound_spec [OF reps] has_key_keys)
  show "sg_unsound (derive_standing E rs s) = {i. has_key ss i \<and> is_unsound s i}"
    by (simp add: derive_standing_def lin Let_def unsound)
  have "finite {i. has_key ss i \<and> is_unsound s i}" using fin(2) by (simp add: has_key_keys)
  from compute_restorations_spec [OF this, of "compute_replacers s ss" i]
  show "Mapping.lookup (sg_restorations (derive_standing E rs s)) i =
       (let A = {s2. \<not> is_unsound s s2 \<and> replaces ss s2 i}
        in if has_key ss i \<and> is_unsound s i \<and> A \<noteq> {} then Some A else None)"
    by (simp add: derive_standing_def lin Let_def unsound reps)
qed

end
