(* ===== verification/Queries_Laws.thy ===== *)
theory Queries_Laws
  imports Queries Standing_Log
begin

text \<open>
  The queries answer, and answer exactly: on a verified log whose ids are distinct every lineage
  query on an accepted record returns a report, the line of descent lists each ancestor once, and
  the descendants of a record are the candidates whose line of descent it is in.
\<close>

section \<open>Lookups\<close>

lemma map_of_index_records:
  assumes "distinct (map rec_id rs)"
  shows "map_of (index_records rs) i = Some n \<longleftrightarrow> n < length rs \<and> rec_id (rs ! n) = i"
proof -
  have "map fst (map (\<lambda>(i, r). (rec_id r, i)) (List.enumerate 0 rs)) = map rec_id rs"
    by (rule nth_equalityI) (simp_all add: nth_enumerate_eq)
  then have "distinct (map fst (index_records rs))"
    using assms by (simp add: index_records_def rev_map [symmetric])
  moreover have "(i, n) \<in> set (index_records rs) \<longleftrightarrow> n < length rs \<and> rec_id (rs ! n) = i"
    by (force simp: index_records_def in_set_enumerate_eq)
  ultimately show ?thesis by simp
qed

lemma queries_newD:
  assumes "queries_new E rs R = Inr q"
  shows "replays E R rs (q_state q)" "log_shape E rs" "q_records q = rs" "q_verdict q = verify_log E rs R None"
    "q_by_id q = index_records rs"
proof -
  have acc: "lv_result (verify_log E rs R None) = Accept" and b: "build_state_unchecked E rs = Some (q_state q)"
    and eqs: "q_records q = rs" "q_verdict q = verify_log E rs R None" "q_by_id q = index_records rs"
    using assms by (auto simp: queries_new_def Let_def split: if_splits option.splits)
  from acc obtain s where "replays E R rs s" "log_shape E rs" unfolding verify_log_genesis by blast
  with replays_build_state [of E R rs s] b show "replays E R rs (q_state q)" "log_shape E rs" by simp_all
  show "q_records q = rs" "q_verdict q = verify_log E rs R None" "q_by_id q = index_records rs" by (rule eqs)+
qed

lemma q_get_iff:
  assumes "queries_new E rs R = Inr q" "distinct (map rec_id rs)"
  shows "q_get q i = Inr r \<longleftrightarrow> r \<in> set rs \<and> rec_id r = i"
proof -
  have "(\<exists>n. map_of (index_records rs) i = Some n \<and> rs ! n = r) \<longleftrightarrow> r \<in> set rs \<and> rec_id r = i"
    unfolding map_of_index_records [OF assms(2)] by (auto simp: in_set_conv_nth)
  then show ?thesis using queries_newD(3,5) [OF assms(1)] by (auto simp: q_get_def split: option.split)
qed

section \<open>The breadth-first walk\<close>

definition back_rel :: "'z env_scheme \<Rightarrow> Queries \<Rightarrow> (RecordId \<times> RecordId) set" where
  "back_rel E q =
     {(i, j). \<exists>r d via. q_get q i = Inr r \<and> candidate_data E r = Inr d \<and> (j, via) \<in> set (back_edges q r d)}"

definition walked :: "'z env_scheme \<Rightarrow> Queries \<Rightarrow> RecordId set \<Rightarrow> RecordId set \<Rightarrow> RecordId list \<Rightarrow> bool" where
  "walked E q seen starts ids \<longleftrightarrow>
     distinct ids \<and> set ids \<inter> seen = {} \<and> starts \<subseteq> seen \<union> set ids
     \<and> back_rel E q `` set ids \<subseteq> seen \<union> set ids \<and> set ids \<subseteq> (back_rel E q)\<^sup>* `` starts"

lemma walked_step:
  assumes "walked E q (insert i seen) (starts \<union> back_rel E q `` {i}) ids" "i \<notin> seen"
  shows "walked E q seen (insert i starts) (i # ids)"
proof -
  have reach: "(back_rel E q)\<^sup>* `` (starts \<union> back_rel E q `` {i}) \<subseteq> (back_rel E q)\<^sup>* `` insert i starts"
    by (auto intro: converse_rtrancl_into_rtrancl)
  show ?thesis
    unfolding walked_def
  proof (intro conjI)
    show "set (i # ids) \<subseteq> (back_rel E q)\<^sup>* `` insert i starts"
      using assms(1) reach unfolding walked_def by auto
    show "back_rel E q `` set (i # ids) \<subseteq> seen \<union> set (i # ids)"
      using assms(1) unfolding walked_def by auto
  qed (use assms in \<open>auto simp: walked_def\<close>)
qed

lemma walked_seen:
  assumes "walked E q seen starts ids" "i \<in> seen"
  shows "walked E q seen (insert i starts) ids"
proof -
  have "(back_rel E q)\<^sup>* `` starts \<subseteq> (back_rel E q)\<^sup>* `` insert i starts" by (rule Image_mono) auto
  with assms show ?thesis unfolding walked_def by (intro conjI) auto
qed

lemma walked_leaf:
  assumes "walked E q (insert i seen) starts ids" "i \<notin> seen" "back_rel E q `` {i} = {}"
  shows "walked E q seen (insert i starts) (i # ids)"
  using walked_step [of E q i seen starts ids] assms by simp

lemma back_rel_image:
  assumes "q_get q i = Inr r" "candidate_data E r = Inr d"
  shows "back_rel E q `` {i} = fst ` set (back_edges q r d)"
  using assms by (force simp: back_rel_def)

lemma back_rel_leaf:
  assumes "q_get q i = Inr r" "rec_kind r \<noteq> KCandidate"
  shows "back_rel E q `` {i} = {}"
  using assms by (auto simp: back_rel_def candidate_data_def)

lemma descent_loop_walks:
  assumes "\<And>i r. q_get q i = Inr r \<Longrightarrow> rec_id r = i" "descent_loop E q seen queue line = Inr line'"
  shows "\<exists>ids steps. line' = line @ steps \<and> map (\<lambda>st. nd_id (ds_node st)) steps = map hex_encode ids
     \<and> walked E q seen (fst ` set queue) ids"
  using assms
proof (induction E q seen queue line rule: descent_loop.induct)
  case (1 E q seen line)
  then show ?case by (intro exI [of _ "[]"]) (auto simp: walked_def)
next
  case (2 E q seen i via queue line)
  show ?case
  proof (cases "i \<in> seen")
    case True
    with "2.IH"(1) [OF True "2.prems"(1)] "2.prems"(2) obtain ids steps where
      *: "line' = line @ steps" "map (\<lambda>st. nd_id (ds_node st)) steps = map hex_encode ids"
        "walked E q seen (fst ` set queue) ids" by auto
    then have "walked E q seen (fst ` set ((i, via) # queue)) ids" using walked_seen [OF _ True] by simp
    with * show ?thesis by blast
  next
    case new: False
    then obtain anc where anc: "q_get q i = Inr anc" using "2.prems"(2) by (auto split: sum.splits)
    have id: "nd_id (node E q anc) = hex_encode i" using "2.prems"(1) [OF anc] by (simp add: node_def)
    let ?st = "\<lparr>ds_node = node E q anc, ds_via = via\<rparr>"
    show ?thesis
    proof (cases "rec_kind anc = KCandidate")
      case True
      with "2.prems"(2) new anc obtain ad where ad: "candidate_data E anc = Inr ad"
        and run: "descent_loop E q (insert i seen) (queue @ back_edges q anc ad) (line @ [?st]) = Inr line'"
        by (auto split: sum.splits)
      from "2.IH"(2) [OF new anc True ad "2.prems"(1) run] obtain ids steps where
        *: "line' = (line @ [?st]) @ steps" "map (\<lambda>st. nd_id (ds_node st)) steps = map hex_encode ids"
          "walked E q (insert i seen) (fst ` set (queue @ back_edges q anc ad)) ids" by blast
      have "walked E q (insert i seen) (fst ` set queue \<union> back_rel E q `` {i}) ids"
        using *(3) back_rel_image [OF anc ad] by (simp add: image_Un)
      from walked_step [OF this new] *(1,2) id show ?thesis
        by (intro exI [of _ "i # ids"] exI [of _ "?st # steps"]) simp
    next
      case False
      with "2.prems"(2) new anc have
        run: "descent_loop E q (insert i seen) queue (line @ [?st]) = Inr line'" by simp
      from "2.IH"(3) [OF new anc False "2.prems"(1) run] obtain ids steps where
        *: "line' = (line @ [?st]) @ steps" "map (\<lambda>st. nd_id (ds_node st)) steps = map hex_encode ids"
          "walked E q (insert i seen) (fst ` set queue) ids" by blast
      from walked_leaf [OF *(3) new back_rel_leaf [OF anc False]] *(1,2) id show ?thesis
        by (intro exI [of _ "i # ids"] exI [of _ "?st # steps"]) simp
    qed
  qed
qed

lemma walked_all:
  assumes "walked E q {c} (back_rel E q `` {c}) ids"
  shows "set ids = (back_rel E q)\<^sup>+ `` {c} - {c}"
proof
  have "(back_rel E q)\<^sup>* `` (back_rel E q `` {c}) = (back_rel E q)\<^sup>+ `` {c}"
    unfolding trancl_unfold_left by blast
  then show "set ids \<subseteq> (back_rel E q)\<^sup>+ `` {c} - {c}" using assms by (auto simp: walked_def)
  have "j \<in> insert c (set ids)" if "(c, j) \<in> (back_rel E q)\<^sup>+" for j
    using that assms by (induction rule: trancl_induct) (auto simp: walked_def)
  then show "(back_rel E q)\<^sup>+ `` {c} - {c} \<subseteq> set ids" by blast
qed

section \<open>Lineage of accepted candidates\<close>

lemma set_sorted_causes [simp]: "set (sorted_causes r) = ref_target ` set (cause_refs r)"
  by (simp add: sorted_causes_def cause_refs_def)

lemma accepted_candidate_edges:
  assumes rep: "replays E R rs s" and r: "r \<in> set rs" "rec_kind r = KCandidate" "rec_id r \<in> st_accepted_records s"
  shows "\<exists>d. candidate_data E r = Inr d
    \<and> (\<forall>q. \<forall>j \<in> fst ` set (back_edges q r d). j \<in> st_accepted_records s \<and> pos rs j < pos rs (rec_id r))"
proof -
  obtain pre s0 where adm: "admitted_at E R rs r pre s0" using admitted [OF rep r(1) _ r(3)] r(2) by auto
  then have chk: "check_candidate E r (prior_of (pre @ [r])) R s0 = None"
    using admitted_checks(8) [OF adm] r(2) by (simp add: check_kind_specific_def)
  then obtain d where d: "de_candidate E (rec_data r) = Some d"
    by (auto simp: check_candidate_def split: option.splits)
  obtain v ext where "rs = pre @ r # v # ext" and pre: "replays E R pre s0" using adm by (auto simp: admitted_at_def)
  then have mono: "st_accepted_records s0 \<subseteq> st_accepted_records s" using accepted_mono [OF rep] by blast
  have "j \<in> st_accepted_records s0" if "j \<in> fst ` set (back_edges q r d)" for q j
    using that candidate_parent_accepted [OF chk d] candidate_causes_accepted [OF chk d]
    by (auto simp: back_edges_def split: CandidateBasis.splits option.splits)
  then have "\<forall>q. \<forall>j \<in> fst ` set (back_edges q r d). j \<in> st_accepted_records s \<and> pos rs j < pos rs (rec_id r)"
    using mono pos_admitted [OF rep adm] by blast
  then show ?thesis using d r(2) by (simp add: candidate_data_def)
qed

lemma accepted_found:
  assumes new: "queries_new E rs R = Inr q" and ids: "distinct (map rec_id rs)" and i: "i \<in> st_accepted_records (q_state q)"
  obtains r where "q_get q i = Inr r" "r \<in> set rs" "rec_id r = i" "rec_kind r \<noteq> KVerdict"
proof -
  have "i \<in> subject_ids rs"
    using accepted.inv_replays [OF queries_newD(1) [OF new]] i by (auto simp: accepted_subjects_def)
  then obtain r where "r \<in> set rs" "rec_id r = i" "rec_kind r \<noteq> KVerdict" by (auto simp: subject_ids_def)
  with q_get_iff [OF new ids] that show thesis by blast
qed

lemma back_rel_backwards:
  assumes new: "queries_new E rs R = Inr q" and ids: "distinct (map rec_id rs)"
    and step: "(i, j) \<in> back_rel E q" and i: "i \<in> st_accepted_records (q_state q)"
  shows "j \<in> st_accepted_records (q_state q) \<and> pos rs j < pos rs i"
proof -
  from step obtain r d via where r: "q_get q i = Inr r" "candidate_data E r = Inr d" "(j, via) \<in> set (back_edges q r d)"
    by (auto simp: back_rel_def)
  then have mem: "r \<in> set rs" "rec_id r = i" "rec_kind r = KCandidate"
    using q_get_iff [OF new ids] by (auto simp: candidate_data_def split: if_splits)
  have "j \<in> fst ` set (back_edges q r d)" using r(3) by force
  then show ?thesis
    using accepted_candidate_edges [OF queries_newD(1) [OF new] mem(1,3)] i mem(2) r(2) by auto
qed

lemma ancestors_accepted:
  assumes new: "queries_new E rs R = Inr q" and ids: "distinct (map rec_id rs)"
    and step: "(i, j) \<in> (back_rel E q)\<^sup>+" and i: "i \<in> st_accepted_records (q_state q)"
  shows "j \<in> st_accepted_records (q_state q) \<and> pos rs j < pos rs i"
  using step
proof (induction rule: trancl_induct)
  case (base j)
  then show ?case using back_rel_backwards [OF new ids _ i] by blast
next
  case (step j k)
  then show ?case using back_rel_backwards [OF new ids step.hyps(2)] by fastforce
qed

lemma descent_loop_total:
  assumes new: "queries_new E rs R = Inr q" and ids: "distinct (map rec_id rs)"
    and "fst ` set queue \<subseteq> st_accepted_records (q_state q)"
  shows "\<exists>line'. descent_loop E q seen queue line = Inr line'"
  using assms
proof (induction E q seen queue line rule: descent_loop.induct)
  case (2 E q seen i via queue line)
  note get = accepted_found [OF "2.prems"(1,2)]
  have i: "i \<in> st_accepted_records (q_state q)" and rest: "fst ` set queue \<subseteq> st_accepted_records (q_state q)"
    using "2.prems"(3) by simp_all
  obtain anc where anc: "q_get q i = Inr anc" "anc \<in> set rs" "rec_id anc = i" by (rule get [OF i])
  show ?case
  proof (cases "i \<in> seen \<or> rec_kind anc \<noteq> KCandidate")
    case True
    then show ?thesis using "2.IH"(1) [OF _ "2.prems"(1,2) rest] "2.IH"(3) [OF _ anc(1) _ "2.prems"(1,2) rest] anc(1)
      by (cases "i \<in> seen") auto
  next
    case False
    obtain d where d: "candidate_data E anc = Inr d"
      using accepted_candidate_edges [OF queries_newD(1) [OF "2.prems"(1)] anc(2)] False i anc(3) by metis
    have "fst ` set (queue @ back_edges q anc d) \<subseteq> st_accepted_records (q_state q)"
      using rest back_rel_backwards [OF "2.prems"(1,2) _ i] back_rel_image [OF anc(1) d, symmetric]
      by (simp add: image_Un) blast
    with "2.IH"(2) [OF _ anc(1) _ d "2.prems"(1,2)] False anc(1) d show ?thesis by auto
  qed
qed simp

lemma descent_exact:
  assumes new: "queries_new E rs R = Inr q" and ids: "distinct (map rec_id rs)"
    and c: "r \<in> set rs" "rec_kind r = KCandidate" "rec_id r \<in> st_accepted_records (q_state q)"
  shows "\<exists>line anc. descent E q (rec_id r) = Inr \<lparr>dr_target = node E q r, dr_line = line\<rparr>
     \<and> map (\<lambda>st. nd_id (ds_node st)) line = map hex_encode anc \<and> distinct anc
     \<and> set anc = (back_rel E q)\<^sup>+ `` {rec_id r}"
proof -
  have get: "q_get q (rec_id r) = Inr r" using q_get_iff [OF new ids] c(1) by simp
  obtain d where d: "candidate_data E r = Inr d"
    using accepted_candidate_edges [OF queries_newD(1) [OF new] c] by metis
  have starts: "fst ` set (back_edges q r d) = back_rel E q `` {rec_id r}" by (simp add: back_rel_image [OF get d])
  then have "fst ` set (back_edges q r d) \<subseteq> st_accepted_records (q_state q)"
    using back_rel_backwards [OF new ids _ c(3)] by auto
  from descent_loop_total [OF new ids this] obtain line where
    line: "descent_loop E q {rec_id r} (back_edges q r d) [] = Inr line" by blast
  have "rec_id t = i" if "q_get q i = Inr t" for i t using that q_get_iff [OF new ids] by blast
  from descent_loop_walks [OF this line] obtain anc where
    anc: "map (\<lambda>st. nd_id (ds_node st)) line = map hex_encode anc" "walked E q {rec_id r} (back_rel E q `` {rec_id r}) anc"
    unfolding starts by auto
  have "rec_id r \<notin> (back_rel E q)\<^sup>+ `` {rec_id r}" using ancestors_accepted [OF new ids _ c(3)] by blast
  with walked_all [OF anc(2)] have "set anc = (back_rel E q)\<^sup>+ `` {rec_id r}" by blast
  moreover have "distinct anc" using anc(2) by (simp add: walked_def)
  ultimately show ?thesis using get c(3) d line anc(1) by (auto simp: descent_def get_accepted_def)
qed

lemma descendants_loop_exact:
  assumes new: "queries_new E rs R = Inr q" and ids: "distinct (map rec_id rs)" and sub: "set qs \<subseteq> set rs"
  shows "descendants_loop E q i qs found
     = Inr (found @ map (node E q) (filter (\<lambda>r. accepted_of q KCandidate r \<and> (rec_id r, i) \<in> (back_rel E q)\<^sup>+) qs))"
  using sub
proof (induction qs arbitrary: found)
  case (Cons r qs)
  show ?case
  proof (cases "accepted_of q KCandidate r \<and> rec_id r \<noteq> i")
    case True
    then obtain line anc where rep: "descent E q (rec_id r) = Inr \<lparr>dr_target = node E q r, dr_line = line\<rparr>"
      "map (\<lambda>st. nd_id (ds_node st)) line = map hex_encode anc" "set anc = (back_rel E q)\<^sup>+ `` {rec_id r}"
      using descent_exact [OF new ids, of r] Cons.prems by (auto simp: accepted_of_def)
    have "(\<exists>st \<in> set line. nd_id (ds_node st) = hex_encode i) \<longleftrightarrow> hex_encode i \<in> set (map (\<lambda>st. nd_id (ds_node st)) line)"
      by (force simp: image_iff)
    also have "\<dots> \<longleftrightarrow> (rec_id r, i) \<in> (back_rel E q)\<^sup>+" unfolding rep(2) set_map rep(3)
      by (simp add: inj_image_mem_iff inj_def)
    finally show ?thesis using True rep(1) Cons by simp
  next
    case False
    then have "\<not> (accepted_of q KCandidate r \<and> (rec_id r, i) \<in> (back_rel E q)\<^sup>+)"
      using ancestors_accepted [OF new ids, of "rec_id r" i] by (auto simp: accepted_of_def)
    with False Cons show ?thesis by auto
  qed
qed simp

lemma descendants_exact:
  assumes new: "queries_new E rs R = Inr q" and ids: "distinct (map rec_id rs)"
    and c: "r \<in> set rs" "rec_id r \<in> st_accepted_records (q_state q)"
  shows "descendants E q (rec_id r) = Inr \<lparr>dn_target = node E q r, dn_descendants =
     map (node E q) (filter (\<lambda>r'. accepted_of q KCandidate r' \<and> (rec_id r', rec_id r) \<in> (back_rel E q)\<^sup>+) rs)\<rparr>"
  using q_get_iff [OF new ids, of "rec_id r" r] c descendants_loop_exact [OF new ids, of rs]
  by (simp add: descendants_def get_accepted_def queries_newD(3) [OF new])

section \<open>Evidence\<close>

lemma length_nth_hex:
  assumes "i < length h"
  shows "take 2 (drop (2 * i) (hex_encode h)) = hex_encode [h ! i]"
  using assms
proof (induction h arbitrary: i)
  case (Cons b h)
  then show ?case by (cases i) (auto simp: hex_encode_def)
qed simp

lemma parse_hex_encode: "length h = 32 \<Longrightarrow> parse_hex (hex_encode h) = h"
  by (rule nth_equalityI) (simp_all add: parse_hex_def length_nth_hex hex_pairs_encode)

lemma kind_name_inj: "kind_name k = kind_name k' \<Longrightarrow> k = k'"
  by (cases k; cases k') (simp_all add: kind_name_def)

lemma evidence_loop_total:
  assumes "\<And>st. st \<in> set line \<Longrightarrow> \<exists>r. q_get q (parse_hex (nd_id (ds_node st))) = Inr r"
  shows "\<exists>found'. evidence_loop E q line found = Inr found'"
  using assms
proof (induction line arbitrary: found)
  case (Cons st line)
  then obtain r where "q_get q (parse_hex (nd_id (ds_node st))) = Inr r" by (meson list.set_intros(1))
  with Cons show ?case by auto
qed simp

lemma queries_answer:
  assumes new: "queries_new E rs R = Inr q" and ids: "distinct (map rec_id rs)" "\<And>r. r \<in> set rs \<Longrightarrow> length (rec_id r) = 32"
    and c: "r \<in> set rs" "rec_kind r = KCandidate \<or> rec_kind r = KSelection" "rec_id r \<in> st_accepted_records (q_state q)"
  shows "\<exists>rep. evidence E q (rec_id r) = Inr rep"
proof (cases "rec_kind r = KCandidate")
  case True
  have get: "get_accepted q (rec_id r) = Inr r"
    using q_get_iff [OF new ids(1), of "rec_id r" r] c(1,3) by (simp add: get_accepted_def)
  obtain line anc where rep: "descent E q (rec_id r) = Inr \<lparr>dr_target = node E q r, dr_line = line\<rparr>"
    "map (\<lambda>st. nd_id (ds_node st)) line = map hex_encode anc" "set anc = (back_rel E q)\<^sup>+ `` {rec_id r}"
    using descent_exact [OF new ids(1) c(1) True c(3)] by blast
  have "\<exists>t. q_get q (parse_hex (nd_id (ds_node st))) = Inr t" if "st \<in> set line" for st
  proof -
    have "nd_id (ds_node st) \<in> hex_encode ` set anc" using rep(2) that by (metis image_eqI list.set_map)
    then obtain i where i: "nd_id (ds_node st) = hex_encode i" "i \<in> st_accepted_records (q_state q)"
      using rep(3) ancestors_accepted [OF new ids(1) _ c(3)] by auto
    obtain t where "q_get q i = Inr t" "t \<in> set rs" "rec_id t = i" by (rule accepted_found [OF new ids(1) i(2)])
    with i(1) parse_hex_encode ids(2) show ?thesis by metis
  qed
  from evidence_loop_total [OF this] obtain found where "evidence_loop E q line [] = Inr found" by blast
  with get True rep(1) show ?thesis by (simp add: evidence_def)
next
  case False
  then show ?thesis
    using c q_get_iff [OF new ids(1), of "rec_id r" r] by (auto simp: evidence_def get_accepted_def)
qed

section \<open>Lineage as the payloads state it\<close>

text \<open>
  \<open>lineage_edges\<close> reads the relation off the log: a continuation descends from its parent and from the
  anchors it names as causes, a derivation from the candidates among its causes.
\<close>

inductive_set lineage_edges :: "'z env_scheme \<Rightarrow> Record list \<Rightarrow> (RecordId \<times> RecordId) set"
  for E :: "'z env_scheme" and rs :: "Record list" where
  anchor: "\<lbrakk>r \<in> set rs; rec_kind r = KCandidate; de_candidate E (rec_data r) = Some d; cnd_basis d = Continuation;
      \<lparr>ref_type = RCause, ref_target = j\<rparr> \<in> set (rec_refs r)\<rbrakk> \<Longrightarrow> (rec_id r, j) \<in> lineage_edges E rs"
| parent: "\<lbrakk>r \<in> set rs; rec_kind r = KCandidate; de_candidate E (rec_data r) = Some d; cnd_basis d = Continuation;
      cnd_parent d = Some j\<rbrakk> \<Longrightarrow> (rec_id r, j) \<in> lineage_edges E rs"
| derivation: "\<lbrakk>r \<in> set rs; rec_kind r = KCandidate; de_candidate E (rec_data r) = Some d; cnd_basis d = Derivation;
      \<lparr>ref_type = RCause, ref_target = rec_id t\<rparr> \<in> set (rec_refs r); t \<in> set rs; rec_kind t = KCandidate\<rbrakk>
    \<Longrightarrow> (rec_id r, rec_id t) \<in> lineage_edges E rs"

lemma candidate_data_iff:
  "candidate_data E r = Inr d \<longleftrightarrow> rec_kind r = KCandidate \<and> de_candidate E (rec_data r) = Some d"
  by (auto simp: candidate_data_def split: option.splits)

lemma cause_iff: "j \<in> ref_target ` set (cause_refs r) \<longleftrightarrow> \<lparr>ref_type = RCause, ref_target = j\<rparr> \<in> set (rec_refs r)"
proof
  assume "j \<in> ref_target ` set (cause_refs r)"
  then obtain e where "e \<in> set (rec_refs r)" "ref_type e = RCause" "ref_target e = j" by (auto simp: cause_refs_def)
  moreover from this have "e = \<lparr>ref_type = RCause, ref_target = j\<rparr>" by simp
  ultimately show "\<lparr>ref_type = RCause, ref_target = j\<rparr> \<in> set (rec_refs r)" by simp
qed (force simp: cause_refs_def)

lemma back_rel_lineage:
  assumes "queries_new E rs R = Inr q" "distinct (map rec_id rs)"
  shows "back_rel E q = lineage_edges E rs"
proof -
  note get = q_get_iff [OF assms]
  have found: "(case q_get q j of Inl _ \<Rightarrow> False | Inr t \<Rightarrow> rec_kind t = KCandidate)
      \<longleftrightarrow> (\<exists>t \<in> set rs. rec_id t = j \<and> rec_kind t = KCandidate)" for j
  proof (cases "q_get q j")
    case (Inl e)
    then have "rec_id t \<noteq> j" if "t \<in> set rs" for t using get [of j t] that by auto
    with Inl show ?thesis by auto
  next
    case (Inr t)
    then have "t' = t \<longleftrightarrow> t' \<in> set rs \<and> rec_id t' = j" for t' using get [of j t'] by auto
    with Inr show ?thesis by (metis (mono_tags, lifting) sum.case(2))
  qed
  have step: "(\<exists>via. (j, via) \<in> set (back_edges q r d)) \<longleftrightarrow>
      cnd_basis d = Continuation \<and> (j \<in> ref_target ` set (cause_refs r) \<or> cnd_parent d = Some j)
      \<or> cnd_basis d = Derivation \<and> j \<in> ref_target ` set (cause_refs r) \<and> (\<exists>t \<in> set rs. rec_id t = j \<and> rec_kind t = KCandidate)" for r d j
    unfolding back_edges_def found by (auto split: CandidateBasis.splits option.splits)
  have "(i, j) \<in> back_rel E q \<longleftrightarrow> (\<exists>r d. r \<in> set rs \<and> rec_id r = i \<and> candidate_data E r = Inr d
      \<and> (\<exists>via. (j, via) \<in> set (back_edges q r d)))" for i j
    unfolding back_rel_def get by blast
  moreover have "(i, j) \<in> lineage_edges E rs \<longleftrightarrow> (\<exists>r d. r \<in> set rs \<and> rec_id r = i \<and> candidate_data E r = Inr d
      \<and> (\<exists>via. (j, via) \<in> set (back_edges q r d)))" for i j
    unfolding lineage_edges.simps [of i j] step cause_iff candidate_data_iff by blast
  ultimately show ?thesis by (intro set_eqI) (metis surj_pair)
qed

end
