(* ===== verification/Context.thy ===== *)
theory Context
  imports Ledger_State
begin

text \<open>
  \<open>src/src/context/context.rs\<close>: the working set of records selected for a proposer, and what it
  promises: only records of the thread that stand, the newest first, as many as the rules allow.
\<close>

section \<open>Selection (context.rs)\<close>

datatype ContextPolicy = ExcludeTainted | IncludeTainted

record Context =
  cx_records :: "Record list"
  cx_usage_feedback :: "(RecordId \<times> string, UsageOutcomeCounts) mapping"
  cx_tainted_records :: "RecordId set"

definition in_context :: "State \<Rightarrow> hash256 \<Rightarrow> ContextPolicy \<Rightarrow> Record \<Rightarrow> bool" where
  "in_context s thread policy r \<longleftrightarrow>
     rec_thread r = thread \<and> rec_kind r \<noteq> KVerdict \<and> rec_id r \<in> st_accepted_records s
     \<and> rec_id r \<notin> st_replaced_records s \<and> rec_id r \<notin> st_retracted_records s
     \<and> (policy = IncludeTainted \<or> rec_id r \<notin> st_tainted_records s)"

text \<open>The comparison \<open>b.time.cmp(&a.time).then_with(|| a.id.cmp(&b.id))\<close>: later times come first.\<close>

definition context_key :: "Record \<Rightarrow> int \<times> RecordId" where
  "context_key r = (- uint (rec_time r), rec_id r)"

definition build_context_with ::
  "Record list \<Rightarrow> State \<Rightarrow> VerifierRules \<Rightarrow> hash256 \<Rightarrow> ContextPolicy \<Rightarrow> Context" where
  "build_context_with rs s R thread policy =
     (let selected = sort_key context_key (filter (in_context s thread policy) rs);
          context_records = take (unat (vr_max_context_records R)) selected;
          context_ids = set (map rec_id context_records)
      in \<lparr>cx_records = context_records,
          cx_usage_feedback = Mapping.filter (\<lambda>(used, role) _. used \<in> context_ids) (st_usage_counts s),
          cx_tainted_records =
            set (map rec_id (filter (\<lambda>r. rec_id r \<in> st_tainted_records s) context_records))\<rparr>)"

definition build_context :: "Record list \<Rightarrow> State \<Rightarrow> VerifierRules \<Rightarrow> hash256 \<Rightarrow> Context" where
  "build_context rs s R thread = build_context_with rs s R thread ExcludeTainted"

section \<open>What the selection promises\<close>

lemma take_sort_key_least:
  fixes f :: "'a \<Rightarrow> 'b :: linorder"
  assumes "x \<in> set (take n (sort_key f xs))" "y \<in> set xs" "y \<notin> set (take n (sort_key f xs))"
  shows "f x \<le> f y"
proof -
  let ?ys = "sort_key f xs"
  have "sorted (map f (take n ?ys @ drop n ?ys))" by simp
  then have "\<forall>a \<in> set (take n ?ys). \<forall>b \<in> set (drop n ?ys). f a \<le> f b"
    unfolding map_append sorted_append by simp
  moreover have "y \<in> set (drop n ?ys)"
  proof -
    have "y \<in> set (take n ?ys @ drop n ?ys)" using assms(2) unfolding append_take_drop_id by simp
    then show ?thesis using assms(3) by (simp only: set_append Un_iff simp_thms)
  qed
  ultimately show ?thesis using assms(1) by blast
qed

lemma context_key_le: "context_key a \<le> context_key b \<Longrightarrow> rec_time b \<le> rec_time a"
  by (auto simp: context_key_def less_eq_prod_def word_le_def)

lemma context_records_eligible:
  "r \<in> set (cx_records (build_context_with rs s R thread policy)) \<Longrightarrow> r \<in> set rs \<and> in_context s thread policy r"
  by (auto simp: build_context_with_def Let_def dest: in_set_takeD)

lemma context_records_newest:
  assumes "r \<in> set (cx_records (build_context_with rs s R thread policy))" "q \<in> set rs"
    "in_context s thread policy q" "q \<notin> set (cx_records (build_context_with rs s R thread policy))"
  shows "rec_time q \<le> rec_time r"
  using take_sort_key_least [of r _ context_key "filter (in_context s thread policy) rs" q] assms context_key_le
  by (auto simp: build_context_with_def Let_def)

lemma context_records_ordered:
  "sorted_wrt (\<lambda>a b. rec_time b \<le> rec_time a) (cx_records (build_context_with rs s R thread policy))"
proof -
  let ?ys = "sort_key context_key (filter (in_context s thread policy) rs)" and ?n = "unat (vr_max_context_records R)"
  have "sorted (map context_key (take ?n ?ys))" by (simp add: take_map [symmetric] sorted_wrt_take)
  then have "sorted_wrt (\<lambda>a b. context_key a \<le> context_key b) (take ?n ?ys)" by (simp add: sorted_wrt_map)
  then have "sorted_wrt (\<lambda>a b. rec_time b \<le> rec_time a) (take ?n ?ys)"
    by (rule sorted_wrt_mono_rel [rotated]) (rule context_key_le)
  then show ?thesis by (simp add: build_context_with_def Let_def)
qed

lemma context_records_count:
  "length (cx_records (build_context_with rs s R thread policy))
     = min (length (filter (in_context s thread policy) rs)) (unat (vr_max_context_records R))"
  by (simp add: build_context_with_def Let_def min.commute)

end
