(* ===== verification/Queries_Sample.thy ===== *)
theory Queries_Sample
  imports Queries_Laws Sample_Log Context
begin

text \<open>
  The sample ledger with a root candidate and a candidate derived from it, as a context for the
  queries.
\<close>

lemma g_decode:
  "de_candidate s_env (form (candidate_json (g_candidate Root))) = Some (g_candidate Root)"
  "de_candidate s_env (form (candidate_json (g_candidate Derivation))) = Some (g_candidate Derivation)"
proof -
  show "de_candidate s_env (form (candidate_json (g_candidate Root))) = Some (g_candidate Root)"
    by (simp add: s_env_def parse_one_head)
  have "norm (candidate_json (g_candidate Root)) \<noteq> norm (candidate_json (g_candidate Derivation))"
  proof
    assume "norm (candidate_json (g_candidate Root)) = norm (candidate_json (g_candidate Derivation))"
    from norm_object_fields [OF this [unfolded candidate_json_def], of "''basis''"] show False
      by (simp add: g_candidate_def)
  qed
  then have "canonical_json plain_crates (candidate_json (g_candidate Root))
      \<noteq> Some (form (candidate_json (g_candidate Derivation)))"
    using canonical_json_inj [of "candidate_json (g_candidate Root)" "candidate_json (g_candidate Derivation)" plain_crates]
      canonical_json_form [of "candidate_json (g_candidate Derivation)" plain_crates] by auto
  then show "de_candidate s_env (form (candidate_json (g_candidate Derivation))) = Some (g_candidate Derivation)"
    by (simp add: s_env_def parse_one_def canonical_json_form)
qed

lemma g_source_ok: "source_binding_well_formed g_source"
  by (simp add: source_binding_well_formed_def g_source_def is_lower_hex_def is_lower_hex_char_def list_all_iff)

definition g_state1 :: State where
  "g_state1 = at 2 (the (apply_accepted s_env default_state g_c1))"

definition g_state2 :: State where
  "g_state2 = at 4 (the (apply_accepted s_env g_state1 g_c2))"

lemma candidate_applies:
  assumes "rec_kind r = KCandidate"
  shows "map_option (at t) (apply_accepted s_env s r) = Some (at t (the (apply_accepted s_env s r)))"
    "st_accepted_records (at t (the (apply_accepted s_env s r))) = insert (rec_id r) (st_accepted_records s)"
proof -
  obtain s1 where "apply_accepted s_env s r = Some s1" using assms by (auto simp: apply_accepted_def apply_kind_def)
  with apply_accepted_records [OF this] show
    "map_option (at t) (apply_accepted s_env s r) = Some (at t (the (apply_accepted s_env s r)))"
    "st_accepted_records (at t (the (apply_accepted s_env s r))) = insert (rec_id r) (st_accepted_records s)"
    by (simp_all add: at_def)
qed

lemma g_accepted: "st_accepted_records g_state1 = {[51]}" "st_accepted_records g_state2 = {[53], [51]}"
proof -
  have kinds: "rec_kind g_c1 = KCandidate" "rec_kind g_c2 = KCandidate" by (simp_all add: g_c1_def g_c2_def)
  show *: "st_accepted_records g_state1 = {[51]}"
    unfolding g_state1_def candidate_applies(2) [OF kinds(1)] by (simp add: g_c1_def default_state_def)
  show "st_accepted_records g_state2 = {[53], [51]}"
    unfolding g_state2_def candidate_applies(2) [OF kinds(2)] * by (simp add: g_c2_def)
qed

lemma g_checked1: "check_record s_env g_c1 (prior_of ([] @ [g_c1])) s_rules default_state = None"
proof -
  have "check_candidate s_env g_c1 (prior_of ([] @ [g_c1])) s_rules default_state = None"
    using g_source_ok g_decode(1)
    by (simp add: check_candidate_def g_c1_def cause_refs_def) (simp add: g_candidate_def check_root_def)
  then show ?thesis
    using s_step_check [OF g_c1_def, of "[]" default_state] g_decode(1)
    by (simp add: s_step_simps check_kind_specific_def)
qed

lemma g_replays1: "replays s_env s_rules [g_c1, s_verdict 52 2 51] g_state1"
proof -
  have "map_option (at 2) (apply_accepted s_env default_state g_c1) = Some g_state1"
    unfolding g_state1_def by (rule candidate_applies) (simp add: g_c1_def)
  then show ?thesis
    using s_step [OF replays_Nil g_c1_def _ g_checked1, of 52 2 g_state1] by (simp add: s_step_simps)
qed

lemma g_checked2:
  "check_record s_env g_c2 (prior_of ([g_c1, s_verdict 52 2 51] @ [g_c2])) s_rules g_state1 = None"
proof -
  let ?p = "prior_of ([g_c1, s_verdict 52 2 51] @ [g_c2])"
  have find: "prior_find ?p [51] = Some g_c1"
    by (simp add: prior_of_find scan_find_def) (simp add: g_c1_def)
  have "cause_refs g_c2 = [\<lparr>ref_type = RCause, ref_target = [51]\<rparr>]" "rec_kind g_c1 = KCandidate" "rec_id g_c1 = [51]"
    "rec_data g_c2 = form (candidate_json (g_candidate Derivation))"
    by (simp_all add: g_c1_def g_c2_def cause_refs_def)
  then have "check_candidate s_env g_c2 ?p s_rules g_state1 = None"
    using g_source_ok g_decode(2) g_accepted(1) find
    by (simp add: check_candidate_def) (simp add: g_candidate_def check_derivation_def)
  then show ?thesis
    using s_step_check [OF g_c2_def, of "[g_c1, s_verdict 52 2 51]" g_state1] g_decode(2)
    by (simp add: s_step_simps check_kind_specific_def)
qed

lemma g_replays: "replays s_env s_rules g_log g_state2"
proof -
  have "map_option (at 4) (apply_accepted s_env g_state1 g_c2) = Some g_state2"
    unfolding g_state2_def by (rule candidate_applies) (simp add: g_c2_def)
  then show ?thesis
    using s_step [OF g_replays1 g_c2_def _ g_checked2, of 54 4 g_state2] by (simp add: s_step_simps)
qed

lemma g_log_shape: "log_shape s_env g_log"
proof -
  have "compute_id s_env r = Some (rec_id r)" if "r \<in> set g_log" for r
    using that by (intro s_compute_id) (simp add: s_world_def)
  moreover have "map (\<lambda>r. unat (rec_time r)) g_log = [1, 2, 3, 4]"
    by (simp add: g_log_def) (simp add: s_subject_defs s_record_defs)
  ultimately show ?thesis by (simp add: log_shape_def g_log_def All_less_Suc)
qed

definition g_queries :: Queries where
  "g_queries = \<lparr>q_records = g_log, q_verdict = verify_log s_env g_log s_rules None, q_state = g_state2,
                q_by_id = index_records g_log\<rparr>"

lemma g_new: "queries_new s_env g_log s_rules = Inr g_queries"
proof -
  have "lv_result (verify_log s_env g_log s_rules None) = Accept"
    using verify_log_genesis g_log_shape g_replays by blast
  then show ?thesis
    using replays_build_state [OF g_replays] by (simp add: queries_new_def g_queries_def Let_def)
qed

lemma g_ids: "distinct (map rec_id g_log)"
  by (simp add: g_log_def g_c1_def g_c2_def s_record_defs)

lemma g_edge: "([53], [51]) \<in> lineage_edges s_env g_log"
proof -
  have "g_c1 \<in> set g_log" "g_c2 \<in> set g_log" by (simp_all add: g_log_def)
  moreover have "de_candidate s_env (rec_data g_c2) = Some (g_candidate Derivation)"
    using g_decode(2) by (simp add: g_c2_def)
  ultimately have "(rec_id g_c2, rec_id g_c1) \<in> lineage_edges s_env g_log"
    by (intro lineage_edges.derivation) (auto simp: g_candidate_def g_c1_def g_c2_def)
  then show ?thesis by (simp add: g_c1_def g_c2_def)
qed

end
