(* ===== verification/Host_IO.thy ===== *)
theory Host_IO
  imports Records Kinds
begin

text \<open>
  What the persistent log uses of the standard library: fallible operations on a log directory.

  The crate's \<open>LogError\<close> (\<open>src/src/lib.rs\<close>) is the error type; an \<open>io::Error\<close> carries no detail
  here.  A computation that may fail and changes a state is an \<open>action\<close>; \<open>and_then\<close> is Rust's
  statement sequence with \<open>?\<close> after every call.

  A directory holds \<open>records.log\<close>, the commit intent with its temporary file, and the lock.  Every
  system call takes the next entry of \<open>ld_io\<close>, a schedule of outcomes chosen by the environment:
  the call succeeds, or it fails with an error after so many bytes of a write have reached the
  file; calls beyond the schedule succeed.  \<open>ld_synced\<close> counts the bytes of \<open>records.log\<close> that an
  \<open>fsync\<close> has made durable: a crash keeps them and any prefix of the rest.
\<close>

section \<open>Errors and actions\<close>

datatype LogError =
    AlreadyLocked
  | Io
  | CorruptedRecovery
  | RecoveryRequired
  | TimeExhausted
  | HeadConflict (hc_expected: RecordId) (hc_actual: RecordId)
  | RecordTooLarge nat
  | LogSizeLimitExceeded (le_bytes: nat) (le_max_bytes: nat)
  | InvalidExistingLog "ReasonCode option"
  | StateMismatch
  | RulesMismatch
  | SerdeJson

type_synonym ('s, 'a) action = "'s \<Rightarrow> (LogError + 'a) \<times> 's"

definition ok :: "'a \<Rightarrow> ('s, 'a) action" where
  "ok x s = (Inr x, s)"

definition raise :: "LogError \<Rightarrow> ('s, 'a) action" where
  "raise e s = (Inl e, s)"

definition lift_result :: "LogError + 'a \<Rightarrow> ('s, 'a) action" where
  "lift_result r s = (r, s)"

definition or_error :: "LogError \<Rightarrow> 'a option \<Rightarrow> LogError + 'a" where
  "or_error e x = (case x of None \<Rightarrow> Inl e | Some y \<Rightarrow> Inr y)"

definition and_then :: "('s, 'a) action \<Rightarrow> ('a \<Rightarrow> ('s, 'b) action) \<Rightarrow> ('s, 'b) action" where
  "and_then m f s = (case m s of (Inl e, s') \<Rightarrow> (Inl e, s') | (Inr x, s') \<Rightarrow> f x s')"

definition on_part :: "('s \<Rightarrow> 't) \<Rightarrow> ('t \<Rightarrow> 's \<Rightarrow> 's) \<Rightarrow> ('t, 'a) action \<Rightarrow> ('s, 'a) action" where
  "on_part sel upd m s = (case m (sel s) of (res, t) \<Rightarrow> (res, upd t s))"

section \<open>The log directory\<close>

datatype io_outcome = IoOk | IoErr nat

record LogDir =
  ld_log :: "bytes option"
  ld_synced :: nat
  ld_intent :: "bytes option"
  ld_intent_tmp :: "bytes option"
  ld_locked :: bool
  ld_io :: "io_outcome list"

definition log_bytes :: "LogDir \<Rightarrow> bytes" where
  "log_bytes d = (case ld_log d of None \<Rightarrow> [] | Some b \<Rightarrow> b)"

definition sys_call :: "(LogDir \<Rightarrow> LogDir) \<Rightarrow> (nat \<Rightarrow> LogDir \<Rightarrow> LogDir) \<Rightarrow> (LogDir, unit) action" where
  "sys_call done_by broken_by d =
     (case ld_io d of
        [] \<Rightarrow> (Inr (), done_by d)
      | IoOk # os \<Rightarrow> (Inr (), done_by (d\<lparr>ld_io := os\<rparr>))
      | IoErr k # os \<Rightarrow> (Inl Io, broken_by k (d\<lparr>ld_io := os\<rparr>)))"

definition plain_call :: "(LogDir \<Rightarrow> LogDir) \<Rightarrow> (LogDir, unit) action" where
  "plain_call f = sys_call f (\<lambda>_ d. d)"

definition look :: "(LogDir \<Rightarrow> 'a) \<Rightarrow> (LogDir, 'a) action" where
  "look f = and_then (plain_call (\<lambda>d. d)) (\<lambda>_ d. (Inr (f d), d))"

definition open_or_create :: "(LogDir, unit) action" where
  "open_or_create = plain_call (\<lambda>d. d\<lparr>ld_log := Some (log_bytes d)\<rparr>)"

definition metadata_len :: "(LogDir, nat) action" where
  "metadata_len = look (\<lambda>d. length (log_bytes d))"

definition seek_end :: "(LogDir, unit) action" where
  "seek_end = plain_call (\<lambda>d. d)"

definition read_to_end :: "nat \<Rightarrow> (LogDir, bytes) action" where
  "read_to_end limit = look (\<lambda>d. take limit (log_bytes d))"

definition extend_log :: "bytes \<Rightarrow> LogDir \<Rightarrow> LogDir" where
  "extend_log bs d = d\<lparr>ld_log := Some (log_bytes d @ bs)\<rparr>"

definition write_all :: "bytes \<Rightarrow> (LogDir, unit) action" where
  "write_all bs = sys_call (extend_log bs) (\<lambda>k. extend_log (take k bs))"

definition sync_data :: "(LogDir, unit) action" where
  "sync_data = plain_call (\<lambda>d. d\<lparr>ld_synced := length (log_bytes d)\<rparr>)"

definition set_len :: "nat \<Rightarrow> (LogDir, unit) action" where
  "set_len n =
     plain_call (\<lambda>d. d\<lparr>ld_log := Some (take n (log_bytes d)), ld_synced := min n (ld_synced d)\<rparr>)"

text \<open>
  A crash: the durable bytes of the log survive and so does some prefix of the others; the lock is
  released with the process, and the next process meets its own schedule of outcomes.
\<close>

definition crash :: "nat \<Rightarrow> io_outcome list \<Rightarrow> LogDir \<Rightarrow> LogDir" where
  "crash k os d =
     (let kept = take (max k (ld_synced d)) (log_bytes d)
      in d\<lparr>ld_log := map_option (\<lambda>_. kept) (ld_log d), ld_synced := length kept,
           ld_locked := False, ld_io := os\<rparr>)"

section \<open>Reasoning about actions\<close>

text \<open>
  \<open>triple P m Q X\<close>: from a state where \<open>P\<close> holds, \<open>m\<close> either succeeds with \<open>Q\<close> or fails with \<open>X\<close>.
\<close>

definition triple ::
  "('s \<Rightarrow> bool) \<Rightarrow> ('s, 'a) action \<Rightarrow> ('a \<Rightarrow> 's \<Rightarrow> bool) \<Rightarrow> (LogError \<Rightarrow> 's \<Rightarrow> bool) \<Rightarrow> bool" where
  "triple P m Q X \<longleftrightarrow>
     (\<forall>s. P s \<longrightarrow> (case m s of (Inr x, s') \<Rightarrow> Q x s' | (Inl e, s') \<Rightarrow> X e s'))"

lemma triple_bind:
  assumes "triple P m Q X" "\<And>x. triple (Q x) (f x) R X"
  shows "triple P (and_then m f) R X"
  unfolding triple_def
proof (intro allI impI)
  fix s assume "P s"
  with assms(1) have step: "case m s of (Inr x, s') \<Rightarrow> Q x s' | (Inl e, s') \<Rightarrow> X e s'"
    by (auto simp: triple_def)
  show "case and_then m f s of (Inr x, s') \<Rightarrow> R x s' | (Inl e, s') \<Rightarrow> X e s'"
  proof (cases "m s")
    case (Pair res s')
    with step assms(2) show ?thesis by (cases res) (auto simp: and_then_def triple_def)
  qed
qed

lemma triple_weaken:
  assumes "triple P' m Q' X'" "\<And>s. P s \<Longrightarrow> P' s" "\<And>x s. Q' x s \<Longrightarrow> Q x s" "\<And>e s. X' e s \<Longrightarrow> X e s"
  shows "triple P m Q X"
  using assms by (fastforce simp: triple_def split: prod.splits sum.splits)

lemma triple_if:
  assumes "c \<Longrightarrow> triple P m Q X" "\<not> c \<Longrightarrow> triple P m' Q X"
  shows "triple P (if c then m else m') Q X"
  using assms by simp

lemma triple_case_prod:
  assumes "\<And>x y. p = (x, y) \<Longrightarrow> triple P (m x y) Q X"
  shows "triple P (case p of (x, y) \<Rightarrow> m x y) Q X"
  using assms by (cases p) simp

lemma triple_assume: "(\<And>s. P s \<Longrightarrow> triple (\<lambda>s'. s' = s) m Q X) \<Longrightarrow> triple P m Q X"
  by (simp add: triple_def)

lemma triple_ok: "(\<And>s. P s \<Longrightarrow> Q x s) \<Longrightarrow> triple P (ok x) Q X"
  by (simp add: triple_def ok_def)

lemma triple_raise: "(\<And>s. P s \<Longrightarrow> X e s) \<Longrightarrow> triple P (raise e) Q X"
  by (simp add: triple_def raise_def)

lemma triple_lift:
  assumes "\<And>s x. P s \<Longrightarrow> r = Inr x \<Longrightarrow> Q x s" "\<And>s e. P s \<Longrightarrow> r = Inl e \<Longrightarrow> X e s"
  shows "triple P (lift_result r) Q X"
  using assms by (auto simp: triple_def lift_result_def split: sum.split)

lemma triple_sys:
  assumes "\<And>d os. P d \<Longrightarrow> (ld_io d = [] \<Longrightarrow> os = []) \<Longrightarrow> Q () (done_by (d\<lparr>ld_io := os\<rparr>))"
    "\<And>d os k. P d \<Longrightarrow> ld_io d \<noteq> [] \<Longrightarrow> X Io (broken_by k (d\<lparr>ld_io := os\<rparr>))"
  shows "triple P (sys_call done_by broken_by) Q X"
proof -
  have "Q () (done_by d)" if "P d" for d
    using assms(1) [OF that, of "ld_io d"] by simp
  moreover have "Q () (done_by (d\<lparr>ld_io := os\<rparr>))" if "P d" "ld_io d = IoOk # os" for d os
    using assms(1) [OF that(1), of os] that(2) by simp
  moreover have "X Io (broken_by k (d\<lparr>ld_io := os\<rparr>))" if "P d" "ld_io d = IoErr k # os" for d k os
    using assms(2) [OF that(1)] that(2) by simp
  ultimately show ?thesis
    by (auto simp: triple_def sys_call_def split: list.splits io_outcome.splits)
qed

lemma triple_plain:
  assumes "\<And>d os. P d \<Longrightarrow> (ld_io d = [] \<Longrightarrow> os = []) \<Longrightarrow> Q () (f (d\<lparr>ld_io := os\<rparr>))"
    "\<And>d os. P d \<Longrightarrow> ld_io d \<noteq> [] \<Longrightarrow> X Io (d\<lparr>ld_io := os\<rparr>)"
  shows "triple P (plain_call f) Q X"
  unfolding plain_call_def by (rule triple_sys) (use assms in auto)

lemma triple_look:
  assumes "\<And>d os. P d \<Longrightarrow> (ld_io d = [] \<Longrightarrow> os = []) \<Longrightarrow> Q (f (d\<lparr>ld_io := os\<rparr>)) (d\<lparr>ld_io := os\<rparr>)"
    "\<And>d os. P d \<Longrightarrow> ld_io d \<noteq> [] \<Longrightarrow> X Io (d\<lparr>ld_io := os\<rparr>)"
  shows "triple P (look f) Q X"
  unfolding look_def
  by (rule triple_bind [where Q = "\<lambda>_ d. Q (f d) d"], rule triple_plain)
    (use assms in \<open>auto simp: triple_def\<close>)

text \<open>
  \<open>beside_log\<close>: nothing but the log and the schedule has moved.  \<open>same_disk\<close>: only the schedule has
  moved.  In both an empty schedule stays empty.
\<close>

definition beside_log :: "LogDir \<Rightarrow> LogDir \<Rightarrow> bool" where
  "beside_log d d' \<longleftrightarrow>
     ld_intent d' = ld_intent d \<and> ld_intent_tmp d' = ld_intent_tmp d \<and> ld_locked d' = ld_locked d
     \<and> (ld_io d = [] \<longrightarrow> ld_io d' = [])"

lemma beside_log_simps [simp]:
  "beside_log d d" "beside_log d (d'\<lparr>ld_log := b\<rparr>) = beside_log d d'"
  "beside_log d (d'\<lparr>ld_synced := n\<rparr>) = beside_log d d'"
  by (simp_all add: beside_log_def)

lemma beside_log_io: "beside_log d d' \<Longrightarrow> (ld_io d' = [] \<Longrightarrow> os = []) \<Longrightarrow> beside_log d (d'\<lparr>ld_io := os\<rparr>)"
  by (simp add: beside_log_def)

lemma beside_log_trans [trans]: "beside_log d d' \<Longrightarrow> beside_log d' d'' \<Longrightarrow> beside_log d d''"
  by (simp add: beside_log_def)

definition same_disk :: "LogDir \<Rightarrow> LogDir \<Rightarrow> bool" where
  "same_disk d d' \<longleftrightarrow> beside_log d d' \<and> ld_log d' = ld_log d \<and> ld_synced d' = ld_synced d"

lemma same_disk_refl [simp]: "same_disk d d"
  by (simp add: same_disk_def)

lemma same_disk_io: "same_disk d d' \<Longrightarrow> (ld_io d' = [] \<Longrightarrow> os = []) \<Longrightarrow> same_disk d (d'\<lparr>ld_io := os\<rparr>)"
  by (simp add: same_disk_def beside_log_def)

lemma same_disk_trans [trans]: "same_disk d d' \<Longrightarrow> same_disk d' d'' \<Longrightarrow> same_disk d d''"
  by (auto simp: same_disk_def intro: beside_log_trans)

lemma same_disk_bytes: "same_disk d d' \<Longrightarrow> log_bytes d' = log_bytes d"
  by (simp add: same_disk_def log_bytes_def)

lemma same_disk_beside: "same_disk d d' \<Longrightarrow> beside_log d d'"
  by (simp add: same_disk_def)

lemma triple_look_same:
  assumes "\<And>d. same_disk d0 d \<Longrightarrow> f d = f d0"
  shows "triple (same_disk d0) (look f) (\<lambda>x d. x = f d0 \<and> same_disk d0 d)
    (\<lambda>e d. e = Io \<and> ld_io d0 \<noteq> [] \<and> same_disk d0 d)"
proof (rule triple_look)
  fix d os assume d: "same_disk d0 d"
  then show "Io = Io \<and> ld_io d0 \<noteq> [] \<and> same_disk d0 (d\<lparr>ld_io := os\<rparr>)" if "ld_io d \<noteq> []"
    using that by (auto simp: same_disk_def beside_log_def)
  show "f (d\<lparr>ld_io := os\<rparr>) = f d0 \<and> same_disk d0 (d\<lparr>ld_io := os\<rparr>)" if "ld_io d = [] \<Longrightarrow> os = []"
    using assms same_disk_io [OF d that] by blast
qed

lemma triple_seek:
  "triple (same_disk d0) (plain_call (\<lambda>d. d)) (\<lambda>_. same_disk d0)
    (\<lambda>e d. e = Io \<and> ld_io d0 \<noteq> [] \<and> same_disk d0 d)"
  by (rule triple_plain) (auto simp: same_disk_def beside_log_def)

lemma triple_on_part:
  assumes "\<And>s0. P s0 \<Longrightarrow> triple (\<lambda>t. t = sel s0) m (\<lambda>x t. Q x (upd t s0)) (\<lambda>e t. X e (upd t s0))"
  shows "triple P (on_part sel upd m) Q X"
  using assms by (fastforce simp: triple_def on_part_def split: prod.splits sum.splits)

lemma log_bytes_simps [simp]:
  "log_bytes (d\<lparr>ld_io := os\<rparr>) = log_bytes d" "log_bytes (d\<lparr>ld_synced := n\<rparr>) = log_bytes d"
  "log_bytes (d\<lparr>ld_log := Some b\<rparr>) = b" "log_bytes (d\<lparr>ld_intent := i\<rparr>) = log_bytes d"
  "log_bytes (d\<lparr>ld_intent_tmp := i\<rparr>) = log_bytes d" "log_bytes (d\<lparr>ld_locked := l\<rparr>) = log_bytes d"
  by (simp_all add: log_bytes_def)

lemma log_bytes_crash: "log_bytes (crash k os d) = take (max k (ld_synced d)) (log_bytes d)"
  by (simp add: crash_def log_bytes_def Let_def split: option.split)

lemma synced_crash: "ld_synced (crash k os d) = length (log_bytes (crash k os d))"
  unfolding log_bytes_crash by (simp add: crash_def Let_def)

end
