(* ===== verification/Storage.thy ===== *)
theory Storage
  imports Host_IO
begin

text \<open>
  \<open>src/src/log/storage.rs\<close>: the append-only file of length-prefixed frames and its copy in memory.

  \<open>fl_dir\<close> stands for the fields \<open>dir\<close> and \<open>file\<close>: what the handle reaches of the file system.
  The parser \<open>serde_json::from_slice::<Record>\<close> is the parameter \<open>parse\<close>.  A \<open>usize\<close> is 64 bits
  wide; lengths are natural numbers and the overflow checks of the source are written out.
  \<open>partition_point\<close> is the number of leading elements that satisfy the predicate, which is what the
  library promises for a slice that the predicate partitions.
\<close>

record FileLog =
  fl_dir :: LogDir
  fl_records :: "Record list"
  fl_index :: "(RecordId, nat) mapping"
  fl_max_file_bytes :: u64

definition on_dir :: "(LogDir, 'a) action \<Rightarrow> (FileLog, 'a) action" where
  "on_dir = on_part fl_dir (\<lambda>d l. l\<lparr>fl_dir := d\<rparr>)"

section \<open>Frames\<close>

definition to_be_bytes :: "u32 \<Rightarrow> bytes" where
  "to_be_bytes n =
     [ucast (drop_bit 24 n), ucast (drop_bit 16 n), ucast (drop_bit 8 n), ucast n]"

unbundle bit_operations_syntax

definition from_be_bytes :: "u8 \<Rightarrow> u8 \<Rightarrow> u8 \<Rightarrow> u8 \<Rightarrow> u32" where
  "from_be_bytes a b c d =
     push_bit 24 (ucast a) OR push_bit 16 (ucast b) OR push_bit 8 (ucast c) OR ucast d"

definition encode_record :: "'z crates_scheme \<Rightarrow> Record \<Rightarrow> LogError + (bytes \<times> u32)" where
  "encode_record C r =
     (case canonical_json C (record_json r) of None \<Rightarrow> Inl Io
      | Some bs \<Rightarrow>
          if length bs < 2 ^ 32 then Inr (bs, of_nat (length bs))
          else Inl (RecordTooLarge (length bs)))"

definition complete_frame_end :: "nat \<Rightarrow> nat \<Rightarrow> nat \<Rightarrow> nat option" where
  "complete_frame_end body_start body_len total_len =
     (let frame_end = body_start + body_len
      in if frame_end < 2 ^ 64 \<and> frame_end \<le> total_len then Some frame_end else None)"

lemma complete_frame_end_Some:
  "complete_frame_end a n m = Some b \<longleftrightarrow> b = a + n \<and> b < 2 ^ 64 \<and> b \<le> m"
  by (auto simp: complete_frame_end_def Let_def)

section \<open>Reading\<close>

function read_frames ::
  "(bytes \<Rightarrow> Record option) \<Rightarrow> bytes \<Rightarrow> nat \<Rightarrow> LogError + (Record list \<times> nat)" where
  "read_frames parse data cursor =
     (if length data - cursor \<ge> 4
      then
        let body_start = cursor + 4;
            len = unat (from_be_bytes (data ! cursor) (data ! (cursor + 1))
                          (data ! (cursor + 2)) (data ! (cursor + 3)))
        in (case complete_frame_end body_start len (length data) of
              None \<Rightarrow> Inr ([], cursor)
            | Some frame_end \<Rightarrow>
                (case parse (take len (drop body_start data)) of
                   None \<Rightarrow> Inl Io
                 | Some r \<Rightarrow>
                     (case read_frames parse data frame_end of
                        Inl e \<Rightarrow> Inl e
                      | Inr (rs, valid_len) \<Rightarrow> Inr (r # rs, valid_len))))
      else Inr ([], cursor))"
  by pat_completeness auto

termination
  by (relation "measure (\<lambda>(parse, data, cursor). length data - cursor)")
    (auto simp: complete_frame_end_Some)

declare read_frames.simps [simp del]

definition read_all_records ::
  "(bytes \<Rightarrow> Record option) \<Rightarrow> u64 \<Rightarrow> (LogDir, Record list \<times> nat \<times> nat) action" where
  "read_all_records parse max_file_bytes =
     and_then (read_to_end (unat (u64_saturating_add max_file_bytes 1))) (\<lambda>data.
       if length data > unat max_file_bytes
       then raise (LogSizeLimitExceeded (length data) (unat max_file_bytes))
       else and_then (lift_result (read_frames parse data 0)) (\<lambda>(rs, valid_len).
              ok (rs, valid_len, length data)))"

section \<open>Opening\<close>

definition build_index :: "Record list \<Rightarrow> (RecordId, nat) mapping" where
  "build_index rs = fold (\<lambda>(pos, r). Mapping.update (rec_id r) pos) (enumerate 0 rs) Mapping.empty"

definition open_records :: "(bytes \<Rightarrow> Record option) \<Rightarrow> u64 \<Rightarrow> (LogDir, Record list) action" where
  "open_records parse max_file_bytes =
     and_then (plain_call (\<lambda>d. d)) (\<lambda>_.
     and_then open_or_create (\<lambda>_.
     and_then metadata_len (\<lambda>metadata_len.
       if metadata_len > unat max_file_bytes
       then raise (LogSizeLimitExceeded metadata_len (unat max_file_bytes))
       else
         and_then (read_all_records parse max_file_bytes) (\<lambda>(rs, valid_len, bytes_read).
         and_then (if valid_len < bytes_read
                   then and_then (set_len valid_len) (\<lambda>_. sync_data)
                   else ok ()) (\<lambda>_.
         and_then seek_end (\<lambda>_.
         ok rs))))))"

definition file_log_open ::
  "(bytes \<Rightarrow> Record option) \<Rightarrow> u64 \<Rightarrow> LogDir \<Rightarrow> (LogError \<times> LogDir) + FileLog" where
  "file_log_open parse max_file_bytes d =
     (case open_records parse max_file_bytes d of
        (Inl e, d') \<Rightarrow> Inl (e, d')
      | (Inr rs, d') \<Rightarrow>
          Inr \<lparr>fl_dir = d', fl_records = rs, fl_index = build_index rs,
               fl_max_file_bytes = max_file_bytes\<rparr>)"

section \<open>Appending\<close>

fun project_bytes ::
  "'z crates_scheme \<Rightarrow> u64 \<Rightarrow> nat \<Rightarrow> Record list \<Rightarrow> LogError + nat" where
  "project_bytes C max_file_bytes projected [] = Inr projected"
| "project_bytes C max_file_bytes projected (r # rs) =
     (case encode_record C r of Inl e \<Rightarrow> Inl e
      | Inr (_, len) \<Rightarrow>
          if projected + (4 + unat len) < 2 ^ 64
          then project_bytes C max_file_bytes (projected + (4 + unat len)) rs
          else Inl (LogSizeLimitExceeded (2 ^ 64 - 1) (unat max_file_bytes)))"

definition ensure_capacity_for :: "'z crates_scheme \<Rightarrow> Record list \<Rightarrow> (FileLog, unit) action" where
  "ensure_capacity_for C rs =
     and_then (on_dir metadata_len) (\<lambda>len l.
       (case project_bytes C (fl_max_file_bytes l) len rs of
          Inl e \<Rightarrow> raise e
        | Inr projected \<Rightarrow>
            if projected > unat (fl_max_file_bytes l)
            then raise (LogSizeLimitExceeded projected (unat (fl_max_file_bytes l)))
            else ok ()) l)"

definition push_record :: "Record \<Rightarrow> FileLog \<Rightarrow> FileLog" where
  "push_record r l =
     l\<lparr>fl_index := Mapping.update (rec_id r) (length (fl_records l)) (fl_index l),
       fl_records := fl_records l @ [r]\<rparr>"

definition append_record :: "'z crates_scheme \<Rightarrow> Record \<Rightarrow> (FileLog, unit) action" where
  "append_record C r =
     and_then (lift_result (encode_record C r)) (\<lambda>(bs, len).
     and_then (ensure_capacity_for C [r]) (\<lambda>_.
     and_then (on_dir seek_end) (\<lambda>_.
     and_then (on_dir (write_all (to_be_bytes len))) (\<lambda>_.
     and_then (on_dir (write_all bs)) (\<lambda>_.
     and_then (on_dir sync_data) (\<lambda>_ l.
     (Inr (), push_record r l)))))))"

section \<open>Lookups\<close>

definition log_get :: "FileLog \<Rightarrow> RecordId \<Rightarrow> Record option" where
  "log_get l i = map_option (\<lambda>pos. fl_records l ! pos) (Mapping.lookup (fl_index l) i)"

definition partition_point :: "('a \<Rightarrow> bool) \<Rightarrow> 'a list \<Rightarrow> nat" where
  "partition_point P xs = length (takeWhile P xs)"

text \<open>The slice \<open>&self.records[start..end]\<close> panics when \<open>start > end\<close>: \<open>None\<close>.\<close>

definition log_scan :: "FileLog \<Rightarrow> u64 \<Rightarrow> u64 \<Rightarrow> Record list option" where
  "log_scan l from_time to_time =
     (let start = partition_point (\<lambda>r. rec_time r < from_time) (fl_records l);
          end_pos = partition_point (\<lambda>r. rec_time r \<le> to_time) (fl_records l)
      in if start > end_pos then None
         else Some (take (end_pos - start) (drop start (fl_records l))))"

definition log_last_time :: "FileLog \<Rightarrow> u64 option" where
  "log_last_time l = (if fl_records l = [] then None else Some (rec_time (last (fl_records l))))"

end
