(* ===== verification/Writer.thy ===== *)
theory Writer
  imports Storage Replay
begin

text \<open>
  The single writer of \<open>src/src/log/writer\<close>: the commit intent (\<open>intent.rs\<close>), the helpers
  (\<open>helpers.rs\<close>) and \<open>LogWriter\<close> with opening, crash recovery, the commit protocol, batches and
  idempotent compare-and-append (\<open>core.rs\<close>).

  The caller's derived state is the second component of the state the commit functions change; the
  lock file's handle is the flag \<open>ld_locked\<close> of the directory.  \<open>E\<close> is the environment of the
  verifier and \<open>parse\<close> the record parser of the storage.
\<close>

section \<open>Commit intents (intent.rs)\<close>

record CommitIntent =
  ci_subject_id :: RecordId
  ci_written :: bool

definition intent_json :: "CommitIntent \<Rightarrow> json" where
  "intent_json i =
     JObject [(''subject_id'', ser_bytes (ci_subject_id i)), (''written'', JBool (ci_written i))]"

definition sync_parent_dir :: "(LogDir, unit) action" where
  "sync_parent_dir = and_then (plain_call (\<lambda>d. d)) (\<lambda>_. plain_call (\<lambda>d. d))"

definition write_to_file :: "'z crates_scheme \<Rightarrow> CommitIntent \<Rightarrow> (LogDir, unit) action" where
  "write_to_file C i =
     and_then (lift_result (or_error Io (canonical_json C (intent_json i)))) (\<lambda>bs.
     and_then (plain_call (\<lambda>d. d\<lparr>ld_intent_tmp := Some []\<rparr>)) (\<lambda>_.
     and_then (sys_call (\<lambda>d. d\<lparr>ld_intent_tmp := Some bs\<rparr>)
                        (\<lambda>k d. d\<lparr>ld_intent_tmp := Some (take k bs)\<rparr>)) (\<lambda>_.
     and_then (plain_call (\<lambda>d. d)) (\<lambda>_.
     and_then (plain_call (\<lambda>d. d\<lparr>ld_intent := ld_intent_tmp d, ld_intent_tmp := None\<rparr>)) (\<lambda>_.
     sync_parent_dir)))))"

definition clear_file :: "(LogDir, unit) action" where
  "clear_file d =
     (if ld_intent d \<noteq> None
      then and_then (plain_call (\<lambda>d. d\<lparr>ld_intent := None\<rparr>)) (\<lambda>_. sync_parent_dir) d
      else ok () d)"

section \<open>Helpers (helpers.rs)\<close>

definition proposal_json :: "Proposal \<Rightarrow> json" where
  "proposal_json p =
     JObject [(''space'', ser_bytes (pro_space p)), (''thread'', ser_bytes (pro_thread p)),
              (''author'', author_json (pro_author p)), (''kind'', kind_json (pro_kind p)),
              (''schema'', ser_bytes (pro_schema p)), (''data'', ser_bytes (pro_data p)),
              (''refs'', ser_vec ref_json (pro_refs p))]"

definition batch_key :: "'z crates_scheme \<Rightarrow> Proposal \<Rightarrow> hash256" where
  "batch_key C p =
     (case canonical_json C (proposal_json p) of
        None \<Rightarrow> replicate 32 0xff
      | Some bs \<Rightarrow> sha256 C bs)"

definition sort_batch :: "'z crates_scheme \<Rightarrow> Proposal list \<Rightarrow> Proposal list" where
  "sort_batch C ps = sort_key (batch_key C) ps"

definition proposal_matches_record :: "Proposal \<Rightarrow> Record \<Rightarrow> bool" where
  "proposal_matches_record p r \<longleftrightarrow>
     rec_space r = pro_space p \<and> rec_thread r = pro_thread p \<and> rec_author r = pro_author p
     \<and> rec_kind r = pro_kind p \<and> rec_schema r = pro_schema p \<and> rec_data r = pro_data p
     \<and> rec_refs r = sort_and_dedup_refs (pro_refs p)"

definition materialize_verdict ::
  "'z crates_scheme \<Rightarrow> Record \<Rightarrow> u64 \<Rightarrow> VerdictData \<Rightarrow> LogError + Record" where
  "materialize_verdict C subject verdict_time d =
     (case canonical_json C (verdict_json d) of None \<Rightarrow> Inl SerdeJson
      | Some data \<Rightarrow>
          or_error SerdeJson (with_computed_id C
            \<lparr>rec_id = zero_id, rec_space = rec_space subject, rec_thread = rec_thread subject,
             rec_time = verdict_time,
             rec_author = \<lparr>au_id = ''verifier'', au_type = AVerifier, au_signature = None\<rparr>,
             rec_kind = KVerdict, rec_schema = schema_id C SCHEMA_VERDICT, rec_data = data,
             rec_refs = [\<lparr>ref_type = RCause, ref_target = rec_id subject\<rparr>],
             rec_evidence = Deterministic\<rparr>))"

section \<open>The writer handle (core.rs)\<close>

record LogWriter =
  lw_log :: FileLog
  lw_time_source :: TimeSource
  lw_rules_hash :: hash256
  lw_recovery_required :: bool

definition EMPTY_HEAD :: RecordId where
  "EMPTY_HEAD = replicate 32 0"

definition DEFAULT_MAX_LOG_BYTES :: u64 where
  "DEFAULT_MAX_LOG_BYTES = 67108864"

definition require_valid_log ::
  "'z env_scheme \<Rightarrow> Record list \<Rightarrow> VerifierRules \<Rightarrow> LogError option" where
  "require_valid_log E rs R =
     (let verdict = verify_log E rs R None
      in if lv_result verdict = Accept then None else Some (InvalidExistingLog (lv_reason verdict)))"

definition complete_prefix :: "Record list \<Rightarrow> Record list" where
  "complete_prefix rs = (if rs \<noteq> [] \<and> rec_kind (last rs) \<noteq> KVerdict then butlast rs else rs)"

definition recovery_verdict ::
  "'z env_scheme \<Rightarrow> Record list \<Rightarrow> VerifierRules \<Rightarrow> LogError + Record" where
  "recovery_verdict E rs R =
     (let subject = last rs; prior = butlast rs
      in case build_state_unchecked E prior of None \<Rightarrow> Inl SerdeJson
         | Some s \<Rightarrow>
             let verdict_data = verify_record E subject prior R s
             in case u64_checked_add (rec_time subject) 1 of None \<Rightarrow> Inl TimeExhausted
                | Some t \<Rightarrow> materialize_verdict E subject t verdict_data)"

definition recover :: "'z env_scheme \<Rightarrow> VerifierRules \<Rightarrow> (FileLog, unit) action" where
  "recover E R =
     and_then
       (\<lambda>l. if fl_records l \<noteq> [] \<and> rec_kind (last (fl_records l)) \<noteq> KVerdict
            then and_then (lift_result (recovery_verdict E (fl_records l) R)) (append_record E) l
            else ok () l) (\<lambda>_.
     on_dir clear_file)"

definition open_checked ::
  "'z env_scheme \<Rightarrow> VerifierRules \<Rightarrow> (FileLog, hash256) action" where
  "open_checked E R =
     and_then (\<lambda>l. (case require_valid_log E (complete_prefix (fl_records l)) R of
                      Some e \<Rightarrow> raise e | None \<Rightarrow> ok ()) l) (\<lambda>_.
     and_then (recover E R) (\<lambda>_.
     and_then (\<lambda>l. (case require_valid_log E (fl_records l) R of
                      Some e \<Rightarrow> raise e | None \<Rightarrow> ok ()) l) (\<lambda>_.
     lift_result (or_error SerdeJson (rules_hash E R)))))"

text \<open>
  Opening.  A handle that is not returned is dropped, which releases the lock.
\<close>

definition unlock :: "LogDir \<Rightarrow> LogDir" where
  "unlock d = d\<lparr>ld_locked := False\<rparr>"

definition try_lock :: "(LogDir, unit) action" where
  "try_lock =
     and_then (plain_call (\<lambda>d. d)) (\<lambda>_.
     and_then (plain_call (\<lambda>d. d)) (\<lambda>_.
     and_then (plain_call (\<lambda>d. d)) (\<lambda>_ d.
     if ld_locked d then (Inl AlreadyLocked, d) else (Inr (), d\<lparr>ld_locked := True\<rparr>))))"

definition open_with_max_bytes ::
  "'z env_scheme \<Rightarrow> (bytes \<Rightarrow> Record option) \<Rightarrow> VerifierRules \<Rightarrow> u64 \<Rightarrow> LogDir
     \<Rightarrow> (LogError \<times> LogDir) + LogWriter" where
  "open_with_max_bytes E parse R max_file_bytes d =
     (case try_lock d of
        (Inl e, d1) \<Rightarrow> Inl (e, d1)
      | (Inr _, d1) \<Rightarrow>
          (case file_log_open parse max_file_bytes d1 of
             Inl (e, d2) \<Rightarrow> Inl (e, unlock d2)
           | Inr l \<Rightarrow>
               (case open_checked E R l of
                  (Inl e, l') \<Rightarrow> Inl (e, unlock (fl_dir l'))
                | (Inr h, l') \<Rightarrow>
                    Inr \<lparr>lw_log = l', lw_time_source = from_last_time (log_last_time l'),
                         lw_rules_hash = h, lw_recovery_required = False\<rparr>)))"

definition writer_open ::
  "'z env_scheme \<Rightarrow> (bytes \<Rightarrow> Record option) \<Rightarrow> VerifierRules \<Rightarrow> LogDir
     \<Rightarrow> (LogError \<times> LogDir) + LogWriter" where
  "writer_open E parse R d = open_with_max_bytes E parse R DEFAULT_MAX_LOG_BYTES d"

definition writer_next_time :: "LogWriter \<Rightarrow> u64" where
  "writer_next_time w = peek (lw_time_source w)"

definition writer_records :: "LogWriter \<Rightarrow> Record list" where
  "writer_records w = fl_records (lw_log w)"

definition head :: "LogWriter \<Rightarrow> RecordId" where
  "head w = (if writer_records w = [] then EMPTY_HEAD else rec_id (last (writer_records w)))"

section \<open>Guards of a commit\<close>

definition ensure_writable :: "LogWriter \<Rightarrow> LogError option" where
  "ensure_writable w = reject_if (lw_recovery_required w) RecoveryRequired"

definition ensure_rules_match ::
  "'z crates_scheme \<Rightarrow> LogWriter \<Rightarrow> VerifierRules \<Rightarrow> LogError option" where
  "ensure_rules_match C w R =
     (case rules_hash C R of None \<Rightarrow> Some SerdeJson
      | Some h \<Rightarrow> reject_if (h \<noteq> lw_rules_hash w) RulesMismatch)"

definition ensure_state_matches ::
  "'z env_scheme \<Rightarrow> LogWriter \<Rightarrow> State \<Rightarrow> LogError option" where
  "ensure_state_matches E w s =
     (case build_state_unchecked E (writer_records w) of None \<Rightarrow> Some SerdeJson
      | Some expected \<Rightarrow> reject_if (expected \<noteq> s) StateMismatch)"

definition commit_guards ::
  "'z env_scheme \<Rightarrow> LogWriter \<Rightarrow> VerifierRules \<Rightarrow> State \<Rightarrow> LogError option" where
  "commit_guards E w R s =
     first_reason [ensure_writable w, ensure_rules_match E w R, ensure_state_matches E w s]"

section \<open>Commit\<close>

text \<open>Steps 1 and 2: the pair a proposal becomes, without touching the clock or the storage.\<close>

definition proposal_evidence :: "'z crates_scheme \<Rightarrow> LogWriter \<Rightarrow> State \<Rightarrow> Proposal \<Rightarrow> Evidence" where
  "proposal_evidence C w s p =
     derive_evidence C (pro_schema p)
       (List.map_filter
          (\<lambda>e. Option.bind (log_get (lw_log w) (ref_target e)) (\<lambda>t. ref_evidence s e t)) (pro_refs p))"

definition unsigned_record :: "'z crates_scheme \<Rightarrow> LogWriter \<Rightarrow> State \<Rightarrow> Proposal \<Rightarrow> Record" where
  "unsigned_record C w s p =
     \<lparr>rec_id = zero_id, rec_space = pro_space p, rec_thread = pro_thread p,
      rec_time = peek (lw_time_source w), rec_author = pro_author p, rec_kind = pro_kind p,
      rec_schema = pro_schema p, rec_data = pro_data p,
      rec_refs = sort_and_dedup_refs (pro_refs p), rec_evidence = proposal_evidence C w s p\<rparr>"

definition sign_record ::
  "'z crates_scheme \<Rightarrow> Ed25519Signer option \<Rightarrow> Record \<Rightarrow> Record option" where
  "sign_record C signer r =
     (case signer of None \<Rightarrow> Some r
      | Some k \<Rightarrow>
          map_option (\<lambda>sg. r\<lparr>rec_author := (rec_author r)\<lparr>au_signature := Some sg\<rparr>\<rparr>) (sign C k r))"

definition materialize ::
  "'z env_scheme \<Rightarrow> LogWriter \<Rightarrow> VerifierRules \<Rightarrow> State \<Rightarrow> Ed25519Signer option \<Rightarrow> Proposal
     \<Rightarrow> LogError + (Record \<times> VerdictData \<times> Record)" where
  "materialize E w R s signer p =
     (case u64_checked_add (peek (lw_time_source w)) 1 of None \<Rightarrow> Inl TimeExhausted
      | Some verdict_time \<Rightarrow>
          (case Option.bind (sign_record E signer (unsigned_record E w s p)) (with_computed_id E) of
             None \<Rightarrow> Inl SerdeJson
           | Some r \<Rightarrow>
               let verdict_data = verify_record E r (writer_records w) R s
               in (case materialize_verdict E r verdict_time verdict_data of
                     Inl e \<Rightarrow> Inl e
                   | Inr v \<Rightarrow> Inr (r, verdict_data, v))))"

type_synonym session = "LogWriter \<times> State"

definition on_log :: "(FileLog, 'a) action \<Rightarrow> (session, 'a) action" where
  "on_log = on_part (\<lambda>(w, s). lw_log w) (\<lambda>l (w, s). (w\<lparr>lw_log := l\<rparr>, s))"

definition set_recovery :: "bool \<Rightarrow> (session, unit) action" where
  "set_recovery b = (\<lambda>(w, s). (Inr (), w\<lparr>lw_recovery_required := b\<rparr>, s))"

text \<open>Step 6: fold the pair into the caller's state, then publish the two times.\<close>

definition fold_pair ::
  "'z env_scheme \<Rightarrow> RecordId \<Rightarrow> VerdictData \<Rightarrow> u64 \<Rightarrow> (session, unit) action" where
  "fold_pair E subject_id verdict_data verdict_time =
     (\<lambda>(w, s). case log_get (lw_log w) subject_id of None \<Rightarrow> (Inl CorruptedRecovery, w, s)
        | Some subject \<Rightarrow>
            (case apply_record E s subject verdict_data of None \<Rightarrow> (Inl SerdeJson, w, s)
             | Some s' \<Rightarrow> (Inr (), w, s'\<lparr>st_applied_up_to := verdict_time\<rparr>)))"

definition publish_times :: "(session, unit) action" where
  "publish_times =
     (\<lambda>(w, s). (Inr (),
        w\<lparr>lw_time_source := snd (next_time (snd (next_time (lw_time_source w)))),
          lw_recovery_required := False\<rparr>, s))"

definition commit_durably ::
  "'z env_scheme \<Rightarrow> Record \<Rightarrow> VerdictData \<Rightarrow> Record \<Rightarrow> (session, RecordId \<times> VerdictData) action" where
  "commit_durably E r verdict_data v =
     and_then (on_log (on_dir (write_to_file E \<lparr>ci_subject_id = rec_id r, ci_written = False\<rparr>))) (\<lambda>_.
     and_then (set_recovery True) (\<lambda>_.
     and_then (on_log (append_record E r)) (\<lambda>_.
     and_then (on_log (on_dir (write_to_file E \<lparr>ci_subject_id = rec_id r, ci_written = True\<rparr>))) (\<lambda>_.
     and_then (on_log (append_record E v)) (\<lambda>_.
     and_then (on_log (on_dir clear_file)) (\<lambda>_.
     and_then (fold_pair E (rec_id r) verdict_data (rec_time v)) (\<lambda>_.
     and_then publish_times (\<lambda>_.
     ok (rec_id r, verdict_data)))))))))"

definition commit_inner ::
  "'z env_scheme \<Rightarrow> VerifierRules \<Rightarrow> Ed25519Signer option \<Rightarrow> Proposal
     \<Rightarrow> (session, RecordId \<times> VerdictData) action" where
  "commit_inner E R signer p =
     (\<lambda>(w, s).
        (case commit_guards E w R s of Some e \<Rightarrow> raise e
         | None \<Rightarrow>
             if exhausted (lw_time_source w) then raise TimeExhausted
             else (case materialize E w R s signer p of
                     Inl e \<Rightarrow> raise e
                   | Inr (r, verdict_data, v) \<Rightarrow>
                       and_then (on_log (ensure_capacity_for E [r, v])) (\<lambda>_.
                       commit_durably E r verdict_data v))) (w, s))"

definition commit ::
  "'z env_scheme \<Rightarrow> VerifierRules \<Rightarrow> Proposal \<Rightarrow> (session, RecordId \<times> VerdictData) action" where
  "commit E R p = commit_inner E R None p"

definition commit_signed ::
  "'z env_scheme \<Rightarrow> VerifierRules \<Rightarrow> Ed25519Signer \<Rightarrow> Proposal
     \<Rightarrow> (session, RecordId \<times> VerdictData) action" where
  "commit_signed E R signer p = commit_inner E R (Some signer) p"

section \<open>Batches\<close>

fun commit_each ::
  "'z env_scheme \<Rightarrow> VerifierRules \<Rightarrow> Proposal list \<Rightarrow> (RecordId \<times> VerdictData) list
     \<Rightarrow> (session, (RecordId \<times> VerdictData) list) action" where
  "commit_each E R [] results = ok results"
| "commit_each E R (p # ps) results =
     and_then (commit E R p) (\<lambda>result. commit_each E R ps (results @ [result]))"

definition batch_commit ::
  "'z env_scheme \<Rightarrow> VerifierRules \<Rightarrow> Proposal list
     \<Rightarrow> (session, (RecordId \<times> VerdictData) list) action" where
  "batch_commit E R ps = commit_each E R (sort_batch E ps) []"

record BatchAppend =
  ba_head :: RecordId
  ba_results :: "(RecordId \<times> VerdictData) list"
  ba_replayed :: nat

definition batch_start :: "Record list \<Rightarrow> RecordId \<Rightarrow> nat option" where
  "batch_start rs expected_head =
     (if expected_head = EMPTY_HEAD then Some 0
      else
        let pos = length (takeWhile (\<lambda>r. rec_id r \<noteq> expected_head) rs)
        in if pos < length rs then Some (pos + 1) else None)"

text \<open>
  The loop that recognizes the landed prefix of a batch: the number of landed proposals is the
  length of the results, and the remaining proposals are returned with the position reached.
\<close>

fun match_landed ::
  "'z env_scheme \<Rightarrow> Record list \<Rightarrow> nat \<Rightarrow> Proposal list \<Rightarrow> (RecordId \<times> VerdictData) list
     \<Rightarrow> LogError + ((RecordId \<times> VerdictData) list \<times> nat \<times> Proposal list)" where
  "match_landed E rs pos [] results = Inr (results, pos, [])"
| "match_landed E rs pos (p # ps) results =
     (if pos \<ge> length rs then Inr (results, pos, p # ps)
      else if \<not> proposal_matches_record p (rs ! pos) then Inr (results, pos, p # ps)
      else if pos + 1 \<ge> length rs then Inl CorruptedRecovery
      else (case de_verdict E (rec_data (rs ! (pos + 1))) of
              None \<Rightarrow> Inl SerdeJson
            | Some d \<Rightarrow> match_landed E rs (pos + 2) ps (results @ [(rec_id (rs ! pos), d)])))"

definition checked_batch_commit ::
  "'z env_scheme \<Rightarrow> VerifierRules \<Rightarrow> RecordId \<Rightarrow> Proposal list \<Rightarrow> (session, BatchAppend) action" where
  "checked_batch_commit E R expected_head ps =
     (\<lambda>(w, s).
        (case commit_guards E w R s of Some e \<Rightarrow> raise e
         | None \<Rightarrow>
             (case batch_start (writer_records w) expected_head of
                None \<Rightarrow> raise (HeadConflict expected_head (head w))
              | Some start \<Rightarrow>
                  (case match_landed E (writer_records w) start (sort_batch E ps) [] of
                     Inl e \<Rightarrow> raise e
                   | Inr (results, pos, []) \<Rightarrow>
                       ok \<lparr>ba_head = (if pos = 0 then EMPTY_HEAD
                                       else rec_id (writer_records w ! (pos - 1))),
                           ba_results = results, ba_replayed = length results\<rparr>
                   | Inr (results, pos, q # qs) \<Rightarrow>
                       if pos \<noteq> length (writer_records w)
                       then raise (HeadConflict expected_head (head w))
                       else and_then (commit_each E R (q # qs) results) (\<lambda>all (w', s').
                              (Inr \<lparr>ba_head = head w', ba_results = all,
                                    ba_replayed = length results\<rparr>, w', s'))))) (w, s))"

end
