(* ===== verification/Storage_Laws.thy ===== *)
theory Storage_Laws
  imports Storage Record_Laws
begin

text \<open>
  What the log file promises: complete frames read back as the records written, an incomplete last
  frame is cut off, and an append that is interrupted at any point leaves, after a crash, either
  the old records or the old records and the new one.
\<close>

section \<open>Frames\<close>

lemma from_to_be_bytes:
  "from_be_bytes (ucast (drop_bit 24 n)) (ucast (drop_bit 16 n)) (ucast (drop_bit 8 n)) (ucast n) = n"
proof (rule bit_word_eqI)
  fix k assume "k < LENGTH(32)"
  then consider "k < 8" | "8 \<le> k" "k < 16" | "16 \<le> k" "k < 24" | "24 \<le> k" "k < 32"
    by (simp add: not_le [symmetric]) linarith
  then show "bit (from_be_bytes (ucast (drop_bit 24 n)) (ucast (drop_bit 16 n)) (ucast (drop_bit 8 n)) (ucast n)) k
      = bit n k"
    by cases (auto simp: from_be_bytes_def bit_simps)
qed

lemma length_to_be_bytes [simp]: "length (to_be_bytes n) = 4"
  by (simp add: to_be_bytes_def)

definition frame :: "'z crates_scheme \<Rightarrow> Record \<Rightarrow> bytes" where
  "frame C r = (case encode_record C r of Inl _ \<Rightarrow> [] | Inr (bs, len) \<Rightarrow> to_be_bytes len @ bs)"

definition framed :: "'z crates_scheme \<Rightarrow> Record list \<Rightarrow> bytes" where
  "framed C rs = concat (map (frame C) rs)"

definition storable :: "'z crates_scheme \<Rightarrow> (bytes \<Rightarrow> Record option) \<Rightarrow> Record \<Rightarrow> bool" where
  "storable C parse r \<longleftrightarrow>
     (case encode_record C r of Inl _ \<Rightarrow> False | Inr (bs, _) \<Rightarrow> parse bs = Some r)"

definition frame_length :: "bytes \<Rightarrow> nat" where
  "frame_length t = 4 + unat (from_be_bytes (t ! 0) (t ! 1) (t ! 2) (t ! 3))"

definition incomplete :: "bytes \<Rightarrow> bool" where
  "incomplete t \<longleftrightarrow> length t < 4 \<or> length t < frame_length t"

lemma incomplete_Nil [simp]: "incomplete []"
  by (simp add: incomplete_def)

lemma framed_simps [simp]:
  "framed C [] = []" "framed C (r # rs) = frame C r @ framed C rs"
  "framed C (rs @ rs') = framed C rs @ framed C rs'"
  by (simp_all add: framed_def)

lemma encode_record_len:
  "encode_record C r = Inr (bs, len) \<Longrightarrow> unat len = length bs \<and> length bs < 2 ^ 32"
  by (auto simp: encode_record_def unat_of_nat split: option.splits if_splits)

lemma storable_frame:
  assumes "storable C parse r"
  obtains bs len where "encode_record C r = Inr (bs, len)" "frame C r = to_be_bytes len @ bs"
    "unat len = length bs" "parse bs = Some r"
  using assms encode_record_len [of C r]
  by (auto simp: storable_def frame_def split: sum.splits)

lemma frame_length_to_be: "frame_length (to_be_bytes n @ bs) = 4 + unat n"
  by (simp add: frame_length_def to_be_bytes_def from_to_be_bytes)

lemma incomplete_take_frame:
  assumes "storable C parse r" "k < length (frame C r)"
  shows "incomplete (take k (frame C r))"
proof (cases "k < 4")
  case False
  obtain bs len where fr: "frame C r = to_be_bytes len @ bs" "unat len = length bs"
    using storable_frame [OF assms(1)] by blast
  with False have "take k (frame C r) = to_be_bytes len @ take (k - 4) bs" by simp
  then show ?thesis
    using assms(2) fr False by (simp add: incomplete_def frame_length_to_be)
qed (auto simp: incomplete_def)

section \<open>Reading back\<close>

lemma read_frames_stop:
  assumes "incomplete t"
  shows "read_frames parse (pre @ t) (length pre) = Inr ([], length pre)"
proof (cases "length t < 4")
  case False
  have "(pre @ t) ! (length pre + i) = t ! i" for i by (simp add: nth_append)
  from this [of 0] this [of 1] this [of 2] this [of 3] False assms show ?thesis
    by (subst read_frames.simps)
      (auto simp: incomplete_def frame_length_def complete_frame_end_def Let_def)
qed (simp add: read_frames.simps)

lemma read_frames_one:
  assumes "storable C parse r" "length (pre @ frame C r @ rest) < 2 ^ 64"
  shows "read_frames parse (pre @ frame C r @ rest) (length pre)
     = (case read_frames parse (pre @ frame C r @ rest) (length (pre @ frame C r)) of
          Inl e \<Rightarrow> Inl e | Inr (rs, n) \<Rightarrow> Inr (r # rs, n))"
proof -
  obtain bs len where fr: "frame C r = to_be_bytes len @ bs" "unat len = length bs" "parse bs = Some r"
    using storable_frame [OF assms(1)] by blast
  let ?data = "pre @ frame C r @ rest"
  have nth: "?data ! (length pre + i) = to_be_bytes len ! i" if "i < 4" for i
    using that by (simp add: fr(1) nth_append)
  have len: "from_be_bytes (?data ! length pre) (?data ! (length pre + 1)) (?data ! (length pre + 2))
      (?data ! (length pre + 3)) = len"
    using nth [of 0] nth [of 1] nth [of 2] nth [of 3] from_to_be_bytes [of len]
    by (simp add: to_be_bytes_def)
  have "complete_frame_end (length pre + 4) (length bs) (length ?data) = Some (length (pre @ frame C r))"
    using assms(2) fr by (simp add: complete_frame_end_Some)
  moreover have "take (length bs) (drop (length pre + 4) ?data) = bs"
    by (simp add: fr(1))
  moreover have "4 \<le> length ?data - length pre" by (simp add: fr(1))
  ultimately show ?thesis
    by (subst read_frames.simps) (simp only: len fr(2,3) Let_def if_True option.case)
qed

lemma read_frames_framed:
  assumes "\<forall>r \<in> set rs. storable C parse r" "incomplete t" "length (pre @ framed C rs @ t) < 2 ^ 64"
  shows "read_frames parse (pre @ framed C rs @ t) (length pre)
     = Inr (rs, length (pre @ framed C rs))"
  using assms
proof (induction rs arbitrary: pre)
  case Nil
  then show ?case using read_frames_stop by simp
next
  case (Cons r rs)
  have "read_frames parse ((pre @ frame C r) @ framed C rs @ t) (length (pre @ frame C r))
      = Inr (rs, length ((pre @ frame C r) @ framed C rs))"
    by (rule Cons.IH) (use Cons.prems in simp_all)
  with Cons.prems read_frames_one [of C parse r pre "framed C rs @ t"] show ?case by simp
qed


section \<open>What is on the disk\<close>

definition holds ::
  "'z crates_scheme \<Rightarrow> (bytes \<Rightarrow> Record option) \<Rightarrow> LogDir \<Rightarrow> Record list \<Rightarrow> bool" where
  "holds C parse d rs \<longleftrightarrow>
     (\<forall>r \<in> set rs. storable C parse r) \<and> length (framed C rs) \<le> ld_synced d
     \<and> (\<exists>t. log_bytes d = framed C rs @ t \<and> incomplete t)"

definition exact ::
  "'z crates_scheme \<Rightarrow> (bytes \<Rightarrow> Record option) \<Rightarrow> LogDir \<Rightarrow> Record list \<Rightarrow> bool" where
  "exact C parse d rs \<longleftrightarrow>
     (\<forall>r \<in> set rs. storable C parse r) \<and> length (framed C rs) \<le> ld_synced d
     \<and> ld_log d = Some (framed C rs)"

definition torn ::
  "'z crates_scheme \<Rightarrow> (bytes \<Rightarrow> Record option) \<Rightarrow> LogDir \<Rightarrow> Record list \<Rightarrow> Record \<Rightarrow> bool" where
  "torn C parse d rs r \<longleftrightarrow>
     (\<forall>r \<in> set rs. storable C parse r) \<and> length (framed C rs) \<le> ld_synced d
     \<and> (\<exists>k. log_bytes d = framed C rs @ take k (frame C r))"

lemma exact_holds: "exact C parse d rs \<Longrightarrow> holds C parse d rs"
  by (auto simp: exact_def holds_def log_bytes_def)

lemma exact_torn: "exact C parse d rs \<Longrightarrow> torn C parse d rs r"
  by (auto simp: exact_def torn_def log_bytes_def intro: exI [of _ 0])

lemma disk_ignores [simp]:
  "exact C parse (d\<lparr>ld_io := os\<rparr>) rs = exact C parse d rs"
  "exact C parse (d\<lparr>ld_intent := i\<rparr>) rs = exact C parse d rs"
  "exact C parse (d\<lparr>ld_intent_tmp := i\<rparr>) rs = exact C parse d rs"
  "exact C parse (d\<lparr>ld_locked := l\<rparr>) rs = exact C parse d rs"
  "holds C parse (d\<lparr>ld_io := os\<rparr>) rs = holds C parse d rs"
  "holds C parse (d\<lparr>ld_intent := i\<rparr>) rs = holds C parse d rs"
  "holds C parse (d\<lparr>ld_intent_tmp := i\<rparr>) rs = holds C parse d rs"
  "holds C parse (d\<lparr>ld_locked := l\<rparr>) rs = holds C parse d rs"
  "torn C parse (d\<lparr>ld_io := os\<rparr>) rs r = torn C parse d rs r"
  by (simp_all add: exact_def holds_def torn_def)

lemma incomplete_take: "incomplete t \<Longrightarrow> incomplete (take k t)"
  by (cases "length t < 4"; cases "k < 4") (auto simp: incomplete_def frame_length_def)

lemma take_past: "length xs \<le> m \<Longrightarrow> take m (xs @ ys) = xs @ take (m - length xs) ys"
  by simp

lemma crash_holds: "holds C parse d rs \<Longrightarrow> holds C parse (crash k os d) rs"
  unfolding holds_def synced_crash log_bytes_crash by (auto simp: take_past incomplete_take)

lemma crash_torn:
  assumes "torn C parse d rs r" "storable C parse r"
  shows "holds C parse (crash k os d) rs \<or> holds C parse (crash k os d) (rs @ [r])"
proof -
  define n where "n = max k (ld_synced d) - length (framed C rs)"
  from assms(1) obtain j where bytes: "log_bytes d = framed C rs @ take j (frame C r)"
    and durable: "length (framed C rs) \<le> max k (ld_synced d)" by (auto simp: torn_def)
  then have left: "log_bytes (crash k os d) = framed C rs @ take (min n j) (frame C r)"
    by (simp add: log_bytes_crash n_def)
  note len = synced_crash [of k os d]
  show ?thesis
  proof (cases "min n j < length (frame C r)")
    case True
    with left len assms incomplete_take_frame [OF assms(2)] show ?thesis
      by (auto simp: holds_def torn_def)
  next
    case False
    then have "log_bytes (crash k os d) = framed C (rs @ [r]) @ []" using left by (simp add: not_less)
    with len assms show ?thesis by (auto simp: holds_def torn_def)
  qed
qed

section \<open>Opening\<close>

lemma read_all_records_triple:
  assumes "holds C parse d0 rs" "length (log_bytes d0) \<le> unat max_bytes"
  shows "triple (same_disk d0) (read_all_records parse max_bytes)
     (\<lambda>res d. res = (rs, length (framed C rs), length (log_bytes d0)) \<and> same_disk d0 d)
     (\<lambda>e d. e = Io \<and> ld_io d0 \<noteq> [] \<and> same_disk d0 d)"
proof -
  from assms(1) obtain t where t: "log_bytes d0 = framed C rs @ t" "incomplete t"
    "\<forall>r \<in> set rs. storable C parse r" by (auto simp: holds_def)
  have "unat max_bytes < 2 ^ LENGTH(64)" by (rule unsigned_less)
  then have frames: "read_frames parse (log_bytes d0) 0 = Inr (rs, length (framed C rs))"
    using read_frames_framed [OF t(3,2), of "[]"] t(1) assms(2) by simp
  have all: "take (unat (u64_saturating_add max_bytes 1)) (log_bytes d0) = log_bytes d0"
    using assms(2) u64_saturating_add_mono [of max_bytes 1] by simp
  show ?thesis
    unfolding read_all_records_def read_to_end_def
    by (rule triple_bind, rule triple_look_same)
      (use assms(2) frames in \<open>auto simp: same_disk_bytes all triple_def and_then_def lift_result_def ok_def\<close>)
qed

lemma same_disk_holds: "same_disk d d' \<Longrightarrow> holds C parse d' rs = holds C parse d rs"
  by (auto simp: holds_def same_disk_bytes) (auto simp: same_disk_def)

lemma same_disk_exact: "same_disk d d' \<Longrightarrow> exact C parse d' rs = exact C parse d rs"
  by (auto simp: exact_def same_disk_def)

definition still_holds ::
  "'z crates_scheme \<Rightarrow> (bytes \<Rightarrow> Record option) \<Rightarrow> Record list \<Rightarrow> LogDir \<Rightarrow> LogError \<Rightarrow> LogDir \<Rightarrow> bool" where
  "still_holds C parse rs d0 e d \<longleftrightarrow>
     e = Io \<and> ld_io d0 \<noteq> [] \<and> holds C parse d rs \<and> beside_log d0 d"

lemma cut_tail:
  assumes "holds C parse d1 rs" "ld_log d1 \<noteq> None"
  shows "triple (same_disk d1)
    (if length (framed C rs) < length (log_bytes d1)
     then and_then (set_len (length (framed C rs))) (\<lambda>_. sync_data) else ok ())
    (\<lambda>_ d. exact C parse d rs \<and> beside_log d1 d) (still_holds C parse rs d1)"
proof (rule triple_if)
  from assms obtain t where t: "log_bytes d1 = framed C rs @ t" by (auto simp: holds_def)
  have cut: "triple (same_disk d1) (set_len (length (framed C rs)))
      (\<lambda>_ d. exact C parse d rs \<and> beside_log d1 d) (still_holds C parse rs d1)"
    unfolding set_len_def
    by (rule triple_plain)
      (use assms t in \<open>auto simp: still_holds_def exact_def holds_def beside_log_def same_disk_def log_bytes_def\<close>)
  have sync: "triple (\<lambda>d. exact C parse d rs \<and> beside_log d1 d) sync_data
      (\<lambda>_ d. exact C parse d rs \<and> beside_log d1 d) (still_holds C parse rs d1)"
    unfolding sync_data_def
    by (rule triple_plain)
      (auto simp: still_holds_def exact_def holds_def beside_log_def log_bytes_def)
  from triple_bind [OF cut sync]
  show "triple (same_disk d1) (and_then (set_len (length (framed C rs))) (\<lambda>_. sync_data))
      (\<lambda>_ d. exact C parse d rs \<and> beside_log d1 d) (still_holds C parse rs d1)" .
  show "triple (same_disk d1) (ok ()) (\<lambda>_ d. exact C parse d rs \<and> beside_log d1 d) (still_holds C parse rs d1)"
    if "\<not> length (framed C rs) < length (log_bytes d1)"
    by (rule triple_ok)
      (use that t assms in \<open>auto simp: exact_def holds_def log_bytes_def beside_log_def same_disk_def\<close>)
qed

lemma open_records_triple:
  assumes "holds C parse d0 rs" "length (log_bytes d0) \<le> unat max_bytes"
  shows "triple (\<lambda>d. d = d0) (open_records parse max_bytes)
     (\<lambda>rs' d. rs' = rs \<and> exact C parse d rs \<and> beside_log d0 d) (still_holds C parse rs d0)"
proof -
  define d1 where "d1 = d0\<lparr>ld_log := Some (log_bytes d0)\<rparr>"
  have d1: "log_bytes d1 = log_bytes d0" "holds C parse d1 rs" "ld_log d1 \<noteq> None" "beside_log d0 d1"
    "ld_io d1 = ld_io d0"
    using assms by (simp_all add: d1_def holds_def)
  have err: "still_holds C parse rs d0 e d" if "e = Io \<and> ld_io d1 \<noteq> [] \<and> same_disk d1 d" for e d
    using that d1 same_disk_holds [of d1 d C parse rs] by (simp add: still_holds_def) (simp add: same_disk_def beside_log_def)
  have err': "still_holds C parse rs d0 e d" if "still_holds C parse rs d1 e d" for e d
    using that d1 beside_log_trans by (auto simp: still_holds_def)
  let ?E = "\<lambda>d. exact C parse d rs \<and> beside_log d0 d" and ?X = "still_holds C parse rs d0"
  let ?cut = "\<lambda>(rs, valid_len, bytes_read).
      and_then (if valid_len < bytes_read then and_then (set_len valid_len) (\<lambda>_. sync_data) else ok ()) (\<lambda>_.
      and_then seek_end (\<lambda>_. ok rs))"
  have enter: "triple (\<lambda>d. d = d0) (plain_call (\<lambda>d. d)) (\<lambda>_. same_disk d0) ?X"
    by (rule triple_plain) (use assms in \<open>auto simp: still_holds_def beside_log_def same_disk_def\<close>)
  have create: "triple (same_disk d0) open_or_create (\<lambda>_. same_disk d1) ?X"
    unfolding open_or_create_def
    by (rule triple_plain)
      (use assms in \<open>auto simp: d1_def still_holds_def same_disk_def beside_log_def holds_def log_bytes_def\<close>)
  have meta: "triple (same_disk d1) metadata_len (\<lambda>x d. x = length (log_bytes d0) \<and> same_disk d1 d) ?X"
    unfolding metadata_len_def d1(1) [symmetric]
    by (rule triple_weaken [OF triple_look_same]) (use err in \<open>auto simp: same_disk_bytes\<close>)
  have cut: "triple (\<lambda>d. same_disk d1 d) (if length (framed C rs) < length (log_bytes d1)
      then and_then (set_len (length (framed C rs))) (\<lambda>_. sync_data) else ok ()) (\<lambda>_. ?E) ?X"
    by (rule triple_weaken [OF cut_tail [OF d1(2,3)]])
      (use err' d1(4) beside_log_trans in blast)+
  have seek: "triple ?E seek_end (\<lambda>_. ?E) ?X"
    unfolding seek_end_def
    by (rule triple_plain) (use exact_holds in \<open>auto simp: still_holds_def beside_log_def\<close>)
  have rest: "triple (\<lambda>d. res = (rs, length (framed C rs), length (log_bytes d1)) \<and> same_disk d1 d)
      (?cut res) (\<lambda>rs' d. rs' = rs \<and> ?E d) ?X" for res
  proof (cases "res = (rs, length (framed C rs), length (log_bytes d1))")
    case True
    have "triple (same_disk d1) (?cut res) (\<lambda>rs' d. rs' = rs \<and> ?E d) ?X"
      unfolding True prod.case
      by (rule triple_bind [OF cut], rule triple_bind [OF seek], rule triple_ok) simp
    with True show ?thesis by simp
  qed (simp add: triple_def)
  show ?thesis
    unfolding open_records_def
  proof (rule triple_bind [OF enter], rule triple_bind [OF create], rule triple_bind [OF meta], rule triple_if)
    show "triple (\<lambda>d. len = length (log_bytes d0) \<and> same_disk d1 d)
        (raise (LogSizeLimitExceeded len (unat max_bytes))) (\<lambda>rs' d. rs' = rs \<and> ?E d) ?X"
      if "unat max_bytes < len" for len
      by (rule triple_raise) (use that assms in simp)
    show "triple (\<lambda>d. len = length (log_bytes d0) \<and> same_disk d1 d)
        (and_then (read_all_records parse max_bytes) ?cut) (\<lambda>rs' d. rs' = rs \<and> ?E d) ?X" for len
      by (rule triple_bind [OF triple_weaken [OF read_all_records_triple [OF d1(2)]] rest])
        (use err d1 assms in auto)
  qed
qed

lemma file_log_open_holds:
  assumes "holds C parse d rs" "length (log_bytes d) \<le> unat max_bytes" "ld_io d = []"
  obtains d' where "file_log_open parse max_bytes d
      = Inr \<lparr>fl_dir = d', fl_records = rs, fl_index = build_index rs, fl_max_file_bytes = max_bytes\<rparr>"
    "exact C parse d' rs" "beside_log d d'"
  using open_records_triple [OF assms(1,2)] assms(3) that
  by (fastforce simp: triple_def file_log_open_def still_holds_def split: prod.splits sum.splits)

section \<open>Appending\<close>

definition log_ok ::
  "'z crates_scheme \<Rightarrow> (bytes \<Rightarrow> Record option) \<Rightarrow> FileLog \<Rightarrow> Record list \<Rightarrow> bool" where
  "log_ok C parse l rs \<longleftrightarrow>
     exact C parse (fl_dir l) rs \<and> fl_records l = rs \<and> fl_index l = build_index rs
     \<and> length (framed C rs) \<le> unat (fl_max_file_bytes l)"

text \<open>The handle and what it reaches are as before, up to the schedule.\<close>

definition same_log :: "FileLog \<Rightarrow> FileLog \<Rightarrow> bool" where
  "same_log l l' \<longleftrightarrow> same_disk (fl_dir l) (fl_dir l') \<and> l' = l\<lparr>fl_dir := fl_dir l'\<rparr>"

lemma same_log_refl [simp]: "same_log l l"
  by (simp add: same_log_def)

lemma same_log_ok: "same_log l l' \<Longrightarrow> log_ok C parse l' rs = log_ok C parse l rs"
  by (cases l; cases l') (auto simp: same_log_def log_ok_def same_disk_exact)

lemma build_index_snoc:
  "build_index (rs @ [r]) = Mapping.update (rec_id r) (length rs) (build_index rs)"
  by (simp add: build_index_def enumerate_append_eq)

definition encodable :: "'z crates_scheme \<Rightarrow> Record \<Rightarrow> bool" where
  "encodable C r \<longleftrightarrow> (\<exists>bs len. encode_record C r = Inr (bs, len))"

lemma storable_encodable: "storable C parse r \<Longrightarrow> encodable C r"
  by (auto simp: storable_def encodable_def split: sum.splits)

lemma project_bytes_Inr:
  "project_bytes C m n rs = Inr p \<longleftrightarrow>
     p = n + length (framed C rs) \<and> (\<forall>r \<in> set rs. encodable C r) \<and> (rs \<noteq> [] \<longrightarrow> p < 2 ^ 64)"
proof (induction rs arbitrary: n)
  case (Cons r rs)
  show ?case
  proof (cases "encode_record C r")
    case (Inr p)
    then obtain bs len where enc: "encode_record C r = Inr (bs, len)" by (cases p) auto
    with encode_record_len [OF enc] Cons.IH [of "n + (4 + unat len)"] show ?thesis
      by (cases rs) (auto simp: encodable_def frame_def)
  qed (auto simp: encodable_def)
qed auto

definition fits :: "'z crates_scheme \<Rightarrow> FileLog \<Rightarrow> Record list \<Rightarrow> bool" where
  "fits C l rs \<longleftrightarrow>
     (\<forall>r \<in> set rs. encodable C r)
     \<and> length (log_bytes (fl_dir l)) + length (framed C rs) \<le> unat (fl_max_file_bytes l)"

lemma triple_on_dir_same:
  assumes "triple (same_disk (fl_dir l0)) m (\<lambda>x d. Q x \<and> same_disk (fl_dir l0) d)
      (\<lambda>e d. e = Io \<and> ld_io (fl_dir l0) \<noteq> [] \<and> same_disk (fl_dir l0) d)"
  shows "triple (same_log l0) (on_dir m) (\<lambda>x l. Q x \<and> same_log l0 l)
      (\<lambda>e l. e = Io \<and> ld_io (fl_dir l0) \<noteq> [] \<and> same_log l0 l)"
  unfolding on_dir_def
proof (rule triple_on_part)
  fix s0 assume s0: "same_log l0 s0"
  have "same_log l0 (s0\<lparr>fl_dir := t\<rparr>)" if "same_disk (fl_dir l0) t" for t
    using s0 that by (cases l0; cases s0) (auto simp: same_log_def)
  moreover have "same_disk (fl_dir l0) (fl_dir s0)" using s0 by (simp add: same_log_def)
  ultimately show "triple (\<lambda>t. t = fl_dir s0) m (\<lambda>x t. Q x \<and> same_log l0 (s0\<lparr>fl_dir := t\<rparr>))
      (\<lambda>e t. e = Io \<and> ld_io (fl_dir l0) \<noteq> [] \<and> same_log l0 (s0\<lparr>fl_dir := t\<rparr>))"
    by (intro triple_weaken [OF assms]) auto
qed

lemma ensure_capacity_triple:
  assumes "rs \<noteq> []"
  shows "triple (same_log l0) (ensure_capacity_for C rs) (\<lambda>_ l. same_log l0 l \<and> fits C l0 rs)
     (\<lambda>e l. same_log l0 l \<and> (fits C l0 rs \<longrightarrow> e = Io \<and> ld_io (fl_dir l0) \<noteq> []))"
  unfolding ensure_capacity_for_def
proof (rule triple_bind)
  let ?n = "length (log_bytes (fl_dir l0))" and ?m = "fl_max_file_bytes l0"
  show "triple (same_log l0) (on_dir metadata_len) (\<lambda>x l. x = ?n \<and> same_log l0 l)
      (\<lambda>e l. same_log l0 l \<and> (fits C l0 rs \<longrightarrow> e = Io \<and> ld_io (fl_dir l0) \<noteq> []))"
    unfolding metadata_len_def
    by (rule triple_weaken [OF triple_on_dir_same [OF triple_look_same]]) (auto simp: same_disk_bytes)
  fix n
  have max: "fl_max_file_bytes l = ?m" if "same_log l0 l" for l
    using that by (cases l0; cases l) (simp add: same_log_def)
  have "unat ?m < 2 ^ LENGTH(64)" by (rule unsigned_less)
  then have inr: "fits C l0 rs \<longleftrightarrow> project_bytes C ?m ?n rs = Inr (?n + length (framed C rs))
      \<and> \<not> ?n + length (framed C rs) > unat ?m"
    using assms project_bytes_Inr [of C ?m ?n rs] by (auto simp: fits_def)
  have p: "p = ?n + length (framed C rs)" if "project_bytes C ?m ?n rs = Inr p" for p
    using that project_bytes_Inr by blast
  show "triple (\<lambda>l. n = ?n \<and> same_log l0 l)
      (\<lambda>l. (case project_bytes C (fl_max_file_bytes l) n rs of
          Inl e \<Rightarrow> raise e
        | Inr projected \<Rightarrow>
            if projected > unat (fl_max_file_bytes l)
            then raise (LogSizeLimitExceeded projected (unat (fl_max_file_bytes l)))
            else ok ()) l)
      (\<lambda>_ l. same_log l0 l \<and> fits C l0 rs)
      (\<lambda>e l. same_log l0 l \<and> (fits C l0 rs \<longrightarrow> e = Io \<and> ld_io (fl_dir l0) \<noteq> []))"
  proof (rule triple_assume)
    fix l assume l: "n = ?n \<and> same_log l0 l"
    with max have m: "fl_max_file_bytes l = ?m" by blast
    show "triple (\<lambda>l'. l' = l)
      (\<lambda>l. (case project_bytes C (fl_max_file_bytes l) n rs of
          Inl e \<Rightarrow> raise e
        | Inr projected \<Rightarrow>
            if projected > unat (fl_max_file_bytes l)
            then raise (LogSizeLimitExceeded projected (unat (fl_max_file_bytes l)))
            else ok ()) l)
      (\<lambda>_ l. same_log l0 l \<and> fits C l0 rs)
      (\<lambda>e l. same_log l0 l \<and> (fits C l0 rs \<longrightarrow> e = Io \<and> ld_io (fl_dir l0) \<noteq> []))"
    proof (cases "project_bytes C ?m ?n rs")
      case (Inl e)
      with l m show ?thesis by (simp add: triple_def raise_def inr)
    next
      case (Inr q)
      with p [OF Inr] l m show ?thesis by (simp add: triple_def raise_def ok_def inr)
    qed
  qed
qed

definition part_written ::
  "'z crates_scheme \<Rightarrow> FileLog \<Rightarrow> Record list \<Rightarrow> bytes \<Rightarrow> FileLog \<Rightarrow> bool" where
  "part_written C l0 rs t l \<longleftrightarrow>
     ld_log (fl_dir l) = Some (framed C rs @ t) \<and> ld_synced (fl_dir l) = ld_synced (fl_dir l0)
     \<and> beside_log (fl_dir l0) (fl_dir l) \<and> l = l0\<lparr>fl_dir := fl_dir l\<rparr>"

definition append_failed ::
  "'z crates_scheme \<Rightarrow> (bytes \<Rightarrow> Record option) \<Rightarrow> FileLog \<Rightarrow> Record list \<Rightarrow> Record
     \<Rightarrow> LogError \<Rightarrow> FileLog \<Rightarrow> bool" where
  "append_failed C parse l0 rs r e l \<longleftrightarrow>
     torn C parse (fl_dir l) rs r \<and> beside_log (fl_dir l0) (fl_dir l) \<and> l = l0\<lparr>fl_dir := fl_dir l\<rparr>
     \<and> (fits C l0 [r] \<longrightarrow> e = Io \<and> ld_io (fl_dir l0) \<noteq> [])"

lemma part_written_torn:
  assumes "log_ok C parse l0 rs" "part_written C l0 rs (take k (frame C r)) l"
  shows "torn C parse (fl_dir l) rs r"
  using assms by (auto simp: part_written_def log_ok_def exact_def torn_def log_bytes_def)

lemma same_log_part: "log_ok C parse l0 rs \<Longrightarrow> same_log l0 l \<longleftrightarrow> part_written C l0 rs [] l"
  by (auto simp: part_written_def same_log_def same_disk_def log_ok_def exact_def)

lemma part_failed:
  assumes "log_ok C parse l0 rs" "part_written C l0 rs (take k (frame C r)) l" "ld_io (fl_dir l1) \<noteq> []"
    "beside_log (fl_dir l0) (fl_dir l1)"
  shows "append_failed C parse l0 rs r Io l"
  using part_written_torn [OF assms(1,2)] assms(2-4)
  by (auto simp: append_failed_def part_written_def beside_log_def)

lemma write_all_part:
  assumes "log_ok C parse l0 rs" "frame C r = t @ bs @ u"
  shows "triple (part_written C l0 rs t) (on_dir (write_all bs)) (\<lambda>_. part_written C l0 rs (t @ bs))
     (append_failed C parse l0 rs r)"
  unfolding on_dir_def
proof (rule triple_on_part)
  fix l assume l: "part_written C l0 rs t l"
  show "triple (\<lambda>d. d = fl_dir l) (write_all bs)
      (\<lambda>_ d. part_written C l0 rs (t @ bs) (l\<lparr>fl_dir := d\<rparr>))
      (\<lambda>e d. append_failed C parse l0 rs r e (l\<lparr>fl_dir := d\<rparr>))"
    unfolding write_all_def
  proof (rule triple_sys)
    fix d os assume d: "d = fl_dir l"
    have full: "part_written C l0 rs (t @ take k bs) (l\<lparr>fl_dir := extend_log (take k bs) (d\<lparr>ld_io := os\<rparr>)\<rparr>)"
      if "ld_io d = [] \<Longrightarrow> os = []" for k
      using l that unfolding d
      by (cases l0; cases l) (auto simp: part_written_def extend_log_def log_bytes_def beside_log_def)
    show "part_written C l0 rs (t @ bs) (l\<lparr>fl_dir := extend_log bs (d\<lparr>ld_io := os\<rparr>)\<rparr>)"
      if "ld_io d = [] \<Longrightarrow> os = []"
      using full [of "length bs"] that by simp
    fix k assume io: "ld_io d \<noteq> []"
    have "t @ take k bs = take (length t + min k (length bs)) (frame C r)"
      using assms(2) by (simp add: min_def)
    with full [of k] io have "part_written C l0 rs (take (length t + min k (length bs)) (frame C r))
        (l\<lparr>fl_dir := extend_log (take k bs) (d\<lparr>ld_io := os\<rparr>)\<rparr>)" by simp
    from part_failed [OF assms(1) this, of l] io l d
    show "append_failed C parse l0 rs r Io (l\<lparr>fl_dir := extend_log (take k bs) (d\<lparr>ld_io := os\<rparr>)\<rparr>)"
      by (simp add: part_written_def)
  qed
qed

lemma sync_part:
  assumes "log_ok C parse l0 rs" "storable C parse r" "fits C l0 [r]"
  shows "triple (part_written C l0 rs (frame C r)) (and_then (on_dir sync_data) (\<lambda>_ l. (Inr (), push_record r l)))
     (\<lambda>_ l. log_ok C parse l (rs @ [r]) \<and> beside_log (fl_dir l0) (fl_dir l)
        \<and> fl_max_file_bytes l = fl_max_file_bytes l0)
     (append_failed C parse l0 rs r)"
proof (rule triple_bind)
  let ?S = "\<lambda>l. part_written C (l0\<lparr>fl_dir := (fl_dir l0)\<lparr>ld_synced := length (framed C rs @ frame C r)\<rparr>\<rparr>) rs (frame C r) l"
  show "triple (part_written C l0 rs (frame C r)) (on_dir sync_data) (\<lambda>_. ?S) (append_failed C parse l0 rs r)"
    unfolding on_dir_def
  proof (rule triple_on_part)
    fix l assume l: "part_written C l0 rs (frame C r) l"
    show "triple (\<lambda>d. d = fl_dir l) sync_data (\<lambda>_ d. ?S (l\<lparr>fl_dir := d\<rparr>))
        (\<lambda>e d. append_failed C parse l0 rs r e (l\<lparr>fl_dir := d\<rparr>))"
      unfolding sync_data_def
    proof (rule triple_plain)
      fix d os assume d: "d = fl_dir l"
      show "?S (l\<lparr>fl_dir := d\<lparr>ld_io := os, ld_synced := length (log_bytes (d\<lparr>ld_io := os\<rparr>))\<rparr>\<rparr>)"
        if "ld_io d = [] \<Longrightarrow> os = []"
        using l that unfolding d
        by (cases l0; cases l) (auto simp: part_written_def log_bytes_def beside_log_def)
      assume io: "ld_io d \<noteq> []"
      with l d have "part_written C l0 rs (take (length (frame C r)) (frame C r)) (l\<lparr>fl_dir := d\<lparr>ld_io := os\<rparr>\<rparr>)"
        by (cases l0; cases l) (auto simp: part_written_def beside_log_def)
      from part_failed [OF assms(1) this, of l] io l d
      show "append_failed C parse l0 rs r Io (l\<lparr>fl_dir := d\<lparr>ld_io := os\<rparr>\<rparr>)"
        by (simp add: part_written_def)
    qed
  qed
  have ok: "length (framed C rs @ frame C r) \<le> unat (fl_max_file_bytes l0)" "fl_records l0 = rs"
    "fl_index l0 = build_index rs" "\<forall>r' \<in> set (rs @ [r]). storable C parse r'"
    using assms by (auto simp: log_ok_def exact_def fits_def log_bytes_def)
  have "log_ok C parse (push_record r l) (rs @ [r]) \<and> beside_log (fl_dir l0) (fl_dir (push_record r l))
      \<and> fl_max_file_bytes (push_record r l) = fl_max_file_bytes l0" if "?S l" for l
    using ok that
    by (cases l0; cases l)
      (auto simp: part_written_def push_record_def log_ok_def exact_def build_index_snoc beside_log_def)
  then show "triple ?S (\<lambda>l. (Inr (), push_record r l))
     (\<lambda>_ l. log_ok C parse l (rs @ [r]) \<and> beside_log (fl_dir l0) (fl_dir l)
        \<and> fl_max_file_bytes l = fl_max_file_bytes l0) (append_failed C parse l0 rs r)"
    by (simp add: triple_def)
qed

lemma append_record_triple:
  assumes "log_ok C parse l0 rs" "storable C parse r"
  shows "triple (same_log l0) (append_record C r)
     (\<lambda>_ l. log_ok C parse l (rs @ [r]) \<and> beside_log (fl_dir l0) (fl_dir l)
        \<and> fl_max_file_bytes l = fl_max_file_bytes l0)
     (append_failed C parse l0 rs r)"
proof -
  obtain bs len where enc: "encode_record C r = Inr (bs, len)" and fr: "frame C r = to_be_bytes len @ bs"
    using storable_frame [OF assms(2)] by blast
  have failed: "append_failed C parse l0 rs r e l"
    if "same_log l0 l" "fits C l0 [r] \<longrightarrow> e = Io \<and> ld_io (fl_dir l0) \<noteq> []" for e l
    using that same_log_part [OF assms(1), of l] part_written_torn [OF assms(1), of 0 r l]
    by (auto simp: append_failed_def part_written_def)
  have cap: "triple (same_log l0) (ensure_capacity_for C [r]) (\<lambda>_ l. same_log l0 l \<and> fits C l0 [r])
      (append_failed C parse l0 rs r)"
    by (rule triple_weaken [OF ensure_capacity_triple]) (use failed in auto)
  have seek: "triple (same_log l0) (on_dir seek_end) (\<lambda>_. part_written C l0 rs [])
      (append_failed C parse l0 rs r)"
    unfolding seek_end_def
    by (rule triple_weaken [OF triple_on_dir_same [where Q = "\<lambda>_. True"]], rule triple_weaken [OF triple_seek])
      (use failed same_log_part [OF assms(1)] in auto)
  have write1: "triple (part_written C l0 rs []) (on_dir (write_all (to_be_bytes len)))
      (\<lambda>_. part_written C l0 rs (to_be_bytes len)) (append_failed C parse l0 rs r)"
    using write_all_part [OF assms(1), of r "[]" "to_be_bytes len" bs] fr by simp
  have write2: "triple (part_written C l0 rs (to_be_bytes len)) (on_dir (write_all bs))
      (\<lambda>_. part_written C l0 rs (frame C r)) (append_failed C parse l0 rs r)"
    using write_all_part [OF assms(1), of r "to_be_bytes len" bs "[]"] fr by simp
  show ?thesis
    unfolding append_record_def enc
  proof (rule triple_bind [where Q = "\<lambda>p l. p = (bs, len) \<and> same_log l0 l"])
    show "triple (same_log l0) (lift_result (Inr (bs, len))) (\<lambda>p l. p = (bs, len) \<and> same_log l0 l)
        (append_failed C parse l0 rs r)"
      by (rule triple_lift) auto
    have go: "triple (\<lambda>l. same_log l0 l \<and> fits C l0 [r]) (and_then (on_dir seek_end) (\<lambda>_.
       and_then (on_dir (write_all (to_be_bytes len))) (\<lambda>_.
       and_then (on_dir (write_all bs)) (\<lambda>_.
       and_then (on_dir sync_data) (\<lambda>_ l. (Inr (), push_record r l))))))
      (\<lambda>_ l. log_ok C parse l (rs @ [r]) \<and> beside_log (fl_dir l0) (fl_dir l)
        \<and> fl_max_file_bytes l = fl_max_file_bytes l0) (append_failed C parse l0 rs r)"
    proof (cases "fits C l0 [r]")
      case True
      then show ?thesis
        using triple_bind [OF seek triple_bind [OF write1 triple_bind [OF write2 sync_part [OF assms True]]]]
        by simp
    qed (simp add: triple_def)
    from triple_bind [OF cap go]
    show "triple (\<lambda>l. p = (bs, len) \<and> same_log l0 l) (case p of (bs, len) \<Rightarrow>
      and_then (ensure_capacity_for C [r]) (\<lambda>_.
      and_then (on_dir seek_end) (\<lambda>_.
      and_then (on_dir (write_all (to_be_bytes len))) (\<lambda>_.
      and_then (on_dir (write_all bs)) (\<lambda>_.
      and_then (on_dir sync_data) (\<lambda>_ l. (Inr (), push_record r l)))))))
      (\<lambda>_ l. log_ok C parse l (rs @ [r]) \<and> beside_log (fl_dir l0) (fl_dir l)
        \<and> fl_max_file_bytes l = fl_max_file_bytes l0) (append_failed C parse l0 rs r)" for p
      by (cases "p = (bs, len)") (auto simp: triple_def)
  qed
qed

section \<open>Lookups\<close>

lemma lookup_build_index:
  "Mapping.lookup (build_index rs) i = Some pos \<Longrightarrow> pos < length rs \<and> rec_id (rs ! pos) = i"
proof (induction rs arbitrary: pos rule: rev_induct)
  case (snoc r rs)
  then show ?case by (fastforce simp: build_index_snoc nth_append split: if_splits)
qed (simp add: build_index_def)

lemma lookup_build_index_None: "Mapping.lookup (build_index rs) i = None \<longleftrightarrow> i \<notin> rec_id ` set rs"
  by (induction rs rule: rev_induct) (simp add: build_index_def, auto simp: build_index_snoc)

lemma log_get_snoc: "fl_index l = build_index (fl_records l) \<Longrightarrow>
    log_get (push_record r l) i = (if i = rec_id r then Some r else log_get l i)"
  using lookup_build_index [of "fl_records l" i]
  by (auto simp: log_get_def push_record_def nth_append intro!: option.map_cong)

lemma log_get_found: "fl_index l = build_index (fl_records l) \<Longrightarrow> log_get l i = Some r \<Longrightarrow>
    r \<in> set (fl_records l) \<and> rec_id r = i"
  using lookup_build_index [of "fl_records l" i] by (auto simp: log_get_def)

lemma takeWhile_sorted:
  fixes f :: "'a \<Rightarrow> 'b :: linorder"
  assumes "sorted (map f xs)" "\<And>x y. f x \<le> f y \<Longrightarrow> P y \<Longrightarrow> P x"
  shows "takeWhile P xs = filter P xs"
  using assms(1)
proof (induction xs)
  case (Cons x xs)
  then have "filter P xs = []" if "\<not> P x"
    using that assms(2) [of x] by (auto simp: filter_empty_conv)
  with Cons show ?case by simp
qed simp

lemma log_scan_sorted:
  assumes "sorted (map rec_time (fl_records l))"
  shows "log_scan l a b =
    (if \<exists>r \<in> set (fl_records l). b < rec_time r \<and> rec_time r < a then None
     else Some (filter (\<lambda>r. a \<le> rec_time r \<and> rec_time r \<le> b) (fl_records l)))"
proof -
  let ?rs = "fl_records l" and ?P = "\<lambda>r. rec_time r < a" and ?Q = "\<lambda>r. rec_time r \<le> b"
  have tw: "takeWhile ?P ?rs = filter ?P ?rs" "takeWhile ?Q ?rs = filter ?Q ?rs"
    by (rule takeWhile_sorted [OF assms], auto)+
  show ?thesis
  proof (cases "\<exists>r \<in> set ?rs. b < rec_time r \<and> rec_time r < a")
    case True
    then obtain r where r: "r \<in> set ?rs" "b < rec_time r" "rec_time r < a" by blast
    then have "filter ?Q ?rs = filter ?Q (filter ?P ?rs)" by (auto intro!: filter_cong)
    moreover have "length (filter ?Q (filter ?P ?rs)) < length (filter ?P ?rs)"
      using r by (intro length_filter_less [of r]) auto
    ultimately show ?thesis using True tw by (simp add: log_scan_def partition_point_def)
  next
    case False
    then have "?P r \<Longrightarrow> ?Q r" if "r \<in> set ?rs" for r using that by force
    then have P: "filter ?P ?rs = filter ?P (filter ?Q ?rs)" by (auto intro!: filter_cong)
    have "take (length (filter ?Q ?rs)) ?rs = filter ?Q ?rs" using tw(2) by (metis takeWhile_eq_take)
    then have "take (length (filter ?Q ?rs) - length (filter ?P ?rs)) (drop (length (filter ?P ?rs)) ?rs)
        = drop (length (filter ?P ?rs)) (filter ?Q ?rs)" by (metis drop_take)
    also have "\<dots> = dropWhile ?P (filter ?Q ?rs)"
    proof -
      have "takeWhile ?P (filter ?Q ?rs) = filter ?P (filter ?Q ?rs)"
        by (rule takeWhile_sorted [where f = rec_time]) (auto intro: sorted_filter assms)
      with P show ?thesis by (metis dropWhile_eq_drop)
    qed
    also have "\<dots> = filter (\<lambda>r. a \<le> rec_time r \<and> rec_time r \<le> b) ?rs"
    proof -
      have "sorted (map rec_time ys) \<Longrightarrow> dropWhile ?P ys = filter (\<lambda>r. a \<le> rec_time r) ys" for ys
        by (induction ys) (auto simp: not_less intro: filter_True [symmetric] order_trans)
      from this [of "filter ?Q ?rs"] show ?thesis using sorted_filter [OF assms, of ?Q] by (simp add: conj_commute)
    qed
    finally show ?thesis
      using False tw P length_filter_le [of ?P "filter ?Q ?rs"]
      by (auto simp: log_scan_def partition_point_def)
  qed
qed

end
