(* ===== verification/Writer_Laws.thy ===== *)
theory Writer_Laws
  imports Writer Storage_Laws Fold_Total Checkpoint_Laws
begin

text \<open>
  The commit protocol keeps the log valid.  A handle is in order (\<open>writer_ok\<close>) when its file and
  its memory hold the same records, these replay under the rules, and the clock and the rules hash
  agree with them.  A commit that succeeds leaves the handle in order with the new pair at the end;
  one that fails changes neither the log in memory nor the caller's state until its durable phase,
  and from then on blocks the handle; and whatever a crash leaves behind, opening the directory
  again finds the old log or the old log with the complete pair.
\<close>

section \<open>Intents do not touch the log\<close>

definition log_untouched :: "LogDir \<Rightarrow> LogDir \<Rightarrow> bool" where
  "log_untouched d d' \<longleftrightarrow>
     ld_log d' = ld_log d \<and> ld_synced d' = ld_synced d \<and> ld_locked d' = ld_locked d
     \<and> (ld_io d = [] \<longrightarrow> ld_io d' = [])"

definition io_failed :: "LogDir \<Rightarrow> LogError \<Rightarrow> LogDir \<Rightarrow> bool" where
  "io_failed d e d' \<longleftrightarrow> e = Io \<and> ld_io d \<noteq> [] \<and> log_untouched d d'"

lemma log_untouched_refl [simp]: "log_untouched d d"
  by (simp add: log_untouched_def)

lemma log_untouched_trans: "log_untouched d d' \<Longrightarrow> log_untouched d' d'' \<Longrightarrow> log_untouched d d''"
  by (simp add: log_untouched_def)

lemma log_untouched_disk:
  assumes "log_untouched d d'"
  shows "exact C parse d' rs = exact C parse d rs" "holds C parse d' rs = holds C parse d rs"
    "torn C parse d' rs r = torn C parse d rs r" "log_bytes d' = log_bytes d"
  using assms by (simp_all add: log_untouched_def exact_def holds_def torn_def log_bytes_def)

lemma plain_untouched:
  assumes "\<And>d os. log_untouched d0 d \<Longrightarrow> (ld_io d = [] \<Longrightarrow> os = []) \<Longrightarrow> log_untouched d0 (f (d\<lparr>ld_io := os\<rparr>))"
  shows "triple (log_untouched d0) (plain_call f) (\<lambda>_. log_untouched d0) (io_failed d0)"
  by (rule triple_plain) (use assms in \<open>auto simp: io_failed_def log_untouched_def\<close>)

lemma sync_parent_dir_triple:
  "triple (log_untouched d0) sync_parent_dir (\<lambda>_. log_untouched d0) (io_failed d0)"
  unfolding sync_parent_dir_def
  by (rule triple_bind; rule plain_untouched) (auto simp: log_untouched_def)

lemma intent_json_canonical: "canonical_json C (intent_json i) \<noteq> None"
proof -
  have "writable (intent_json i)" by (simp add: intent_json_def)
  from canonical_json_total [OF this] show ?thesis by auto
qed

lemma write_to_file_triple:
  "triple (log_untouched d0) (write_to_file C i) (\<lambda>_. log_untouched d0) (io_failed d0)"
proof -
  obtain bs where bs: "canonical_json C (intent_json i) = Some bs"
    using intent_json_canonical [of C i] by blast
  have tmp: "triple (log_untouched d0) (sys_call (\<lambda>d. d\<lparr>ld_intent_tmp := Some bs\<rparr>)
      (\<lambda>k d. d\<lparr>ld_intent_tmp := Some (take k bs)\<rparr>)) (\<lambda>_. log_untouched d0) (io_failed d0)" for bs
    by (rule triple_sys) (auto simp: io_failed_def log_untouched_def)
  show ?thesis
    unfolding write_to_file_def bs
    by (rule triple_bind [where Q = "\<lambda>_. log_untouched d0"], rule triple_lift, simp, simp add: or_error_def,
        rule triple_bind [OF plain_untouched triple_bind [OF tmp
          triple_bind [OF plain_untouched triple_bind [OF plain_untouched sync_parent_dir_triple]]]])
      (auto simp: log_untouched_def)
qed

lemma clear_file_triple:
  "triple (log_untouched d0) clear_file (\<lambda>_. log_untouched d0) (io_failed d0)"
proof -
  have "triple (log_untouched d0) (and_then (plain_call (\<lambda>d. d\<lparr>ld_intent := None\<rparr>)) (\<lambda>_. sync_parent_dir))
      (\<lambda>_. log_untouched d0) (io_failed d0)"
    by (rule triple_bind [OF plain_untouched sync_parent_dir_triple]) (auto simp: log_untouched_def)
  then show ?thesis by (simp add: triple_def clear_file_def ok_def)
qed

section \<open>Stages of the durable phase\<close>

definition kept :: "FileLog \<Rightarrow> FileLog \<Rightarrow> bool" where
  "kept l l' \<longleftrightarrow>
     fl_max_file_bytes l' = fl_max_file_bytes l \<and> ld_locked (fl_dir l') = ld_locked (fl_dir l)
     \<and> (ld_io (fl_dir l) = [] \<longrightarrow> ld_io (fl_dir l') = [])"

lemma kept_trans: "kept l l' \<Longrightarrow> kept l' l'' \<Longrightarrow> kept l l''"
  by (simp add: kept_def)

definition stage ::
  "'z crates_scheme \<Rightarrow> (bytes \<Rightarrow> Record option) \<Rightarrow> LogWriter \<Rightarrow> State \<Rightarrow> Record list \<Rightarrow> bool
     \<Rightarrow> session \<Rightarrow> bool" where
  "stage C parse w0 s0 rs b = (\<lambda>(w, s).
     s = s0 \<and> log_ok C parse (lw_log w) rs \<and> kept (lw_log w0) (lw_log w)
     \<and> lw_time_source w = lw_time_source w0 \<and> lw_rules_hash w = lw_rules_hash w0
     \<and> lw_recovery_required w = b)"

definition wrecked ::
  "'z crates_scheme \<Rightarrow> (bytes \<Rightarrow> Record option) \<Rightarrow> Record list \<Rightarrow> Record \<Rightarrow> Record \<Rightarrow> LogDir \<Rightarrow> bool" where
  "wrecked C parse rs r v d \<longleftrightarrow> torn C parse d rs r \<or> torn C parse d (rs @ [r]) v"

definition interrupted ::
  "'z crates_scheme \<Rightarrow> (bytes \<Rightarrow> Record option) \<Rightarrow> LogWriter \<Rightarrow> State \<Rightarrow> Record list \<Rightarrow> Record \<Rightarrow> Record
     \<Rightarrow> LogError \<Rightarrow> session \<Rightarrow> bool" where
  "interrupted C parse w0 s0 rs r v e = (\<lambda>(w, s).
     s = s0 \<and> e = Io \<and> ld_io (fl_dir (lw_log w0)) \<noteq> [] \<and> fl_max_file_bytes (lw_log w) = fl_max_file_bytes (lw_log w0)
     \<and> (stage C parse w0 s0 rs False (w, s)
        \<or> lw_recovery_required w \<and> wrecked C parse rs r v (fl_dir (lw_log w))))"

lemma triple_on_log:
  assumes "\<And>w s. P (w, s) \<Longrightarrow> triple (\<lambda>l. l = lw_log w) m (\<lambda>x l. Q x (w\<lparr>lw_log := l\<rparr>, s)) (\<lambda>e l. X e (w\<lparr>lw_log := l\<rparr>, s))"
  shows "triple P (on_log m) Q X"
  unfolding on_log_def
proof (rule triple_on_part)
  fix ws assume "P ws"
  moreover obtain w s where "ws = (w, s)" by (cases ws)
  ultimately show "triple (\<lambda>t. t = (case ws of (w, s) \<Rightarrow> lw_log w)) m
      (\<lambda>x t. Q x ((\<lambda>l (w, s). (w\<lparr>lw_log := l\<rparr>, s)) t ws)) (\<lambda>e t. X e ((\<lambda>l (w, s). (w\<lparr>lw_log := l\<rparr>, s)) t ws))"
    using assms [of w s] by simp
qed

lemma intent_stage:
  assumes m: "\<And>d0. triple (log_untouched d0) m (\<lambda>_. log_untouched d0) (io_failed d0)"
    and err: "\<And>ws. stage C parse w0 s0 rs b ws \<Longrightarrow> ld_io (fl_dir (lw_log w0)) \<noteq> [] \<Longrightarrow> X Io ws"
  shows "triple (stage C parse w0 s0 rs b) (on_log (on_dir m)) (\<lambda>_. stage C parse w0 s0 rs b) X"
proof (rule triple_on_log)
  fix w s assume st: "stage C parse w0 s0 rs b (w, s)"
  have step: "stage C parse w0 s0 rs b (w\<lparr>lw_log := (lw_log w)\<lparr>fl_dir := d\<rparr>\<rparr>, s)"
    if "log_untouched (fl_dir (lw_log w)) d" for d
    using st that log_untouched_disk(1) [OF that, of C parse rs]
    by (cases w; cases w0) (auto simp: stage_def log_ok_def kept_def log_untouched_def)
  have io: "ld_io (fl_dir (lw_log w0)) \<noteq> []" if "ld_io (fl_dir (lw_log w)) \<noteq> []"
    using st that by (auto simp: stage_def kept_def)
  show "triple (\<lambda>l. l = lw_log w) (on_dir m) (\<lambda>x l. stage C parse w0 s0 rs b (w\<lparr>lw_log := l\<rparr>, s))
      (\<lambda>e l. X e (w\<lparr>lw_log := l\<rparr>, s))"
    unfolding on_dir_def
    by (rule triple_on_part, rule triple_weaken [OF m [of "fl_dir (lw_log w)"]])
      (use step io err in \<open>auto simp: io_failed_def\<close>)
qed

lemma append_stage:
  assumes "storable C parse r" and room: "length (framed C (rs @ [r])) \<le> unat (fl_max_file_bytes (lw_log w0))"
    and err: "\<And>w l. stage C parse w0 s0 rs b (w, s0) \<Longrightarrow> torn C parse (fl_dir l) rs r
       \<Longrightarrow> fl_max_file_bytes l = fl_max_file_bytes (lw_log w0) \<Longrightarrow> ld_io (fl_dir (lw_log w0)) \<noteq> []
       \<Longrightarrow> X Io (w\<lparr>lw_log := l\<rparr>, s0)"
  shows "triple (stage C parse w0 s0 rs b) (on_log (append_record C r)) (\<lambda>_. stage C parse w0 s0 (rs @ [r]) b) X"
proof (rule triple_on_log)
  fix w s assume st: "stage C parse w0 s0 rs b (w, s)"
  then have ok: "log_ok C parse (lw_log w) rs" and s: "s = s0" and k: "kept (lw_log w0) (lw_log w)"
    by (auto simp: stage_def)
  then have fit: "fits C (lw_log w) [r]"
    using room storable_encodable [OF assms(1)]
    by (auto simp: fits_def log_ok_def exact_def log_bytes_def kept_def)
  show "triple (\<lambda>l. l = lw_log w) (append_record C r) (\<lambda>x l. stage C parse w0 s0 (rs @ [r]) b (w\<lparr>lw_log := l\<rparr>, s))
      (\<lambda>e l. X e (w\<lparr>lw_log := l\<rparr>, s))"
  proof (rule triple_weaken [OF append_record_triple [OF ok assms(1)]])
    show "same_log (lw_log w) l" if "l = lw_log w" for l using that by simp
    show "stage C parse w0 s0 (rs @ [r]) b (w\<lparr>lw_log := l\<rparr>, s)"
      if "log_ok C parse l (rs @ [r]) \<and> beside_log (fl_dir (lw_log w)) (fl_dir l)
        \<and> fl_max_file_bytes l = fl_max_file_bytes (lw_log w)" for l
      using st that by (cases w; cases w0) (auto simp: stage_def kept_def beside_log_def)
    fix e l assume fail: "append_failed C parse (lw_log w) rs r e l"
    then have "fl_max_file_bytes l = fl_max_file_bytes (lw_log w)"
      by (cases l; cases "lw_log w") (auto simp: append_failed_def)
    with fail fit k st s err [of w l] show "X e (w\<lparr>lw_log := l\<rparr>, s)"
      by (auto simp: append_failed_def kept_def)
  qed
qed

definition committed ::
  "'z env_scheme \<Rightarrow> (bytes \<Rightarrow> Record option) \<Rightarrow> LogWriter \<Rightarrow> State \<Rightarrow> Record list \<Rightarrow> Record \<Rightarrow> VerdictData
     \<Rightarrow> Record \<Rightarrow> RecordId \<times> VerdictData \<Rightarrow> session \<Rightarrow> bool" where
  "committed E parse w0 s0 rs r vd v res = (\<lambda>(w, s).
     res = (rec_id r, vd)
     \<and> (\<exists>s1. apply_record E s0 r vd = Some s1 \<and> s = s1\<lparr>st_applied_up_to := rec_time v\<rparr>)
     \<and> log_ok E parse (lw_log w) (rs @ [r, v]) \<and> kept (lw_log w0) (lw_log w)
     \<and> lw_time_source w = snd (next_time (snd (next_time (lw_time_source w0))))
     \<and> lw_rules_hash w = lw_rules_hash w0 \<and> \<not> lw_recovery_required w)"

lemma log_ok_last_two:
  assumes "log_ok C parse l (rs @ [r, v])" "rec_id v \<noteq> rec_id r"
  shows "log_get l (rec_id r) = Some r"
proof -
  have "fl_index l = build_index ((rs @ [r]) @ [v])" "fl_records l = rs @ [r, v]"
    using assms(1) by (simp_all add: log_ok_def)
  then show ?thesis
    unfolding build_index_snoc using assms(2) by (simp add: log_get_def nth_append)
qed

lemma commit_durably_triple:
  assumes r: "storable E parse r" and v: "storable E parse v"
    and room: "length (framed E (rs @ [r, v])) \<le> unat (fl_max_file_bytes (lw_log w0))"
    and ids: "rec_id v \<noteq> rec_id r" and fold: "apply_record E s0 r vd = Some s1"
    and open0: "\<not> lw_recovery_required w0"
  shows "triple (stage E parse w0 s0 rs False) (commit_durably E r vd v)
     (committed E parse w0 s0 rs r vd v) (interrupted E parse w0 s0 rs r v)"
proof -
  let ?S = "stage E parse w0 s0" and ?X = "interrupted E parse w0 s0 rs r v"
  have bad: "?X Io (w, s)"
    if "?S rs' True (w, s)" "ld_io (fl_dir (lw_log w0)) \<noteq> []" "exact E parse (fl_dir (lw_log w)) rs' \<Longrightarrow> wrecked E parse rs r v (fl_dir (lw_log w))"
    for rs' w s
    using that by (cases w; cases w0) (auto simp: interrupted_def stage_def log_ok_def kept_def)
  have wreck: "exact E parse d rs \<Longrightarrow> wrecked E parse rs r v d" "exact E parse d (rs @ [r]) \<Longrightarrow> wrecked E parse rs r v d"
    "exact E parse d (rs @ [r, v]) \<Longrightarrow> wrecked E parse rs r v d" for d
    using exact_torn [of E parse d rs r] exact_torn [of E parse d "rs @ [r]" v]
    by (auto simp: wrecked_def exact_def torn_def log_bytes_def intro!: exI [of _ "length (frame E v)"])
  have intent1: "triple (?S rs False) (on_log (on_dir (write_to_file E i))) (\<lambda>_. ?S rs False) ?X" for i
    by (rule intent_stage [OF write_to_file_triple])
      (auto simp: interrupted_def stage_def kept_def)
  have set: "triple (?S rs False) (set_recovery True) (\<lambda>_. ?S rs True) ?X"
    by (auto simp: triple_def set_recovery_def stage_def)
  have app1: "triple (?S rs True) (on_log (append_record E r)) (\<lambda>_. ?S (rs @ [r]) True) ?X"
    by (rule append_stage [OF r]) (use room in \<open>auto simp: interrupted_def stage_def wrecked_def\<close>)
  have intent2: "triple (?S (rs @ [r]) True) (on_log (on_dir (write_to_file E i))) (\<lambda>_. ?S (rs @ [r]) True) ?X" for i
    by (rule intent_stage [OF write_to_file_triple]) (use bad wreck(2) in \<open>auto simp del: split_paired_All\<close>)
  have app2: "triple (?S (rs @ [r]) True) (on_log (append_record E v)) (\<lambda>_. ?S (rs @ [r, v]) True) ?X"
    using append_stage [OF v, of "rs @ [r]" w0 s0 True ?X] room
    by (auto simp: interrupted_def stage_def wrecked_def)
  have clear: "triple (?S (rs @ [r, v]) True) (on_log (on_dir clear_file)) (\<lambda>_. ?S (rs @ [r, v]) True) ?X"
    by (rule intent_stage [OF clear_file_triple]) (use bad wreck(3) in \<open>auto simp del: split_paired_All\<close>)
  let ?F = "\<lambda>(w, s). s = s1\<lparr>st_applied_up_to := rec_time v\<rparr> \<and> ?S (rs @ [r, v]) True (w, s0)"
  have fold: "triple (?S (rs @ [r, v]) True) (fold_pair E (rec_id r) vd (rec_time v)) (\<lambda>_. ?F) ?X"
    unfolding triple_def
  proof (intro allI impI)
    fix ws assume "?S (rs @ [r, v]) True ws"
    then obtain w where ws: "ws = (w, s0)" "?S (rs @ [r, v]) True (w, s0)" by (cases ws) (auto simp: stage_def)
    then have "log_get (lw_log w) (rec_id r) = Some r"
      by (intro log_ok_last_two [OF _ ids]) (auto simp: stage_def)
    with ws fold show "case fold_pair E (rec_id r) vd (rec_time v) ws of
        (Inr x, s') \<Rightarrow> ?F s' | (Inl e, s') \<Rightarrow> ?X e s'"
      by (simp add: fold_pair_def)
  qed
  have finish: "triple ?F (and_then publish_times (\<lambda>_. ok (rec_id r, vd))) (committed E parse w0 s0 rs r vd v) ?X"
    using fold \<open>apply_record E s0 r vd = Some s1\<close>
    by (cases w0) (auto simp: triple_def publish_times_def and_then_def ok_def committed_def stage_def kept_def)
  show ?thesis
    unfolding commit_durably_def
    by (rule triple_bind [OF intent1 triple_bind [OF set triple_bind [OF app1 triple_bind [OF intent2
      triple_bind [OF app2 triple_bind [OF clear triple_bind [OF fold finish]]]]]]])
qed

section \<open>The pair a proposal becomes\<close>

definition pair_of ::
  "'z env_scheme \<Rightarrow> VerifierRules \<Rightarrow> Record list \<Rightarrow> State \<Rightarrow> Record \<Rightarrow> VerdictData \<Rightarrow> Record \<Rightarrow> bool" where
  "pair_of E R rs s r vd v \<longleftrightarrow>
     vd = verify_record E r rs R s \<and> compute_id E r = Some (rec_id r)
     \<and> unat (rec_time r) = Suc (length rs) \<and> unat (rec_time v) = Suc (Suc (length rs))
     \<and> materialize_verdict E r (rec_time v) vd = Inr v"

text \<open>What the environment has to provide for a pair to be stored, read back and replayed.\<close>

definition sound_pair ::
  "'z env_scheme \<Rightarrow> (bytes \<Rightarrow> Record option) \<Rightarrow> Record list \<Rightarrow> Record \<Rightarrow> VerdictData \<Rightarrow> Record \<Rightarrow> bool" where
  "sound_pair E parse rs r vd v \<longleftrightarrow>
     fresh_id E rs r \<and> rec_id v \<noteq> rec_id r \<and> storable E parse r \<and> storable E parse v
     \<and> de_verdict E (rec_data v) = Some vd"

lemma materialize_verdict_Inr:
  assumes "materialize_verdict C r t d = Inr v"
  shows "canonical_json C (verdict_json d) = Some (rec_data v)" "compute_id C v = Some (rec_id v)"
    "rec_space v = rec_space r" "rec_thread v = rec_thread r" "rec_time v = t" "rec_kind v = KVerdict"
    "rec_author v = \<lparr>au_id = ''verifier'', au_type = AVerifier, au_signature = None\<rparr>"
    "rec_schema v = schema_id C SCHEMA_VERDICT" "rec_evidence v = Deterministic"
    "rec_refs v = [\<lparr>ref_type = RCause, ref_target = rec_id r\<rparr>]"
  using assms with_computed_id_Some [of C _ v]
  by (fastforce simp: materialize_verdict_def or_error_def split: option.splits)+

lemma pair_verdict_ok:
  assumes pair: "pair_of E R rs s r vd v" and fresh: "fresh_id E rs r" and kind: "rec_kind r \<noteq> KVerdict"
    and space: "rec_space r = vr_space R" and de: "de_verdict E (rec_data v) = Some vd"
  shows "check_verdict_record E v (prior_of (rs @ [r])) R = None"
proof -
  have mat: "materialize_verdict E r (rec_time v) vd = Inr v" using pair unfolding pair_of_def by blast
  note v = materialize_verdict_Inr [OF mat]
  have "List.find (\<lambda>t. rec_id t = rec_id r) rs = None"
    using fresh_idD(1) [OF fresh] by (force simp: find_None_iff' image_iff)
  then have "scan_find (rs @ [r]) (rec_id r) = Some r" by (simp add: scan_find_def find_append)
  moreover have "\<not> scan_verdicted (rs @ [r]) (rec_id r)"
  proof
    assume "scan_verdicted (rs @ [r]) (rec_id r)"
    then obtain t e where "t \<in> set (rs @ [r])" "rec_kind t = KVerdict" "e \<in> set (rec_refs t)" "ref_target e = rec_id r"
      by (auto simp: scan_verdicted_def list_ex_iff)
    with fresh_idD(5) [OF fresh, of t] kind show False by (force simp: image_iff)
  qed
  moreover have "decodes_canonically E (de_verdict E) verdict_json (rec_data v)"
    using de v(1) by (simp add: decodes_canonically_def)
  ultimately show ?thesis
    using v kind space
    by (simp add: check_verdict_record_def check_verdict_subject_def prior_of_find prior_of_verdict)
qed

lemma pair_extends:
  assumes rep: "replays E R rs s" "log_shape E rs" and pair: "pair_of E R rs s r vd v"
    and fresh: "fresh_id E rs r" and kind: "rec_kind r \<noteq> KVerdict" and space: "rec_space r = vr_space R"
    and de: "de_verdict E (rec_data v) = Some vd" and app: "apply_record E s r vd = Some s1"
  shows "replays E R (rs @ [r, v]) (s1\<lparr>st_applied_up_to := rec_time v\<rparr>)" "log_shape E (rs @ [r, v])"
proof -
  have mat: "materialize_verdict E r (rec_time v) vd = Inr v" using pair unfolding pair_of_def by blast
  note v = materialize_verdict_Inr [OF mat]
  have vd: "vd = verdict_of (check_record E r (prior_of (rs @ [r])) R s)"
    using pair check_record_fresh [OF rep(1) fresh kind] by (simp add: pair_of_def verify_record_def prior_of_def)
  show "replays E R (rs @ [r, v]) (s1\<lparr>st_applied_up_to := rec_time v\<rparr>)"
    by (rule replays_pair [OF rep(1) kind v(6) pair_verdict_ok [OF pair fresh kind space de]])
      (use v de app vd in simp_all)
  have "unat (rec_time ((rs @ [r, v]) ! i)) = Suc i \<and> compute_id E ((rs @ [r, v]) ! i) = Some (rec_id ((rs @ [r, v]) ! i))"
    if bound: "i < length (rs @ [r, v])" for i
  proof -
    from bound consider "i < length rs" | "i = length rs" | "i = Suc (length rs)" by fastforce
    then show ?thesis
      using rep(2) pair v(2) by cases (auto simp: log_shape_def pair_of_def nth_append)
  qed
  then show "log_shape E (rs @ [r, v])" by (simp add: log_shape_def)
qed

lemma pair_applies:
  assumes pair: "pair_of E R rs s r vd v" and kind: "rec_kind r \<noteq> KVerdict"
    and rules: "frozen_rules E R" "schema_hashes_distinct E"
  shows "apply_record E s r vd \<noteq> None"
proof (cases "check_record E r (prior_of rs) R s")
  case None
  then have "vd = verdict_of None" using pair by (simp add: pair_of_def verify_record_def prior_of_def)
  then show ?thesis using accepted_applies [OF None kind rules] by simp
next
  case (Some c)
  then have "vd_result vd = Reject" using pair by (simp add: pair_of_def verify_record_def prior_of_def verdict_of_def)
  then show ?thesis by (simp add: apply_record_def)
qed

section \<open>The writer in order\<close>

definition writer_ok ::
  "'z env_scheme \<Rightarrow> (bytes \<Rightarrow> Record option) \<Rightarrow> VerifierRules \<Rightarrow> LogWriter \<Rightarrow> State \<Rightarrow> bool" where
  "writer_ok E parse R w s \<longleftrightarrow>
     log_ok E parse (lw_log w) (writer_records w) \<and> log_shape E (writer_records w)
     \<and> replays E R (writer_records w) s
     \<and> lw_time_source w = from_last_time (log_last_time (lw_log w))
     \<and> rules_hash E R = Some (lw_rules_hash w) \<and> \<not> lw_recovery_required w"

lemma writer_ok_guards:
  assumes "writer_ok E parse R w s"
  shows "commit_guards E w R s' = (if s' = s then None else Some StateMismatch)"
  using assms replays_build_state [of E R "writer_records w" s]
  by (auto simp: writer_ok_def commit_guards_def ensure_writable_def ensure_rules_match_def
      ensure_state_matches_def first_reason.simps)

lemma next_time_of_log:
  assumes "writer_ok E parse R w s" "\<not> exhausted (lw_time_source w)"
  shows "unat (peek (lw_time_source w)) = Suc (length (writer_records w))"
    "length (writer_records w) < 2 ^ 64 - 3"
proof -
  let ?rs = "writer_records w"
  have ts: "lw_time_source w = from_last_time (log_last_time (lw_log w))"
    and shape: "log_shape E ?rs" using assms(1) by (simp_all add: writer_ok_def)
  have bound: "unat (ts_next (lw_time_source w)) < 2 ^ 64 - 2" using assms(2) by (simp only: not_exhausted_bound)
  show eq: "unat (peek (lw_time_source w)) = Suc (length ?rs)"
  proof (cases "?rs = []")
    case True
    then show ?thesis
      using ts by (simp add: peek_def from_last_time_def log_last_time_def writer_records_def u64_saturating_add_nat)
  next
    case False
    then have "unat (rec_time (last ?rs)) = length ?rs"
      using shape by (auto simp: log_shape_def last_conv_nth)
    moreover have "log_last_time (lw_log w) = Some (rec_time (last ?rs))"
      using False by (simp add: log_last_time_def writer_records_def)
    moreover have "unat (rec_time (last ?rs)) < 2 ^ 64 - 1"
    proof (rule ccontr)
      assume "\<not> unat (rec_time (last ?rs)) < 2 ^ 64 - 1"
      then have "ts_next (lw_time_source w) = - 1"
        using ts calculation(2) by (simp add: from_last_time_def u64_saturating_add_nat)
      moreover have "unat (- 1 :: u64) = 2 ^ 64 - 1" by (simp add: unsigned_minus_1_eq_mask mask_eq_exp_minus_1)
      ultimately show False using bound by simp
    qed
    ultimately show ?thesis
      using ts from_last_time_unat [of "rec_time (last ?rs)"] by (simp add: peek_def)
  qed
  with bound show "length ?rs < 2 ^ 64 - 3" by (simp add: peek_def)
qed

lemma materialize_pair:
  assumes ok: "writer_ok E parse R w s" and time: "\<not> exhausted (lw_time_source w)"
    and mat: "materialize E w R s signer p = Inr (r, vd, v)"
  shows "pair_of E R (writer_records w) s r vd v" "rec_kind r = pro_kind p" "rec_space r = pro_space p"
    "rec_thread r = pro_thread p" "rec_schema r = pro_schema p" "rec_data r = pro_data p"
    "rec_refs r = sort_and_dedup_refs (pro_refs p)" "signer = None \<Longrightarrow> rec_author r = pro_author p"
proof -
  from mat obtain t r0 where t: "u64_checked_add (peek (lw_time_source w)) 1 = Some t"
    and r0: "sign_record E signer (unsigned_record E w s p) = Some r0" "with_computed_id E r0 = Some r"
    and vd: "vd = verify_record E r (writer_records w) R s" and v: "materialize_verdict E r t vd = Inr v"
    by (auto simp: materialize_def Let_def bind_eq_Some_conv split: option.splits sum.splits)
  obtain i where r: "r = r0\<lparr>rec_id := i\<rparr>" using with_computed_id_Some(2) [OF r0(2)] by blast
  have r0': "\<exists>a. r0 = (unsigned_record E w s p)\<lparr>rec_author := a\<rparr> \<and> (signer = None \<longrightarrow> a = pro_author p)"
    using r0(1) by (auto simp: sign_record_def unsigned_record_def split: option.splits)
  then show "rec_kind r = pro_kind p" "rec_space r = pro_space p" "rec_thread r = pro_thread p"
    "rec_schema r = pro_schema p" "rec_data r = pro_data p" "rec_refs r = sort_and_dedup_refs (pro_refs p)"
    "signer = None \<Longrightarrow> rec_author r = pro_author p"
    by (auto simp: r unsigned_record_def)
  have "rec_time r = peek (lw_time_source w)" using r0' by (auto simp: r unsigned_record_def)
  moreover have "unat t = unat (peek (lw_time_source w)) + 1" using u64_checked_add_Some [OF t] by simp
  ultimately show "pair_of E R (writer_records w) s r vd v"
    using next_time_of_log(1) [OF ok time] with_computed_id_Some(1) [OF r0(2)] vd v materialize_verdict_Inr(5) [OF v]
    by (simp add: pair_of_def)
qed

section \<open>Opening again\<close>

lemma triple_at: "triple (\<lambda>x. x = a) m Q X \<Longrightarrow> (\<And>e b. m a = (Inl e, b) \<Longrightarrow> \<not> X e b) \<Longrightarrow>
    \<exists>x b. m a = (Inr x, b) \<and> Q x b"
  by (cases "m a"; cases "fst (m a)") (auto simp: triple_def)

lemma replays_last_verdict: "replays E R rs s \<Longrightarrow> rs \<noteq> [] \<Longrightarrow> rec_kind (last rs) = KVerdict"
  by (erule replays.cases) simp_all

lemma valid_log: "log_shape E rs \<Longrightarrow> replays E R rs s \<Longrightarrow> require_valid_log E rs R = None"
  using verify_log_genesis [of E rs R] by (auto simp: require_valid_log_def Let_def)

lemma clear_file_calm:
  assumes "log_ok E parse l rs" "ld_io (fl_dir l) = []"
  obtains l' where "on_dir clear_file l = (Inr (), l')" "log_ok E parse l' rs" "kept l l'"
proof -
  obtain d where d: "clear_file (fl_dir l) = (Inr (), d)" "log_untouched (fl_dir l) d"
    using triple_at [of "fl_dir l" clear_file "\<lambda>_. log_untouched (fl_dir l)" "io_failed (fl_dir l)"]
      triple_weaken [OF clear_file_triple [of "fl_dir l"], of "\<lambda>d. d = fl_dir l"] assms(2)
    by (auto simp: io_failed_def)
  then have "on_dir clear_file l = (Inr (), l\<lparr>fl_dir := d\<rparr>)" by (simp add: on_dir_def on_part_def)
  moreover have "log_ok E parse (l\<lparr>fl_dir := d\<rparr>) rs" "kept l (l\<lparr>fl_dir := d\<rparr>)"
    using assms d(2) log_untouched_disk(1) [OF d(2), of E parse rs]
    by (auto simp: log_ok_def kept_def log_untouched_def)
  ultimately show thesis by (rule that)
qed

lemma opened_writer:
  assumes d: "ld_io d = []" "\<not> ld_locked d" "holds E parse d rs" "length (log_bytes d) \<le> unat max_bytes"
    and checked: "\<And>l. log_ok E parse l rs \<Longrightarrow> ld_io (fl_dir l) = [] \<Longrightarrow> fl_max_file_bytes l = max_bytes \<Longrightarrow>
      \<exists>l'. open_checked E R l = (Inr h, l') \<and> log_ok E parse l' rs'"
    and valid: "log_shape E rs'" "replays E R rs' s" "rules_hash E R = Some h"
  shows "\<exists>w. open_with_max_bytes E parse R max_bytes d = Inr w \<and> writer_records w = rs' \<and> writer_ok E parse R w s"
proof -
  let ?d1 = "d\<lparr>ld_locked := True\<rparr>"
  have lock: "try_lock d = (Inr (), ?d1)"
    using d(1,2) by (simp add: try_lock_def and_then_def plain_call_def sys_call_def)
  obtain d' where l: "file_log_open parse max_bytes ?d1
      = Inr \<lparr>fl_dir = d', fl_records = rs, fl_index = build_index rs, fl_max_file_bytes = max_bytes\<rparr>"
    "exact E parse d' rs" "beside_log ?d1 d'"
    using file_log_open_holds [of E parse ?d1 rs max_bytes] d by auto
  let ?l = "\<lparr>fl_dir = d', fl_records = rs, fl_index = build_index rs, fl_max_file_bytes = max_bytes\<rparr>"
  have "length (framed E rs) \<le> unat max_bytes" using d(3,4) by (auto simp: holds_def)
  then have "log_ok E parse ?l rs" using l(2) by (simp add: log_ok_def)
  moreover have "ld_io (fl_dir ?l) = []" using l(3) d(1) by (simp add: beside_log_def)
  ultimately obtain l' where l': "open_checked E R ?l = (Inr h, l')" "log_ok E parse l' rs'"
    using checked by fastforce
  then have "open_with_max_bytes E parse R max_bytes d
      = Inr \<lparr>lw_log = l', lw_time_source = from_last_time (log_last_time l'), lw_rules_hash = h,
             lw_recovery_required = False\<rparr>"
    by (simp add: open_with_max_bytes_def lock l(1))
  moreover have "fl_records l' = rs'" using l'(2) by (simp add: log_ok_def)
  ultimately show ?thesis using l'(2) valid by (simp add: writer_ok_def writer_records_def)
qed

lemma reopen_complete:
  assumes d: "ld_io d = []" "\<not> ld_locked d" "holds E parse d rs" "length (log_bytes d) \<le> unat max_bytes"
    and valid: "log_shape E rs" "replays E R rs s" "rules_hash E R = Some h"
  shows "\<exists>w. open_with_max_bytes E parse R max_bytes d = Inr w \<and> writer_records w = rs \<and> writer_ok E parse R w s"
proof (rule opened_writer [OF d _ valid])
  fix l assume l: "log_ok E parse l rs" "ld_io (fl_dir l) = []"
  obtain l' where l': "on_dir clear_file l = (Inr (), l')" "log_ok E parse l' rs"
    by (rule clear_file_calm [OF l])
  have recs: "fl_records l = rs" "fl_records l' = rs" using l(1) l'(2) by (simp_all add: log_ok_def)
  have "\<not> (rs \<noteq> [] \<and> rec_kind (last rs) \<noteq> KVerdict)" using replays_last_verdict [OF valid(2)] by blast
  then have "complete_prefix rs = rs" "recover E R l = (Inr (), l')"
    using l'(1) by (auto simp: complete_prefix_def recover_def and_then_def ok_def recs(1))
  then have "open_checked E R l = (Inr h, l')"
    using valid_log [OF valid(1,2)] valid(3)
    by (simp add: open_checked_def and_then_def recs ok_def lift_result_def or_error_def)
  then show "\<exists>l'. open_checked E R l = (Inr h, l') \<and> log_ok E parse l' rs" using l'(2) by blast
qed

lemma append_calm:
  assumes "log_ok E parse l rs" "storable E parse r" "ld_io (fl_dir l) = []"
    "length (framed E (rs @ [r])) \<le> unat (fl_max_file_bytes l)"
  obtains l' where "append_record E r l = (Inr (), l')" "log_ok E parse l' (rs @ [r])" "kept l l'"
proof -
  have fit: "fits E l [r]"
    using assms storable_encodable [OF assms(2)] by (auto simp: fits_def log_ok_def exact_def log_bytes_def)
  have "triple (\<lambda>x. x = l) (append_record E r)
      (\<lambda>_ l'. log_ok E parse l' (rs @ [r]) \<and> beside_log (fl_dir l) (fl_dir l') \<and> fl_max_file_bytes l' = fl_max_file_bytes l)
      (append_failed E parse l rs r)"
    by (rule triple_weaken [OF append_record_triple [OF assms(1,2)]]) auto
  from triple_at [OF this] obtain l' where "append_record E r l = (Inr (), l')" "log_ok E parse l' (rs @ [r])"
    "beside_log (fl_dir l) (fl_dir l')" "fl_max_file_bytes l' = fl_max_file_bytes l"
    using fit assms(3) by (auto simp: append_failed_def)
  then show thesis using that by (auto simp: kept_def beside_log_def)
qed

lemma pair_recovery_verdict:
  assumes "replays E R rs s" "pair_of E R rs s r vd v"
  shows "recovery_verdict E (rs @ [r]) R = Inr v"
proof -
  have "u64_checked_add (rec_time r) 1 = Some (rec_time v)"
    using assms(2) by (simp add: pair_of_def u64_checked_add_Some_iff)
  then show ?thesis
    using assms replays_build_state [OF assms(1)] by (auto simp: recovery_verdict_def pair_of_def Let_def)
qed

lemma reopen_recovers:
  assumes d: "ld_io d = []" "\<not> ld_locked d" "holds E parse d (rs @ [r])" "length (log_bytes d) \<le> unat max_bytes"
    and room: "length (framed E (rs @ [r, v])) \<le> unat max_bytes"
    and valid: "log_shape E rs" "replays E R rs s" "rules_hash E R = Some h"
    and pair: "pair_of E R rs s r vd v" "sound_pair E parse rs r vd v" "rec_kind r \<noteq> KVerdict" "rec_space r = vr_space R"
    and app: "apply_record E s r vd = Some s1"
  shows "\<exists>w. open_with_max_bytes E parse R max_bytes d = Inr w \<and> writer_records w = rs @ [r, v]
     \<and> writer_ok E parse R w (s1\<lparr>st_applied_up_to := rec_time v\<rparr>)"
proof -
  have sound: "fresh_id E rs r" "storable E parse v" "de_verdict E (rec_data v) = Some vd"
    using pair(2) by (simp_all add: sound_pair_def)
  note ext = pair_extends [OF valid(2,1) pair(1) sound(1) pair(3,4) sound(3) app]
  show ?thesis
  proof (rule opened_writer [OF d _ ext(2,1) valid(3)])
    fix l assume l: "log_ok E parse l (rs @ [r])" "ld_io (fl_dir l) = []" "fl_max_file_bytes l = max_bytes"
    obtain l1 where l1: "append_record E v l = (Inr (), l1)" "log_ok E parse l1 (rs @ [r, v])" "kept l l1"
      using append_calm [OF l(1) sound(2) l(2)] room l(3) by auto
    obtain l2 where l2: "on_dir clear_file l1 = (Inr (), l2)" "log_ok E parse l2 (rs @ [r, v])"
      by (rule clear_file_calm [OF l1(2)]) (use l1(3) l(2) in \<open>auto simp: kept_def\<close>)
    have recs: "fl_records l = rs @ [r]" "fl_records l2 = rs @ [r, v]"
      using l(1) l2(2) by (simp_all add: log_ok_def)
    have "complete_prefix (rs @ [r]) = rs" using pair(3) by (simp add: complete_prefix_def)
    moreover have "recover E R l = (Inr (), l2)"
      using pair_recovery_verdict [OF valid(2) pair(1)] pair(3) l1(1) l2(1)
      by (simp add: recover_def and_then_def recs lift_result_def)
    ultimately have "open_checked E R l = (Inr h, l2)"
      using valid_log [OF valid(1,2)] valid_log [OF ext(2,1)] valid(3)
      by (simp add: open_checked_def and_then_def recs ok_def lift_result_def or_error_def)
    then show "\<exists>l'. open_checked E R l = (Inr h, l') \<and> log_ok E parse l' (rs @ [r, v])" using l2(2) by blast
  qed
qed

section \<open>Commit\<close>

text \<open>The directory after an attempt to commit the pair: untouched, wrecked, or with the pair at its end.\<close>

definition aftermath ::
  "'z env_scheme \<Rightarrow> (bytes \<Rightarrow> Record option) \<Rightarrow> Record list \<Rightarrow> Record \<Rightarrow> Record \<Rightarrow> u64 \<Rightarrow> LogDir \<Rightarrow> bool" where
  "aftermath E parse rs r v max_bytes d \<longleftrightarrow>
     exact E parse d rs \<and> length (framed E rs) \<le> unat max_bytes
     \<or> (wrecked E parse rs r v d \<or> exact E parse d (rs @ [r, v])) \<and> length (framed E (rs @ [r, v])) \<le> unat max_bytes"

definition commit_failed ::
  "'z env_scheme \<Rightarrow> (bytes \<Rightarrow> Record option) \<Rightarrow> VerifierRules \<Rightarrow> LogWriter \<Rightarrow> State \<Rightarrow> session \<Rightarrow> bool" where
  "commit_failed E parse R w s = (\<lambda>(w', s').
     s' = s \<and> (writer_ok E parse R w' s \<and> writer_records w' = writer_records w \<or> lw_recovery_required w'))"

text \<open>A commit fails in its durable phase only when the pair does not fit or a system call failed.\<close>

definition excused ::
  "'z env_scheme \<Rightarrow> LogWriter \<Rightarrow> Record list \<Rightarrow> Record \<Rightarrow> Record \<Rightarrow> LogError \<Rightarrow> bool" where
  "excused E w rs r v e \<longleftrightarrow>
     (encodable E r \<longrightarrow> encodable E v \<longrightarrow> length (framed E (rs @ [r, v])) \<le> unat (fl_max_file_bytes (lw_log w))
        \<longrightarrow> e = Io \<and> ld_io (fl_dir (lw_log w)) \<noteq> [])"

lemma writer_ok_moved:
  assumes "writer_ok E parse R w s" "log_ok E parse (lw_log w') (writer_records w)"
    "lw_time_source w' = lw_time_source w" "lw_rules_hash w' = lw_rules_hash w" "\<not> lw_recovery_required w'"
  shows "writer_ok E parse R w' s \<and> writer_records w' = writer_records w"
proof -
  have "fl_records (lw_log w') = fl_records (lw_log w)" using assms(2) by (simp add: log_ok_def writer_records_def)
  then show ?thesis using assms by (simp add: writer_ok_def writer_records_def log_last_time_def)
qed

lemma two_times:
  assumes "writer_ok E parse R w s" "\<not> exhausted (lw_time_source w)" "pair_of E R (writer_records w) s r vd v"
  shows "snd (next_time (snd (next_time (lw_time_source w)))) = from_last_time (Some (rec_time v))"
proof -
  let ?n = "length (writer_records w)"
  have b: "unat (ts_next (lw_time_source w)) = Suc ?n" "?n < 2 ^ 64 - 3"
    using next_time_of_log [OF assms(1,2)] by (simp_all add: peek_def)
  obtain t1 ts1 where 1: "next_time (lw_time_source w) = (t1, ts1)" by fastforce
  then have n1: "unat (ts_next ts1) = Suc (Suc ?n)" using next_time_unat(2) [of "lw_time_source w" t1 ts1] b by simp
  obtain t2 ts2 where 2: "next_time ts1 = (t2, ts2)" by fastforce
  then have n2: "unat (ts_next ts2) = Suc (Suc (Suc ?n))" using next_time_unat(2) [of ts1 t2 ts2] n1 b by simp
  have "unat (rec_time v) = Suc (Suc ?n)" using assms(3) by (simp add: pair_of_def)
  then have "unat (ts_next (from_last_time (Some (rec_time v)))) = Suc (Suc (Suc ?n))"
    using from_last_time_unat [of "rec_time v"] b by simp
  with n2 have "ts_next ts2 = ts_next (from_last_time (Some (rec_time v)))" by (simp only: word_unat_eq_iff)
  then show ?thesis using 1 2 by simp
qed

lemma capacity_stage:
  assumes "stage E parse w s rs False (w, s)"
  shows "triple (\<lambda>x. x = (w, s)) (on_log (ensure_capacity_for E [r, v]))
     (\<lambda>_ ws. stage E parse w s rs False ws \<and> length (framed E (rs @ [r, v])) \<le> unat (fl_max_file_bytes (lw_log w)))
     (\<lambda>e ws. stage E parse w s rs False ws \<and> excused E w rs r v e)"
proof (rule triple_on_log)
  fix w1 s1 assume eq: "(w1, s1) = (w, s)"
  have ok: "log_ok E parse (lw_log w) rs" using assms by (simp add: stage_def)
  have step: "stage E parse w s rs False (w1\<lparr>lw_log := l\<rparr>, s1)" if "same_log (lw_log w) l" for l
  proof -
    have "kept (lw_log w) l" using that by (cases l; cases "lw_log w") (auto simp: same_log_def kept_def same_disk_def beside_log_def)
    then show ?thesis using assms eq same_log_ok [OF that, of E parse rs] ok by (simp add: stage_def)
  qed
  show "triple (\<lambda>l. l = lw_log w1) (ensure_capacity_for E [r, v])
      (\<lambda>_ l. stage E parse w s rs False (w1\<lparr>lw_log := l\<rparr>, s1) \<and> length (framed E (rs @ [r, v])) \<le> unat (fl_max_file_bytes (lw_log w)))
      (\<lambda>e l. stage E parse w s rs False (w1\<lparr>lw_log := l\<rparr>, s1) \<and> excused E w rs r v e)"
    by (rule triple_weaken [OF ensure_capacity_triple [of "[r, v]" "lw_log w" E]])
      (use eq step ok in \<open>auto simp: fits_def log_ok_def exact_def log_bytes_def excused_def\<close>)
qed

lemma commit_inner_outcome:
  assumes ok: "writer_ok E parse R w s" and time: "\<not> exhausted (lw_time_source w)"
    and mat: "materialize E w R s signer p = Inr (r, vd, v)"
    and sound: "sound_pair E parse (writer_records w) r vd v"
    and pro: "pro_kind p \<noteq> KVerdict" "pro_space p = vr_space R"
    and rules: "frozen_rules E R" "schema_hashes_distinct E"
  shows "triple (\<lambda>x. x = (w, s)) (commit_inner E R signer p)
     (\<lambda>res (w', s'). res = (rec_id r, vd) \<and> writer_records w' = writer_records w @ [r, v] \<and> writer_ok E parse R w' s'
        \<and> kept (lw_log w) (lw_log w') \<and> aftermath E parse (writer_records w) r v (fl_max_file_bytes (lw_log w)) (fl_dir (lw_log w')))
     (\<lambda>e ws. commit_failed E parse R w s ws \<and> excused E w (writer_records w) r v e
        \<and> aftermath E parse (writer_records w) r v (fl_max_file_bytes (lw_log w)) (fl_dir (lw_log (fst ws))))"
    (is "triple _ _ ?Q ?X")
proof -
  let ?rs = "writer_records w"
  note pair = materialize_pair [OF ok time mat]
  have kind: "rec_kind r \<noteq> KVerdict" "rec_space r = vr_space R" using pro pair(2,3) by simp_all
  have rep: "replays E R ?rs s" "log_shape E ?rs" and lok: "log_ok E parse (lw_log w) ?rs"
    using ok by (simp_all add: writer_ok_def)
  from sound have sp: "fresh_id E ?rs r" "rec_id v \<noteq> rec_id r" "storable E parse r" "storable E parse v"
    "de_verdict E (rec_data v) = Some vd" by (simp_all add: sound_pair_def)
  obtain s1 where s1: "apply_record E s r vd = Some s1" using pair_applies [OF pair(1) kind(1) rules] by blast
  note ext = pair_extends [OF rep pair(1) sp(1) kind sp(5) s1]
  have st0: "stage E parse w s ?rs False (w, s)" using ok lok by (simp add: stage_def writer_ok_def kept_def)
  have same: "?X e ws" if st: "stage E parse w s ?rs False ws" and ex: "excused E w ?rs r v e" for e ws
  proof -
    obtain w' where ws: "ws = (w', s)" using st by (cases ws) (auto simp: stage_def)
    have "writer_ok E parse R w' s \<and> writer_records w' = ?rs"
      by (rule writer_ok_moved [OF ok]) (use st ws in \<open>auto simp: stage_def\<close>)
    then show ?thesis
      using st ws ex by (auto simp: commit_failed_def aftermath_def stage_def log_ok_def kept_def)
  qed
  have main: "triple (\<lambda>ws. stage E parse w s ?rs False ws \<and> length (framed E (?rs @ [r, v])) \<le> unat (fl_max_file_bytes (lw_log w)))
      (commit_durably E r vd v) ?Q ?X"
  proof (cases "length (framed E (?rs @ [r, v])) \<le> unat (fl_max_file_bytes (lw_log w))")
    case True
    have "triple (stage E parse w s ?rs False) (commit_durably E r vd v) ?Q ?X"
    proof (rule triple_weaken [OF commit_durably_triple [OF sp(3,4) True sp(2) s1]])
      show "\<not> lw_recovery_required w" using ok by (simp add: writer_ok_def)
      show "?Q res ws" if "committed E parse w s ?rs r vd v res ws" for res ws
      proof -
        obtain w' s' where ws: "ws = (w', s')" by (cases ws)
        with that s1 have *: "res = (rec_id r, vd)" "s' = s1\<lparr>st_applied_up_to := rec_time v\<rparr>"
          "log_ok E parse (lw_log w') (?rs @ [r, v])" "lw_rules_hash w' = lw_rules_hash w" "\<not> lw_recovery_required w'"
          "lw_time_source w' = from_last_time (Some (rec_time v))" "kept (lw_log w) (lw_log w')"
          using two_times [OF ok time pair(1)] by (auto simp: committed_def)
        then have "fl_records (lw_log w') = ?rs @ [r, v]" by (simp add: log_ok_def)
        with * ext ok True show ?thesis
          by (auto simp: ws writer_ok_def writer_records_def log_last_time_def aftermath_def log_ok_def)
      qed
      show "?X e ws" if "interrupted E parse w s ?rs r v e ws" for e ws
      proof (cases "stage E parse w s ?rs False ws")
        case False
        with that True show ?thesis
          by (cases ws) (auto simp: interrupted_def commit_failed_def aftermath_def excused_def)
      next
        case True
        then show ?thesis
          by (rule same) (use that in \<open>auto simp: interrupted_def excused_def\<close>)
      qed
    qed
    then show ?thesis using True by simp
  qed (simp add: triple_def)
  have "commit_inner E R signer p (w, s)
      = and_then (on_log (ensure_capacity_for E [r, v])) (\<lambda>_. commit_durably E r vd v) (w, s)"
    using writer_ok_guards [OF ok, of s] time mat by (simp add: commit_inner_def)
  moreover have "triple (\<lambda>x. x = (w, s)) (and_then (on_log (ensure_capacity_for E [r, v])) (\<lambda>_. commit_durably E r vd v)) ?Q ?X"
    by (rule triple_bind [OF triple_weaken [OF capacity_stage [OF st0, of r v]] main]) (use same in auto)
  ultimately show ?thesis by (simp add: triple_def)
qed

end
