(* ===== verification/Commit_Safety.thy ===== *)
theory Commit_Safety
  imports Writer_Laws
begin

text \<open>
  The commit protocol as its callers see it: what a commit that returns has done, what one that
  fails has left behind, what a later process finds after a crash, and what opening a directory
  guarantees.  The hypotheses on the environment are collected in \<open>sound_commit\<close>: the new ids do not
  collide with ids already in use and the JSON parser reads back what the canonical writer wrote.
\<close>

section \<open>The outcome of a commit\<close>

definition sound_commit ::
  "'z env_scheme \<Rightarrow> (bytes \<Rightarrow> Record option) \<Rightarrow> VerifierRules \<Rightarrow> LogWriter \<Rightarrow> State
     \<Rightarrow> Ed25519Signer option \<Rightarrow> Proposal \<Rightarrow> bool" where
  "sound_commit E parse R w s signer p \<longleftrightarrow>
     frozen_rules E R \<and> schema_hashes_distinct E
     \<and> (\<forall>r vd v. materialize E w R s signer p = Inr (r, vd, v)
          \<longrightarrow> sound_pair E parse (writer_records w) r vd v)"

text \<open>A proposal for the space of the rules that is not itself a verdict.\<close>

definition well_addressed :: "VerifierRules \<Rightarrow> Proposal \<Rightarrow> bool" where
  "well_addressed R p \<longleftrightarrow> pro_kind p \<noteq> KVerdict \<and> pro_space p = vr_space R"

lemma commit_cases:
  assumes ok: "writer_ok E parse R w s" and sound: "sound_commit E parse R w s signer p"
    and pro: "well_addressed R p" and run: "commit_inner E R signer p (w, s) = (res, w', s')"
  obtains (early) e where "res = Inl e" "w' = w" "s' = s"
      "exhausted (lw_time_source w) \<or> materialize E w R s signer p = Inl e"
  | (landed) r vd v where "\<not> exhausted (lw_time_source w)" "materialize E w R s signer p = Inr (r, vd, v)"
      "res = Inr (rec_id r, vd)" "writer_records w' = writer_records w @ [r, v]" "writer_ok E parse R w' s'"
      "kept (lw_log w) (lw_log w')" "aftermath E parse (writer_records w) r v (fl_max_file_bytes (lw_log w)) (fl_dir (lw_log w'))"
  | (failed) r vd v e where "\<not> exhausted (lw_time_source w)" "materialize E w R s signer p = Inr (r, vd, v)"
      "res = Inl e" "commit_failed E parse R w s (w', s')" "excused E w (writer_records w) r v e"
      "aftermath E parse (writer_records w) r v (fl_max_file_bytes (lw_log w)) (fl_dir (lw_log w'))"
proof -
  note g = writer_ok_guards [OF ok, of s]
  consider "exhausted (lw_time_source w)" | e where "\<not> exhausted (lw_time_source w)" "materialize E w R s signer p = Inl e"
    | r vd v where "\<not> exhausted (lw_time_source w)" "materialize E w R s signer p = Inr (r, vd, v)"
    by (cases "materialize E w R s signer p") auto
  then show thesis
  proof cases
    case 1
    with run g show ?thesis by (intro early) (auto simp: commit_inner_def raise_def)
  next
    case (2 e)
    with run g show ?thesis by (intro early) (auto simp: commit_inner_def raise_def)
  next
    case (3 r vd v)
    have "sound_pair E parse (writer_records w) r vd v" "frozen_rules E R" "schema_hashes_distinct E"
      "pro_kind p \<noteq> KVerdict" "pro_space p = vr_space R"
      using sound 3 pro by (auto simp: sound_commit_def well_addressed_def)
    from commit_inner_outcome [OF ok 3 this(1,4,5,2,3)] run 3 landed failed show ?thesis
      by (cases res) (auto simp: triple_def)
  qed
qed

lemma commit_returns:
  assumes ok: "writer_ok E parse R w s" and sound: "sound_commit E parse R w s signer p" and pro: "well_addressed R p"
    and time: "\<not> exhausted (lw_time_source w)" and mat: "materialize E w R s signer p = Inr (r, vd, v)"
    and room: "length (framed E (writer_records w @ [r, v])) \<le> unat (fl_max_file_bytes (lw_log w))"
    and calm: "ld_io (fl_dir (lw_log w)) = []"
  shows "\<exists>w' s'. commit_inner E R signer p (w, s) = (Inr (rec_id r, vd), w', s')"
proof -
  obtain res w' s' where run: "commit_inner E R signer p (w, s) = (res, w', s')" by (metis prod_cases3)
  have "encodable E r" "encodable E v"
    using sound mat storable_encodable by (auto simp: sound_commit_def sound_pair_def)
  from ok sound pro run show ?thesis
    by (cases rule: commit_cases) (use run time mat room calm \<open>encodable E r\<close> \<open>encodable E v\<close> in \<open>auto simp: excused_def\<close>)
qed

section \<open>After a crash\<close>

lemma crash_sel [simp]: "ld_io (crash k os d) = os" "\<not> ld_locked (crash k os d)"
  by (simp_all add: crash_def Let_def)

lemma crash_shrinks: "length (log_bytes (crash k os d)) \<le> length (log_bytes d)"
  by (simp add: log_bytes_crash)

lemma crash_wrecked:
  assumes "wrecked E parse rs r v d" "storable E parse r" "storable E parse v"
  shows "(holds E parse (crash k os d) rs \<or> holds E parse (crash k os d) (rs @ [r])
      \<or> holds E parse (crash k os d) (rs @ [r, v]))
    \<and> length (log_bytes d) \<le> length (framed E (rs @ [r, v]))"
  using assms crash_torn [of E parse d rs r k os] crash_torn [of E parse d "rs @ [r]" v k os]
  by (auto simp: wrecked_def torn_def)

lemma crash_aftermath:
  assumes after: "aftermath E parse rs r v m d" and sound: "storable E parse r" "storable E parse v"
  shows "holds E parse (crash k os d) rs
      \<or> (holds E parse (crash k os d) (rs @ [r]) \<or> holds E parse (crash k os d) (rs @ [r, v]))
        \<and> length (framed E (rs @ [r, v])) \<le> unat m"
    "length (log_bytes (crash k os d)) \<le> unat m"
proof -
  have ex: "holds E parse (crash k os d) qs \<and> log_bytes d = framed E qs" if "exact E parse d qs" for qs
    using crash_holds [OF exact_holds [OF that]] that by (simp add: exact_def log_bytes_def)
  show "holds E parse (crash k os d) rs
      \<or> (holds E parse (crash k os d) (rs @ [r]) \<or> holds E parse (crash k os d) (rs @ [r, v]))
        \<and> length (framed E (rs @ [r, v])) \<le> unat m"
    using after ex crash_wrecked [OF _ sound, of rs d k os] unfolding aftermath_def by blast
  have "length (log_bytes d) \<le> unat m"
    using after ex crash_wrecked [OF _ sound, of rs d k os] unfolding aftermath_def by fastforce
  then show "length (log_bytes (crash k os d)) \<le> unat m" using crash_shrinks [of k os d] by linarith
qed

lemma reopen_after:
  assumes after: "aftermath E parse (writer_records w) r v m d" and ok: "writer_ok E parse R w s"
    and pair: "pair_of E R (writer_records w) s r vd v" "sound_pair E parse (writer_records w) r vd v"
      "rec_kind r \<noteq> KVerdict" "rec_space r = vr_space R"
    and app: "apply_record E s r vd = Some s1"
  shows "\<exists>w' s'. open_with_max_bytes E parse R m (crash k [] d) = Inr w' \<and> writer_ok E parse R w' s'
     \<and> (writer_records w' = writer_records w \<or> writer_records w' = writer_records w @ [r, v])"
proof -
  let ?rs = "writer_records w" and ?d = "crash k [] d"
  have st: "storable E parse r" "storable E parse v" and fresh: "fresh_id E ?rs r"
    and de: "de_verdict E (rec_data v) = Some vd" using pair(2) by (simp_all add: sound_pair_def)
  note len = crash_aftermath(2) [OF after st, of k "[]"]
  have old: "log_shape E ?rs" "replays E R ?rs s" and h: "rules_hash E R = Some (lw_rules_hash w)"
    using ok by (simp_all add: writer_ok_def)
  note ext = pair_extends [OF old(2,1) pair(1) fresh pair(3,4) de app]
  from crash_aftermath(1) [OF after st, of k "[]"]
  consider "holds E parse ?d ?rs" | "holds E parse ?d (?rs @ [r])" "length (framed E (?rs @ [r, v])) \<le> unat m"
    | "holds E parse ?d (?rs @ [r, v])" by blast
  then show ?thesis
  proof cases
    case 1
    from reopen_complete [OF _ _ 1 len old h] show ?thesis by auto
  next
    case 2
    from reopen_recovers [OF _ _ 2(1) len 2(2) old h pair app] show ?thesis by auto
  next
    case 3
    from reopen_complete [OF _ _ 3 len ext(2,1) h] show ?thesis by auto
  qed
qed

lemma reopen_unchanged:
  assumes "writer_ok E parse R w s" "m = fl_max_file_bytes (lw_log w)"
  shows "\<exists>w'. open_with_max_bytes E parse R m (crash k [] (fl_dir (lw_log w))) = Inr w' \<and> writer_ok E parse R w' s
     \<and> writer_records w' = writer_records w"
proof -
  let ?d = "fl_dir (lw_log w)" and ?rs = "writer_records w"
  have ex: "exact E parse ?d ?rs" "length (framed E ?rs) \<le> unat m" and v: "log_shape E ?rs" "replays E R ?rs s"
    and h: "rules_hash E R = Some (lw_rules_hash w)"
    using assms by (simp_all add: writer_ok_def log_ok_def)
  have "length (log_bytes ?d) \<le> unat m" using ex by (simp add: exact_def log_bytes_def)
  then have "length (log_bytes (crash k [] ?d)) \<le> unat m" using crash_shrinks order_trans by blast
  from reopen_complete [OF _ _ crash_holds [OF exact_holds [OF ex(1)]] this v h] show ?thesis by auto
qed

section \<open>Proposals the replay will not take back\<close>

definition misaddressed :: "VerifierRules \<Rightarrow> Proposal \<Rightarrow> bool" where
  "misaddressed R p \<longleftrightarrow> pro_kind p = KVerdict \<or> pro_space p \<noteq> vr_space R"

lemma misaddressed_rejected:
  assumes "replays E R rs s" "pair_of E R rs s r vd v" "rec_kind r = KVerdict \<or> rec_space r \<noteq> vr_space R"
  shows "vd_result vd = Reject"
proof -
  have vd: "vd = verdict_of (check_record E r (prior_of rs) R s)"
    using assms(2) by (simp add: pair_of_def verify_record_def prior_of_def)
  have "check_record E r (prior_of rs) R s \<noteq> None"
  proof (cases "rec_kind r = KVerdict")
    case True
    then show ?thesis using no_second_verdict [OF assms(1), of r] by (simp add: check_record_def)
  next
    case False
    then have "check_envelope E r R \<noteq> None"
      using assms(3) by (auto simp: check_envelope_def first_reason_None_iff)
    then show ?thesis using False by (auto simp: check_record_def first_reason_None_iff)
  qed
  then show ?thesis by (auto simp: vd verdict_of_def)
qed

lemma misaddressed_log_invalid:
  assumes "pair_of E R rs s r vd v" "rec_kind r = KVerdict \<or> rec_space r \<noteq> vr_space R"
  shows "\<not> replays E R (rs @ [r, v]) s'"
proof
  assume "replays E R (rs @ [r, v]) s'"
  then obtain qs where "rec_kind r \<noteq> KVerdict" "check_verdict_record E v (prior_of (qs @ [r])) R = None"
    by (cases rule: replays.cases) auto
  moreover have "rec_space v = rec_space r"
  proof -
    have "materialize_verdict E r (rec_time v) vd = Inr v" using assms(1) unfolding pair_of_def by blast
    then show ?thesis by (rule materialize_verdict_Inr(3))
  qed
  ultimately show False using assms(2) by (simp add: check_verdict_record_def)
qed

lemma invalid_log_not_opened:
  assumes hold: "holds E parse d rs" "length (log_bytes d) \<le> unat m" "ld_io d = []" "\<not> ld_locked d"
    and last: "rs \<noteq> []" "rec_kind (last rs) = KVerdict" and bad: "lv_result (verify_log E rs R None) \<noteq> Accept"
  shows "\<exists>reason d'. open_with_max_bytes E parse R m d = Inl (InvalidExistingLog reason, d')"
proof -
  let ?d1 = "d\<lparr>ld_locked := True\<rparr>"
  have lock: "try_lock d = (Inr (), ?d1)"
    using hold(3,4) by (simp add: try_lock_def and_then_def plain_call_def sys_call_def)
  obtain l where l: "file_log_open parse m ?d1 = Inr l" "fl_records l = rs"
  proof (rule file_log_open_holds [of E parse ?d1 rs m])
    fix d' assume "file_log_open parse m ?d1
        = Inr \<lparr>fl_dir = d', fl_records = rs, fl_index = build_index rs, fl_max_file_bytes = m\<rparr>"
    then show thesis by (rule that) simp
  qed (use hold in simp_all)
  have "complete_prefix rs = rs" using last by (simp add: complete_prefix_def)
  then have "open_checked E R l = (Inl (InvalidExistingLog (lv_reason (verify_log E rs R None))), l)"
    using bad by (simp add: open_checked_def and_then_def l(2) require_valid_log_def raise_def)
  then show ?thesis using lock l(1) by (simp add: open_with_max_bytes_def)
qed

lemma misaddressed_commit:
  assumes ok: "writer_ok E parse R w s" and time: "\<not> exhausted (lw_time_source w)"
    and mat: "materialize E w R s signer p = Inr (r, vd, v)" and bad: "misaddressed R p"
    and store: "storable E parse r" "storable E parse v" "rec_id v \<noteq> rec_id r"
    and room: "length (framed E (writer_records w @ [r, v])) \<le> unat (fl_max_file_bytes (lw_log w))"
    and calm: "ld_io (fl_dir (lw_log w)) = []"
  shows "\<exists>w' s'. commit_inner E R signer p (w, s) = (Inr (rec_id r, vd), w', s')
     \<and> writer_records w' = writer_records w @ [r, v] \<and> vd_result vd = Reject
     \<and> lv_result (verify_log E (writer_records w') R None) \<noteq> Accept
     \<and> (\<forall>k. \<exists>reason d'. open_with_max_bytes E parse R (fl_max_file_bytes (lw_log w)) (crash k [] (fl_dir (lw_log w')))
              = Inl (InvalidExistingLog reason, d'))"
proof -
  let ?rs = "writer_records w" and ?m = "fl_max_file_bytes (lw_log w)"
  note pair = materialize_pair [OF ok time mat]
  have wrong: "rec_kind r = KVerdict \<or> rec_space r \<noteq> vr_space R"
    using bad pair(2,3) by (auto simp: misaddressed_def)
  have rep: "replays E R ?rs s" and lok: "log_ok E parse (lw_log w) ?rs" and no: "\<not> lw_recovery_required w"
    using ok by (simp_all add: writer_ok_def)
  have rej: "vd_result vd = Reject" by (rule misaddressed_rejected [OF rep pair(1) wrong])
  then obtain s1 where s1: "apply_record E s r vd = Some s1" by (auto simp: apply_record_def)
  have st0: "stage E parse w s ?rs False (w, s)" using lok no by (simp add: stage_def kept_def)
  let ?Q = "committed E parse w s ?rs r vd v" and ?X = "\<lambda>e ws. False"
  have fit: "encodable E r" "encodable E v" using store storable_encodable by blast+
  have cap: "triple (\<lambda>x. x = (w, s)) (on_log (ensure_capacity_for E [r, v])) (\<lambda>_. stage E parse w s ?rs False) ?X"
    by (rule triple_weaken [OF capacity_stage [OF st0]]) (use fit room calm in \<open>auto simp: excused_def\<close>)
  have dur: "triple (stage E parse w s ?rs False) (commit_durably E r vd v) ?Q ?X"
    by (rule triple_weaken [OF commit_durably_triple [OF store(1,2) room store(3) s1 no]])
      (use calm in \<open>auto simp: interrupted_def\<close>)
  from triple_bind [OF cap dur] obtain w' s' where
    run: "and_then (on_log (ensure_capacity_for E [r, v])) (\<lambda>_. commit_durably E r vd v) (w, s) = (Inr (rec_id r, vd), w', s')"
    and lok': "log_ok E parse (lw_log w') (?rs @ [r, v])"
    by (fastforce simp: triple_def committed_def split: prod.splits sum.splits)
  then have commit: "commit_inner E R signer p (w, s) = (Inr (rec_id r, vd), w', s')"
    using writer_ok_guards [OF ok, of s] time mat by (simp add: commit_inner_def)
  have invalid: "lv_result (verify_log E (?rs @ [r, v]) R None) \<noteq> Accept"
    using misaddressed_log_invalid [OF pair(1) wrong] unfolding verify_log_genesis by blast
  have "materialize_verdict E r (rec_time v) vd = Inr v" using pair(1) unfolding pair_of_def by blast
  note vk = materialize_verdict_Inr(6) [OF this]
  have "\<exists>reason d'. open_with_max_bytes E parse R ?m (crash k [] (fl_dir (lw_log w'))) = Inl (InvalidExistingLog reason, d')" for k
  proof (rule invalid_log_not_opened [where rs = "?rs @ [r, v]"])
    have ex: "exact E parse (fl_dir (lw_log w')) (?rs @ [r, v])" using lok' by (simp add: log_ok_def)
    show "holds E parse (crash k [] (fl_dir (lw_log w'))) (?rs @ [r, v])"
      by (rule crash_holds [OF exact_holds [OF ex]])
    have "length (log_bytes (fl_dir (lw_log w'))) \<le> unat ?m" using ex room by (simp add: exact_def log_bytes_def)
    then show "length (log_bytes (crash k [] (fl_dir (lw_log w')))) \<le> unat ?m" using crash_shrinks order_trans by blast
  qed (use vk invalid in simp_all)
  moreover have "writer_records w' = ?rs @ [r, v]" using lok' by (simp add: log_ok_def writer_records_def)
  ultimately show ?thesis using commit rej invalid by auto
qed

section \<open>Batches that are sent again\<close>

fun sound_batch ::
  "'z env_scheme \<Rightarrow> (bytes \<Rightarrow> Record option) \<Rightarrow> VerifierRules \<Rightarrow> Proposal list \<Rightarrow> session \<Rightarrow> bool" where
  "sound_batch E parse R [] ws = True"
| "sound_batch E parse R (p # ps) (w, s) \<longleftrightarrow>
     sound_commit E parse R w s None p \<and> well_addressed R p
     \<and> (\<forall>x ws. commit E R p (w, s) = (Inr x, ws) \<longrightarrow> sound_batch E parse R ps ws)"

lemma commit_each_landed:
  assumes "writer_ok E parse R w s" "sound_batch E parse R ps (w, s)"
    "commit_each E R ps results (w, s) = (Inr res, w', s')"
  shows "writer_ok E parse R w' s' \<and> (\<exists>ext. writer_records w' = writer_records w @ ext)
     \<and> match_landed E (writer_records w') (length (writer_records w)) ps results
         = Inr (res, length (writer_records w'), [])"
  using assms
proof (induction ps arbitrary: w s results)
  case Nil
  then show ?case by (simp add: ok_def)
next
  case (Cons p ps)
  from Cons.prems(3) obtain x w1 s1 where one: "commit_inner E R None p (w, s) = (Inr x, w1, s1)"
    and more: "commit_each E R ps (results @ [x]) (w1, s1) = (Inr res, w', s')"
    by (auto simp: and_then_def commit_def split: prod.splits sum.splits)
  have sound: "sound_commit E parse R w s None p" "well_addressed R p" "sound_batch E parse R ps (w1, s1)"
    using Cons.prems(2) one by (auto simp: commit_def)
  from Cons.prems(1) sound(1,2) one show ?case
  proof (cases rule: commit_cases)
    case (landed r vd v)
    note pair = materialize_pair [OF Cons.prems(1) landed(1,2)]
    have match: "proposal_matches_record p r" using pair by (simp add: proposal_matches_record_def)
    have de: "de_verdict E (rec_data v) = Some vd"
      using sound(1) landed(2) by (simp add: sound_commit_def sound_pair_def)
    from Cons.IH [OF landed(5) sound(3) more] obtain ext where
      ih: "writer_ok E parse R w' s'" "writer_records w' = writer_records w @ r # v # ext"
        "match_landed E (writer_records w') (length (writer_records w) + 2) ps (results @ [x])
           = Inr (res, length (writer_records w'), [])"
      using landed(4) by auto
    moreover from this(2) have "writer_records w' ! length (writer_records w) = r"
      "writer_records w' ! Suc (length (writer_records w)) = v"
      "Suc (length (writer_records w)) < length (writer_records w')"
      by (simp_all add: nth_append)
    ultimately show ?thesis using match de landed(3) by simp
  qed simp_all
qed

lemma match_landed_append:
  "match_landed E rs pos qs results = Inr (res, length rs, []) \<Longrightarrow>
     match_landed E rs pos (qs @ rest) results = Inr (res, length rs, rest)"
proof (induction E rs pos qs results rule: match_landed.induct)
  case (1 E rs pos results)
  then show ?case by (cases rest) auto
qed (auto split: if_splits option.splits)

lemma batch_start_head:
  assumes "distinct (map rec_id rs)" "EMPTY_HEAD \<notin> rec_id ` set rs" "rs = writer_records w"
    "writer_records w' = rs @ ext"
  shows "batch_start (writer_records w') (head w) = Some (length rs)"
proof (cases rs rule: rev_cases)
  case (snoc qs r)
  have "rec_id q \<noteq> rec_id r" if "q \<in> set qs" for q using assms(1) that snoc by (auto simp: image_iff)
  then have "takeWhile (\<lambda>q. rec_id q \<noteq> rec_id r) (rs @ ext) = qs" "length rs = Suc (length qs)"
    by (simp_all add: snoc takeWhile_append2)
  moreover have "writer_records w = qs @ [r]" using assms(3) snoc by simp
  then have "head w = rec_id r" "rec_id r \<noteq> EMPTY_HEAD" using assms(2) snoc by (auto simp: head_def)
  ultimately show ?thesis using assms(4) by (simp add: batch_start_def Let_def)
qed (use assms in \<open>simp add: batch_start_def head_def\<close>)

lemma batch_resumes:
  assumes ok: "writer_ok E parse R w s" and ids: "distinct (map rec_id (writer_records w))"
      "EMPTY_HEAD \<notin> rec_id ` set (writer_records w)"
    and sound: "sound_batch E parse R qs (w, s)" and batch: "sort_batch E ps = qs @ rest"
    and run: "commit_each E R qs [] (w, s) = (Inr res, w1, s1)"
  shows "checked_batch_commit E R (head w) ps (w1, s1) =
    (if rest = [] then (Inr \<lparr>ba_head = head w1, ba_results = res, ba_replayed = length res\<rparr>, w1, s1)
     else and_then (commit_each E R rest res)
            (\<lambda>all (w', s'). (Inr \<lparr>ba_head = head w', ba_results = all, ba_replayed = length res\<rparr>, w', s'))
            (w1, s1))"
proof -
  from commit_each_landed [OF ok sound run] obtain ext where
    l: "writer_ok E parse R w1 s1" "writer_records w1 = writer_records w @ ext"
      "match_landed E (writer_records w1) (length (writer_records w)) qs [] = Inr (res, length (writer_records w1), [])"
    by blast
  note start = batch_start_head [OF ids refl l(2)] and match = match_landed_append [OF l(3), of rest]
  have "head w1 = (if writer_records w1 = [] then EMPTY_HEAD
      else rec_id (writer_records w1 ! (length (writer_records w1) - 1)))"
    by (simp add: head_def last_conv_nth)
  then show ?thesis
    using start match batch writer_ok_guards [OF l(1), of s1]
    by (cases rest) (auto simp: checked_batch_commit_def ok_def)
qed

section \<open>Opening\<close>

lemma try_lock_locked:
  assumes "ld_locked d"
  shows "\<exists>e d'. try_lock d = (Inl e, d') \<and> (e = AlreadyLocked \<or> e = Io \<and> ld_io d \<noteq> []) \<and> same_disk d d'"
  using assms
  by (cases "ld_io d"; cases "tl (ld_io d)"; cases "tl (tl (ld_io d))")
    (auto simp: try_lock_def and_then_def plain_call_def sys_call_def same_disk_def beside_log_def
      split: io_outcome.splits prod.splits)

lemma opened_is_verified:
  assumes "open_with_max_bytes E parse R m d = Inr w"
  shows "lv_result (verify_log E (writer_records w) R None) = Accept" "rules_hash E R = Some (lw_rules_hash w)"
    "\<not> lw_recovery_required w" "lw_time_source w = from_last_time (log_last_time (lw_log w))"
  using assms
  by (auto simp: open_with_max_bytes_def open_checked_def and_then_def writer_records_def require_valid_log_def Let_def
      raise_def ok_def lift_result_def or_error_def split: prod.splits sum.splits if_splits option.splits)

end
