(* ===== verification/Commit_Sample.thy ===== *)
theory Commit_Sample
  imports Commit_Safety Sample_Log "HOL-Library.Multiset"
begin

text \<open>
  An empty log directory, a handle on it and the first request of the sample ledger as a proposal:
  the environment in which the theorems on commits are applied at a concrete input.  What a record
  takes in the file is bounded by \<open>json_width\<close>.
\<close>

section \<open>How long canonical JSON gets\<close>

fun json_width :: "json \<Rightarrow> nat" where
  "json_width JNull = 4"
| "json_width (JBool b) = 5"
| "json_width (JNumber n) = 21"
| "json_width (JString s) = 6 * length s + 2"
| "json_width (JArray vs) = 2 + sum_list (map (\<lambda>v. json_width v + 1) vs)"
| "json_width (JObject ms) = 2 + sum_list (map (\<lambda>(k, v). json_width v + 6 * length k + 4) ms)"

lemma length_dec_digits: "0 \<le> n \<Longrightarrow> n < 10 ^ Suc k \<Longrightarrow> length (dec_digits n) \<le> Suc k"
proof (induction k arbitrary: n)
  case 0
  then show ?case by (subst dec_digits.simps) simp
next
  case (Suc k)
  have "length (dec_digits (n div 10)) \<le> Suc k" if "\<not> n < 10"
    using Suc.prems by (intro Suc.IH) auto
  then show ?case by (subst dec_digits.simps) simp
qed

lemma length_comma_sep: "length (comma_sep ss) \<le> sum_list (map (\<lambda>s. length s + 1) ss)"
  by (induction ss rule: comma_sep.induct) auto

lemma length_write_string: "length (write_string s) \<le> 6 * length s + 2"
proof -
  have "length (escape_char c) \<le> 6" for c by (simp add: escape_char_def)
  then have "length (concat (map escape_char s)) \<le> 6 * length s"
    by (induction s) (simp_all add: add_mono)
  then show ?thesis by (simp add: write_string_def)
qed

lemma sum_list_sort_members: "sum_list (map f (sort_members ms)) = sum_list (map (f :: _ \<Rightarrow> nat) ms)"
proof -
  have "sum_mset (image_mset f (mset (sort_members ms))) = sum_mset (image_mset f (mset ms))"
    by (simp only: sort_members_def mset_sort)
  then show ?thesis by (simp only: mset_map [symmetric] sum_mset_sum_list)
qed

lemma length_write_object:
  "length (write_object ms) \<le> 2 + sum_list (map (\<lambda>(k, s). length s + 6 * length k + 4) ms)"
proof -
  have "length (write_member m) + 1 \<le> (case m of (k, s) \<Rightarrow> length s + 6 * length k + 4)" for m
    using length_write_string [of "fst m"] by (cases m) (simp add: write_member_def)
  then have "sum_list (map (\<lambda>m. length (write_member m) + 1) (sort_members ms))
      \<le> sum_list (map (\<lambda>(k, s). length s + 6 * length k + 4) (sort_members ms))"
    by (rule sum_list_mono)
  then show ?thesis
    using length_comma_sep [of "map write_member (sort_members ms)"]
    by (simp add: write_object_def comp_def sum_list_sort_members)
qed

lemma length_write_number: "plain (JNumber n) \<Longrightarrow> write_number C n = Some s \<Longrightarrow> length s \<le> 21"
proof (cases n)
  case (PosInt u)
  moreover assume "write_number C n = Some s"
  ultimately show ?thesis
    using length_dec_digits [of "uint u" 19] by (auto simp: MAX_SAFE_INTEGER_def split: if_splits)
next
  case (NegInt i)
  moreover assume "plain (JNumber n)" "write_number C n = Some s"
  ultimately show ?thesis
    using length_dec_digits [of "- sint i" 19] by (auto simp: MAX_SAFE_INTEGER_def dec_int_def split: if_splits)
qed simp

lemma length_write:
  "plain v \<Longrightarrow> write_jcs C v = Some s \<Longrightarrow> length s \<le> json_width v"
  "list_all plain vs \<Longrightarrow> write_items C vs = Some ss \<Longrightarrow>
     sum_list (map (\<lambda>s. length s + 1) ss) \<le> sum_list (map (\<lambda>v. json_width v + 1) vs)"
  "list_all (plain \<circ> snd) ms \<Longrightarrow> write_members C ms = Some ns \<Longrightarrow>
     sum_list (map (\<lambda>(k, s). length s + 6 * length k + 4) ns)
       \<le> sum_list (map (\<lambda>(k, v). json_width v + 6 * length k + 4) ms)"
proof (induction C v and C vs and C ms arbitrary: s and ss and ns
    rule: write_jcs_write_items_write_members.induct)
  case (3 C n)
  then show ?case using length_write_number by simp
next
  case (4 C t)
  then show ?case using length_write_string [of t] by auto
next
  case (5 C vs)
  then obtain ss where "write_items C vs = Some ss" "s = CHR ''['' # comma_sep ss @ [CHR '']'']" by auto
  with 5 length_comma_sep [of ss] show ?case by (fastforce simp: list_all_iff)
next
  case (6 C ms)
  then obtain ns where "write_members C ms = Some ns" "s = write_object ns" by auto
  with 6 length_write_object [of ns] show ?case by (fastforce simp: list_all_iff)
next
  case (8 C v vs)
  then show ?case by (fastforce split: option.splits)
next
  case (10 C k v ms)
  then obtain s ns' where "write_jcs C v = Some s" "write_members C ms = Some ns'" "ns = (k, s) # ns'"
    by (auto split: option.splits)
  moreover from this 10 have "length s \<le> json_width v"
    "sum_list (map (\<lambda>(k, s). length s + 6 * length k + 4) ns') \<le> sum_list (map (\<lambda>(k, v). json_width v + 6 * length k + 4) ms)"
    by simp_all
  ultimately show ?case by simp
qed auto

lemma length_form: "plain v \<Longrightarrow> writable v \<Longrightarrow> length (form v) \<le> json_width v"
  using canonical_json_form [of v plain_crates] length_write(1) [of v plain_crates]
  by (auto simp: canonical_json_def as_bytes_def dest!: arg_cong [where f = length])

lemma json_width_bytes: "json_width (ser_bytes bs) = 2 + 22 * length bs"
  by (induction bs) (auto simp: ser_bytes_def ser_u64_def)


section \<open>Records of the sample in a file\<close>

lemma plain_record [simp]: "plain (record_json r)"
  by (cases "au_signature (rec_author r)")
    (auto simp: record_json_def envelope_members_def ser_vec_def ser_u64_def author_json_def signature_json_def)

lemma writable_record: "uint (rec_time r) \<le> MAX_SAFE_INTEGER \<Longrightarrow> writable (record_json r)"
  by (cases "au_signature (rec_author r)")
    (auto simp: record_json_def envelope_members_def ser_vec_def ser_u64_def author_json_def signature_json_def)

lemma s_encode:
  assumes "uint (rec_time r) \<le> MAX_SAFE_INTEGER" "json_width (record_json r) < 2 ^ 32"
  shows "encode_record C r = Inr (form (record_json r), of_nat (length (form (record_json r))))"
proof -
  have "length (form (record_json r)) < 2 ^ 32"
    using length_form [OF plain_record writable_record [OF assms(1)]] assms(2) by linarith
  then show ?thesis
    using canonical_json_form [OF plain_record writable_record [OF assms(1)], of C] by (simp add: encode_record_def)
qed

lemmas width_simps =
  record_json_def envelope_members_def s_record_defs s_space_def s_thread_def author_json_def signature_json_def
  ser_u64_def ser_vec_def ref_json_def json_width_bytes as_bytes_def schema_names

lemma s_widths:
  "json_width (record_json s_req) < 2 ^ 32" "json_width (record_json (s_verdict 2 2 1)) < 2 ^ 32"
proof -
  have "length (form (request_json s_request)) \<le> 2000"
    by (rule order_trans [OF length_form])
      (simp_all add: request_json_def s_request_def s_scope_def width_simps)
  moreover have "length (hex_encode s_key) \<le> 64" by (simp add: s_key_def hex_encode_def length_concat sum_list_replicate)
  ultimately show "json_width (record_json s_req) < 2 ^ 32"
    by (simp add: s_req_def width_simps s_key_def)
  have "length (form (verdict_json s_accept)) \<le> 2000"
    by (rule order_trans [OF length_form])
      (simp_all add: verdict_json_def s_accept_def width_simps)
  then show "json_width (record_json (s_verdict 2 2 1)) < 2 ^ 32"
    by (simp add: width_simps)
qed


definition c_parse :: "bytes \<Rightarrow> Record option" where
  "c_parse = parse_one record_json [s_req, s_verdict 2 2 1]"

definition small :: "Record \<Rightarrow> bool" where
  "small r \<longleftrightarrow> uint (rec_time r) \<le> MAX_SAFE_INTEGER \<and> json_width (record_json r) < 2 ^ 32"

lemma small_forms:
  assumes "small r"
  shows "canonical_json C (record_json r) = Some (form (record_json r))"
    "encode_record C r = Inr (form (record_json r), of_nat (length (form (record_json r))))"
  using assms canonical_json_form [OF plain_record writable_record, of r C] s_encode [of r C]
  by (simp_all add: small_def)

lemma record_forms_differ:
  assumes "small r" "small v" "rec_id r \<noteq> rec_id v"
  shows "form (record_json r) \<noteq> form (record_json v)"
proof
  assume eq: "form (record_json r) = form (record_json v)"
  have "norm (record_json r) = norm (record_json v)"
    by (rule canonical_json_inj [OF plain_record plain_record small_forms(1) [OF assms(1), of plain_crates]])
      (simp only: eq small_forms [OF assms(2)])
  from norm_object_fields [OF this [unfolded record_json_def], of "''id''"] show False
    using assms(3) by (simp add: envelope_members_def ser_bytes_inj del: norm.simps)
qed

lemma both_storable:
  assumes "small r" "small v" "rec_id r \<noteq> rec_id v"
  shows "storable C (parse_one record_json [r, v]) r" "storable C (parse_one record_json [r, v]) v"
  using record_forms_differ [OF assms]
  by (simp_all add: storable_def small_forms assms(1,2) parse_one_def)

lemma s_small: "small s_req" "small (s_verdict 2 2 1)"
  using s_widths by (simp_all add: small_def MAX_SAFE_INTEGER_def) (simp_all add: s_req_def s_record_defs)

lemma s_storable: "storable s_env c_parse s_req" "storable s_env c_parse (s_verdict 2 2 1)"
  unfolding c_parse_def by (rule both_storable [OF s_small], simp add: s_req_def)+

section \<open>A handle on an empty directory\<close>

definition c_dir :: LogDir where
  "c_dir = \<lparr>ld_log = Some [], ld_synced = 0, ld_intent = None, ld_intent_tmp = None, ld_locked = True, ld_io = []\<rparr>"

definition c_writer :: LogWriter where
  "c_writer =
     \<lparr>lw_log = \<lparr>fl_dir = c_dir, fl_records = [], fl_index = build_index [], fl_max_file_bytes = - 1\<rparr>,
      lw_time_source = from_last_time None, lw_rules_hash = the (rules_hash s_env s_rules),
      lw_recovery_required = False\<rparr>"

definition c_proposal :: Proposal where
  "c_proposal = \<lparr>pro_space = s_space, pro_thread = s_thread, pro_author = s_signed, pro_kind = KRequest,
     pro_schema = as_bytes SCHEMA_REQUEST, pro_data = form (request_json s_request), pro_refs = []\<rparr>"

lemma c_writer_ok: "writer_ok s_env c_parse s_rules c_writer default_state"
proof -
  obtain h where "rules_hash s_env s_rules = Some h"
    using canonical_json_total [OF s_rules_writable, of s_env] by (auto simp: rules_hash_def sha256_canonical_def)
  then show ?thesis
    using replays_Nil [of s_env s_rules]
    by (simp add: writer_ok_def c_writer_def c_dir_def log_ok_def exact_def writer_records_def log_shape_def
        log_last_time_def)
qed

lemma c_fresh: "fresh_id s_env [] s_req"
  by (simp add: fresh_id_def names_id_def payload_ids_def s_req_def s_record_defs)

lemma c_unsigned:
  assumes "cr_sha256 E = sample_sha log" "lw_time_source w = from_last_time None"
  shows "unsigned_record E w default_state c_proposal = s_req\<lparr>rec_id := zero_id\<rparr>"
    "peek (lw_time_source w) = 1" "u64_checked_add 1 1 = Some 2"
proof -
  show time: "peek (lw_time_source w) = 1" "u64_checked_add 1 1 = Some 2"
    using assms(2) by (simp_all add: from_last_time_def peek_def u64_saturating_add_def u64_checked_add_def)
  have ev: "proposal_evidence E w default_state c_proposal = Reported"
    using sample_base_evidence [OF assms(1), of SCHEMA_REQUEST KRequest]
    by (simp add: proposal_evidence_def c_proposal_def derive_evidence_Max s_schema_kinds_def)
  show "unsigned_record E w default_state c_proposal = s_req\<lparr>rec_id := zero_id\<rparr>"
    by (simp only: unsigned_record_def ev time) (simp add: c_proposal_def s_req_def s_record_defs sort_and_dedup_refs_def)
qed

lemma verdict_materialized:
  assumes "cr_sha256 E = sample_sha log" "compute_id E v = Some (rec_id v)" "plain (verdict_json d)" "writable (verdict_json d)"
    "v = s_record i 2 (s_author ''verifier'' AVerifier) KVerdict SCHEMA_VERDICT (verdict_json d)
       [\<lparr>ref_type = RCause, ref_target = [1]\<rparr>] Deterministic"
  shows "materialize_verdict E s_req 2 d = Inr v"
proof -
  have "schema_id E SCHEMA_VERDICT = as_bytes SCHEMA_VERDICT"
    by (rule sample_schema_id [OF assms(1)]) (simp add: ALL_SCHEMAS_def)
  then have "materialize_verdict E s_req 2 d = or_error SerdeJson (with_computed_id E (v\<lparr>rec_id := zero_id\<rparr>))"
    using assms(3,4) by (simp add: materialize_verdict_def canonical_json_form assms(5)) (simp add: s_req_def s_record_defs)
  then show ?thesis using assms(2) by (simp add: with_computed_id_def or_error_def)
qed

lemma c_materialize:
  "materialize s_env c_writer s_rules default_state None c_proposal = Inr (s_req, s_accept, s_verdict 2 2 1)"
proof -
  have sha: "cr_sha256 s_env = sample_sha s_world" by (simp add: s_env_def)
  have src: "lw_time_source c_writer = from_last_time None" by (simp add: c_writer_def)
  have ids: "compute_id s_env r = Some (rec_id r)" if "r \<in> {s_req, s_verdict 2 2 1}" for r
    using that by (intro s_compute_id) (auto simp: s_world_def s_log_def)
  have id: "with_computed_id s_env (s_req\<lparr>rec_id := zero_id\<rparr>) = Some s_req"
    using ids [of s_req] by (simp add: with_computed_id_def)
  have "rec_kind s_req \<noteq> KVerdict" by (simp add: s_req_def)
  from check_record_fresh [OF replays_Nil c_fresh this, of s_rules] s_checked1
  have "verify_record s_env s_req [] s_rules default_state = s_accept"
    by (simp add: verify_record_def prior_of_def verdict_of_def s_accept_def)
  moreover have "materialize_verdict s_env s_req 2 s_accept = Inr (s_verdict 2 2 1)"
    by (rule verdict_materialized [OF sha ids _ _ s_verdict_def]) simp_all
  ultimately show ?thesis
    by (simp add: materialize_def c_unsigned [OF sha src] sign_record_def id)
      (simp add: c_writer_def writer_records_def)
qed

lemma c_sound_pair: "sound_pair s_env c_parse [] s_req s_accept (s_verdict 2 2 1)"
  using c_fresh s_storable by (simp add: sound_pair_def) (simp add: s_req_def s_record_defs)

lemma c_sound: "sound_commit s_env c_parse s_rules c_writer default_state None c_proposal"
proof -
  have "schema_hashes_distinct s_env"
    unfolding schema_hashes_distinct_def by (rule inj_onI) (simp add: s_schema_id)
  then show ?thesis
    using c_sound_pair
    by (simp add: sound_commit_def c_materialize frozen_rules_def) (simp add: c_writer_def writer_records_def)
qed

lemma c_addressed: "well_addressed s_rules c_proposal"
  by (simp add: well_addressed_def c_proposal_def)

lemma frame_short: "length (frame C r) \<le> 2 ^ 32 + 4"
  using encode_record_len [of C r] by (auto simp: frame_def split: sum.split)

lemma two_frames_fit: "length (framed C [r, v]) \<le> unat (- 1 :: u64)"
proof -
  have "unat (- 1 :: u64) = 2 ^ 64 - 1" by (simp add: unsigned_minus_1_eq_mask mask_eq_exp_minus_1)
  then show ?thesis using frame_short [of C r] frame_short [of C v] by simp
qed

lemma c_room: "length (framed s_env (writer_records c_writer @ [s_req, s_verdict 2 2 1]))
    \<le> unat (fl_max_file_bytes (lw_log c_writer))"
  using two_frames_fit [of s_env s_req "s_verdict 2 2 1"] by (simp add: c_writer_def writer_records_def)

lemma c_calm: "\<not> exhausted (lw_time_source c_writer)" "ld_io (fl_dir (lw_log c_writer)) = []"
  by (simp_all add: c_writer_def c_dir_def exhausted_def from_last_time_def u64_saturating_add_def word_le_nat_alt)

lemma c_run:
  obtains w s where "commit_inner s_env s_rules None c_proposal (c_writer, default_state) = (Inr ([1], s_accept), w, s)"
  using commit_returns [OF c_writer_ok c_sound c_addressed c_calm(1) c_materialize c_room c_calm(2)]
  by (auto simp: s_req_def)


section \<open>The same proposal under the rules of another space\<close>

definition b_reject :: VerdictData where
  "b_reject = \<lparr>vd_result = Reject, vd_reason = Some InvalidPayload\<rparr>"

definition b_verdict :: Record where
  "b_verdict = s_record 2 2 (s_author ''verifier'' AVerifier) KVerdict SCHEMA_VERDICT (verdict_json b_reject)
       [\<lparr>ref_type = RCause, ref_target = [1]\<rparr>] Deterministic"

definition b_env :: env where
  "b_env = s_env\<lparr>cr_sha256 := sample_sha [s_req, b_verdict]\<rparr>"

definition b_rules :: VerifierRules where
  "b_rules = s_rules\<lparr>vr_space := [201]\<rparr>"

definition b_parse :: "bytes \<Rightarrow> Record option" where
  "b_parse = parse_one record_json [s_req, b_verdict]"

definition b_writer :: LogWriter where
  "b_writer = c_writer\<lparr>lw_rules_hash := the (rules_hash b_env b_rules)\<rparr>"

lemma b_reject_forms: "plain (verdict_json b_reject)" "writable (verdict_json b_reject)"
  by (simp_all add: verdict_json_def b_reject_def)

lemma b_small: "small b_verdict"
proof -
  have "length (form (verdict_json b_reject)) \<le> 2000"
    by (rule order_trans [OF length_form [OF b_reject_forms]])
      (simp add: verdict_json_def b_reject_def width_simps)
  then show ?thesis by (simp add: small_def b_verdict_def width_simps MAX_SAFE_INTEGER_def)
qed

lemma b_storable: "storable b_env b_parse s_req" "storable b_env b_parse b_verdict"
  unfolding b_parse_def by (rule both_storable [OF s_small(1) b_small], simp add: s_req_def b_verdict_def s_record_defs)+

lemma b_compute_id: "r \<in> {s_req, b_verdict} \<Longrightarrow> compute_id b_env r = Some (rec_id r)"
  by (rule sample_compute_id [of _ "[s_req, b_verdict]"])
    (use s_small(1) b_small in \<open>auto simp: b_env_def small_def place_def s_req_def b_verdict_def s_record_defs\<close>)

lemma b_writer_ok: "writer_ok b_env b_parse b_rules b_writer default_state"
proof -
  have "writable (rules_json b_rules)"
    using s_rules_writable by (simp add: rules_json_def b_rules_def)
  then obtain h where "rules_hash b_env b_rules = Some h"
    using canonical_json_total [of "rules_json b_rules" b_env] by (auto simp: rules_hash_def sha256_canonical_def)
  then show ?thesis
    using replays_Nil [of b_env b_rules]
    by (simp add: writer_ok_def b_writer_def c_writer_def c_dir_def log_ok_def exact_def writer_records_def log_shape_def
        log_last_time_def)
qed

lemma b_materialize:
  "materialize b_env b_writer b_rules default_state None c_proposal = Inr (s_req, b_reject, b_verdict)"
proof -
  have sha: "cr_sha256 b_env = sample_sha [s_req, b_verdict]" by (simp add: b_env_def)
  have src: "lw_time_source b_writer = from_last_time None" by (simp add: b_writer_def c_writer_def)
  have id: "with_computed_id b_env (s_req\<lparr>rec_id := zero_id\<rparr>) = Some s_req"
    using b_compute_id [of s_req] by (simp add: with_computed_id_def)
  have "check_envelope b_env s_req b_rules = Some InvalidPayload"
    using b_compute_id [of s_req]
    by (simp add: check_envelope_def b_rules_def first_reason.simps) (simp add: s_req_def s_record_defs s_space_def s_thread_def first_reason.simps)
  then have "verify_record b_env s_req [] b_rules default_state = b_reject"
    by (simp add: verify_record_def check_record_def verdict_of_def b_reject_def first_reason.simps) (simp add: s_req_def)
  moreover have "materialize_verdict b_env s_req 2 b_reject = Inr b_verdict"
    by (rule verdict_materialized [OF sha b_compute_id b_reject_forms b_verdict_def]) simp
  ultimately show ?thesis
    by (simp add: materialize_def c_unsigned [OF sha src] sign_record_def id)
      (simp add: b_writer_def c_writer_def writer_records_def)
qed


lemma b_room: "length (framed b_env (writer_records b_writer @ [s_req, b_verdict]))
    \<le> unat (fl_max_file_bytes (lw_log b_writer))"
  using two_frames_fit [of b_env s_req b_verdict] by (simp add: b_writer_def c_writer_def writer_records_def)

section \<open>A disk that fails\<close>

definition f_writer :: LogWriter where
  "f_writer = c_writer\<lparr>lw_log := (lw_log c_writer)\<lparr>fl_dir := c_dir\<lparr>ld_io := [IoErr 0]\<rparr>\<rparr>\<rparr>"

lemma f_writer_ok: "writer_ok s_env c_parse s_rules f_writer default_state"
  using c_writer_ok
  by (simp add: writer_ok_def f_writer_def log_ok_def writer_records_def log_last_time_def) (simp add: c_writer_def)

lemma f_materialize:
  "materialize s_env f_writer s_rules default_state None c_proposal = Inr (s_req, s_accept, s_verdict 2 2 1)"
proof -
  have same: "log_get (lw_log f_writer) = log_get (lw_log c_writer)" "writer_records f_writer = writer_records c_writer"
    "lw_time_source f_writer = lw_time_source c_writer"
    by (simp_all add: fun_eq_iff log_get_def f_writer_def writer_records_def)
  have "materialize s_env f_writer s_rules default_state None c_proposal
      = materialize s_env c_writer s_rules default_state None c_proposal"
    unfolding materialize_def unsigned_record_def proposal_evidence_def same by (rule refl)
  then show ?thesis by (simp add: c_materialize)
qed

lemma f_sound: "sound_commit s_env c_parse s_rules f_writer default_state None c_proposal"
  using c_sound by (simp add: sound_commit_def f_materialize c_materialize) (simp add: f_writer_def writer_records_def)

lemma f_run:
  obtains w s where "commit_inner s_env s_rules None c_proposal (f_writer, default_state) = (Inl Io, w, s)"
proof -
  have "\<not> exhausted (lw_time_source f_writer)" using c_calm(1) by (simp add: f_writer_def)
  then have "\<exists>w s. commit_inner s_env s_rules None c_proposal (f_writer, default_state) = (Inl Io, w, s)"
    using writer_ok_guards [OF f_writer_ok, of default_state]
    by (simp add: commit_inner_def f_materialize)
      (simp add: f_writer_def c_dir_def ensure_capacity_for_def and_then_def on_log_def on_part_def on_dir_def
        metadata_len_def look_def plain_call_def sys_call_def)
  then show thesis using that by blast
qed

end
