(* ===== verification/Receipt_Sample.thy ===== *)
theory Receipt_Sample
  imports Delivery_Laws Queries_Sample Commit_Sample
begin

text \<open>
  A receipt of the sample ledger of candidates that declares the baseline and the signed tier.
\<close>

definition g_profiles :: "string list" where
  "g_profiles = [BELLBOOK_CORE_V1, BELLBOOK_CORE_SIGNED_V1]"

definition g_receipt :: Receipt where
  "g_receipt = receipt_new g_log s_rules\<lparr>rcp_profiles := map (\<lambda>i. the (profile_ref s_env i)) g_profiles\<rparr>"

definition g_bytes :: bytes where
  "g_bytes = the (to_bytes s_env g_receipt)"

definition g_parse :: "bytes \<Rightarrow> Receipt option" where
  "g_parse bytes = (if bytes = g_bytes then Some g_receipt else None)"

definition g_limits :: ValidationLimits where
  "g_limits = unlimited\<lparr>vl_max_bytes := length g_bytes, vl_max_payload_bytes := length (rec_data g_c1)
     + length (rec_data g_c2) + length (rec_data (s_verdict 52 2 51))\<rparr>"

lemma g_receipt_sel [simp]:
  "rcp_records g_receipt = g_log" "rcp_rules g_receipt = s_rules" "rcp_spec_version g_receipt = SPEC_VERSION"
  by (simp_all add: g_receipt_def receipt_new_def)

lemma g_declared: "with_declared_profiles s_env (receipt_new g_log s_rules) g_profiles = Inr g_receipt"
  by (simp add: g_profiles_def g_receipt_def receipt_new_def profile_ref_def profile_table_def core_v1_table_def
    signed_v1_table_def profile_ids)

lemma g_writable: "writable (receipt_json g_receipt)"
proof -
  have times: "uint (rec_time r) \<le> MAX_SAFE_INTEGER" if "r \<in> set g_log" for r
    using that by (auto simp: g_log_def MAX_SAFE_INTEGER_def) (simp_all add: s_subject_defs s_record_defs)
  have "pr_version (the (profile_ref s_env i)) = 1" if "i \<in> set g_profiles" for i
    using that by (auto simp: g_profiles_def profile_ref_def profile_table_def core_v1_table_def signed_v1_table_def profile_ids)
  then have "writable (profile_ref_json (the (profile_ref s_env i)))" if "i \<in> set g_profiles" for i
    using that by (simp add: profile_ref_json_def ser_u32_def ser_u64_def MAX_SAFE_INTEGER_def)
  then have "writable (ser_vec profile_ref_json (rcp_profiles g_receipt))"
    by (auto simp: ser_vec_def g_receipt_def receipt_new_def)
  moreover have "writable (ser_vec record_json g_log)" using times writable_record by (auto simp: ser_vec_def)
  ultimately show ?thesis using s_rules_writable by (simp add: receipt_json_def)
qed

lemma g_bytes: "to_bytes s_env g_receipt = Some g_bytes"
  using writable_write [OF g_writable, of s_env] by (auto simp: g_bytes_def to_bytes_def canonical_json_def)

lemma g_within: "length g_log \<le> vl_max_records g_limits"
  "\<forall>r \<in> set g_log. length (rec_data r) \<le> vl_max_payload_bytes g_limits \<and> length (rec_refs r) \<le> vl_max_refs_per_record g_limits"
proof -
  show "length g_log \<le> vl_max_records g_limits" by (simp add: g_log_def g_limits_def unlimited_def)
  have "rec_data (s_verdict 54 4 53) = rec_data (s_verdict 52 2 51)" by (simp add: s_verdict_def s_record_def)
  then have "rec_data r \<in> {rec_data g_c1, rec_data g_c2, rec_data (s_verdict 52 2 51)}" if "r \<in> set g_log" for r
    using that unfolding g_log_def by (simp only: list.set insert_iff empty_iff simp_thms) (elim disjE, simp_all only: simp_thms)
  then have "length (rec_data r) \<le> vl_max_payload_bytes g_limits" if "r \<in> set g_log" for r
    using that by (force simp: g_limits_def)
  moreover have "length (rec_refs r) \<le> 1" if "r \<in> set g_log" for r
    using that by (auto simp: g_log_def) (simp_all add: s_subject_defs s_record_defs)
  then have "length (rec_refs r) \<le> vl_max_refs_per_record g_limits" if "r \<in> set g_log" for r
    using that le_trans [of "length (rec_refs r)" 1 "2 ^ 64 - 1"] by (simp add: g_limits_def unlimited_def)
  ultimately show "\<forall>r \<in> set g_log. length (rec_data r) \<le> vl_max_payload_bytes g_limits
      \<and> length (rec_refs r) \<le> vl_max_refs_per_record g_limits"
    by blast
qed

lemma g_schema_keys: "Mapping.keys (vr_kind_schema_map s_rules) \<subseteq> schema_id s_env ` set ALL_SCHEMAS"
  by (simp add: frozen_kind_schema_map_def) (simp add: ALL_SCHEMAS_def)

lemma g_epoch_rules: "epoch_rules s_env g_receipt s_rules"
proof -
  have "schemas_for_epoch (rcp_spec_version g_receipt) = Some ALL_SCHEMAS"
    by (simp add: g_receipt_def receipt_new_def schemas_for_epoch_def SPEC_VERSION_def)
  moreover have "rcp_rules g_receipt = s_rules" by (simp add: g_receipt_def receipt_new_def)
  ultimately show ?thesis
    using rules_of_epoch [of g_receipt ALL_SCHEMAS s_env] rules_for_current_epoch [OF g_schema_keys] by simp
qed

lemma g_accepted_log: "lv_result (verify_log s_env g_log s_rules None) = Accept"
  using verify_log_genesis g_log_shape g_replays by blast

lemma g_validates:
  obtains h where "replayable s_env g_receipt g_limits s_rules h"
    "validate_with_limits s_env g_parse g_bytes g_limits = replay_report s_env g_receipt s_rules h"
proof -
  obtain h where h: "replayable s_env g_receipt g_limits s_rules h"
    using exported_replayable [OF g_schema_keys g_declared _ g_within] g_bytes by auto
  from validate_receipt_replays [OF this] show thesis
    by (intro that [OF h]) (simp add: validate_with_limits_def g_parse_def g_limits_def)
qed

lemma g_no_problem: "rep_problem (validate_with_profiles s_env g_parse g_bytes g_limits ps) = None"
  by (rule g_validates)
    (simp add: validate_with_profiles_def g_parse_def replay_report_no_problem Let_def)

lemma core_rules_conformant:
  assumes "rcp_rules rc = s_rules" "rep_status rep \<noteq> Invalid"
  shows "prs_status (evaluate_core_v1 E rc rep) = Conformant"
proof -
  have "Mapping.keys (vr_author_roles s_rules) \<noteq> {}" by (simp add: s_rules_def with_author_role_def)
  moreover have "vr_max_context_records s_rules = 16" by (simp add: s_rules_def with_author_role_def new_rules_def)
  ultimately show ?thesis
    using assms by (simp add: evaluate_core_v1_def finish_def core_thresholds_def threshold_ok_def word_le_nat_alt Let_def)
qed

lemma g_signed_status:
  assumes "rep_status rep \<noteq> Invalid"
  shows "prs_status (evaluate_signed_v1 s_env g_receipt rep) = Conformant"
proof -
  have build: "build_state_unchecked s_env g_log = Some g_state2" by (rule replays_build_state [OF g_replays])
  have "clr_passed (core_clause s_env ''S0'' g_receipt rep)"
  proof -
    obtain decl where decl: "profile_ref s_env BELLBOOK_CORE_V1 = Some decl"
      using profile_ref_known [of BELLBOOK_CORE_V1] by (auto simp: known_profiles_def)
    then have "List.find (\<lambda>p. pr_id p = BELLBOOK_CORE_V1) (rcp_profiles g_receipt) = Some decl" "pr_id decl = BELLBOOK_CORE_V1"
      using profile_ref_id [OF decl] by (simp_all add: g_receipt_def receipt_new_def g_profiles_def)
    with decl core.declared [of decl s_env g_receipt rep] core_rules_conformant [of g_receipt rep s_env] assms show ?thesis
      by (simp add: core_clause_def core_result_def met_def Let_def)
  qed
  moreover have "clr_passed (signatures_clause s_rules)"
    by (simp add: signatures_clause_def SIGNED_KINDS_def s_signed_kinds_def)
  moreover have "has_key (vr_author_keys s_rules) (au_id (rec_author r))" if "r \<in> set g_log" "rec_kind r \<noteq> KVerdict" for r
    using that by (auto simp: g_log_def has_key_def) (simp_all add: s_subject_defs s_record_defs)
  then have "clr_passed (pinned_clause g_log (st_accepted_records g_state2) s_rules)"
    by (auto simp: pinned_clause_def evolution_records_def filter_empty_conv SIGNED_KINDS_def Let_def)
  moreover have "rec_kind r \<noteq> KSelection" if "r \<in> set g_log" for r
    using that by (auto simp: g_log_def) (simp_all add: s_subject_defs s_record_defs)
  then have "filter (is_selected s_env g_log (st_accepted_records g_state2)) g_log = []"
    by (auto simp: filter_empty_conv is_selected_def)
  then have "clr_passed (attested_clause s_env g_log (st_accepted_records g_state2))"
    by (simp add: attested_clause_def Let_def)
  ultimately show ?thesis using assms build by (simp add: evaluate_signed_v1_def finish_def)
qed

lemma g_signed:
  "\<exists>p \<in> set (rep_profiles (validate_with_profiles s_env g_parse g_bytes g_limits [])).
     prs_id p = BELLBOOK_CORE_SIGNED_V1 \<and> prs_status p = Conformant"
proof -
  obtain h where h: "validate_with_limits s_env g_parse g_bytes g_limits = replay_report s_env g_receipt s_rules h"
    by (rule g_validates)
  let ?rep = "replay_report s_env g_receipt s_rules h"
  obtain decl where "profile_ref s_env BELLBOOK_CORE_SIGNED_V1 = Some decl"
    using profile_ref_known [of BELLBOOK_CORE_SIGNED_V1] by (auto simp: known_profiles_def)
  then have decl: "decl \<in> set (rcp_profiles g_receipt)" "pr_id decl = BELLBOOK_CORE_SIGNED_V1"
    using profile_ref_id [of s_env] by (simp_all add: g_receipt_def receipt_new_def g_profiles_def)
  have "rep_status ?rep \<noteq> Invalid"
    using report_fields(1) [where E = s_env and rc = g_receipt and R = s_rules and h = h and x = "rep_profiles ?rep"] g_log_shape g_replays by auto
  then have "prs_status (evaluate_declared s_env decl g_receipt ?rep) = Conformant"
    using g_signed_status by (simp add: evaluate_declared_def decl(2) evaluate_profile_def profile_ids)
  moreover have "evaluate_declared s_env decl g_receipt ?rep \<in> set (rep_profiles ?rep)"
    unfolding replay_report_profiles [of s_env g_receipt s_rules h] using decl(1) by (simp add: evaluate_profiles_def)
  moreover have "prs_id (evaluate_declared s_env decl g_receipt ?rep) = BELLBOOK_CORE_SIGNED_V1"
    by (simp add: evaluate_declared_def decl(2))
  ultimately show ?thesis by (auto simp: validate_with_profiles_def h)
qed

end
