(* ===== verification/Delivery_Sample.thy ===== *)
theory Delivery_Sample
  imports Receipt_Sample
begin

text \<open>
  A receipt with one delivery claim: a required requirement of a request, a candidate, a passed
  evaluation of it by another author, and the selection that rests on the evaluation.
\<close>

definition d_artifact :: ArtifactRef where
  "d_artifact = \<lparr>ar_scheme = ''file'', ar_digest = ''00'', ar_name = None\<rparr>"

definition d_evaluation :: EvaluationDataV2 where
  "d_evaluation =
     \<lparr>ev2_candidate = [63], ev2_criterion = ''tests'', ev2_procedure = None, ev2_outcome = Ev2Passed,
      ev2_evaluator = \<lparr>db_id = ''ci'', db_version = None, db_procedure_hash = Some [1], db_input_hash = Some [2]\<rparr>,
      ev2_basis = Recomputed, ev2_evidence = [d_artifact], ev2_requirements = [[61]]\<rparr>"

definition d_requirement :: RequirementData where
  "d_requirement = \<lparr>rqm_key = ''k'', rqm_description = ''d'', rqm_required = True,
      rqm_expected_evidence = None, rqm_provenance = UserAuthored\<rparr>"

definition d_selection :: SelectionData where
  "d_selection = \<lparr>sel_objective = ''ship'', sel_considered = [[63]], sel_outcome = Selected [[63]], sel_rationale = None\<rparr>"

definition d_env :: env where
  "d_env = s_env
     \<lparr>de_verdict := (\<lambda>_. Some s_accept),
      de_requirement := (\<lambda>_. Some d_requirement),
      de_candidate := (\<lambda>_. Some (g_candidate Root\<lparr>cnd_artifacts := Some [d_artifact]\<rparr>)),
      de_evaluation_v2_raw := (\<lambda>_. Some d_evaluation),
      de_selection_raw := (\<lambda>_. Some d_selection)\<rparr>"

definition d_record :: "u8 \<Rightarrow> string \<Rightarrow> Kind \<Rightarrow> Ref list \<Rightarrow> Record" where
  "d_record i a k refs =
     \<lparr>rec_id = [i], rec_space = s_space, rec_thread = s_thread, rec_time = ucast i, rec_author = s_author a AUser,
      rec_kind = k, rec_schema = [], rec_data = [], rec_refs = refs, rec_evidence = Reported\<rparr>"

definition d_subjects :: "Record list" where
  "d_subjects =
     [d_record 61 ''u'' KRequirement [\<lparr>ref_type = RCause, ref_target = [60]\<rparr>],
      d_record 63 ''p'' KCandidate [],
      d_record 65 ''e'' KEvaluation [],
      d_record 67 ''u'' KSelection [\<lparr>ref_type = RUse, ref_target = [65]\<rparr>]]"

definition d_log :: "Record list" where
  "d_log = d_subjects @ map (\<lambda>r. d_record (hd (rec_id r) + 1) ''verifier'' KVerdict [\<lparr>ref_type = RCause, ref_target = rec_id r\<rparr>]) d_subjects"

definition d_receipt :: Receipt where
  "d_receipt = receipt_new d_log s_rules"

definition d_report :: Report where
  "d_report = structural_failure Unparseable []\<lparr>rep_status := Clean, rep_problem := None\<rparr>"

lemma apply_all_accepts:
  assumes "\<forall>r \<in> set rs. rec_kind r = KVerdict
     \<or> Mapping.lookup vm (rec_id r) = Some s_accept \<and> (\<forall>s. apply_kind E r s \<noteq> None)"
  shows "\<exists>s'. apply_all E vm rs s = Some s'
     \<and> st_accepted_records s' = st_accepted_records s \<union> set (map rec_id (filter (\<lambda>r. rec_kind r \<noteq> KVerdict) rs))"
  using assms
proof (induction rs arbitrary: s)
  case (Cons r rs)
  show ?case
  proof (cases "rec_kind r = KVerdict")
    case True
    with Cons.IH [of s] Cons.prems show ?thesis by auto
  next
    case False
    with Cons.prems obtain s1 where s1: "apply_accepted E s r = Some s1" "Mapping.lookup vm (rec_id r) = Some s_accept"
      by (simp add: apply_accepted_def) metis
    from Cons.IH [of s1] Cons.prems obtain s' where "apply_all E vm rs s1 = Some s'"
      "st_accepted_records s' = st_accepted_records s1 \<union> set (map rec_id (filter (\<lambda>r. rec_kind r \<noteq> KVerdict) rs))" by auto
    with False s1 apply_accepted_records [OF s1(1)] show ?thesis
      by (auto simp: apply_record_def s_accept_def)
  qed
qed simp

lemma d_log_eq:
  "d_log =
     [d_record 61 ''u'' KRequirement [\<lparr>ref_type = RCause, ref_target = [60]\<rparr>],
      d_record 63 ''p'' KCandidate [], d_record 65 ''e'' KEvaluation [],
      d_record 67 ''u'' KSelection [\<lparr>ref_type = RUse, ref_target = [65]\<rparr>],
      d_record 62 ''verifier'' KVerdict [\<lparr>ref_type = RCause, ref_target = [61]\<rparr>],
      d_record 64 ''verifier'' KVerdict [\<lparr>ref_type = RCause, ref_target = [63]\<rparr>],
      d_record 66 ''verifier'' KVerdict [\<lparr>ref_type = RCause, ref_target = [65]\<rparr>],
      d_record 68 ''verifier'' KVerdict [\<lparr>ref_type = RCause, ref_target = [67]\<rparr>]]"
  by (simp add: d_log_def d_subjects_def d_record_def)

lemma d_record_sel [simp]:
  "rec_id (d_record i a k refs) = [i]" "rec_kind (d_record i a k refs) = k" "rec_refs (d_record i a k refs) = refs"
  "rec_author (d_record i a k refs) = s_author a AUser" "rec_thread (d_record i a k refs) = s_thread"
  by (simp_all add: d_record_def)

lemma d_decodes [simp]:
  "de_verdict d_env b = Some s_accept" "decode_evaluation_v2 d_env b = Some d_evaluation"
  "de_requirement d_env b = Some d_requirement" "decode_selection d_env b = Some d_selection"
  "de_candidate d_env b = Some (g_candidate Root\<lparr>cnd_artifacts := Some [d_artifact]\<rparr>)"
  by (simp_all add: d_env_def decode_evaluation_v2_def decode_selection_def evaluation_v2_try_from_def
    selection_try_from_def d_evaluation_def d_selection_def)

lemma d_ids: "distinct (map rec_id d_log)"
  by (simp add: d_log_eq)

lemma d_build: "\<exists>s. build_state_unchecked d_env d_log = Some s \<and> st_accepted_records s = {[61], [63], [65], [67]}"
proof -
  obtain vm where vm: "build_verdict_map d_env d_log Mapping.empty = Some vm"
    "\<forall>i \<in> {[61], [63], [65], [67]}. Mapping.lookup vm i = Some s_accept"
    by (simp add: d_log_eq find_cause_ref_def)
  have "selection_approval_subject_hash d_env a t d_selection \<noteq> None" for a t
  proof -
    have "canonical_json d_env (selection_json d_selection) \<noteq> None"
      using writable_write [of "selection_json d_selection" d_env]
      by (simp add: selection_json_def d_selection_def ser_vec_def canonical_json_def)
    then show ?thesis by (simp add: selection_approval_subject_hash_def hash_array)
  qed
  then have "apply_kind d_env r s \<noteq> None" if "r \<in> set d_log" "rec_kind r \<noteq> KVerdict" for r s
    using that by (auto simp: d_log_eq apply_kind_def apply_requirement_def apply_selection_def split: option.splits)
  then have "\<exists>s'. apply_all d_env vm d_log default_state = Some s' \<and> st_accepted_records s'
      = st_accepted_records default_state \<union> set (map rec_id (filter (\<lambda>r. rec_kind r \<noteq> KVerdict) d_log))"
    using vm(2) by (intro apply_all_accepts) (auto simp: d_log_eq)
  moreover have "set (map rec_id (filter (\<lambda>r. rec_kind r \<noteq> KVerdict) d_log)) = {[61], [63], [65], [67]}"
    by (simp add: d_log_eq)
  ultimately obtain s' where "apply_all d_env vm d_log default_state = Some s'" "st_accepted_records s' = {[61], [63], [65], [67]}"
    by (auto simp: default_state_def)
  moreover have "d_log \<noteq> []" by (simp add: d_log_eq)
  ultimately show ?thesis using vm(1) by (auto simp: build_state_unchecked_def)
qed

definition d_claim :: Claim where
  "d_claim =
     \<lparr>clm_selection = d_record 67 ''u'' KSelection [\<lparr>ref_type = RUse, ref_target = [65]\<rparr>], clm_request = [60],
      clm_chosen = [[63]], clm_used = [d_record 65 ''e'' KEvaluation []]\<rparr>"

definition d_accepted :: "RecordId set" where
  "d_accepted = {[61], [63], [65], [67]}"

lemma d_find [simp]:
  "find_by_id d_log [61] = Some (d_record 61 ''u'' KRequirement [\<lparr>ref_type = RCause, ref_target = [60]\<rparr>])"
  "find_by_id d_log [63] = Some (d_record 63 ''p'' KCandidate [])"
  "find_by_id d_log [65] = Some (d_record 65 ''e'' KEvaluation [])"
  "find_by_id d_log [67] = Some (d_record 67 ''u'' KSelection [\<lparr>ref_type = RUse, ref_target = [65]\<rparr>])"
  by (simp_all add: find_by_id_def d_log_eq)

lemma d_is_accepted [simp]: "is_accepted d_log d_accepted i \<longleftrightarrow> i \<in> d_accepted"
  by (auto simp: is_accepted_def d_accepted_def)

lemma d_request [simp]: "requirement_request d_log d_accepted [61] = Some [60]"
  by (simp add: requirement_request_def) (simp add: d_accepted_def)

lemma d_claims: "all_claims d_env d_log d_accepted = [d_claim]"
proof -
  have "claim_evaluations d_log d_accepted (d_record 67 ''u'' KSelection [\<lparr>ref_type = RUse, ref_target = [65]\<rparr>])
      = [d_record 65 ''e'' KEvaluation []]"
    by (simp add: claim_evaluations_def List.map_filter_def) (simp add: d_accepted_def)
  moreover have "claim_requests d_env d_log d_accepted [d_record 65 ''e'' KEvaluation []] = {[60]}"
    by (simp add: claim_requests_def d_evaluation_def List.map_filter_def)
  moreover have "[67] \<in> d_accepted" by (simp add: d_accepted_def)
  ultimately have "claim_of d_env d_log d_accepted (d_record 67 ''u'' KSelection [\<lparr>ref_type = RUse, ref_target = [65]\<rparr>]) = Some d_claim"
    by (simp add: claim_of_def d_selection_def d_claim_def)
  moreover have "claim_of d_env d_log d_accepted r = None" if "rec_kind r \<noteq> KSelection" for r
    using that by (simp add: claim_of_def)
  ultimately show ?thesis unfolding all_claims_def by (subst d_log_eq) (simp add: List.map_filter_def)
qed

lemma d_evaluated: "evaluated_claims d_report [d_claim] = [d_claim]"
  by (simp add: evaluated_claims_def claim_groups_def pick_claim_def rposition_def)

lemma d_required: "required_requirements d_env d_log d_accepted {} [60] = [([61], ''k'')]"
  unfolding required_requirements_def
  by (subst d_log_eq) (simp add: List.map_filter_def d_requirement_def, simp add: d_accepted_def)

lemma d_used: "used_v2 d_env d_claim = [(d_record 65 ''e'' KEvaluation [], d_evaluation)]"
  by (simp add: used_v2_def d_claim_def List.map_filter_def)

lemma d_passes: "claim_passes d_env d_log d_accepted d_report d_claim"
proof -
  have cand: "candidate_record d_log d_claim = Some (d_record 63 ''p'' KCandidate [])"
    by (simp add: candidate_record_def chosen_candidate_def d_claim_def)
  have "(ar_scheme d_artifact, ar_digest d_artifact) \<in> on_record d_env d_log d_accepted d_claim"
    by (simp add: on_record_def cand artifact_keys_def)
  then have "d3_notes d_env d_log d_accepted d_claim = []"
    unfolding d3_notes_def d_used
    by (simp add: evidence_notes_def d_evaluation_def) (simp add: d_claim_def chosen_candidate_def)
  moreover have "unbound d_env d_claim = []" unfolding unbound_def d_used by (simp add: d_evaluation_def) (simp add: d_claim_def)
  moreover have "producer d_log d_claim = Some ''p''" by (simp add: producer_def cand s_author_def)
  moreover from this have "self_judged d_log d_claim = []" by (simp add: self_judged_def d_claim_def s_author_def)
  moreover have "rep_retracted_records d_report = {}" "standing_notes d_report r = []" for r
    by (simp_all add: d_report_def structural_failure_def standing_notes_def empty_standing_def)
  moreover have "uncovered {} (used_v2 d_env d_claim) [([61], ''k'')] = []"
    by (simp add: uncovered_def is_covered_def d_used d_evaluation_def)
  moreover have "clm_request d_claim = [60]" by (simp add: d_claim_def)
  ultimately show ?thesis using d_required by (simp add: claim_passes_def)
qed

lemma d_conformant: "prs_status (evaluate_delivery_v1 d_env d_receipt d_report) = Conformant"
proof -
  obtain s where s: "build_state_unchecked d_env d_log = Some s" "st_accepted_records s = d_accepted"
    using d_build by (auto simp: d_accepted_def)
  have rc: "rcp_records d_receipt = d_log" "rcp_rules d_receipt = s_rules" "rcp_profiles d_receipt = []"
    by (simp_all add: d_receipt_def receipt_new_def)
  have rep: "rep_status d_report = Clean" "rep_retracted_records d_report = {}"
    by (simp_all add: d_report_def structural_failure_def)
  have "prs_status (evaluate_core_v1 d_env d_receipt d_report) = Conformant"
    by (rule core_rules_conformant) (simp_all add: rc rep)
  then have "clr_passed (core_clause d_env ''D6'' d_receipt d_report)"
    by (auto simp: core_clause_def core_result_def rc met_def Let_def evaluate_core_v1_def finish_def)
  moreover have "non_passing (used_v2 d_env d_claim) [([61], ''k'')] = []"
    by (simp add: non_passing_def d_used d_evaluation_def)
  moreover have "used_v2 d_env d_claim \<noteq> []" by (simp add: d_used)
  moreover have "clm_request d_claim = [60]" by (simp add: d_claim_def)
  ultimately show ?thesis
    using d_passes d_required s
    by (simp add: evaluate_delivery_v1_def rc rep d_claims d_evaluated finish_def claim_passes_def clause_d1_def clause_d2_def
      clause_d3_def clause_d4_def clause_d5_def clause_d7_def Let_def)
qed

end
