(* ===== verification/Manifest.thy ===== *)
theory Manifest
  imports Rules "HOL-Library.Multiset"
begin

text \<open>
  \<open>src/src/manifest.rs\<close>: the canonical manifest of a Git tree and its hash, and the walk over a
  worktree.

  A worktree is a tree of nodes as the walk sees them: a directory lists its entries, a file gives
  its permission bits and content, a symlink its target.  Each of these system calls may fail; then
  the option is \<open>None\<close>, and \<open>Unreadable\<close> is a node whose metadata cannot be read.  Names and targets
  are byte strings; \<open>utf8_valid\<close> is what \<open>OsStr::to_str\<close> accepts on Unix.
\<close>

section \<open>Entries\<close>

datatype FileMode = Regular | Executable | Symlink | Gitlink

fun mode_str :: "FileMode \<Rightarrow> string" where
  "mode_str Regular = ''100644''"
| "mode_str Executable = ''100755''"
| "mode_str Symlink = ''120000''"
| "mode_str Gitlink = ''160000''"

record ManifestEntry =
  me_path :: string
  me_mode :: FileMode
  me_sha256 :: hash256

definition file_entry :: "'z crates_scheme \<Rightarrow> string \<Rightarrow> bool \<Rightarrow> bytes \<Rightarrow> ManifestEntry" where
  "file_entry C path executable bytes =
     \<lparr>me_path = path, me_mode = (if executable then Executable else Regular), me_sha256 = sha256 C bytes\<rparr>"

definition symlink_entry :: "'z crates_scheme \<Rightarrow> string \<Rightarrow> string \<Rightarrow> ManifestEntry" where
  "symlink_entry C path target =
     \<lparr>me_path = path, me_mode = Symlink, me_sha256 = sha256 C (as_bytes target)\<rparr>"

definition gitlink_entry :: "'z crates_scheme \<Rightarrow> string \<Rightarrow> string \<Rightarrow> ManifestEntry option" where
  "gitlink_entry C path oid =
     (let len_ok = (length oid = 40 \<or> length oid = 64);
          hex_ok = list_all (\<lambda>c. CHR ''0'' \<le> c \<and> c \<le> CHR ''9'' \<or> CHR ''a'' \<le> c \<and> c \<le> CHR ''f'') oid
      in if \<not> len_ok \<or> \<not> hex_ok then None
         else Some \<lparr>me_path = path, me_mode = Gitlink, me_sha256 = sha256 C (as_bytes oid)\<rparr>)"

section \<open>The hash\<close>

definition manifest_value_json :: "FileMode \<times> hash256 \<Rightarrow> json" where
  "manifest_value_json = (\<lambda>(mode, h). JObject [(''mode'', JString (mode_str mode)), (''sha256'', JString (hex_encode h))])"

fun manifest_object ::
  "ManifestEntry list \<Rightarrow> (string, FileMode \<times> hash256) mapping \<Rightarrow> (string, FileMode \<times> hash256) mapping option" where
  "manifest_object [] m = Some m"
| "manifest_object (e # es) m =
     (if has_key m (me_path e) then None
      else manifest_object es (Mapping.update (me_path e) (me_mode e, me_sha256 e) m))"

definition manifest_hash :: "'z crates_scheme \<Rightarrow> ManifestEntry list \<Rightarrow> hash256 option" where
  "manifest_hash C entries =
     Option.bind (manifest_object entries Mapping.empty)
       (\<lambda>m. sha256_canonical C (ser_map (\<lambda>p. p) manifest_value_json m))"

section \<open>The worktree\<close>

datatype fs_node =
    Unreadable
  | SymlinkNode "string option"
  | DirNode "(string \<times> fs_node) list option"
  | FileNode u32 "bytes option"
  | OtherNode

datatype WalkError = IoFailed | InvalidData

definition cont_byte :: "u8 \<Rightarrow> bool" where
  "cont_byte b \<longleftrightarrow> 0x80 \<le> b \<and> b \<le> 0xBF"

fun utf8_valid :: "bytes \<Rightarrow> bool" where
  "utf8_valid [] = True"
| "utf8_valid (b # bs) =
     (if b < 0x80 then utf8_valid bs
      else (case bs of [] \<Rightarrow> False
        | b1 # bs1 \<Rightarrow>
            if 0xC2 \<le> b \<and> b \<le> 0xDF then cont_byte b1 \<and> utf8_valid bs1
            else (case bs1 of [] \<Rightarrow> False
              | b2 # bs2 \<Rightarrow>
                  if 0xE0 \<le> b \<and> b \<le> 0xEF
                  then cont_byte b1 \<and> (b = 0xE0 \<longrightarrow> 0xA0 \<le> b1) \<and> (b = 0xED \<longrightarrow> b1 \<le> 0x9F)
                       \<and> cont_byte b2 \<and> utf8_valid bs2
                  else (case bs2 of [] \<Rightarrow> False
                    | b3 # bs3 \<Rightarrow>
                        0xF0 \<le> b \<and> b \<le> 0xF4 \<and> cont_byte b1 \<and> (b = 0xF0 \<longrightarrow> 0x90 \<le> b1)
                        \<and> (b = 0xF4 \<longrightarrow> b1 \<le> 0x8F) \<and> cont_byte b2 \<and> cont_byte b3 \<and> utf8_valid bs3))))"

definition utf8_name :: "string \<Rightarrow> WalkError + string" where
  "utf8_name os = (if utf8_valid (as_bytes os) then Inr os else Inl InvalidData)"

definition is_executable :: "u32 \<Rightarrow> bool" where
  "is_executable mode \<longleftrightarrow> and mode 0x40 \<noteq> 0"

definition join_path :: "string \<Rightarrow> string \<Rightarrow> string" where
  "join_path prefix name = (if prefix = [] then name else prefix @ ''/'' @ name)"

fun read_dir :: "fs_node \<Rightarrow> WalkError + (string \<times> fs_node) list" where
  "read_dir (DirNode (Some children)) = Inr children"
| "read_dir _ = Inl IoFailed"

type_synonym walk_state = "(fs_node \<times> string) list \<times> ManifestEntry list \<times> string set"

text \<open>One entry of a directory; the stack has its top in front.\<close>

fun visit_node :: "'z crates_scheme \<Rightarrow> string \<Rightarrow> fs_node \<Rightarrow> walk_state \<Rightarrow> WalkError + walk_state" where
  "visit_node C rel Unreadable st = Inl IoFailed"
| "visit_node C rel (SymlinkNode None) st = Inl IoFailed"
| "visit_node C rel (SymlinkNode (Some target)) (stack, out, walked) =
     (case utf8_name target of Inl e \<Rightarrow> Inl e
      | Inr t \<Rightarrow> Inr (stack, out @ [symlink_entry C rel t], insert rel walked))"
| "visit_node C rel (DirNode children) (stack, out, walked) = Inr ((DirNode children, rel) # stack, out, walked)"
| "visit_node C rel (FileNode mode None) st = Inl IoFailed"
| "visit_node C rel (FileNode mode (Some bytes)) (stack, out, walked) =
     Inr (stack, out @ [file_entry C rel (is_executable mode) bytes], insert rel walked)"
| "visit_node C rel OtherNode st = Inr st"

fun visit_children ::
  "'z crates_scheme \<Rightarrow> (string, string) mapping \<Rightarrow> string \<Rightarrow> (string \<times> fs_node) list \<Rightarrow> walk_state
     \<Rightarrow> WalkError + walk_state" where
  "visit_children C gitlinks prefix [] st = Inr st"
| "visit_children C gitlinks prefix ((os_name, node) # rest) st =
     (case utf8_name os_name of Inl e \<Rightarrow> Inl e
      | Inr name \<Rightarrow>
          if name = ''.git'' \<or> has_key gitlinks (join_path prefix name)
          then visit_children C gitlinks prefix rest st
          else (case visit_node C (join_path prefix name) node st of Inl e \<Rightarrow> Inl e
            | Inr st' \<Rightarrow> visit_children C gitlinks prefix rest st'))"

fun node_size :: "fs_node \<Rightarrow> nat" where
  "node_size (DirNode (Some children)) = Suc (sum_list (map (\<lambda>c. node_size (snd c)) children))"
| "node_size _ = 1"

definition stack_size :: "(fs_node \<times> string) list \<Rightarrow> nat" where
  "stack_size stack = sum_list (map (\<lambda>(n, _). node_size n) stack)"

lemma visit_node_size:
  "visit_node C rel node (stack, out, walked) = Inr (stack', out', walked')
     \<Longrightarrow> stack_size stack' \<le> stack_size stack + node_size node"
  by (induction C rel node "(stack, out, walked)" rule: visit_node.induct)
    (auto simp: stack_size_def split: sum.splits)

lemma visit_children_size:
  "visit_children C gitlinks prefix children (stack, out, walked) = Inr (stack', out', walked')
     \<Longrightarrow> stack_size stack' \<le> stack_size stack + sum_list (map (\<lambda>c. node_size (snd c)) children)"
proof (induction children arbitrary: stack out walked)
  case (Cons c rest)
  obtain os_name node where c: "c = (os_name, node)" by (cases c)
  show ?case
  proof (cases "utf8_name os_name = Inr os_name \<and> os_name \<noteq> ''.git'' \<and> \<not> has_key gitlinks (join_path prefix os_name)")
    case True
    with Cons.prems obtain stack1 out1 walked1 where
      "visit_node C (join_path prefix os_name) node (stack, out, walked) = Inr (stack1, out1, walked1)"
      "visit_children C gitlinks prefix rest (stack1, out1, walked1) = Inr (stack', out', walked')"
      by (auto simp: c split: sum.splits)
    from visit_node_size [OF this(1)] Cons.IH [OF this(2)] show ?thesis by (simp add: c)
  next
    case False
    with Cons.prems have "visit_children C gitlinks prefix rest (stack, out, walked) = Inr (stack', out', walked')"
      by (auto simp: c utf8_name_def split: if_splits)
    from Cons.IH [OF this] show ?thesis by (simp add: c)
  qed
qed simp

function walk ::
  "'z crates_scheme \<Rightarrow> (string, string) mapping \<Rightarrow> walk_state \<Rightarrow> WalkError + ManifestEntry list \<times> string set" where
  "walk C gitlinks ([], out, walked) = Inr (out, walked)"
| "walk C gitlinks ((dir, prefix) # stack, out, walked) =
     (case read_dir dir of Inl e \<Rightarrow> Inl e
      | Inr children \<Rightarrow>
          (case visit_children C gitlinks prefix (sort_key fst children) (stack, out, walked) of Inl e \<Rightarrow> Inl e
           | Inr st \<Rightarrow> walk C gitlinks st))"
  by pat_completeness auto

lemma sum_list_sort_key: "sum_list (map f (sort_key g xs)) = (sum_list (map f xs) :: nat)"
  unfolding sum_mset_sum_list [symmetric] by simp

termination walk
proof (relation "measure (\<lambda>(C, gitlinks, stack, out, walked). stack_size stack)")
  fix C :: "'z crates_scheme" and gitlinks dir prefix stack out walked children st
  assume 1: "read_dir dir = Inr children"
    and 2: "visit_children C gitlinks prefix (sort_key fst children) (stack, out, walked) = Inr st"
  obtain stack' out' walked' where st: "st = (stack', out', walked')" by (cases st)
  from 1 have "node_size dir = Suc (sum_list (map (\<lambda>c. node_size (snd c)) children))"
    by (cases dir rule: read_dir.cases) simp_all
  with visit_children_size [OF 2 [unfolded st]]
  show "((C, gitlinks, st), C, gitlinks, (dir, prefix) # stack, out, walked)
     \<in> measure (\<lambda>(C, gitlinks, stack, out, walked). stack_size stack)"
    by (simp add: st stack_size_def sum_list_sort_key)
qed simp

fun add_gitlinks ::
  "'z crates_scheme \<Rightarrow> string set \<Rightarrow> (string \<times> string) list \<Rightarrow> ManifestEntry list \<Rightarrow> WalkError + ManifestEntry list" where
  "add_gitlinks C walked [] out = Inr out"
| "add_gitlinks C walked ((path, oid) # links) out =
     (if path \<in> walked then Inl InvalidData
      else (case gitlink_entry C path oid of None \<Rightarrow> Inl InvalidData
        | Some e \<Rightarrow> add_gitlinks C walked links (out @ [e])))"

definition link_pairs :: "(string, string) mapping \<Rightarrow> (string \<times> string) list" where
  "link_pairs gitlinks =
     map (\<lambda>p. (p, the (Mapping.lookup gitlinks p))) (Mapping.ordered_keys gitlinks)"

definition manifest_from_dir ::
  "'z crates_scheme \<Rightarrow> fs_node \<Rightarrow> (string, string) mapping \<Rightarrow> WalkError + ManifestEntry list" where
  "manifest_from_dir C root gitlinks =
     (case walk C gitlinks ([(root, [])], [], {}) of Inl e \<Rightarrow> Inl e
      | Inr (out, walked) \<Rightarrow> add_gitlinks C walked (link_pairs gitlinks) out)"

end
