(* ===== verification/Manifest_Laws.thy ===== *)
theory Manifest_Laws
  imports Manifest Record_Laws
begin

text \<open>
  The manifest hash commits to the set of entries, and the walk collects exactly the files and
  symlinks of the tree outside \<open>.git\<close> and the submodules.
\<close>

section \<open>The hash commits to the entries\<close>

definition entry_map :: "ManifestEntry list \<Rightarrow> string \<Rightarrow> (FileMode \<times> hash256) option" where
  "entry_map es = map_of (map (\<lambda>e. (me_path e, me_mode e, me_sha256 e)) es)"

lemma manifest_object_iff:
  "manifest_object es m = Some m' \<longleftrightarrow>
     distinct (map me_path es) \<and> set (map me_path es) \<inter> Mapping.keys m = {}
     \<and> Mapping.lookup m' = Mapping.lookup m ++ entry_map es"
proof (induction es arbitrary: m)
  case Nil
  then show ?case by (auto simp: entry_map_def intro: mapping_eqI)
next
  case (Cons e es)
  have key: "has_key m (me_path e) \<longleftrightarrow> me_path e \<in> Mapping.keys m" by (simp add: has_key_def keys_dom_lookup dom_def)
  have "(\<lambda>a. if me_path e = a then Some (me_mode e, me_sha256 e) else Mapping.lookup m a) ++ entry_map es
      = Mapping.lookup m ++ entry_map (e # es)" if "me_path e \<notin> me_path ` set es"
  proof -
    have "entry_map es (me_path e) = None" using that by (force simp: entry_map_def map_of_eq_None_iff)
    then show ?thesis by (auto simp: fun_eq_iff entry_map_def map_add_def split: option.splits)
  qed
  then show ?case using Cons.IH [of "Mapping.update (me_path e) (me_mode e, me_sha256 e) m"]
    by (cases "me_path e \<in> me_path ` set es"; cases "me_path e \<in> Mapping.keys m") (simp_all add: key)
qed

lemma entry_map_set:
  assumes "distinct (map me_path es)" "distinct (map me_path es')" "entry_map es = entry_map es'"
  shows "set es = set es'"
proof -
  have "e \<in> set es \<longleftrightarrow> entry_map es (me_path e) = Some (me_mode e, me_sha256 e)"
    if "distinct (map me_path es)" for es and e :: ManifestEntry
  proof -
    have "map_of (map (\<lambda>e. (me_path e, me_mode e, me_sha256 e)) es) (me_path e) = Some (me_mode e, me_sha256 e)
        \<longleftrightarrow> (me_path e, me_mode e, me_sha256 e) \<in> set (map (\<lambda>e. (me_path e, me_mode e, me_sha256 e)) es)"
      using that by (intro map_of_eq_Some_iff) (simp add: comp_def)
    also have "\<dots> \<longleftrightarrow> e \<in> set es"
    proof
      assume "(me_path e, me_mode e, me_sha256 e) \<in> set (map (\<lambda>e. (me_path e, me_mode e, me_sha256 e)) es)"
      then obtain e' where "e' \<in> set es" "me_path e = me_path e'" "me_mode e = me_mode e'" "me_sha256 e = me_sha256 e'" by auto
      moreover from this have "e = e'" by simp
      ultimately show "e \<in> set es" by simp
    qed auto
    finally show ?thesis by (simp add: entry_map_def)
  qed
  then show ?thesis using assms by auto
qed

lemma mode_str_inj [simp]: "mode_str a = mode_str b \<longleftrightarrow> a = b"
  by (cases a; cases b) simp_all

lemma manifest_value_inj:
  assumes "norm (manifest_value_json a) = norm (manifest_value_json b)"
  shows "a = b"
proof -
  obtain m h m' h' where ab: "a = (m, h)" "b = (m', h')" by (cases a, cases b)
  note fields = norm_object_fields [OF assms [unfolded ab manifest_value_json_def prod.case]]
  from fields [of "''mode''"] fields [of "''sha256''"] show ?thesis by (simp add: ab)
qed


lemma manifest_json_inj:
  assumes "canonical_json C (ser_map (\<lambda>p. p) manifest_value_json m) = Some bs" "finite (Mapping.keys m)"
    "canonical_json C (ser_map (\<lambda>p. p) manifest_value_json m') = Some bs" "finite (Mapping.keys m')"
  shows "Mapping.lookup m = Mapping.lookup m'"
proof -
  let ?ms = "\<lambda>m. map (\<lambda>k. (k, manifest_value_json (the (Mapping.lookup m k)))) (Mapping.ordered_keys m)"
  have "plain (ser_map (\<lambda>p. p) manifest_value_json m)" for m
    by (auto simp: ser_map_def manifest_value_json_def split: prod.splits)
  from canonical_json_inj [OF this this assms(1,3)] have "norm (JObject (?ms m)) = norm (JObject (?ms m'))"
    by (simp only: ser_map_def)
  moreover have "distinct (map fst (?ms m))" for m :: "(string, FileMode \<times> hash256) mapping" by (simp add: comp_def ordered_keys_def)
  ultimately have fields: "map_option norm (map_of (?ms m) k) = map_option norm (map_of (?ms m') k)" for k
    using norm_object_fields by blast
  have looked: "map_of (?ms m) k = map_option manifest_value_json (Mapping.lookup m k)" if "finite (Mapping.keys m)" for m k
  proof (cases "k \<in> Mapping.keys m")
    case True
    then have "k \<in> set (Mapping.ordered_keys m)" using that by (simp add: ordered_keys_def)
    with True show ?thesis by (auto simp: map_of_map_restrict keys_dom_lookup)
  next
    case False
    then have "k \<notin> set (Mapping.ordered_keys m)" using that by (simp add: ordered_keys_def)
    moreover have "Mapping.lookup m k = None" using False unfolding keys_dom_lookup by (simp only: domIff simp_thms)
    ultimately show ?thesis by (simp add: map_of_map_restrict)
  qed
  have eq: "map_option (norm \<circ> manifest_value_json) (Mapping.lookup m k)
      = map_option (norm \<circ> manifest_value_json) (Mapping.lookup m' k)" for k
    using fields [of k] unfolding looked [OF assms(2)] looked [OF assms(4)] by (simp add: option.map_comp)
  show ?thesis
  proof
    fix k
    show "Mapping.lookup m k = Mapping.lookup m' k"
      using eq [of k] manifest_value_inj by (cases "Mapping.lookup m k"; cases "Mapping.lookup m' k") auto
  qed
qed

definition manifest_form :: "'z crates_scheme \<Rightarrow> ManifestEntry list \<Rightarrow> bytes option" where
  "manifest_form C es =
     Option.bind (manifest_object es Mapping.empty) (\<lambda>m. canonical_json C (ser_map (\<lambda>p. p) manifest_value_json m))"

lemma manifest_hash_form: "manifest_hash C es = map_option (sha256 C) (manifest_form C es)"
  by (cases "manifest_object es Mapping.empty") (simp_all add: manifest_hash_def manifest_form_def sha256_canonical_def)

lemma manifest_form_Some:
  assumes "distinct (map me_path es)"
  obtains m bs where "manifest_object es Mapping.empty = Some m" "Mapping.lookup m = entry_map es"
    "finite (Mapping.keys m)" "manifest_form C es = Some bs"
    "canonical_json C (ser_map (\<lambda>p. p) manifest_value_json m) = Some bs"
proof -
  define m where "m = Mapping.Mapping (entry_map es)"
  have m: "manifest_object es Mapping.empty = Some m" "Mapping.lookup m = entry_map es"
    using assms by (simp_all add: manifest_object_iff m_def fun_eq_iff lookup.abs_eq map_add_def split: option.splits)
  have "writable (ser_map (\<lambda>p. p) manifest_value_json m)"
    by (auto simp: ser_map_def manifest_value_json_def split: prod.splits)
  from writable_write [OF this, of C] obtain bs where "canonical_json C (ser_map (\<lambda>p. p) manifest_value_json m) = Some bs"
    by (auto simp: canonical_json_def)
  moreover have "finite (Mapping.keys m)" by (simp add: keys_dom_lookup m(2) entry_map_def finite_dom_map_of)
  ultimately show thesis using m by (intro that [of m bs]) (simp_all add: manifest_form_def)
qed

lemma manifest_form_eq:
  assumes "distinct (map me_path es)" "distinct (map me_path es')"
  shows "manifest_form C es = manifest_form C es' \<longleftrightarrow> set es = set es'"
proof -
  obtain m bs where m: "manifest_object es Mapping.empty = Some m" "Mapping.lookup m = entry_map es"
    "finite (Mapping.keys m)" "manifest_form C es = Some bs"
    "canonical_json C (ser_map (\<lambda>p. p) manifest_value_json m) = Some bs" by (rule manifest_form_Some [OF assms(1)])
  obtain m' bs' where m': "manifest_object es' Mapping.empty = Some m'" "Mapping.lookup m' = entry_map es'"
    "finite (Mapping.keys m')" "manifest_form C es' = Some bs'"
    "canonical_json C (ser_map (\<lambda>p. p) manifest_value_json m') = Some bs'" by (rule manifest_form_Some [OF assms(2)])
  show ?thesis
  proof
    assume "manifest_form C es = manifest_form C es'"
    then have "bs = bs'" using m(4) m'(4) by simp
    from manifest_json_inj [OF m(5,3) m'(5) [folded this] m'(3)] show "set es = set es'"
      unfolding m(2) m'(2) by (rule entry_map_set [OF assms])
  next
    assume "set es = set es'"
    then have "set (map (\<lambda>e. (me_path e, me_mode e, me_sha256 e)) es) = set (map (\<lambda>e. (me_path e, me_mode e, me_sha256 e)) es')" by simp
    then have "entry_map es = entry_map es'" unfolding entry_map_def
      by (intro map_of_inject_set [THEN iffD2]) (simp_all add: comp_def assms)
    with m(2) m'(2) have "m = m'" by (simp add: mapping_eqI)
    with m(5) m'(5) m(4) m'(4) show "manifest_form C es = manifest_form C es'" by simp
  qed
qed

section \<open>The walk collects the tree\<close>

fun tree_entries :: "'z crates_scheme \<Rightarrow> (string, string) mapping \<Rightarrow> string \<Rightarrow> fs_node \<Rightarrow> ManifestEntry list" where
  "tree_entries C gitlinks path (DirNode (Some children)) =
     concat (map (\<lambda>c. if fst c = ''.git'' \<or> has_key gitlinks (join_path path (fst c)) then []
                     else tree_entries C gitlinks (join_path path (fst c)) (snd c)) children)"
| "tree_entries C gitlinks path (SymlinkNode (Some target)) = [symlink_entry C path target]"
| "tree_entries C gitlinks path (FileNode mode (Some bytes)) = [file_entry C path (is_executable mode) bytes]"
| "tree_entries C gitlinks path _ = []"

definition link_entries :: "'z crates_scheme \<Rightarrow> (string, string) mapping \<Rightarrow> ManifestEntry list" where
  "link_entries C gitlinks = List.map_filter (\<lambda>(p, oid). gitlink_entry C p oid) (link_pairs gitlinks)"

definition pending_entries :: "'z crates_scheme \<Rightarrow> (string, string) mapping \<Rightarrow> (fs_node \<times> string) list \<Rightarrow> ManifestEntry set" where
  "pending_entries C gitlinks stack = (\<Union>(n, p) \<in> set stack. set (tree_entries C gitlinks p n))"

lemma visit_node_entries:
  assumes "visit_node C rel n (stack, out, walked) = Inr (stack', out', walked')"
  shows "set out' \<union> pending_entries C gl stack' = set out \<union> pending_entries C gl stack \<union> set (tree_entries C gl rel n)"
  using assms by (induction C rel n "(stack, out, walked)" rule: visit_node.induct)
    (auto simp: pending_entries_def utf8_name_def split: if_splits)

lemma visit_children_entries:
  assumes "visit_children C gl prefix children (stack, out, walked) = Inr (stack', out', walked')"
  shows "set out' \<union> pending_entries C gl stack' = set out \<union> pending_entries C gl stack
     \<union> set (tree_entries C gl prefix (DirNode (Some children)))"
  using assms
proof (induction children arbitrary: stack out walked)
  case (Cons c rest)
  obtain os_name node where c: "c = (os_name, node)" by (cases c)
  show ?case
  proof (cases "os_name \<noteq> ''.git'' \<and> \<not> has_key gl (join_path prefix os_name)")
    case True
    with Cons.prems obtain stack1 out1 walked1 where
      "visit_node C (join_path prefix os_name) node (stack, out, walked) = Inr (stack1, out1, walked1)"
      "visit_children C gl prefix rest (stack1, out1, walked1) = Inr (stack', out', walked')"
      by (auto simp: c utf8_name_def split: sum.splits if_splits)
    from visit_node_entries [OF this(1), of gl] Cons.IH [OF this(2)] True show ?thesis by (simp add: c) blast
  next
    case False
    with Cons.prems have "visit_children C gl prefix rest (stack, out, walked) = Inr (stack', out', walked')"
      by (auto simp: c utf8_name_def split: if_splits)
    from Cons.IH [OF this] False show ?thesis by (auto simp: c)
  qed
qed simp

lemma walk_entries:
  "walk C gl (stack, out, walked) = Inr (out', walked') \<Longrightarrow> set out' = set out \<union> pending_entries C gl stack"
proof (induction C gl "(stack, out, walked)" arbitrary: stack out walked rule: walk.induct)
  case (1 C gl out walked)
  then show ?case by (simp add: pending_entries_def)
next
  case (2 C gl dir prefix rest out walked)
  obtain children st where st: "read_dir dir = Inr children" "walk C gl st = Inr (out', walked')"
    "visit_children C gl prefix (sort_key fst children) (rest, out, walked) = Inr st"
    using "2.prems" by (auto split: sum.splits)
  obtain rest' out1 walked1 where eq: "st = (rest', out1, walked1)" by (cases st)
  have dir: "dir = DirNode (Some children)" using st(1) by (cases dir rule: read_dir.cases) simp_all
  have "set (tree_entries C gl prefix (DirNode (Some (sort_key fst children)))) = set (tree_entries C gl prefix dir)"
    by (simp add: dir)
  with visit_children_entries [OF st(3) [unfolded eq]] "2.hyps" [OF st(1) st(3) [unfolded eq] st(2) [unfolded eq]]
  show ?case by (auto simp: pending_entries_def)
qed

lemma add_gitlinks_entries:
  "add_gitlinks C walked links out = Inr es \<Longrightarrow>
     set es = set out \<union> set (List.map_filter (\<lambda>(p, oid). gitlink_entry C p oid) links)"
  by (induction C walked links out rule: add_gitlinks.induct)
    (auto simp: List.map_filter_def split: if_splits option.splits)

lemma manifest_from_dir_entries:
  assumes "manifest_from_dir C root gl = Inr es"
  shows "set es = set (tree_entries C gl [] root) \<union> set (link_entries C gl)"
proof -
  obtain out walked where "walk C gl ([(root, [])], [], {}) = Inr (out, walked)" "add_gitlinks C walked (link_pairs gl) out = Inr es"
    using assms by (auto simp: manifest_from_dir_def split: sum.splits)
  from walk_entries [OF this(1)] add_gitlinks_entries [OF this(2)] show ?thesis
    by (simp add: pending_entries_def link_entries_def)
qed

section \<open>Paths of submodules\<close>

lemma visit_node_walked:
  "visit_node C rel n (stack, out, walked) = Inr (stack', out', walked') \<Longrightarrow> walked' \<subseteq> insert rel walked"
  by (induction C rel n "(stack, out, walked)" rule: visit_node.induct) (auto split: sum.splits)

lemma visit_children_walked:
  assumes "visit_children C gl prefix children (stack, out, walked) = Inr (stack', out', walked')" "walked \<inter> Mapping.keys gl = {}"
  shows "walked' \<inter> Mapping.keys gl = {}"
  using assms
proof (induction children arbitrary: stack out walked)
  case (Cons c rest)
  obtain os_name n where c: "c = (os_name, n)" by (cases c)
  show ?case
  proof (cases "os_name \<noteq> ''.git'' \<and> \<not> has_key gl (join_path prefix os_name)")
    case True
    with Cons.prems(1) obtain stack1 out1 walked1 where
      v: "visit_node C (join_path prefix os_name) n (stack, out, walked) = Inr (stack1, out1, walked1)"
      "visit_children C gl prefix rest (stack1, out1, walked1) = Inr (stack', out', walked')"
      by (auto simp: c utf8_name_def split: sum.splits if_splits)
    have "join_path prefix os_name \<notin> Mapping.keys gl" using True by (simp add: has_key_def keys_dom_lookup dom_def)
    with visit_node_walked [OF v(1)] Cons.prems(2) have "walked1 \<inter> Mapping.keys gl = {}" by blast
    then show ?thesis by (rule Cons.IH [OF v(2)])
  next
    case False
    with Cons.prems have "visit_children C gl prefix rest (stack, out, walked) = Inr (stack', out', walked')"
      by (auto simp: c utf8_name_def split: if_splits)
    from Cons.IH [OF this Cons.prems(2)] show ?thesis .
  qed
qed simp

text \<open>
  An entry at the path of a submodule is passed over, whatever it is, so the walk never records such a
  path and the collision that \<open>manifest_from_dir\<close> tests for cannot occur.
\<close>

lemma walked_avoids_gitlinks:
  "walk C gl (stack, out, walked) = Inr (out', walked') \<Longrightarrow> walked \<inter> Mapping.keys gl = {} \<Longrightarrow> walked' \<inter> Mapping.keys gl = {}"
proof (induction C gl "(stack, out, walked)" arbitrary: stack out walked rule: walk.induct)
  case (2 C gl dir prefix rest out walked)
  obtain children st where st: "read_dir dir = Inr children" "walk C gl st = Inr (out', walked')"
    "visit_children C gl prefix (sort_key fst children) (rest, out, walked) = Inr st"
    using "2.prems"(1) by (auto split: sum.splits)
  obtain rest' out1 walked1 where eq: "st = (rest', out1, walked1)" by (cases st)
  show ?case
    using "2.hyps" [OF st(1) st(3) [unfolded eq] st(2) [unfolded eq]]
      visit_children_walked [OF st(3) [unfolded eq] "2.prems"(2)] .
qed simp

section \<open>What a worktree holds\<close>

text \<open>
  The content of a worktree without the manifest: \<open>in_tree gl p n q i\<close> says that below the node \<open>n\<close> at
  path \<open>p\<close> there is the item \<open>i\<close> at path \<open>q\<close>, outside \<open>.git\<close> and the submodules \<open>gl\<close>.  A file
  is executable when bit 6 of its mode, the owner's, is set.
\<close>

datatype tree_item = FileItem bool bytes | LinkItem string | SubmoduleItem string

inductive in_tree :: "(string, string) mapping \<Rightarrow> string \<Rightarrow> fs_node \<Rightarrow> string \<Rightarrow> tree_item \<Rightarrow> bool"
  for gl :: "(string, string) mapping" where
  plain: "in_tree gl p (FileNode mode (Some content)) p (FileItem (bit mode 6) content)"
| symlink: "in_tree gl p (SymlinkNode (Some target)) p (LinkItem target)"
| child: "\<lbrakk>(name, n) \<in> set children; name \<noteq> ''.git''; q = (if p = [] then name else p @ ''/'' @ name);
    Mapping.lookup gl q = None; in_tree gl q n q' i\<rbrakk> \<Longrightarrow> in_tree gl p (DirNode (Some children)) q' i"

inductive_simps in_tree_simps:
  "in_tree gl p (FileNode mode c) q i"
  "in_tree gl p (SymlinkNode t) q i"
  "in_tree gl p (DirNode cs) q i"
  "in_tree gl p Unreadable q i"
  "in_tree gl p OtherNode q i"

definition worktree :: "(string, string) mapping \<Rightarrow> fs_node \<Rightarrow> (string \<times> tree_item) set" where
  "worktree gl root =
     {(q, i). in_tree gl [] root q i} \<union> {(q, SubmoduleItem oid) | q oid. Mapping.lookup gl q = Some oid}"

fun item_mode :: "tree_item \<Rightarrow> FileMode" where
  "item_mode (FileItem x content) = (if x then Executable else Regular)"
| "item_mode (LinkItem target) = Symlink"
| "item_mode (SubmoduleItem oid) = Gitlink"

fun item_bytes :: "tree_item \<Rightarrow> bytes" where
  "item_bytes (FileItem x content) = content"
| "item_bytes (LinkItem target) = map of_char target"
| "item_bytes (SubmoduleItem oid) = map of_char oid"

definition item_entry :: "'z crates_scheme \<Rightarrow> string \<times> tree_item \<Rightarrow> ManifestEntry" where
  "item_entry C = (\<lambda>(q, i). \<lparr>me_path = q, me_mode = item_mode i, me_sha256 = sha256 C (item_bytes i)\<rparr>)"

lemma is_executable_bit: "is_executable mode = bit mode 6"
proof -
  have "(0x40 :: u32) = 2 ^ 6" by simp
  then show ?thesis by (simp only: is_executable_def and_exp_eq_0_iff_not_bit not_not)
qed

lemma item_entry_simps:
  "item_entry C (q, FileItem (bit mode 6) content) = file_entry C q (is_executable mode) content"
  "item_entry C (q, LinkItem target) = symlink_entry C q target"
  by (simp_all add: item_entry_def file_entry_def symlink_entry_def is_executable_bit as_bytes_def)

lemma tree_entries_items:
  "set (tree_entries C gl p n) = item_entry C ` {(q, i). in_tree gl p n q i}"
proof (induction C gl p n rule: tree_entries.induct)
  case (1 C gl p children)
  have step: "in_tree gl p (DirNode (Some children)) q i \<longleftrightarrow>
      (\<exists>name n. (name, n) \<in> set children \<and> name \<noteq> ''.git'' \<and> Mapping.lookup gl (join_path p name) = None
         \<and> in_tree gl (join_path p name) n q i)" for q i
    by (auto simp: in_tree_simps join_path_def)
  let ?visited = "{c \<in> set children. fst c \<noteq> ''.git'' \<and> Mapping.lookup gl (join_path p (fst c)) = None}"
  have "set (tree_entries C gl p (DirNode (Some children)))
      = (\<Union>c \<in> ?visited. set (tree_entries C gl (join_path p (fst c)) (snd c)))"
    by (auto simp: has_key_def split: if_splits)
  also have "\<dots> = (\<Union>c \<in> ?visited. item_entry C ` {(q, i). in_tree gl (join_path p (fst c)) (snd c) q i})"
    using "1" by (intro SUP_cong) (simp_all add: has_key_def)
  also have "\<dots> = item_entry C ` (\<Union>c \<in> ?visited. {(q, i). in_tree gl (join_path p (fst c)) (snd c) q i})"
    by (rule image_UN [symmetric])
  also have "(\<Union>c \<in> ?visited. {(q, i). in_tree gl (join_path p (fst c)) (snd c) q i})
      = {(q, i). in_tree gl p (DirNode (Some children)) q i}"
    by (simp add: step set_eq_iff)
  finally show ?case .
qed (auto simp: item_entry_simps [symmetric] in_tree_simps)


lemma gitlink_item: "gitlink_entry C p oid = Some e \<Longrightarrow> e = item_entry C (p, SubmoduleItem oid)"
  by (auto simp: gitlink_entry_def item_entry_def as_bytes_def Let_def split: if_splits)

lemma valid_gitlinks:
  "add_gitlinks C walked links out = Inr es \<Longrightarrow> (p, oid) \<in> set links \<Longrightarrow> gitlink_entry C p oid \<noteq> None"
  by (induction links arbitrary: out) (auto split: if_splits option.splits)

lemma manifest_items:
  assumes "manifest_from_dir C root gl = Inr es" "finite (Mapping.keys gl)"
  shows "set es = item_entry C ` worktree gl root"
proof -
  obtain walked out where links: "add_gitlinks C walked (link_pairs gl) out = Inr es"
    using assms(1) by (auto simp: manifest_from_dir_def split: sum.splits)
  have pairs: "set (link_pairs gl) = {(q, oid). Mapping.lookup gl q = Some oid}"
    using assms(2) by (auto simp: link_pairs_def ordered_keys_def keys_dom_lookup)
  have "set (link_entries C gl) = (\<lambda>(q, oid). item_entry C (q, SubmoduleItem oid)) ` set (link_pairs gl)"
    using valid_gitlinks [OF links] gitlink_item by (force simp: link_entries_def List.map_filter_def)
  also have "\<dots> = item_entry C ` {(q, SubmoduleItem oid) | q oid. Mapping.lookup gl q = Some oid}"
    unfolding pairs by force
  finally show ?thesis
    using manifest_from_dir_entries [OF assms(1)] by (simp add: tree_entries_items worktree_def image_Un)
qed

lemma item_eqI:
  assumes "item_mode i = item_mode j" "item_bytes i = item_bytes j"
  shows "i = j"
proof -
  have inj: "inj (map (of_char :: char \<Rightarrow> u8))" by (simp add: inj_def as_bytes_inj [unfolded as_bytes_def])
  show ?thesis using assms injD [OF inj] by (cases i; cases j) (auto split: if_splits)
qed

lemma item_entry_inj:
  assumes "inj_on (sha256 C) (item_bytes ` snd ` W)"
  shows "inj_on (item_entry C) W"
proof (rule inj_onI)
  fix x y assume xy: "x \<in> W" "y \<in> W" "item_entry C x = item_entry C y"
  then have "sha256 C (item_bytes (snd x)) = sha256 C (item_bytes (snd y))" "item_mode (snd x) = item_mode (snd y)"
    "fst x = fst y" by (simp_all add: item_entry_def split: prod.splits)
  moreover from this xy have "item_bytes (snd x) = item_bytes (snd y)" using inj_onD [OF assms] by blast
  ultimately show "x = y" using item_eqI by (auto intro: prod_eqI)
qed

text \<open>What SHA-256 is applied to when the worktree is hashed.\<close>

definition hashed_bytes :: "'z crates_scheme \<Rightarrow> (string, string) mapping \<Rightarrow> fs_node \<Rightarrow> ManifestEntry list \<Rightarrow> bytes set" where
  "hashed_bytes C gl root es = item_bytes ` snd ` worktree gl root \<union> {bs. manifest_form C es = Some bs}"

lemma manifest_hash_commits:
  assumes es: "manifest_from_dir C root gl = Inr es" "finite (Mapping.keys gl)" "distinct (map me_path es)"
    and es': "manifest_from_dir C root' gl' = Inr es'" "finite (Mapping.keys gl')" "distinct (map me_path es')"
    and sha: "inj_on (sha256 C) (hashed_bytes C gl root es \<union> hashed_bytes C gl' root' es')"
  shows "manifest_hash C es \<noteq> None
     \<and> (manifest_hash C es = manifest_hash C es' \<longleftrightarrow> worktree gl root = worktree gl' root')"
proof -
  obtain bs bs' where form: "manifest_form C es = Some bs" "manifest_form C es' = Some bs'"
    by (metis manifest_form_Some es(3) es'(3))
  then have "bs \<in> hashed_bytes C gl root es \<union> hashed_bytes C gl' root' es'"
    "bs' \<in> hashed_bytes C gl root es \<union> hashed_bytes C gl' root' es'" by (simp_all add: hashed_bytes_def)
  from inj_on_eq_iff [OF sha this] form
  have "manifest_hash C es = manifest_hash C es' \<longleftrightarrow> manifest_form C es = manifest_form C es'"
    by (simp add: manifest_hash_form)
  also have "\<dots> \<longleftrightarrow> item_entry C ` worktree gl root = item_entry C ` worktree gl' root'"
    using manifest_form_eq [OF es(3) es'(3), of C] manifest_items [OF es(1,2)] manifest_items [OF es'(1,2)] by simp
  also have "\<dots> \<longleftrightarrow> worktree gl root = worktree gl' root'"
  proof (rule inj_on_image_eq_iff)
    show "inj_on (item_entry C) (worktree gl root \<union> worktree gl' root')"
      by (rule item_entry_inj, rule inj_on_subset [OF sha]) (auto simp: hashed_bytes_def)
  qed auto
  finally show ?thesis using form by (simp add: manifest_hash_form)
qed

end
