(* ===== verification/Cli_Args.thy ===== *)
theory Cli_Args
  imports Receipts Queries Manifest Writer "HOL-Library.Sublist"
begin

text \<open>
  Reading the arguments of \<open>src/src/bin/bellbook.rs\<close>: what the tool uses of Rust's string functions,
  the flag parser of the recording commands, and the readers of ids, hashes, numbers and artifact
  references.  The messages on the terminal are values of \<open>CliError\<close>.
\<close>

section \<open>Strings and numbers\<close>

fun split_once :: "char \<Rightarrow> string \<Rightarrow> (string \<times> string) option" where
  "split_once c [] = None"
| "split_once c (x # xs) =
     (if x = c then Some ([], xs) else map_option (\<lambda>(a, b). (x # a, b)) (split_once c xs))"

definition rsplit_once :: "char \<Rightarrow> string \<Rightarrow> (string \<times> string) option" where
  "rsplit_once c s = map_option (\<lambda>(b, a). (rev a, rev b)) (split_once c (rev s))"

definition strip_prefix :: "string \<Rightarrow> string \<Rightarrow> string option" where
  "strip_prefix p s = (if take (length p) s = p then Some (drop (length p) s) else None)"

definition starts_with :: "string \<Rightarrow> string \<Rightarrow> bool" where
  "starts_with p s \<longleftrightarrow> strip_prefix p s \<noteq> None"

definition ascii_lower :: "char \<Rightarrow> char" where
  "ascii_lower c = (if CHR ''A'' \<le> c \<and> c \<le> CHR ''Z'' then char_of (of_char c + 32 :: nat) else c)"

definition to_ascii_lowercase :: "string \<Rightarrow> string" where
  "to_ascii_lowercase s = map ascii_lower s"

definition digit_value :: "char \<Rightarrow> nat option" where
  "digit_value c = (if CHR ''0'' \<le> c \<and> c \<le> CHR ''9'' then Some (of_char c - 48) else None)"

fun digits_value :: "nat \<Rightarrow> string \<Rightarrow> nat option" where
  "digits_value n [] = Some n"
| "digits_value n (c # cs) =
     (case digit_value c of None \<Rightarrow> None | Some d \<Rightarrow> digits_value (10 * n + d) cs)"

text \<open>\<open>str::parse\<close> at an unsigned type of \<open>bits\<close> bits, and at \<open>i64\<close>.\<close>

definition parse_unsigned :: "nat \<Rightarrow> string \<Rightarrow> nat option" where
  "parse_unsigned bits s =
     (let ds = (case strip_prefix ''+'' s of None \<Rightarrow> s | Some r \<Rightarrow> r)
      in if ds = [] then None
         else (case digits_value 0 ds of None \<Rightarrow> None
           | Some n \<Rightarrow> if n < 2 ^ bits then Some n else None))"

definition parse_i64 :: "string \<Rightarrow> u64 option" where
  "parse_i64 s =
     (case strip_prefix ''-'' s of
        None \<Rightarrow> map_option of_nat (parse_unsigned 63 s)
      | Some [] \<Rightarrow> None
      | Some ds \<Rightarrow>
          (case digits_value 0 ds of None \<Rightarrow> None
           | Some n \<Rightarrow> if n \<le> 2 ^ 63 then Some (- of_nat n) else None))"

text \<open>\<open>str::trim\<close>: the UTF-8 encodings of the characters with the property White\_Space.\<close>

definition white_space :: "bytes list" where
  "white_space =
     [[9], [10], [11], [12], [13], [32], [0xC2, 0x85], [0xC2, 0xA0], [0xE1, 0x9A, 0x80]]
     @ map (\<lambda>n. [0xE2, 0x80, of_nat n]) [0x80..<0x8B]
     @ [[0xE2, 0x80, 0xA8], [0xE2, 0x80, 0xA9], [0xE2, 0x80, 0xAF], [0xE2, 0x81, 0x9F], [0xE3, 0x80, 0x80]]"

fun strip_all :: "bytes list \<Rightarrow> nat \<Rightarrow> bytes \<Rightarrow> bytes" where
  "strip_all ws 0 s = s"
| "strip_all ws (Suc n) s =
     (case List.find (\<lambda>w. prefix w s) ws of None \<Rightarrow> s | Some w \<Rightarrow> strip_all ws n (drop (length w) s))"

definition trim :: "bytes \<Rightarrow> bytes" where
  "trim s =
     (let t = strip_all white_space (length s) s
      in rev (strip_all (map rev white_space) (length t) (rev t)))"

section \<open>Errors\<close>

datatype FlagError =
    RequiresValues string
  | RequiresValue string
  | FlagForValue string string
  | GivenTwice string
  | UnknownFlag string
  | MissingRequired string

text \<open>
  \<open>BadValue flag v\<close> is a value that a flag does not take, \<open>FileFailed\<close> a file or a stream that cannot be
  read, parsed or written, and \<open>Refusal\<close> an error with a fixed message.
\<close>

datatype CliError =
    Flags FlagError
  | BadSubcommand "string option"
  | BadValue string string
  | FileFailed string
  | LogRefused LogError
  | CommitFailed LogError
  | TreeRefused "WalkError option"
  | DeclareFailed DeclareError
  | ReceiptInvalid "Problem option" "ReasonCode option"
  | QueryFailed QueryError
  | Refusal string

section \<open>Flags\<close>

record Parsed =
  pa_singles :: "(string, string) mapping"
  pa_multis :: "(string, string list) mapping"
  pa_bools :: "string set"
  pa_positionals :: "string list"

record FlagNames =
  fn_singles :: "string list"
  fn_multi :: "string list"
  fn_bools :: "string list"

definition empty_parsed :: Parsed where
  "empty_parsed =
     \<lparr>pa_singles = Mapping.empty, pa_multis = Mapping.empty, pa_bools = {}, pa_positionals = []\<rparr>"

definition is_flag :: "FlagNames \<Rightarrow> string \<Rightarrow> bool" where
  "is_flag names t =
     (case strip_prefix ''--'' t of None \<Rightarrow> False
      | Some n \<Rightarrow> n \<in> set (fn_singles names) \<or> n \<in> set (fn_multi names) \<or> n \<in> set (fn_bools names))"

definition add_values :: "string \<Rightarrow> string list \<Rightarrow> Parsed \<Rightarrow> Parsed" where
  "add_values name vals p =
     p\<lparr>pa_multis := Mapping.update name (Mapping.lookup_default [] (pa_multis p) name @ vals) (pa_multis p)\<rparr>"

function parse_loop :: "FlagNames \<Rightarrow> string list \<Rightarrow> Parsed \<Rightarrow> CliError + Parsed" where
  "parse_loop names [] p = Inr p"
| "parse_loop names (tok # rest) p =
     (case strip_prefix ''--'' tok of
        None \<Rightarrow> parse_loop names rest (p\<lparr>pa_positionals := pa_positionals p @ [tok]\<rparr>)
      | Some name \<Rightarrow>
          if name \<in> set (fn_bools names)
          then parse_loop names rest (p\<lparr>pa_bools := insert name (pa_bools p)\<rparr>)
          else if name \<in> set (fn_multi names)
          then let vals = takeWhile (\<lambda>t. \<not> starts_with ''--'' t) rest
               in if vals = [] then Inl (Flags (RequiresValues name))
                  else parse_loop names (dropWhile (\<lambda>t. \<not> starts_with ''--'' t) rest) (add_values name vals p)
          else if name \<in> set (fn_singles names) \<or> name = ''sign-key''
          then (case rest of [] \<Rightarrow> Inl (Flags (RequiresValue name))
            | v # rest' \<Rightarrow>
                if is_flag names v then Inl (Flags (FlagForValue name v))
                else if has_key (pa_singles p) name then Inl (Flags (GivenTwice name))
                else parse_loop names rest' (p\<lparr>pa_singles := Mapping.update name v (pa_singles p)\<rparr>))
          else Inl (Flags (UnknownFlag name)))"
  by pat_completeness auto

termination parse_loop
  by (relation "measure (\<lambda>(_, rest, _). length rest)") (auto simp: less_Suc_eq_le length_dropWhile_le)

definition parse_args :: "FlagNames \<Rightarrow> string list \<Rightarrow> CliError + Parsed" where
  "parse_args names rest = parse_loop names rest empty_parsed"

definition single :: "Parsed \<Rightarrow> string \<Rightarrow> string option" where
  "single p key = Mapping.lookup (pa_singles p) key"

definition multi :: "Parsed \<Rightarrow> string \<Rightarrow> string list option" where
  "multi p key = Mapping.lookup (pa_multis p) key"

definition required_flag :: "Parsed \<Rightarrow> string \<Rightarrow> CliError + string" where
  "required_flag p key = (case single p key of None \<Rightarrow> Inl (Flags (MissingRequired key)) | Some v \<Rightarrow> Inr v)"

section \<open>Ids, hashes and artifacts\<close>

definition parse_id :: "string \<Rightarrow> CliError + RecordId" where
  "parse_id hex = (case hex_decode hex of None \<Rightarrow> Inl (BadValue ''id'' hex) | Some i \<Rightarrow> Inr i)"

definition parse_hash :: "string \<Rightarrow> string \<Rightarrow> CliError + hash256" where
  "parse_hash flag hex = (case hex_decode hex of None \<Rightarrow> Inl (BadValue flag hex) | Some h \<Rightarrow> Inr h)"

text \<open>\<open>collect::<Result<Vec<_>, _>>()\<close>: the first error, or all values.\<close>

fun collect_results :: "('a \<Rightarrow> 'e + 'b) \<Rightarrow> 'a list \<Rightarrow> 'e + 'b list" where
  "collect_results f [] = Inr []"
| "collect_results f (x # xs) =
     (case f x of Inl e \<Rightarrow> Inl e
      | Inr y \<Rightarrow> (case collect_results f xs of Inl e \<Rightarrow> Inl e | Inr ys \<Rightarrow> Inr (y # ys)))"

text \<open>\<open>opt.map(f).transpose()\<close>.\<close>

definition transpose_result :: "('a \<Rightarrow> 'e + 'b) \<Rightarrow> 'a option \<Rightarrow> 'e + 'b option" where
  "transpose_result f x =
     (case x of None \<Rightarrow> Inr None
      | Some y \<Rightarrow> (case f y of Inl e \<Rightarrow> Inl e | Inr z \<Rightarrow> Inr (Some z)))"

definition split_spec :: "string \<Rightarrow> ArtifactRef option" where
  "split_spec spec =
     map_option
       (\<lambda>(scheme, r). case split_once CHR '':'' r of
            None \<Rightarrow> \<lparr>ar_scheme = scheme, ar_digest = r, ar_name = None\<rparr>
          | Some (digest, name) \<Rightarrow> \<lparr>ar_scheme = scheme, ar_digest = digest, ar_name = Some name\<rparr>)
       (split_once CHR '':'' spec)"

definition parse_artifact :: "string \<Rightarrow> CliError + ArtifactRef" where
  "parse_artifact spec =
     (case split_spec spec of None \<Rightarrow> Inl (BadValue ''artifact'' spec)
      | Some a \<Rightarrow> if \<not> artifact_ref_well_formed a then Inl (BadValue ''artifact'' spec) else Inr a)"

definition parse_artifacts :: "Parsed \<Rightarrow> CliError + ArtifactRef list option" where
  "parse_artifacts p =
     (case multi p ''artifact'' of None \<Rightarrow> Inr None
      | Some specs \<Rightarrow>
          (case collect_results parse_artifact specs of Inl e \<Rightarrow> Inl e
           | Inr refs \<Rightarrow> Inr (Some (remdups_adj (sort_key artifact_key refs)))))"

text \<open>
  \<open>checked_encode\<close>: the canonical bytes of a payload, once they decode again at its type with the
  bounds the type imposes.
\<close>

definition checked_encode :: "'z crates_scheme \<Rightarrow> (bytes \<Rightarrow> 'a option) \<Rightarrow> json \<Rightarrow> CliError + bytes" where
  "checked_encode C decode v =
     (case canonical_json C v of None \<Rightarrow> Inl (Refusal ''cannot encode'')
      | Some bs \<Rightarrow> (case decode bs of None \<Rightarrow> Inl (Refusal ''invalid payload'') | Some _ \<Rightarrow> Inr bs))"

end
