(* ===== verification/Cli_Host.thy ===== *)
theory Cli_Host
  imports Cli_Args
begin

text \<open>
  The world of the command line tool and the commands of \<open>src/src/bin/bellbook.rs\<close> that need no log:
  \<open>rules init\<close>, \<open>validate\<close> and \<open>key public\<close>.

  \<open>cli_env\<close> has what else the tool links: the parsers of rules, records and receipts, the key expansion of
  \<open>ed25519_dalek\<close> and the printers of \<open>serde_json\<close>: \<open>cl_to_string\<close> at the JSON form of the rules,
  and \<open>cl_prints\<close>, whether a report can be printed as JSON.  The host has files, log directories and
  worktrees by path; a path without a file cannot be read.  What a command prints is a value of
  \<open>Output\<close>; the flag of an output says whether it is printed as JSON.
\<close>

section \<open>Outputs\<close>

record CommitOutput =
  co_id :: string
  co_result :: string
  co_reason :: "ReasonCode option"

record LineageReport =
  li_id :: string
  li_kind :: string
  li_basis :: "CandidateBasis option"
  li_parent :: "string option"
  li_note :: "string option"
  li_tainted :: bool
  li_standing :: string
  li_ancestors :: "string list"
  li_children :: "string list"
  li_siblings :: "string list"
  li_considered_by :: "string list"
  li_selected_by :: "string list"

datatype QueryAnswer =
    ADescent DescentReport
  | ADescendants DescendantsReport
  | ASiblings SiblingsReport
  | AFrontier "FrontierEntry list"
  | AStanding StandingReport
  | AEvidence EvidenceReport
  | ASelected SelectedReport

datatype Output =
    RulesOut bytes
  | ReportText Report
  | ReportJson Report "bool list"
  | KeyOut string
  | CommitJson CommitOutput
  | CommitId string
  | ReceiptOut bytes
  | AnswerOut bool QueryAnswer
  | LineageOut bool LineageReport

section \<open>Environment and host\<close>

record cli_env =
  cl_rules_from_slice :: "bytes \<Rightarrow> VerifierRules option"
  cl_record_from_slice :: "bytes \<Rightarrow> Record option"
  cl_receipt_from_bytes :: "bytes \<Rightarrow> Receipt option"
  cl_signing_key :: "hash256 \<Rightarrow> Ed25519Signer"
  cl_to_string :: "json \<Rightarrow> bytes option"
  cl_prints :: "Output \<Rightarrow> bool"

record Host =
  ho_files :: "(string, bytes) mapping"
  ho_unwritable :: "string set"
  ho_dirs :: "(string, LogDir) mapping"
  ho_trees :: "string \<Rightarrow> fs_node"
  ho_stdout :: "Output list"
  ho_stdout_closed :: bool

definition read_file :: "Host \<Rightarrow> string \<Rightarrow> bytes option" where
  "read_file h path = Mapping.lookup (ho_files h) path"

definition write_file :: "string \<Rightarrow> bytes \<Rightarrow> Host \<Rightarrow> Host option" where
  "write_file path bs h =
     (if path \<in> ho_unwritable h then None else Some (h\<lparr>ho_files := Mapping.update path bs (ho_files h)\<rparr>))"

definition emit :: "Output \<Rightarrow> Host \<Rightarrow> Host" where
  "emit x h = h\<lparr>ho_stdout := ho_stdout h @ [x]\<rparr>"

type_synonym exit_code = nat

section \<open>rules init\<close>

definition parse_role :: "string \<Rightarrow> AuthorType option" where
  "parse_role s =
     (let t = to_ascii_lowercase s
      in if t = ''user'' then Some AUser
         else if t = ''provider'' then Some AProvider
         else if t = ''system'' then Some ASystem
         else if t = ''executor'' then Some AExecutor
         else if t = ''verifier'' then Some AVerifier
         else None)"

record RulesOptions =
  ro_authors :: "(string \<times> AuthorType) list"
  ro_admins :: "string list"
  ro_reaffirmers :: "string list"
  ro_max_context :: u32
  ro_out :: "string option"
  ro_signed :: bool
  ro_author_keys :: "(string \<times> hash256) list"

definition default_rules_options :: RulesOptions where
  "default_rules_options =
     \<lparr>ro_authors = [], ro_admins = [], ro_reaffirmers = [], ro_max_context = 200, ro_out = None,
      ro_signed = False, ro_author_keys = []\<rparr>"

definition add_author_key :: "string \<Rightarrow> RulesOptions \<Rightarrow> CliError + RulesOptions" where
  "add_author_key v opts =
     (case rsplit_once CHR '':'' v of None \<Rightarrow> Inl (BadValue ''author-key'' v)
      | Some (i, hex) \<Rightarrow>
          if i = [] then Inl (BadValue ''author-key'' v)
          else (case hex_decode hex of None \<Rightarrow> Inl (BadValue ''author-key'' v)
            | Some key \<Rightarrow> Inr (opts\<lparr>ro_author_keys := ro_author_keys opts @ [(i, key)]\<rparr>)))"

definition add_author :: "string \<Rightarrow> RulesOptions \<Rightarrow> CliError + RulesOptions" where
  "add_author v opts =
     (case split_once CHR '':'' v of None \<Rightarrow> Inl (BadValue ''author'' v)
      | Some (i, role) \<Rightarrow>
          if i = [] then Inl (BadValue ''author'' v)
          else (case parse_role role of None \<Rightarrow> Inl (BadValue ''author'' v)
            | Some t \<Rightarrow> Inr (opts\<lparr>ro_authors := ro_authors opts @ [(i, t)]\<rparr>)))"

definition rules_value :: "string \<Rightarrow> string \<Rightarrow> RulesOptions \<Rightarrow> CliError + RulesOptions" where
  "rules_value flag v opts =
     (if flag = ''--author-key'' then add_author_key v opts
      else if flag = ''--admin'' then
        (if v = [] then Inl (BadValue ''admin'' v) else Inr (opts\<lparr>ro_admins := ro_admins opts @ [v]\<rparr>))
      else if flag = ''--reaffirmer'' then
        (if v = [] then Inl (BadValue ''reaffirmer'' v) else Inr (opts\<lparr>ro_reaffirmers := ro_reaffirmers opts @ [v]\<rparr>))
      else if flag = ''--author'' then add_author v opts
      else if flag = ''--max-context'' then
        (case parse_unsigned 32 v of None \<Rightarrow> Inl (BadValue ''max-context'' v)
         | Some n \<Rightarrow> Inr (opts\<lparr>ro_max_context := of_nat n\<rparr>))
      else Inr (opts\<lparr>ro_out := Some v\<rparr>))"

fun rules_options :: "string list \<Rightarrow> RulesOptions \<Rightarrow> CliError + RulesOptions" where
  "rules_options [] opts = Inr opts"
| "rules_options (arg # rest) opts =
     (if arg = ''--signed'' then rules_options rest (opts\<lparr>ro_signed := True\<rparr>)
      else if arg \<in> set [''--author-key'', ''--admin'', ''--reaffirmer'', ''--author'', ''--max-context'', ''--out'']
      then (case rest of [] \<Rightarrow> Inl (Flags (RequiresValue arg))
        | v # rest' \<Rightarrow> (case rules_value arg v opts of Inl e \<Rightarrow> Inl e | Inr opts' \<Rightarrow> rules_options rest' opts'))
      else Inl (Refusal ''unexpected argument''))"

definition is_bound :: "RulesOptions \<Rightarrow> string \<Rightarrow> bool" where
  "is_bound opts i \<longleftrightarrow> i \<in> fst ` set (ro_authors opts)"

definition check_rules_options :: "RulesOptions \<Rightarrow> CliError option" where
  "check_rules_options opts =
     (if ro_authors opts = [] then Some (Refusal ''rules init needs at least one --author <id>:<role>'')
      else if \<not> list_all (is_bound opts) (ro_admins opts) then Some (Refusal ''--admin has no --author binding'')
      else if \<not> list_all (is_bound opts) (ro_reaffirmers opts) then Some (Refusal ''--reaffirmer has no --author binding'')
      else if \<not> list_all (is_bound opts) (map fst (ro_author_keys opts))
      then Some (Refusal ''--author-key has no --author binding'')
      else None)"

definition require_signatures :: "VerifierRules \<Rightarrow> VerifierRules" where
  "require_signatures R =
     R\<lparr>vr_signature_required_kinds := vr_signature_required_kinds R \<union> set SIGNED_KINDS\<rparr>"

definition pin_key :: "string \<times> hash256 \<Rightarrow> VerifierRules \<Rightarrow> VerifierRules" where
  "pin_key = (\<lambda>(i, key) R.
     R\<lparr>vr_author_keys :=
         Mapping.update i (insert key (Mapping.lookup_default {} (vr_author_keys R) i)) (vr_author_keys R)\<rparr>)"

definition starter_rules :: "'z crates_scheme \<Rightarrow> RulesOptions \<Rightarrow> VerifierRules" where
  "starter_rules C opts =
     (let R0 = with_baseline_thresholds (new_rules C (default_space C) (ro_max_context opts));
          R1 = fold (\<lambda>(i, role). with_author_role i role) (ro_authors opts) R0;
          R2 = fold with_admin_retraction_actor (ro_admins opts) R1;
          R3 = fold with_reaffirmation_actor (ro_reaffirmers opts) R2;
          R4 = (if ro_signed opts then require_signatures R3 else R3)
      in fold pin_key (ro_author_keys opts) R4)"

definition write_rules :: "'z env_scheme \<Rightarrow> cli_env \<Rightarrow> RulesOptions \<Rightarrow> Host \<Rightarrow> exit_code \<times> Host" where
  "write_rules E X opts h =
     (case cl_to_string X (rules_json (starter_rules E opts)) of None \<Rightarrow> (70, h)
      | Some bs \<Rightarrow>
          (case ro_out opts of None \<Rightarrow> (0, emit (RulesOut bs) h)
           | Some path \<Rightarrow> (case write_file path bs h of None \<Rightarrow> (66, h) | Some h' \<Rightarrow> (0, h'))))"

definition cmd_rules :: "'z env_scheme \<Rightarrow> cli_env \<Rightarrow> string list \<Rightarrow> Host \<Rightarrow> exit_code \<times> Host" where
  "cmd_rules E X rest h =
     (case rest of [] \<Rightarrow> (64, h)
      | sub # rest' \<Rightarrow>
          if sub \<noteq> ''init'' then (64, h)
          else (case rules_options rest' default_rules_options of Inl e \<Rightarrow> (64, h)
            | Inr opts \<Rightarrow> (case check_rules_options opts of Some e \<Rightarrow> (64, h) | None \<Rightarrow> write_rules E X opts h)))"

section \<open>validate\<close>

definition DEFAULT_MAX_SIZE :: u64 where
  "DEFAULT_MAX_SIZE = push_bit 20 64"

record ValidateOptions =
  vo_file :: "string option"
  vo_json :: bool
  vo_max_size :: u64
  vo_profiles :: "string list"

definition default_validate_options :: ValidateOptions where
  "default_validate_options =
     \<lparr>vo_file = None, vo_json = False, vo_max_size = DEFAULT_MAX_SIZE, vo_profiles = []\<rparr>"

fun validate_options :: "string list \<Rightarrow> ValidateOptions \<Rightarrow> CliError + ValidateOptions" where
  "validate_options [] opts = Inr opts"
| "validate_options (arg # rest) opts =
     (if arg = ''--json'' then validate_options rest (opts\<lparr>vo_json := True\<rparr>)
      else if arg = ''--require-profile'' then
        (case rest of [] \<Rightarrow> Inl (Flags (RequiresValue arg))
         | v # rest' \<Rightarrow>
             if v = [] \<or> starts_with ''-'' v then Inl (BadValue ''require-profile'' v)
             else validate_options rest' (opts\<lparr>vo_profiles := vo_profiles opts @ [v]\<rparr>))
      else if arg = ''--max-size'' then
        (case rest of [] \<Rightarrow> Inl (Flags (RequiresValue arg))
         | v # rest' \<Rightarrow>
             (case parse_unsigned 64 v of None \<Rightarrow> Inl (BadValue ''max-size'' v)
              | Some n \<Rightarrow> validate_options rest' (opts\<lparr>vo_max_size := (if n = 0 then - 1 else of_nat n)\<rparr>)))
      else if vo_file opts = None \<and> \<not> starts_with ''-'' arg
      then validate_options rest (opts\<lparr>vo_file := Some arg\<rparr>)
      else Inl (Refusal ''unexpected argument''))"

definition read_bounded :: "Host \<Rightarrow> string \<Rightarrow> u64 \<Rightarrow> bytes option" where
  "read_bounded h path max_size =
     (case read_file h path of None \<Rightarrow> None
      | Some content \<Rightarrow>
          let buf = take (unat (u64_saturating_add max_size 1)) content
          in if length buf > unat max_size then None else Some buf)"

definition report_output :: "bool \<Rightarrow> Report \<Rightarrow> Output" where
  "report_output json rep =
     (if json then ReportJson rep (map met (rep_profiles rep)) else ReportText rep)"

definition report_exit_code :: "Report \<Rightarrow> exit_code" where
  "report_exit_code rep =
     (let profile_missed = list_ex (\<lambda>p. \<not> met p) (rep_profiles rep)
      in case rep_status rep of Invalid \<Rightarrow> 1
         | Clean \<Rightarrow> if profile_missed then 3 else 0
         | Tainted \<Rightarrow> if profile_missed then 3 else 2)"

definition cmd_validate :: "'z env_scheme \<Rightarrow> cli_env \<Rightarrow> string list \<Rightarrow> Host \<Rightarrow> exit_code \<times> Host" where
  "cmd_validate E X rest h =
     (case validate_options rest default_validate_options of Inl e \<Rightarrow> (64, h)
      | Inr opts \<Rightarrow>
          (case vo_file opts of None \<Rightarrow> (64, h)
           | Some path \<Rightarrow>
               (case read_bounded h path (vo_max_size opts) of None \<Rightarrow> (66, h)
                | Some bs \<Rightarrow>
                    let limits = default_limits\<lparr>vl_max_bytes := unat (vo_max_size opts)\<rparr>;
                        rep = validate_with_profiles E (cl_receipt_from_bytes X) bs limits (vo_profiles opts);
                        out = report_output (vo_json opts) rep
                    in if vo_json opts \<and> \<not> cl_prints X out then (70, h)
                       else (report_exit_code rep, emit out h))))"

section \<open>Keys\<close>

text \<open>
  Bytes that are not UTF-8 do not trim to 64 hex characters, and both failures have the same message.
\<close>

definition read_signer :: "'z env_scheme \<Rightarrow> cli_env \<Rightarrow> Host \<Rightarrow> string \<Rightarrow> CliError + Ed25519Signer" where
  "read_signer E X h path =
     (case read_file h path of None \<Rightarrow> Inl (FileFailed path)
      | Some bs \<Rightarrow>
          if length bs = 32 then Inr (cl_signing_key X bs)
          else (case hex_decode (map (\<lambda>b. char_of (unat b)) (trim bs)) of None \<Rightarrow> Inl (FileFailed path)
            | Some secret \<Rightarrow> Inr (cl_signing_key X secret)))"

fun key_options :: "string list \<Rightarrow> string option \<Rightarrow> CliError + string option" where
  "key_options [] secret = Inr secret"
| "key_options (arg # rest) secret =
     (if arg = ''--secret''
      then (case rest of [] \<Rightarrow> Inl (Flags (RequiresValue arg)) | v # rest' \<Rightarrow> key_options rest' (Some v))
      else Inl (Refusal ''unexpected argument''))"

definition cmd_key :: "'z env_scheme \<Rightarrow> cli_env \<Rightarrow> string list \<Rightarrow> Host \<Rightarrow> exit_code \<times> Host" where
  "cmd_key E X rest h =
     (case rest of [] \<Rightarrow> (64, h)
      | sub # rest' \<Rightarrow>
          if sub \<noteq> ''public'' then (64, h)
          else (case key_options rest' None of Inl e \<Rightarrow> (64, h)
            | Inr None \<Rightarrow> (64, h)
            | Inr (Some path) \<Rightarrow>
                (case read_signer E X h path of Inl e \<Rightarrow> (66, h)
                 | Inr signer \<Rightarrow> (0, emit (KeyOut (public_key_hex signer)) h))))"

end
