(* ===== verification/Cli_Record.thy ===== *)
theory Cli_Record
  imports Cli_Host
begin

text \<open>
  The recording commands of \<open>src/src/bin/bellbook.rs\<close>.  All six open the log, look up the author,
  turn the flags into a proposal and commit it: \<open>record_command\<close> is that frame, and each command is a
  builder of proposals.  \<open>or_return\<close> is Rust's \<open>?\<close>.  A handle that goes out of scope is dropped, which
  releases the lock of its directory.
\<close>

section \<open>The frame of a recording command\<close>

definition or_return :: "'e + 'a \<Rightarrow> ('a \<Rightarrow> 'e + 'b) \<Rightarrow> 'e + 'b" where
  "or_return m f = (case m of Inl e \<Rightarrow> Inl e | Inr x \<Rightarrow> f x)"

definition refuse_if :: "bool \<Rightarrow> 'e \<Rightarrow> 'e + unit" where
  "refuse_if c e = (if c then Inl e else Inr ())"

definition load_rules :: "'z env_scheme \<Rightarrow> cli_env \<Rightarrow> Host \<Rightarrow> Parsed \<Rightarrow> CliError + VerifierRules" where
  "load_rules E X h p =
     or_return (required_flag p ''rules'') (\<lambda>path.
     case read_file h path of None \<Rightarrow> Inl (FileFailed path)
     | Some bs \<Rightarrow> (case cl_rules_from_slice X bs of None \<Rightarrow> Inl (FileFailed path) | Some R \<Rightarrow> Inr R))"

definition empty_dir :: LogDir where
  "empty_dir =
     \<lparr>ld_log = None, ld_synced = 0, ld_intent = None, ld_intent_tmp = None, ld_locked = False, ld_io = []\<rparr>"

definition dir_at :: "Host \<Rightarrow> string \<Rightarrow> LogDir" where
  "dir_at h path = Mapping.lookup_default empty_dir (ho_dirs h) path"

definition put_dir :: "string \<Rightarrow> LogDir \<Rightarrow> Host \<Rightarrow> Host" where
  "put_dir path d h = h\<lparr>ho_dirs := Mapping.update path d (ho_dirs h)\<rparr>"

definition drop_writer :: "string \<Rightarrow> LogWriter \<Rightarrow> Host \<Rightarrow> Host" where
  "drop_writer path w h = put_dir path (unlock (fl_dir (lw_log w))) h"

definition open_writer ::
  "'z env_scheme \<Rightarrow> cli_env \<Rightarrow> VerifierRules \<Rightarrow> string \<Rightarrow> Host \<Rightarrow> (CliError + LogWriter) \<times> Host" where
  "open_writer E X R path h =
     (case writer_open E (cl_record_from_slice X) R (dir_at h path) of
        Inl (e, d) \<Rightarrow> (Inl (LogRefused e), put_dir path d h)
      | Inr w \<Rightarrow> (Inr w, put_dir path (fl_dir (lw_log w)) h))"

definition open_log ::
  "'z env_scheme \<Rightarrow> cli_env \<Rightarrow> VerifierRules \<Rightarrow> string \<Rightarrow> Host \<Rightarrow> (CliError + LogWriter \<times> State) \<times> Host" where
  "open_log E X R path h =
     (case open_writer E X R path h of
        (Inl e, h1) \<Rightarrow> (Inl e, h1)
      | (Inr w, h1) \<Rightarrow>
          (case verify_and_build_state E (writer_records w) R of
             Inl _ \<Rightarrow> (Inl (Refusal ''the existing log does not verify under these rules''), drop_writer path w h1)
           | Inr s \<Rightarrow> (Inr (w, s), h1)))"

definition author_of :: "VerifierRules \<Rightarrow> Parsed \<Rightarrow> CliError + Author" where
  "author_of R p =
     or_return (required_flag p ''author'') (\<lambda>i.
     case Mapping.lookup (vr_author_roles R) i of None \<Rightarrow> Inl (BadValue ''author'' i)
     | Some t \<Rightarrow> Inr \<lparr>au_id = i, au_type = t, au_signature = None\<rparr>)"

definition signer_from :: "'z env_scheme \<Rightarrow> cli_env \<Rightarrow> Host \<Rightarrow> Parsed \<Rightarrow> CliError + Ed25519Signer option" where
  "signer_from E X h p = transpose_result (read_signer E X h) (single p ''sign-key'')"

definition commit_output :: "RecordId \<Rightarrow> VerdictData \<Rightarrow> CommitOutput" where
  "commit_output i verdict =
     \<lparr>co_id = hex_encode i,
      co_result = (if vd_result verdict = Accept then ''accept'' else ''reject''),
      co_reason = vd_reason verdict\<rparr>"

definition print_commit ::
  "'z env_scheme \<Rightarrow> cli_env \<Rightarrow> bool \<Rightarrow> RecordId \<Rightarrow> VerdictData \<Rightarrow> Host \<Rightarrow> (CliError + exit_code) \<times> Host" where
  "print_commit E X json i verdict h =
     (let accepted = (vd_result verdict = Accept); out = commit_output i verdict;
          code = (if accepted then 0 else 65)
      in if json then
           (if cl_prints X (CommitJson out) then (Inr code, emit (CommitJson out) h)
            else (Inl (Refusal ''cannot print''), h))
         else if accepted then (Inr code, emit (CommitId (co_id out)) h)
         else (Inr code, h))"

definition commit_and_print ::
  "'z env_scheme \<Rightarrow> cli_env \<Rightarrow> string \<Rightarrow> LogWriter \<Rightarrow> VerifierRules \<Rightarrow> State \<Rightarrow> Proposal \<Rightarrow> Parsed \<Rightarrow> Host
     \<Rightarrow> (CliError + exit_code) \<times> Host" where
  "commit_and_print E X path w R s pro p h =
     (case signer_from E X h p of
        Inl e \<Rightarrow> (Inl e, drop_writer path w h)
      | Inr signer \<Rightarrow>
          (case (case signer of Some k \<Rightarrow> commit_signed E R k pro | None \<Rightarrow> commit E R pro) (w, s) of
             (Inl e, w', s') \<Rightarrow> (Inl (CommitFailed e), drop_writer path w' h)
           | (Inr (i, verdict), w', s') \<Rightarrow>
               print_commit E X (''json'' \<in> pa_bools p) i verdict (drop_writer path w' h)))"

type_synonym 'z builder =
  "'z env_scheme \<Rightarrow> cli_env \<Rightarrow> Host \<Rightarrow> VerifierRules \<Rightarrow> Parsed \<Rightarrow> Author \<Rightarrow> LogWriter \<Rightarrow> State \<Rightarrow> CliError + Proposal"

definition record_command ::
  "'z env_scheme \<Rightarrow> cli_env \<Rightarrow> FlagNames \<Rightarrow> 'z builder \<Rightarrow> string list \<Rightarrow> Host \<Rightarrow> (CliError + exit_code) \<times> Host" where
  "record_command E X names build rest h =
     (case parse_args names rest of Inl e \<Rightarrow> (Inl e, h)
      | Inr p \<Rightarrow>
          (case load_rules E X h p of Inl e \<Rightarrow> (Inl e, h)
           | Inr R \<Rightarrow>
               (case required_flag p ''log'' of Inl e \<Rightarrow> (Inl e, h)
                | Inr path \<Rightarrow>
                    (case open_log E X R path h of
                       (Inl e, h1) \<Rightarrow> (Inl e, h1)
                     | (Inr (w, s), h1) \<Rightarrow>
                         (case or_return (author_of R p) (\<lambda>a. build E X h1 R p a w s) of
                            Inl e \<Rightarrow> (Inl e, drop_writer path w h1)
                          | Inr pro \<Rightarrow> commit_and_print E X path w R s pro p h1)))))"

text \<open>A command with the subcommand \<open>add\<close>.\<close>

definition add_command ::
  "'z env_scheme \<Rightarrow> cli_env \<Rightarrow> FlagNames \<Rightarrow> 'z builder \<Rightarrow> string list \<Rightarrow> Host \<Rightarrow> (CliError + exit_code) \<times> Host" where
  "add_command E X names build rest h =
     (case rest of [] \<Rightarrow> (Inl (BadSubcommand None), h)
      | sub # rest' \<Rightarrow>
          if sub \<noteq> ''add'' then (Inl (BadSubcommand (Some sub)), h)
          else record_command E X names build rest' h)"

definition cli_proposal ::
  "'z crates_scheme \<Rightarrow> VerifierRules \<Rightarrow> Author \<Rightarrow> Kind \<Rightarrow> string \<Rightarrow> bytes \<Rightarrow> Ref list \<Rightarrow> Proposal" where
  "cli_proposal C R a kind schema data refs =
     \<lparr>pro_space = vr_space R, pro_thread = vr_space R, pro_author = a, pro_kind = kind,
      pro_schema = schema_id C schema, pro_data = data, pro_refs = refs\<rparr>"

section \<open>request add\<close>

definition request_flags :: FlagNames where
  "request_flags =
     \<lparr>fn_singles = [''log'', ''rules'', ''author'', ''objective''], fn_multi = [], fn_bools = [''json'']\<rparr>"

definition build_request :: "'z builder" where
  "build_request E X h R p a w s =
     or_return (required_flag p ''objective'') (\<lambda>objective.
     or_return (checked_encode E (de_request E)
       (request_json \<lparr>req_objective = objective, req_scope = vr_space R, req_attachments = [],
                      req_parent_request_id = None\<rparr>)) (\<lambda>data.
     Inr (cli_proposal E R a KRequest SCHEMA_REQUEST data [])))"

definition request_cmd ::
  "'z env_scheme \<Rightarrow> cli_env \<Rightarrow> string list \<Rightarrow> Host \<Rightarrow> (CliError + exit_code) \<times> Host" where
  "request_cmd E X = add_command E X request_flags build_request"

section \<open>requirement add\<close>

definition requirement_flags :: FlagNames where
  "requirement_flags =
     \<lparr>fn_singles = [''log'', ''rules'', ''author'', ''request'', ''key'', ''description'',
                    ''expected-evidence'', ''provenance''],
      fn_multi = [], fn_bools = [''json'', ''optional'']\<rparr>"

definition accepted_in_log :: "State \<Rightarrow> LogWriter \<Rightarrow> Kind \<Rightarrow> RecordId \<Rightarrow> bool" where
  "accepted_in_log s w k i \<longleftrightarrow>
     i \<in> st_accepted_records s \<and> list_ex (\<lambda>r. rec_id r = i \<and> rec_kind r = k) (writer_records w)"

fun role_provenance :: "AuthorType \<Rightarrow> CliError + Provenance" where
  "role_provenance AUser = Inr UserAuthored"
| "role_provenance AProvider = Inr Derived"
| "role_provenance ASystem = Inr Derived"
| "role_provenance _ = Inl (Refusal ''role cannot author a Requirement'')"

definition stated_provenance :: "Provenance \<Rightarrow> string option \<Rightarrow> CliError + Provenance" where
  "stated_provenance role_default v =
     (case v of None \<Rightarrow> Inr role_default
      | Some t \<Rightarrow>
          if t = ''user-authored'' then Inr UserAuthored
          else if t = ''derived'' then Inr Derived
          else Inl (BadValue ''provenance'' t))"

definition build_requirement :: "'z builder" where
  "build_requirement E X h R p a w s =
     or_return (or_return (required_flag p ''request'') parse_id) (\<lambda>request.
     or_return (refuse_if (\<not> accepted_in_log s w KRequest request) (BadValue ''request'' (hex_encode request))) (\<lambda>_.
     or_return (required_flag p ''key'') (\<lambda>key.
     or_return (required_flag p ''description'') (\<lambda>description.
     or_return (refuse_if (key = [] \<or> description = []) (Refusal ''--key and --description must be non-empty'')) (\<lambda>_.
     or_return (role_provenance (au_type a)) (\<lambda>role_default.
     or_return (stated_provenance role_default (single p ''provenance'')) (\<lambda>provenance.
     or_return (refuse_if (provenance \<noteq> role_default) (Refusal ''provenance is bound to the author's role'')) (\<lambda>_.
     or_return (checked_encode E (de_requirement E)
       (requirement_json \<lparr>rqm_key = key, rqm_description = description,
                          rqm_required = (''optional'' \<notin> pa_bools p),
                          rqm_expected_evidence = single p ''expected-evidence'',
                          rqm_provenance = provenance\<rparr>)) (\<lambda>data.
     Inr (cli_proposal E R a KRequirement SCHEMA_REQUIREMENT data
            [\<lparr>ref_type = RCause, ref_target = request\<rparr>]))))))))))"

definition requirement_cmd ::
  "'z env_scheme \<Rightarrow> cli_env \<Rightarrow> string list \<Rightarrow> Host \<Rightarrow> (CliError + exit_code) \<times> Host" where
  "requirement_cmd E X = add_command E X requirement_flags build_requirement"

section \<open>candidate add\<close>

definition candidate_flags :: FlagNames where
  "candidate_flags =
     \<lparr>fn_singles = [''log'', ''rules'', ''author'', ''git-tree'', ''git-commit'', ''algo'', ''note'', ''manifest'',
                    ''continues'', ''parent'', ''upgrades''],
      fn_multi = [''derives-from'', ''artifact''], fn_bools = [''json'']\<rparr>"

definition find_candidate :: "'z env_scheme \<Rightarrow> Record list \<Rightarrow> RecordId \<Rightarrow> CandidateData option" where
  "find_candidate E rs i =
     Option.bind (List.find (\<lambda>r. rec_id r = i \<and> rec_kind r = KCandidate) rs) (\<lambda>r. de_candidate E (rec_data r))"

definition manifest_binding :: "'z crates_scheme \<Rightarrow> Host \<Rightarrow> string \<Rightarrow> CliError + hash256" where
  "manifest_binding C h path =
     (case manifest_from_dir C (ho_trees h path) Mapping.empty of Inl e \<Rightarrow> Inl (TreeRefused (Some e))
      | Inr entries \<Rightarrow> (case manifest_hash C entries of None \<Rightarrow> Inl (TreeRefused None) | Some x \<Rightarrow> Inr x))"

definition parse_algo :: "string option \<Rightarrow> CliError + SourceAlgo" where
  "parse_algo v =
     (case v of None \<Rightarrow> Inr Sha1
      | Some t \<Rightarrow> if t = ''sha1'' then Inr Sha1 else if t = ''sha256'' then Inr Sha256 else Inl (BadValue ''algo'' t))"

definition cause_to :: "RecordId \<Rightarrow> Ref" where
  "cause_to i = \<lparr>ref_type = RCause, ref_target = i\<rparr>"

definition upgrade_target ::
  "'z env_scheme \<Rightarrow> LogWriter \<Rightarrow> State \<Rightarrow> string \<Rightarrow> string \<Rightarrow> CliError + RecordId" where
  "upgrade_target E w s tree hex =
     or_return (parse_id hex) (\<lambda>target.
     case find_candidate E (writer_records w) target of
       None \<Rightarrow> Inl (Refusal ''--upgrades target is not a Candidate in this log'')
     | Some d \<Rightarrow>
         or_return (refuse_if (target \<notin> st_accepted_records s)
           (Refusal ''--upgrades target is not an accepted Candidate'')) (\<lambda>_.
         or_return (refuse_if (target \<in> st_retracted_records s) (Refusal ''--upgrades target is retracted'')) (\<lambda>_.
         or_return (refuse_if (git_tree (sb_git (cnd_source d)) \<noteq> tree)
           (Refusal ''refusing upgrade: the trees differ'')) (\<lambda>_.
         Inr target))))"

definition candidate_lineage ::
  "'z env_scheme \<Rightarrow> LogWriter \<Rightarrow> State \<Rightarrow> Parsed \<Rightarrow> string \<Rightarrow> CliError + CandidateBasis \<times> RecordId option \<times> Ref list" where
  "candidate_lineage E w s p tree =
     (case (single p ''continues'', multi p ''derives-from'', single p ''upgrades'') of
        (Some sel, _, _) \<Rightarrow>
          or_return (or_return (required_flag p ''parent'') parse_id) (\<lambda>parent.
          or_return (parse_id sel) (\<lambda>i. Inr (Continuation, Some parent, [cause_to i])))
      | (None, Some ids, _) \<Rightarrow>
          or_return (collect_results parse_id ids) (\<lambda>is. Inr (Derivation, None, map cause_to is))
      | (None, None, Some hex) \<Rightarrow>
          or_return (upgrade_target E w s tree hex) (\<lambda>i. Inr (Derivation, None, [cause_to i]))
      | (None, None, None) \<Rightarrow> Inr (Root, None, []))"

definition source_of :: "'z crates_scheme \<Rightarrow> Host \<Rightarrow> Parsed \<Rightarrow> SourceAlgo \<Rightarrow> string \<Rightarrow> CliError + SourceBinding" where
  "source_of C h p algo tree =
     or_return (transpose_result (manifest_binding C h) (single p ''manifest'')) (\<lambda>m.
     Inr \<lparr>sb_git = \<lparr>git_algo = algo, git_tree = tree, git_commit = single p ''git-commit''\<rparr>,
          sb_manifest_hash = m, sb_binding = (if m = None then BindReported else BindManifest)\<rparr>)"

definition n_basis :: "Parsed \<Rightarrow> nat" where
  "n_basis p =
     length (filter (\<lambda>b. b) [single p ''continues'' \<noteq> None, multi p ''derives-from'' \<noteq> None, single p ''upgrades'' \<noteq> None])"

definition build_candidate :: "'z builder" where
  "build_candidate E X h R p a w s =
     or_return (parse_algo (single p ''algo'')) (\<lambda>algo.
     or_return (required_flag p ''git-tree'') (\<lambda>tree.
     or_return (refuse_if (n_basis p > 1)
       (Refusal ''--continues, --derives-from, and --upgrades are mutually exclusive'')) (\<lambda>_.
     or_return (refuse_if (single p ''continues'' = None \<and> single p ''parent'' \<noteq> None)
       (Refusal ''--parent is only valid with --continues'')) (\<lambda>_.
     or_return (candidate_lineage E w s p tree) (\<lambda>(basis, parent, refs).
     or_return (source_of E h p algo tree) (\<lambda>source.
     or_return (parse_artifacts p) (\<lambda>artifacts.
     or_return (checked_encode E (de_candidate E)
       (candidate_json \<lparr>cnd_source = source, cnd_basis = basis, cnd_parent = parent,
                        cnd_note = single p ''note'', cnd_artifacts = artifacts\<rparr>)) (\<lambda>data.
     Inr (cli_proposal E R a KCandidate SCHEMA_CANDIDATE data refs)))))))))"

definition candidate_cmd ::
  "'z env_scheme \<Rightarrow> cli_env \<Rightarrow> string list \<Rightarrow> Host \<Rightarrow> (CliError + exit_code) \<times> Host" where
  "candidate_cmd E X = add_command E X candidate_flags build_candidate"

section \<open>eval add\<close>

definition eval_flags :: FlagNames where
  "eval_flags =
     \<lparr>fn_singles = [''log'', ''rules'', ''author'', ''candidate'', ''criterion'', ''procedure'', ''score'', ''scale'',
                    ''evaluator'', ''evaluator-version'', ''procedure-hash'', ''input-hash'', ''basis''],
      fn_multi = [''uses'', ''requirement'', ''artifact''],
      fn_bools = [''json'', ''passed'', ''failed'', ''blocked'', ''insufficient'', ''stale'', ''not-run'', ''attested'']\<rparr>"

definition unit_outcome_flags :: "(string \<times> EvaluationOutcomeV2) list" where
  "unit_outcome_flags =
     [(''passed'', Ev2Passed), (''failed'', Ev2Failed), (''blocked'', Ev2Blocked),
      (''insufficient'', Ev2Insufficient), (''stale'', Ev2Stale), (''not-run'', Ev2NotRun)]"

definition scored_of :: "Parsed \<Rightarrow> CliError + ScoredValue option" where
  "scored_of p =
     (case single p ''score'' of None \<Rightarrow> Inr None
      | Some score \<Rightarrow>
          (case parse_i64 score of None \<Rightarrow> Inl (BadValue ''score'' score)
           | Some n \<Rightarrow>
               or_return (required_flag p ''scale'') (\<lambda>scale.
               case parse_unsigned 8 scale of None \<Rightarrow> Inl (BadValue ''scale'' scale)
               | Some m \<Rightarrow> Inr (Some \<lparr>sv_value = n, sv_scale = of_nat m\<rparr>))))"

definition outcome_of :: "Parsed \<Rightarrow> CliError + EvaluationOutcomeV2" where
  "outcome_of p =
     or_return (scored_of p) (\<lambda>scored.
     let outcomes = map snd (filter (\<lambda>f. fst f \<in> pa_bools p) unit_outcome_flags)
                    @ (case scored of None \<Rightarrow> [] | Some sv \<Rightarrow> [Ev2Scored sv])
     in case outcomes of [out] \<Rightarrow> Inr out | _ \<Rightarrow> Inl (Refusal ''exactly one outcome is required''))"

definition extended_flags :: "Parsed \<Rightarrow> string list" where
  "extended_flags p =
     filter (\<lambda>f. single p f \<noteq> None) [''evaluator'', ''evaluator-version'', ''procedure-hash'', ''input-hash'', ''basis'']
     @ filter (\<lambda>f. multi p f \<noteq> None) [''requirement'', ''artifact'']
     @ filter (\<lambda>f. f \<in> pa_bools p) [''blocked'', ''insufficient'', ''stale'', ''not-run'']"

definition requirements_of :: "LogWriter \<Rightarrow> State \<Rightarrow> Parsed \<Rightarrow> CliError + RecordId list" where
  "requirements_of w s p =
     or_return (transpose_result (collect_results parse_id) (multi p ''requirement'')) (\<lambda>ids.
     let requirements = remdups_adj (sort (case ids of None \<Rightarrow> [] | Some is \<Rightarrow> is))
     in case List.find (\<lambda>i. \<not> accepted_in_log s w KRequirement i) requirements of
          Some i \<Rightarrow> Inl (BadValue ''requirement'' (hex_encode i))
        | None \<Rightarrow> Inr requirements)"

definition use_of :: "RecordId \<Rightarrow> Ref" where
  "use_of i = \<lparr>ref_type = RUse, ref_target = i\<rparr>"

definition parse_basis :: "string \<Rightarrow> CliError + Basis" where
  "parse_basis t =
     (if t = ''recomputed'' then Inr Recomputed
      else if t = ''declared'' then Inr Declared
      else Inl (BadValue ''basis'' t))"

definition extended_payload ::
  "'z env_scheme \<Rightarrow> Parsed \<Rightarrow> RecordId \<Rightarrow> string \<Rightarrow> EvaluationOutcomeV2 \<Rightarrow> RecordId list
     \<Rightarrow> CliError + string \<times> bytes" where
  "extended_payload E p candidate criterion out requirements =
     or_return (required_flag p ''evaluator'') (\<lambda>evaluator.
     or_return (refuse_if (evaluator = []) (Refusal ''--evaluator must be non-empty'')) (\<lambda>_.
     or_return (or_return (required_flag p ''basis'') parse_basis) (\<lambda>basis.
     or_return (transpose_result (parse_hash ''procedure-hash'') (single p ''procedure-hash'')) (\<lambda>procedure_hash.
     or_return (transpose_result (parse_hash ''input-hash'') (single p ''input-hash'')) (\<lambda>input_hash.
     or_return (parse_artifacts p) (\<lambda>artifacts.
     or_return (checked_encode E (decode_evaluation_v2 E)
       (evaluation_v2_json
          \<lparr>ev2_candidate = candidate, ev2_criterion = criterion, ev2_procedure = single p ''procedure'',
           ev2_outcome = out,
           ev2_evaluator = \<lparr>db_id = evaluator, db_version = single p ''evaluator-version'',
                            db_procedure_hash = procedure_hash, db_input_hash = input_hash\<rparr>,
           ev2_basis = basis, ev2_evidence = (case artifacts of None \<Rightarrow> [] | Some as \<Rightarrow> as),
           ev2_requirements = requirements\<rparr>)) (\<lambda>data.
     if ''attested'' \<in> pa_bools p
     then or_return (refuse_if (single p ''sign-key'' = None) (Refusal ''--attested requires --sign-key'')) (\<lambda>_.
            Inr (SCHEMA_EVALUATION_ATTESTED, data))
     else Inr (SCHEMA_EVALUATION_V2, data))))))))"

text \<open>The fail-closed outcomes select the extended shape, so the last branch is not reached.\<close>

fun outcome_v1 :: "EvaluationOutcomeV2 \<Rightarrow> EvaluationOutcome option" where
  "outcome_v1 Ev2Passed = Some EvPassed"
| "outcome_v1 Ev2Failed = Some EvFailed"
| "outcome_v1 (Ev2Scored s) = Some (EvScored s)"
| "outcome_v1 _ = None"

definition plain_payload ::
  "'z env_scheme \<Rightarrow> Parsed \<Rightarrow> RecordId \<Rightarrow> string \<Rightarrow> EvaluationOutcomeV2 \<Rightarrow> CliError + string \<times> bytes" where
  "plain_payload E p candidate criterion out =
     or_return (refuse_if (''attested'' \<in> pa_bools p) (Refusal ''--attested requires the extended shape'')) (\<lambda>_.
     case outcome_v1 out of None \<Rightarrow> Inl (Refusal ''unreachable'')
     | Some out1 \<Rightarrow>
         or_return (checked_encode E (decode_evaluation E)
           (evaluation_json \<lparr>evl_candidate = candidate, evl_criterion = criterion,
                             evl_procedure = single p ''procedure'', evl_outcome = out1\<rparr>)) (\<lambda>data.
         Inr (SCHEMA_EVALUATION, data)))"

definition build_eval :: "'z builder" where
  "build_eval E X h R p a w s =
     or_return (or_return (required_flag p ''candidate'') parse_id) (\<lambda>candidate.
     or_return (required_flag p ''criterion'') (\<lambda>criterion.
     or_return (outcome_of p) (\<lambda>out.
     let extended = (extended_flags p \<noteq> []) in
     or_return (refuse_if (extended \<and> \<not> (single p ''evaluator'' \<noteq> None \<and> single p ''basis'' \<noteq> None))
       (Refusal ''the extended evaluation requires both --evaluator and --basis'')) (\<lambda>_.
     or_return (requirements_of w s p) (\<lambda>requirements.
     or_return (collect_results parse_id (case multi p ''uses'' of None \<Rightarrow> [] | Some extra \<Rightarrow> extra)) (\<lambda>extra.
     or_return (if extended then extended_payload E p candidate criterion out requirements
                else plain_payload E p candidate criterion out) (\<lambda>(schema, data).
     Inr (cli_proposal E R a KEvaluation schema data
            (use_of candidate # map use_of requirements @ map use_of extra)))))))))"

definition eval_cmd ::
  "'z env_scheme \<Rightarrow> cli_env \<Rightarrow> string list \<Rightarrow> Host \<Rightarrow> (CliError + exit_code) \<times> Host" where
  "eval_cmd E X = add_command E X eval_flags build_eval"

section \<open>retract\<close>

definition retract_flags :: FlagNames where
  "retract_flags =
     \<lparr>fn_singles = [''log'', ''rules'', ''author'', ''target'', ''reason''], fn_multi = [], fn_bools = [''json'']\<rparr>"

definition build_retract :: "'z builder" where
  "build_retract E X h R p a w s =
     or_return (or_return (required_flag p ''target'') parse_id) (\<lambda>target.
     or_return (required_flag p ''reason'') (\<lambda>reason.
     or_return (checked_encode E (de_retraction E)
       (retraction_json \<lparr>rtr_target_id = target, rtr_reason = reason\<rparr>)) (\<lambda>data.
     Inr (cli_proposal E R a KRetraction SCHEMA_RETRACTION data [cause_to target]))))"

definition retract_cmd ::
  "'z env_scheme \<Rightarrow> cli_env \<Rightarrow> string list \<Rightarrow> Host \<Rightarrow> (CliError + exit_code) \<times> Host" where
  "retract_cmd E X = record_command E X retract_flags build_retract"

section \<open>select\<close>

definition select_flags :: FlagNames where
  "select_flags =
     \<lparr>fn_singles = [''log'', ''rules'', ''author'', ''objective'', ''rationale'', ''replaces''],
      fn_multi = [''consider'', ''choose'', ''uses-eval''], fn_bools = [''json'', ''none'']\<rparr>"

definition require_of :: "RecordId \<Rightarrow> Ref" where
  "require_of i = \<lparr>ref_type = RRequire, ref_target = i\<rparr>"

definition selection_of :: "Parsed \<Rightarrow> CliError + SelectionOutcome \<times> Ref list" where
  "selection_of p =
     (case multi p ''choose'' of
        None \<Rightarrow> Inr (NoneSelected, [])
      | Some chosen \<Rightarrow>
          or_return (collect_results parse_id chosen) (\<lambda>winners.
          case multi p ''uses-eval'' of
            None \<Rightarrow> Inl (Refusal ''--choose requires --uses-eval with at least one evaluation'')
          | Some evals \<Rightarrow>
              or_return (collect_results parse_id evals) (\<lambda>is.
              Inr (Selected winners, map require_of winners @ map use_of is))))"

definition build_select :: "'z builder" where
  "build_select E X h R p a w s =
     or_return (required_flag p ''objective'') (\<lambda>objective.
     or_return (case multi p ''consider'' of
                  None \<Rightarrow> Inl (Refusal ''--consider requires at least one candidate id'')
                | Some ids \<Rightarrow> collect_results parse_id ids) (\<lambda>considered.
     or_return (refuse_if ((''none'' \<in> pa_bools p) = (multi p ''choose'' \<noteq> None))
       (Refusal ''exactly one of --choose or --none is required'')) (\<lambda>_.
     or_return (selection_of p) (\<lambda>(out, refs).
     or_return (transpose_result parse_id (single p ''replaces'')) (\<lambda>replaces.
     or_return (checked_encode E (decode_selection E)
       (selection_json \<lparr>sel_objective = objective, sel_considered = considered, sel_outcome = out,
                        sel_rationale = single p ''rationale''\<rparr>)) (\<lambda>data.
     Inr (cli_proposal E R a KSelection SCHEMA_SELECTION data
            (refs @ (case replaces of None \<Rightarrow> [] | Some i \<Rightarrow> [\<lparr>ref_type = RReplace, ref_target = i\<rparr>])))))))))"

definition select_cmd ::
  "'z env_scheme \<Rightarrow> cli_env \<Rightarrow> string list \<Rightarrow> Host \<Rightarrow> (CliError + exit_code) \<times> Host" where
  "select_cmd E X = record_command E X select_flags build_select"

end
