(* ===== verification/Cli_Read.thy ===== *)
theory Cli_Read
  imports Cli_Record
begin

text \<open>
  The commands of \<open>src/src/bin/bellbook.rs\<close> that read a log or a receipt (\<open>export\<close>, \<open>query\<close>,
  \<open>lineage\<close>) and the dispatch of \<open>main\<close>.  The loop of \<open>lineage\<close> over the parents of a candidate follows
  whatever the records name: a run that does not return is \<open>None\<close>.
\<close>

section \<open>export\<close>

definition export_flags :: FlagNames where
  "export_flags = \<lparr>fn_singles = [''log'', ''rules'', ''out''], fn_multi = [''profile''], fn_bools = []\<rparr>"

definition export_bytes ::
  "'z crates_scheme \<Rightarrow> Record list \<Rightarrow> VerifierRules \<Rightarrow> Parsed \<Rightarrow> CliError + bytes" where
  "export_bytes C rs R p =
     (case with_declared_profiles C (receipt_new rs R) (case multi p ''profile'' of None \<Rightarrow> [] | Some ids \<Rightarrow> ids) of
        Inl e \<Rightarrow> Inl (DeclareFailed e)
      | Inr rc \<Rightarrow> (case to_bytes C rc of None \<Rightarrow> Inl (Refusal ''cannot serialize receipt'') | Some bs \<Rightarrow> Inr bs))"

definition write_receipt :: "Parsed \<Rightarrow> bytes \<Rightarrow> Host \<Rightarrow> (CliError + exit_code) \<times> Host" where
  "write_receipt p bs h =
     (case single p ''out'' of
        Some path \<Rightarrow> (case write_file path bs h of None \<Rightarrow> (Inl (FileFailed path), h) | Some h' \<Rightarrow> (Inr 0, h'))
      | None \<Rightarrow> if ho_stdout_closed h then (Inl (FileFailed ''stdout''), h) else (Inr 0, emit (ReceiptOut bs) h))"

definition export_cmd :: "'z env_scheme \<Rightarrow> cli_env \<Rightarrow> string list \<Rightarrow> Host \<Rightarrow> (CliError + exit_code) \<times> Host" where
  "export_cmd E X rest h =
     (case parse_args export_flags rest of Inl e \<Rightarrow> (Inl e, h)
      | Inr p \<Rightarrow>
          (case load_rules E X h p of Inl e \<Rightarrow> (Inl e, h)
           | Inr R \<Rightarrow>
               (case required_flag p ''log'' of Inl e \<Rightarrow> (Inl e, h)
                | Inr path \<Rightarrow>
                    (case open_log E X R path h of
                       (Inl e, h1) \<Rightarrow> (Inl e, h1)
                     | (Inr (w, s), h1) \<Rightarrow>
                         (case export_bytes E (writer_records w) R p of
                            Inl e \<Rightarrow> (Inl e, drop_writer path w h1)
                          | Inr bs \<Rightarrow> write_receipt p bs (drop_writer path w h1))))))"

section \<open>query\<close>

definition query_flags :: FlagNames where
  "query_flags = \<lparr>fn_singles = [''log'', ''rules'', ''receipt''], fn_multi = [], fn_bools = [''json'']\<rparr>"

definition check_query_input :: "Parsed \<Rightarrow> CliError option" where
  "check_query_input p =
     first_reason
       [reject_if ((single p ''log'' \<noteq> None) = (single p ''receipt'' \<noteq> None))
          (Refusal ''query requires exactly one input: --log with --rules, or --receipt''),
        reject_if (single p ''receipt'' \<noteq> None \<and> single p ''rules'' \<noteq> None)
          (Refusal ''--rules is not valid with --receipt''),
        reject_if (length (pa_positionals p) > 1) (Refusal ''query takes at most one argument'')]"

definition log_input ::
  "'z env_scheme \<Rightarrow> cli_env \<Rightarrow> Parsed \<Rightarrow> Host \<Rightarrow> (CliError + Record list \<times> VerifierRules) \<times> Host" where
  "log_input E X p h =
     (case or_return (load_rules E X h p) (\<lambda>R. or_return (required_flag p ''log'') (\<lambda>path. Inr (R, path))) of
        Inl e \<Rightarrow> (Inl e, h)
      | Inr (R, path) \<Rightarrow>
          (case open_writer E X R path h of
             (Inl e, h1) \<Rightarrow> (Inl e, h1)
           | (Inr w, h1) \<Rightarrow> (Inr (writer_records w, R), drop_writer path w h1)))"

definition receipt_input :: "'z env_scheme \<Rightarrow> cli_env \<Rightarrow> Parsed \<Rightarrow> Host \<Rightarrow> CliError + Record list \<times> VerifierRules" where
  "receipt_input E X p h =
     or_return (required_flag p ''receipt'') (\<lambda>path.
     case read_file h path of None \<Rightarrow> Inl (FileFailed path)
     | Some bs \<Rightarrow>
         let rep = validate E (cl_receipt_from_bytes X) bs
         in if rep_status rep = Invalid then Inl (ReceiptInvalid (rep_problem rep) (rep_reason rep))
            else (case cl_receipt_from_bytes X bs of None \<Rightarrow> Inl (FileFailed path)
              | Some rc \<Rightarrow> Inr (rcp_records rc, rcp_rules rc)))"

definition query_input ::
  "'z env_scheme \<Rightarrow> cli_env \<Rightarrow> Parsed \<Rightarrow> Host \<Rightarrow> (CliError + Record list \<times> VerifierRules) \<times> Host" where
  "query_input E X p h = (if single p ''log'' \<noteq> None then log_input E X p h else (receipt_input E X p h, h))"

definition arg_id :: "Parsed \<Rightarrow> CliError + RecordId" where
  "arg_id p =
     (case pa_positionals p of [] \<Rightarrow> Inl (Refusal ''query requires a record id'') | hex # _ \<Rightarrow> parse_id hex)"

definition id_query ::
  "Parsed \<Rightarrow> (RecordId \<Rightarrow> QueryError + 'r) \<Rightarrow> ('r \<Rightarrow> QueryAnswer) \<Rightarrow> CliError + QueryAnswer" where
  "id_query p run answer =
     or_return (arg_id p) (\<lambda>i. case run i of Inl e \<Rightarrow> Inl (QueryFailed e) | Inr r \<Rightarrow> Inr (answer r))"

definition run_query :: "'z env_scheme \<Rightarrow> Queries \<Rightarrow> string \<Rightarrow> Parsed \<Rightarrow> CliError + QueryAnswer" where
  "run_query E q name p =
     (if name = ''descent'' then id_query p (descent E q) ADescent
      else if name = ''descendants'' then id_query p (descendants E q) ADescendants
      else if name = ''siblings'' then id_query p (siblings E q) ASiblings
      else if name = ''frontier'' then
        (if pa_positionals p \<noteq> [] then Inl (Refusal ''query frontier takes no argument'')
         else Inr (AFrontier (frontier E q)))
      else if name = ''standing'' then id_query p (standing E q) AStanding
      else if name = ''evidence'' then id_query p (evidence E q) AEvidence
      else if name = ''selected'' then
        (case pa_positionals p of [] \<Rightarrow> Inl (Refusal ''query selected requires an objective string'')
         | objective # _ \<Rightarrow> Inr (ASelected (selected E q objective)))
      else Inl (Refusal ''unknown query''))"

definition print_answer :: "'z env_scheme \<Rightarrow> cli_env \<Rightarrow> Output \<Rightarrow> bool \<Rightarrow> Host \<Rightarrow> (CliError + exit_code) \<times> Host" where
  "print_answer E X out json h =
     (if json \<and> \<not> cl_prints X out then (Inl (Refusal ''cannot print''), h) else (Inr 0, emit out h))"

definition query_cmd :: "'z env_scheme \<Rightarrow> cli_env \<Rightarrow> string list \<Rightarrow> Host \<Rightarrow> (CliError + exit_code) \<times> Host" where
  "query_cmd E X rest h =
     (case rest of [] \<Rightarrow> (Inl (BadSubcommand None), h)
      | name # rest' \<Rightarrow>
          (case parse_args query_flags rest' of Inl e \<Rightarrow> (Inl e, h)
           | Inr p \<Rightarrow>
               (case check_query_input p of Some e \<Rightarrow> (Inl e, h)
                | None \<Rightarrow>
                    (case query_input E X p h of
                       (Inl e, h1) \<Rightarrow> (Inl e, h1)
                     | (Inr (rs, R), h1) \<Rightarrow>
                         (case queries_new E rs R of Inl e \<Rightarrow> (Inl (QueryFailed e), h1)
                          | Inr q \<Rightarrow>
                              (case run_query E q name p of Inl e \<Rightarrow> (Inl e, h1)
                               | Inr ans \<Rightarrow>
                                   let json = (''json'' \<in> pa_bools p)
                                   in print_answer E X (AnswerOut json ans) json h1))))))"

section \<open>lineage\<close>

definition lineage_flags :: FlagNames where
  "lineage_flags = \<lparr>fn_singles = [''log'', ''rules''], fn_multi = [], fn_bools = [''json'']\<rparr>"

partial_function (option) parent_chain ::
  "'z env_scheme \<Rightarrow> Record list \<Rightarrow> RecordId option \<Rightarrow> RecordId list \<Rightarrow> RecordId list option" where
  "parent_chain E rs cur acc =
     (case cur of None \<Rightarrow> Some acc
      | Some i \<Rightarrow> parent_chain E rs (Option.bind (find_candidate E rs i) cnd_parent) (acc @ [i]))"

definition candidate_of :: "'z env_scheme \<Rightarrow> Record \<Rightarrow> CandidateData option" where
  "candidate_of E r = (if rec_kind r = KCandidate then de_candidate E (rec_data r) else None)"

definition selection_in :: "'z env_scheme \<Rightarrow> Record \<Rightarrow> SelectionData option" where
  "selection_in E r = (if rec_kind r = KSelection then decode_selection E (rec_data r) else None)"

definition is_child :: "'z env_scheme \<Rightarrow> RecordId \<Rightarrow> Record \<Rightarrow> bool" where
  "is_child E target r =
     (case candidate_of E r of None \<Rightarrow> False
      | Some cd \<Rightarrow>
          (cnd_parent cd = Some target \<or> list_ex (\<lambda>e. ref_type e = RCause \<and> ref_target e = target) (rec_refs r))
          \<and> rec_id r \<noteq> target)"

definition is_sibling :: "'z env_scheme \<Rightarrow> RecordId \<Rightarrow> RecordId option \<Rightarrow> Record \<Rightarrow> bool" where
  "is_sibling E target target_parent r =
     (case candidate_of E r of None \<Rightarrow> False
      | Some cd \<Rightarrow> rec_id r \<noteq> target \<and> target_parent \<noteq> None \<and> cnd_parent cd = target_parent)"

definition considers :: "'z env_scheme \<Rightarrow> RecordId \<Rightarrow> Record \<Rightarrow> bool" where
  "considers E target r =
     (case selection_in E r of None \<Rightarrow> False | Some sd \<Rightarrow> target \<in> set (sel_considered sd))"

definition selects_it :: "'z env_scheme \<Rightarrow> RecordId \<Rightarrow> Record \<Rightarrow> bool" where
  "selects_it E target r =
     (case selection_in E r of None \<Rightarrow> False | Some sd \<Rightarrow> target \<in> chosen_of (sel_outcome sd))"

definition lineage_standing :: "LogVerdict \<Rightarrow> Record \<Rightarrow> string" where
  "lineage_standing verdict r =
     (if rec_kind r = KCandidate then
        (if rec_id r \<in> sg_compromised (lv_standing verdict) then ''compromised'' else ''sound'')
      else if rec_kind r = KSelection then
        (if rec_id r \<in> sg_unsound (lv_standing verdict) then ''unsound'' else ''sound'')
      else ''n/a'')"

definition ids_where :: "(Record \<Rightarrow> bool) \<Rightarrow> Record list \<Rightarrow> string list" where
  "ids_where P rs = map (\<lambda>r. hex_encode (rec_id r)) (filter P rs)"

definition lineage_report ::
  "'z env_scheme \<Rightarrow> Record list \<Rightarrow> LogVerdict \<Rightarrow> Record \<Rightarrow> LineageReport option" where
  "lineage_report E rs verdict r =
     (let target = rec_id r; cand = candidate_of E r; parent = Option.bind cand cnd_parent
      in map_option (\<lambda>ancestors.
           \<lparr>li_id = hex_encode target, li_kind = kind_name (rec_kind r), li_basis = map_option cnd_basis cand,
            li_parent = map_option hex_encode parent, li_note = Option.bind cand cnd_note,
            li_tainted = (target \<in> lv_tainted_records verdict), li_standing = lineage_standing verdict r,
            li_ancestors = map hex_encode ancestors,
            li_children = ids_where (is_child E target) rs,
            li_siblings = ids_where (is_sibling E target parent) rs,
            li_considered_by = ids_where (considers E target) rs,
            li_selected_by = ids_where (selects_it E target) rs\<rparr>) (parent_chain E rs parent []))"

definition lineage_target :: "'z env_scheme \<Rightarrow> Record list \<Rightarrow> VerifierRules \<Rightarrow> RecordId \<Rightarrow> CliError + LogVerdict \<times> Record" where
  "lineage_target E rs R target =
     (let verdict = verify_log E rs R None
      in if lv_result verdict \<noteq> Accept then Inl (Refusal ''the log does not verify under these rules'')
         else (case List.find (\<lambda>r. rec_id r = target) rs of
             None \<Rightarrow> Inl (Refusal ''record not found in the log'')
           | Some r \<Rightarrow> Inr (verdict, r)))"

definition lineage_args :: "'z env_scheme \<Rightarrow> cli_env \<Rightarrow> Parsed \<Rightarrow> Host \<Rightarrow> CliError + VerifierRules \<times> string \<times> RecordId" where
  "lineage_args E X p h =
     or_return (load_rules E X h p) (\<lambda>R.
     or_return (required_flag p ''log'') (\<lambda>path.
     case pa_positionals p of [] \<Rightarrow> Inl (Refusal ''lineage requires a record id'')
     | hex # _ \<Rightarrow> or_return (parse_id hex) (\<lambda>target. Inr (R, path, target))))"

definition lineage_cmd ::
  "'z env_scheme \<Rightarrow> cli_env \<Rightarrow> string list \<Rightarrow> Host \<Rightarrow> ((CliError + exit_code) \<times> Host) option" where
  "lineage_cmd E X rest h =
     (case parse_args lineage_flags rest of Inl e \<Rightarrow> Some (Inl e, h)
      | Inr p \<Rightarrow>
          (case lineage_args E X p h of Inl e \<Rightarrow> Some (Inl e, h)
           | Inr (R, path, target) \<Rightarrow>
               (case open_writer E X R path h of
                  (Inl e, h1) \<Rightarrow> Some (Inl e, h1)
                | (Inr w, h1) \<Rightarrow>
                    (let h2 = drop_writer path w h1
                     in case lineage_target E (writer_records w) R target of
                          Inl e \<Rightarrow> Some (Inl e, h2)
                        | Inr (verdict, r) \<Rightarrow>
                            map_option (\<lambda>rep.
                              let json = (''json'' \<in> pa_bools p)
                              in print_answer E X (LineageOut json rep) json h2)
                              (lineage_report E (writer_records w) verdict r)))))"

section \<open>Dispatch\<close>

definition evolution_command ::
  "'z env_scheme \<Rightarrow> cli_env \<Rightarrow> string \<Rightarrow> string list \<Rightarrow> Host \<Rightarrow> ((CliError + exit_code) \<times> Host) option" where
  "evolution_command E X command rest h =
     (if command = ''request'' then Some (request_cmd E X rest h)
      else if command = ''requirement'' then Some (requirement_cmd E X rest h)
      else if command = ''candidate'' then Some (candidate_cmd E X rest h)
      else if command = ''eval'' then Some (eval_cmd E X rest h)
      else if command = ''select'' then Some (select_cmd E X rest h)
      else if command = ''retract'' then Some (retract_cmd E X rest h)
      else if command = ''lineage'' then lineage_cmd E X rest h
      else if command = ''export'' then Some (export_cmd E X rest h)
      else Some (query_cmd E X rest h))"

definition cmd_evolution ::
  "'z env_scheme \<Rightarrow> cli_env \<Rightarrow> string \<Rightarrow> string list \<Rightarrow> Host \<Rightarrow> (exit_code \<times> Host) option" where
  "cmd_evolution E X command rest h =
     map_option (\<lambda>(res, h'). case res of Inr code \<Rightarrow> (code, h') | Inl e \<Rightarrow> (65, h'))
       (evolution_command E X command rest h)"

definition bellbook_main :: "'z env_scheme \<Rightarrow> cli_env \<Rightarrow> string list \<Rightarrow> Host \<Rightarrow> (exit_code \<times> Host) option" where
  "bellbook_main E X args h =
     (case args of [] \<Rightarrow> Some (64, h)
      | command # rest \<Rightarrow>
          if command = ''validate'' then Some (cmd_validate E X rest h)
          else if command = ''rules'' then Some (cmd_rules E X rest h)
          else if command = ''key'' then Some (cmd_key E X rest h)
          else if command \<in> set [''request'', ''requirement'', ''candidate'', ''eval'', ''select'', ''retract'',
                                ''lineage'', ''export'', ''query'']
          then cmd_evolution E X command rest h
          else Some (64, h))"

end
