(* ===== verification/Cli_Laws.thy ===== *)
theory Cli_Laws
  imports Cli_Read Commit_Safety Profile_Laws Queries_Laws
begin

text \<open>
  What the exit codes of the command line tool say.  The locale \<open>recording\<close> is the contract between
  \<open>record_command\<close> and the six builders of proposals: whatever a builder proposes is addressed to the
  space of the rules and authored by the registered author it was given, so the commit cannot damage
  the log.
\<close>

section \<open>Early returns\<close>

lemma or_return_Inr [simp]: "or_return m f = Inr y \<longleftrightarrow> (\<exists>x. m = Inr x \<and> f x = Inr y)"
  by (auto simp: or_return_def split: sum.splits)

lemma refuse_if_Inr [simp]: "refuse_if c e = Inr u \<longleftrightarrow> \<not> c"
  by (simp add: refuse_if_def)

section \<open>Recording commands\<close>

text \<open>A proposal of the command line: for the space of the rules, by the given author.\<close>

definition proper :: "VerifierRules \<Rightarrow> Author \<Rightarrow> Proposal \<Rightarrow> bool" where
  "proper R a pro \<longleftrightarrow> well_addressed R pro \<and> pro_thread pro = vr_space R \<and> pro_author pro = a"

lemma cli_proposal_proper: "kind \<noteq> KVerdict \<Longrightarrow> proper R a (cli_proposal C R a kind schema data refs)"
  by (simp add: proper_def well_addressed_def cli_proposal_def)

lemma open_writer_Inr:
  assumes "open_writer E X R path h = (Inr w, h1)"
  shows "writer_open E (cl_record_from_slice X) R (dir_at h path) = Inr w"
    "h1 = put_dir path (fl_dir (lw_log w)) h"
  using assms by (auto simp: open_writer_def split: sum.splits prod.splits)

lemma open_log_Inr:
  assumes "open_log E X R path h = (Inr (w, s), h1)"
  shows "writer_open E (cl_record_from_slice X) R (dir_at h path) = Inr w"
    "verify_and_build_state E (writer_records w) R = Inr s" "h1 = put_dir path (fl_dir (lw_log w)) h"
  using assms open_writer_Inr [of E X R path h w h1]
  by (auto simp: open_log_def split: sum.splits prod.splits)

lemma dir_at_put [simp]: "dir_at (put_dir path d h) path' = (if path = path' then d else dir_at h path')"
  by (simp add: dir_at_def put_dir_def)

lemma dir_at_emit [simp]: "dir_at (emit x h) path = dir_at h path"
  by (simp add: dir_at_def emit_def)

lemma stdout_put [simp]: "ho_stdout (put_dir path d h) = ho_stdout h" "ho_stdout (emit x h) = ho_stdout h @ [x]"
  by (simp_all add: put_dir_def emit_def)

definition outputs_of :: "RecordId \<Rightarrow> VerdictData \<Rightarrow> Output set" where
  "outputs_of i vd = {CommitId (hex_encode i), CommitJson (commit_output i vd)}"

lemma print_commit_zero:
  assumes "print_commit E X json i vd h = (Inr 0, h')"
  shows "vd_result vd = Accept" "\<exists>out \<in> outputs_of i vd. h' = emit out h"
  using assms by (auto simp: print_commit_def Let_def outputs_of_def commit_output_def split: if_splits)

lemma commit_either:
  "(case signer of Some k \<Rightarrow> commit_signed E R k pro | None \<Rightarrow> commit E R pro) = commit_inner E R signer pro"
  by (simp add: commit_signed_def commit_def split: option.splits)

lemma commit_and_print_zero:
  assumes "commit_and_print E X path w R s pro p h = (Inr 0, h')"
  obtains signer i vd w' s' where "signer_from E X h p = Inr signer"
    "commit_inner E R signer pro (w, s) = (Inr (i, vd), w', s')"
    "vd_result vd = Accept" "dir_at h' path = unlock (fl_dir (lw_log w'))"
    "\<exists>out \<in> outputs_of i vd. ho_stdout h' = ho_stdout h @ [out]"
proof -
  from assms obtain signer i vd w' s' where
    run: "signer_from E X h p = Inr signer" "commit_inner E R signer pro (w, s) = (Inr (i, vd), w', s')"
    and out: "print_commit E X (''json'' \<in> pa_bools p) i vd (drop_writer path w' h) = (Inr 0, h')"
    unfolding commit_and_print_def commit_either by (auto split: sum.splits prod.splits)
  from print_commit_zero [OF out] show thesis
    by (intro that [OF run]) (auto simp: drop_writer_def)
qed

text \<open>
  The stages of a recording command up to the commit.  Each stage determines the next, so the command
  line and the host fix the rules, the log, the author, the proposal and the signer.
\<close>

definition prepared ::
  "'z env_scheme \<Rightarrow> cli_env \<Rightarrow> FlagNames \<Rightarrow> 'z builder \<Rightarrow> string list \<Rightarrow> Host \<Rightarrow> VerifierRules \<Rightarrow> string
     \<Rightarrow> LogWriter \<Rightarrow> State \<Rightarrow> Author \<Rightarrow> Proposal \<Rightarrow> Ed25519Signer option \<Rightarrow> bool" where
  "prepared E X names build args h R path w s a pro signer \<longleftrightarrow>
     (\<exists>p file bs. parse_args names args = Inr p
        \<and> single p ''rules'' = Some file \<and> read_file h file = Some bs \<and> cl_rules_from_slice X bs = Some R
        \<and> single p ''log'' = Some path
        \<and> writer_open E (cl_record_from_slice X) R (dir_at h path) = Inr w
        \<and> verify_and_build_state E (writer_records w) R = Inr s
        \<and> single p ''author'' = Some (au_id a) \<and> Mapping.lookup (vr_author_roles R) (au_id a) = Some (au_type a)
        \<and> au_signature a = None
        \<and> build E X (put_dir path (fl_dir (lw_log w)) h) R p a w s = Inr pro
        \<and> signer_from E X (put_dir path (fl_dir (lw_log w)) h) p = Inr signer)"

lemma load_rules_Inr:
  assumes "load_rules E X h p = Inr R"
  shows "\<exists>file bs. single p ''rules'' = Some file \<and> read_file h file = Some bs \<and> cl_rules_from_slice X bs = Some R"
  using assms by (auto simp: load_rules_def or_return_def required_flag_def split: sum.splits option.splits)

lemma author_of_Inr:
  assumes "author_of R p = Inr a"
  shows "single p ''author'' = Some (au_id a)" "Mapping.lookup (vr_author_roles R) (au_id a) = Some (au_type a)"
    "au_signature a = None"
  using assms by (auto simp: author_of_def or_return_def required_flag_def split: sum.splits option.splits)

lemma record_prepared:
  assumes "record_command E X names build args h = (Inr 0, h')"
  obtains R path w s a pro signer i vd w' s' where
    "prepared E X names build args h R path w s a pro signer"
    "commit_inner E R signer pro (w, s) = (Inr (i, vd), w', s')" "vd_result vd = Accept"
    "dir_at h' path = unlock (fl_dir (lw_log w'))" "\<exists>out \<in> outputs_of i vd. ho_stdout h' = ho_stdout h @ [out]"
proof -
  from assms obtain p R path w s h1 pro a where
    p: "parse_args names args = Inr p" "load_rules E X h p = Inr R" "required_flag p ''log'' = Inr path"
    and opened: "open_log E X R path h = (Inr (w, s), h1)" and a: "author_of R p = Inr a"
    and pro: "build E X h1 R p a w s = Inr pro" "commit_and_print E X path w R s pro p h1 = (Inr 0, h')"
    unfolding record_command_def or_return_def by (auto split: sum.splits prod.splits)
  have path: "single p ''log'' = Some path" using p(3) by (auto simp: required_flag_def split: option.splits)
  note h1 = open_log_Inr [OF opened]
  from pro(2) obtain signer i vd w' s' where run: "signer_from E X h1 p = Inr signer"
    "commit_inner E R signer pro (w, s) = (Inr (i, vd), w', s')" "vd_result vd = Accept"
    "dir_at h' path = unlock (fl_dir (lw_log w'))" "\<exists>out \<in> outputs_of i vd. ho_stdout h' = ho_stdout h1 @ [out]"
    by (rule commit_and_print_zero)
  have "prepared E X names build args h R path w s a pro signer"
    using p(1) path h1(1,2) pro(1) run(1) load_rules_Inr [OF p(2)] author_of_Inr [OF a]
    unfolding prepared_def h1(3) by metis
  moreover have "ho_stdout h1 = ho_stdout h" by (simp add: h1(3))
  ultimately show thesis using run(2-) by (intro that) simp_all
qed

locale recording =
  fixes build :: "'z builder"
  assumes proposes: "build E X h R p a w s = Inr pro \<Longrightarrow> proper R a pro"
begin

lemma prepared_proper: "prepared E X names build args h R path w s a pro signer \<Longrightarrow> proper R a pro"
  unfolding prepared_def by (elim exE conjE) (rule proposes)

end

interpretation request: recording build_request
  by unfold_locales (auto simp: build_request_def intro: cli_proposal_proper)

interpretation requirement: recording build_requirement
  by unfold_locales (auto simp: build_requirement_def intro: cli_proposal_proper)

interpretation candidate: recording build_candidate
  by unfold_locales (auto simp: build_candidate_def intro: cli_proposal_proper)

interpretation eval: recording build_eval
  by unfold_locales (auto simp: build_eval_def Let_def intro: cli_proposal_proper)

interpretation retract: recording build_retract
  by unfold_locales (auto simp: build_retract_def intro: cli_proposal_proper)

interpretation select: recording build_select
  by unfold_locales (auto simp: build_select_def intro: cli_proposal_proper)

definition recording_commands :: "string list" where
  "recording_commands = [''request'', ''requirement'', ''candidate'', ''eval'', ''select'', ''retract'']"

lemma recording_command_cases:
  assumes "command \<in> set recording_commands"
  obtains "command = ''request''" | "command = ''requirement''" | "command = ''candidate''"
    | "command = ''eval''" | "command = ''select''" | "command = ''retract''"
  using assms unfolding recording_commands_def list.set insert_iff empty_iff simp_thms
  by (elim disjE) (rule that, assumption)+

lemma main_records:
  assumes "command \<in> set recording_commands"
  shows "bellbook_main E X (command # rest) h = cmd_evolution E X command rest h"
  using assms by (cases rule: recording_command_cases) (simp_all add: bellbook_main_def)

text \<open>The commands with their subcommand, the flags they take and the builder of their proposal.\<close>

definition recorders :: "(string \<times> string list \<times> FlagNames \<times> 'z builder) list" where
  "recorders =
     [(''request'', [''add''], request_flags, build_request),
      (''requirement'', [''add''], requirement_flags, build_requirement),
      (''candidate'', [''add''], candidate_flags, build_candidate),
      (''eval'', [''add''], eval_flags, build_eval),
      (''select'', [], select_flags, build_select),
      (''retract'', [], retract_flags, build_retract)]"

lemma recorders_record: "(command, sub, names, build) \<in> set recorders \<Longrightarrow> recording build"
  using request.recording_axioms requirement.recording_axioms candidate.recording_axioms eval.recording_axioms
    select.recording_axioms retract.recording_axioms
  by (auto simp: recorders_def)

text \<open>A command that exits with 0 has run its frame to the end.\<close>

lemma evolution_zero:
  assumes "command \<in> set recording_commands" "bellbook_main E X (command # rest) h = Some (0, h')"
  obtains (rec) sub names build args where "(command, sub, names, build) \<in> set recorders" "rest = sub @ args"
    "record_command E X names build args h = (Inr 0, h')"
proof -
  have done_by: "evolution_command E X command rest h = Some (Inr 0, h')"
    using assms(2) unfolding main_records [OF assms(1)] cmd_evolution_def
    by (auto simp: map_option_case split: option.splits sum.splits)
  have add: thesis if "(command, [''add''], names, build) \<in> set recorders" "add_command E X names build rest h = (Inr 0, h')"
    for names and build :: "'a builder"
    using that(2) by (auto simp: add_command_def split: list.splits if_splits intro: rec [OF that(1)])
  have direct: thesis if "(command, [], names, build) \<in> set recorders" "record_command E X names build rest h = (Inr 0, h')"
    for names and build :: "'a builder"
    using that by (intro rec [OF that(1)]) simp_all
  from assms(1) show thesis
  proof (cases rule: recording_command_cases)
    case 1
    with done_by show ?thesis by (intro add [of request_flags build_request]) (simp_all add: recorders_def evolution_command_def request_cmd_def)
  next
    case 2
    with done_by show ?thesis
      by (intro add [of requirement_flags build_requirement]) (simp_all add: recorders_def evolution_command_def requirement_cmd_def)
  next
    case 3
    with done_by show ?thesis
      by (intro add [of candidate_flags build_candidate]) (simp_all add: recorders_def evolution_command_def candidate_cmd_def)
  next
    case 4
    with done_by show ?thesis
      by (intro add [of eval_flags build_eval]) (simp_all add: recorders_def evolution_command_def eval_cmd_def)
  next
    case 5
    with done_by show ?thesis
      by (intro direct [of select_flags build_select]) (simp_all add: recorders_def evolution_command_def select_cmd_def)
  next
    case 6
    with done_by show ?thesis
      by (intro direct [of retract_flags build_retract]) (simp_all add: recorders_def evolution_command_def retract_cmd_def)
  qed
qed

lemma crash_unlock [simp]: "crash k os (unlock d) = crash k os d"
  by (simp add: crash_def unlock_def log_bytes_def Let_def)

lemma landed_log:
  assumes "writer_ok E parse R w s" "sound_commit E parse R w s signer pro" "well_addressed R pro"
    "commit_inner E R signer pro (w, s) = (Inr (i, vd), w', s')"
  shows "\<exists>r v. writer_records w' = writer_records w @ [r, v] \<and> rec_id r = i \<and> rec_data r = pro_data pro
     \<and> (\<forall>k. \<exists>w''. open_with_max_bytes E parse R (fl_max_file_bytes (lw_log w)) (crash k [] (unlock (fl_dir (lw_log w')))) = Inr w''
            \<and> writer_ok E parse R w'' s' \<and> writer_records w'' = writer_records w @ [r, v])"
  using assms
proof (cases rule: commit_cases)
  case (landed r vd' v)
  have "fl_max_file_bytes (lw_log w) = fl_max_file_bytes (lw_log w')" using landed(6) by (simp add: kept_def)
  from reopen_unchanged [OF landed(5) this] landed(3,4) materialize_pair [OF assms(1) landed(1,2)]
  show ?thesis by (intro exI [of _ r] exI [of _ v]) simp
qed simp_all

text \<open>A directory without failing system calls that nobody has locked and whose file is a valid log.\<close>

definition in_order ::
  "'z env_scheme \<Rightarrow> (bytes \<Rightarrow> Record option) \<Rightarrow> VerifierRules \<Rightarrow> LogDir \<Rightarrow> Record list \<Rightarrow> bool" where
  "in_order E parse R d rs \<longleftrightarrow>
     ld_io d = [] \<and> \<not> ld_locked d \<and> holds E parse d rs \<and> length (log_bytes d) \<le> 64 * 2 ^ 20
     \<and> lv_result (verify_log E rs R None) = Accept"

lemma append_record_max: "append_record E r l = (res, l') \<Longrightarrow> fl_max_file_bytes l' = fl_max_file_bytes l"
  by (auto simp: append_record_def and_then_def lift_result_def ensure_capacity_for_def on_dir_def on_part_def push_record_def
      raise_def ok_def split: sum.splits prod.splits if_splits)

lemma opened_max:
  assumes "open_with_max_bytes E parse R m d = Inr w"
  shows "fl_max_file_bytes (lw_log w) = m"
proof -
  from assms obtain d1 l k l' where l: "file_log_open parse m d1 = Inr l" "open_checked E R l = (Inr k, l')" "lw_log w = l'"
    by (auto simp: open_with_max_bytes_def split: prod.splits sum.splits)
  have "fl_max_file_bytes l = m" using l(1) by (auto simp: file_log_open_def split: prod.splits sum.splits)
  moreover have "fl_max_file_bytes l' = fl_max_file_bytes l"
    using l(2) append_record_max
    by (auto simp: open_checked_def recover_def and_then_def on_dir_def on_part_def lift_result_def raise_def ok_def
        split: prod.splits sum.splits option.splits if_splits)
  ultimately show ?thesis using l(3) by simp
qed

lemma in_order_opens:
  assumes "in_order E parse R d rs" "writer_open E parse R d = Inr w" "verify_and_build_state E (writer_records w) R = Inr s"
  shows "writer_records w = rs" "writer_ok E parse R w s" "fl_max_file_bytes (lw_log w) = DEFAULT_MAX_LOG_BYTES"
proof -
  have opened: "open_with_max_bytes E parse R DEFAULT_MAX_LOG_BYTES d = Inr w" using assms(2) by (simp add: writer_open_def)
  obtain s' where s': "log_shape E rs" "replays E R rs s'" using assms(1) unfolding in_order_def verify_log_genesis by blast
  have "length (log_bytes d) \<le> unat DEFAULT_MAX_LOG_BYTES"
    using assms(1) by (simp add: in_order_def DEFAULT_MAX_LOG_BYTES_def)
  moreover have "ld_io d = []" "\<not> ld_locked d" "holds E parse d rs" using assms(1) by (simp_all add: in_order_def)
  ultimately obtain w2 where "open_with_max_bytes E parse R DEFAULT_MAX_LOG_BYTES d = Inr w2"
    and w2: "writer_records w2 = rs" "writer_ok E parse R w2 s'"
    using reopen_complete [OF _ _ _ _ s' opened_is_verified(2) [OF opened]] by blast
  then have "w2 = w" using opened by simp
  moreover from this have "s' = s"
    using assms(3) replays_build_state [OF s'(2)] w2(1)
    by (simp add: verify_and_build_state_def Let_def split: if_splits)
  ultimately show "writer_records w = rs" "writer_ok E parse R w s" using w2 by simp_all
  show "fl_max_file_bytes (lw_log w) = DEFAULT_MAX_LOG_BYTES" by (rule opened_max [OF opened])
qed

lemma prepared_lands:
  assumes "prepared E X names build args h R path w s a pro signer" "proper R a pro"
    "commit_inner E R signer pro (w, s) = (Inr (i, vd), w', s')" "dir_at h' path = unlock (fl_dir (lw_log w'))"
  shows "\<forall>rs. in_order E (cl_record_from_slice X) R (dir_at h path) rs
      \<and> sound_commit E (cl_record_from_slice X) R w s signer pro \<longrightarrow>
      (\<exists>r v. rec_id r = i \<and> rec_data r = pro_data pro
        \<and> (\<forall>k. \<exists>w''. writer_open E (cl_record_from_slice X) R (crash k [] (dir_at h' path)) = Inr w''
               \<and> writer_records w'' = rs @ [r, v]))"
proof (intro allI impI)
  fix rs assume ok: "in_order E (cl_record_from_slice X) R (dir_at h path) rs
      \<and> sound_commit E (cl_record_from_slice X) R w s signer pro"
  have opened: "writer_open E (cl_record_from_slice X) R (dir_at h path) = Inr w"
    "verify_and_build_state E (writer_records w) R = Inr s" using assms(1) by (auto simp: prepared_def)
  note w = in_order_opens [OF conjunct1 [OF ok] opened]
  from landed_log [OF w(2) conjunct2 [OF ok] _ assms(3)] assms(2)
  show "\<exists>r v. rec_id r = i \<and> rec_data r = pro_data pro
      \<and> (\<forall>k. \<exists>w''. writer_open E (cl_record_from_slice X) R (crash k [] (dir_at h' path)) = Inr w''
             \<and> writer_records w'' = rs @ [r, v])"
    unfolding w(1,3) assms(4) writer_open_def proper_def by metis
qed

section \<open>Artifacts\<close>

lemma collected: "collect_results f xs = Inr ys \<Longrightarrow> y \<in> set ys \<Longrightarrow> \<exists>x. f x = Inr y"
  by (induction xs arbitrary: ys) (auto split: sum.splits)

lemma artifact_key_inj: "inj artifact_key"
  by (rule injI) (simp add: artifact_key_def)

lemma sorted_remdups_adj_strict: "sorted xs \<Longrightarrow> sorted_wrt (<) (remdups_adj xs)"
proof (induction xs rule: remdups_adj.induct)
  case (3 x y xs)
  show ?case
  proof (cases "x = y")
    case False
    with 3 have "x < z" if "z \<in> set (y # xs)" for z using that by force
    moreover have "sorted_wrt (<) (remdups_adj (y # xs))" using 3 False by simp
    ultimately show ?thesis using False by simp
  qed (use 3 in simp)
qed simp_all

lemma parsed_artifacts_well_formed:
  assumes "parse_artifacts p = Inr (Some refs)"
  shows "artifact_refs_well_formed refs"
proof -
  from assms obtain specs raw where raw: "collect_results parse_artifact specs = Inr raw"
    and refs: "refs = remdups_adj (sort_key artifact_key raw)"
    by (auto simp: parse_artifacts_def split: option.splits sum.splits)
  have "artifact_ref_well_formed a" if a: "a \<in> set raw" for a
  proof -
    obtain spec where "parse_artifact spec = Inr a" using collected [OF raw a] by blast
    then show ?thesis by (simp add: parse_artifact_def split: option.splits if_splits)
  qed
  then have "list_all artifact_ref_well_formed refs" by (simp add: refs list_all_iff)
  moreover have "map artifact_key refs = remdups_adj (map artifact_key (sort_key artifact_key raw))"
    unfolding refs by (rule remdups_adj_map_injective [OF artifact_key_inj, symmetric])
  then have "sorted_wrt (<) (map artifact_key refs)"
    using sorted_remdups_adj_strict [OF sorted_sort_key [of artifact_key raw]] by simp
  ultimately show ?thesis by (simp add: artifact_refs_well_formed_def windows_less_iff)
qed

section \<open>Generated rules\<close>

lemma fold_author_roles:
  "fold (\<lambda>(i, t). with_author_role i t) as R =
     R\<lparr>vr_author_roles := fold (\<lambda>(i, t). Mapping.update i t) as (vr_author_roles R)\<rparr>"
  by (induction as arbitrary: R) (auto simp: with_author_role_def)

lemma fold_admins:
  "fold with_admin_retraction_actor as R = R\<lparr>vr_admin_retraction_actors := vr_admin_retraction_actors R \<union> set as\<rparr>"
  by (induction as arbitrary: R) (auto simp: with_admin_retraction_actor_def)

lemma fold_reaffirmers:
  "fold with_reaffirmation_actor as R = R\<lparr>vr_reaffirmation_actors := vr_reaffirmation_actors R \<union> set as\<rparr>"
  by (induction as arbitrary: R) (auto simp: with_reaffirmation_actor_def)

definition pin_in :: "string \<times> hash256 \<Rightarrow> (string, hash256 set) mapping \<Rightarrow> (string, hash256 set) mapping" where
  "pin_in = (\<lambda>(i, key) m. Mapping.update i (insert key (Mapping.lookup_default {} m i)) m)"

lemma fold_pins: "fold pin_key ks R = R\<lparr>vr_author_keys := fold pin_in ks (vr_author_keys R)\<rparr>"
  by (induction ks arbitrary: R) (auto simp: pin_key_def pin_in_def)

lemma keys_fold_update:
  "Mapping.keys (fold (\<lambda>(i, t). Mapping.update i t) as m) = fst ` set as \<union> Mapping.keys m"
  by (induction as arbitrary: m) auto

lemma keys_fold_pin: "Mapping.keys (fold pin_in ks m) = fst ` set ks \<union> Mapping.keys m"
  by (induction ks arbitrary: m) (auto simp: pin_in_def)

lemma starter_rules_sel:
  "Mapping.keys (vr_author_roles (starter_rules C opts)) = fst ` set (ro_authors opts)"
  "vr_admin_retraction_actors (starter_rules C opts) = set (ro_admins opts)"
  "vr_reaffirmation_actors (starter_rules C opts) = set (ro_reaffirmers opts)"
  "Mapping.keys (vr_author_keys (starter_rules C opts)) = fst ` set (ro_author_keys opts)"
  "vr_signature_required_kinds (starter_rules C opts) = (if ro_signed opts then set SIGNED_KINDS else {})"
  "vr_max_context_records (starter_rules C opts) = ro_max_context opts"
  "vr_space (starter_rules C opts) = default_space C"
  "vr_kind_schema_map (starter_rules C opts) = frozen_kind_schema_map C"
  "vr_evidence_thresholds (starter_rules C opts) =
     Mapping.update KSelection Inferred (Mapping.update KEvaluation Reported (Mapping.update KCandidate Reported Mapping.empty))"
  by (simp_all add: starter_rules_def Let_def fold_author_roles fold_admins fold_reaffirmers fold_pins
      keys_fold_update keys_fold_pin require_signatures_def with_baseline_thresholds_def with_evidence_threshold_def
      new_rules_def)

lemma starter_rules_baseline:
  assumes "rcp_rules rc = starter_rules E opts" "ro_authors opts \<noteq> []" "rep_status rep \<noteq> Invalid"
  shows "prs_status (evaluate_core_v1 E rc rep) = Conformant
     \<longleftrightarrow> 1 \<le> ro_max_context opts \<and> ro_max_context opts \<le> 100000"
proof -
  have "list_all (threshold_ok (starter_rules E opts)) core_thresholds"
    by (simp add: core_thresholds_def threshold_ok_def starter_rules_sel)
  with assms(2,3) show ?thesis
    by (simp add: evaluate_core_v1_def Let_def finish_def assms(1) starter_rules_sel)
qed

lemma check_rules_options_None:
  assumes "check_rules_options opts = None"
  shows "ro_authors opts \<noteq> []" "set (ro_admins opts) \<subseteq> fst ` set (ro_authors opts)"
    "set (ro_reaffirmers opts) \<subseteq> fst ` set (ro_authors opts)"
    "fst ` set (ro_author_keys opts) \<subseteq> fst ` set (ro_authors opts)"
  using assms by (auto simp: check_rules_options_def is_bound_def list_all_iff split: if_splits)

lemma cmd_rules_zero:
  assumes "cmd_rules E X args h = (0, h')"
  obtains rest opts bs where "args = ''init'' # rest" "rules_options rest default_rules_options = Inr opts"
    "check_rules_options opts = None" "cl_to_string X (rules_json (starter_rules E opts)) = Some bs"
    "ro_out opts = None \<and> h' = emit (RulesOut bs) h \<or> (\<exists>path. ro_out opts = Some path \<and> read_file h' path = Some bs)"
  using assms
  by (auto simp: cmd_rules_def write_rules_def write_file_def read_file_def
      split: list.splits if_splits sum.splits option.splits)

section \<open>The options of validate\<close>

text \<open>
  A command line of \<open>validate\<close> is a list of options written out one after the other.
\<close>

datatype validate_arg = ReceiptArg string | JsonArg | RequireArg string | MaxSizeArg string

fun spelled :: "validate_arg \<Rightarrow> string list" where
  "spelled (ReceiptArg path) = [path]"
| "spelled JsonArg = [''--json'']"
| "spelled (RequireArg i) = [''--require-profile'', i]"
| "spelled (MaxSizeArg v) = [''--max-size'', v]"

text \<open>A path or a profile does not look like a flag, and a size is an unsigned number of 64 bits.\<close>

fun legible :: "validate_arg \<Rightarrow> bool" where
  "legible (ReceiptArg path) \<longleftrightarrow> take 1 path \<noteq> ''-''"
| "legible JsonArg \<longleftrightarrow> True"
| "legible (RequireArg i) \<longleftrightarrow> i \<noteq> [] \<and> take 1 i \<noteq> ''-''"
| "legible (MaxSizeArg v) \<longleftrightarrow> parse_unsigned 64 v \<noteq> None"

text \<open>The last size given bounds the file; 0 stands for no bound but that of the type.\<close>

fun rebound :: "validate_arg \<Rightarrow> nat \<Rightarrow> nat" where
  "rebound (MaxSizeArg v) bound = (case the (parse_unsigned 64 v) of 0 \<Rightarrow> 2 ^ 64 - 1 | Suc n \<Rightarrow> Suc n)"
| "rebound _ bound = bound"

definition size_bound :: "validate_arg list \<Rightarrow> nat" where
  "size_bound given = fold rebound given (64 * 2 ^ 20)"

fun receipt_path :: "validate_arg \<Rightarrow> string option" where
  "receipt_path (ReceiptArg path) = Some path"
| "receipt_path _ = None"

lemma starts_with_dash: "starts_with ''-'' s \<longleftrightarrow> take 1 s = ''-''"
  by (simp add: starts_with_def strip_prefix_def)

lemma max_size_word:
  assumes "parse_unsigned 64 v = Some n"
  shows "unat (if n = 0 then - 1 else of_nat n :: u64) = (case n of 0 \<Rightarrow> 2 ^ 64 - 1 | Suc m \<Rightarrow> Suc m)"
proof -
  have "n < 2 ^ 64" using assms by (auto simp: parse_unsigned_def Let_def split: if_splits option.splits)
  then show ?thesis
    by (cases n) (simp_all add: unsigned_minus_1_eq_mask mask_eq_exp_minus_1 unat_of_nat take_bit_nat_eq_self del: of_nat_Suc)
qed

lemma read_options:
  assumes "validate_options args opts0 = Inr opts"
  shows "\<exists>given. args = concat (map spelled given) \<and> (\<forall>a \<in> set given. legible a)
     \<and> (case vo_file opts0 of None \<Rightarrow> [] | Some p \<Rightarrow> [p]) @ List.map_filter receipt_path given
         = (case vo_file opts of None \<Rightarrow> [] | Some p \<Rightarrow> [p])
     \<and> unat (vo_max_size opts)
       = fold rebound given (unat (vo_max_size opts0))
     \<and> set (vo_profiles opts) = set (vo_profiles opts0) \<union> {i. RequireArg i \<in> set given}
     \<and> (vo_json opts \<longleftrightarrow> vo_json opts0 \<or> JsonArg \<in> set given)"
    (is "\<exists>given. ?reads given args opts0")
  using assms
proof (induction args opts0 rule: validate_options.induct)
  case (1 opts0)
  then show ?case by (intro exI [of _ "[]"]) (simp add: List.map_filter_def)
next
  case (2 arg rest opts0)
  consider "arg = ''--json''" | "arg = ''--require-profile''" | "arg = ''--max-size''"
    | "arg \<noteq> ''--json''" "arg \<noteq> ''--require-profile''" "arg \<noteq> ''--max-size''" by blast
  then show ?case
  proof cases
    case 1
    with "2.prems" "2.IH"(1) obtain given where "?reads given rest (opts0\<lparr>vo_json := True\<rparr>)" by auto
    with 1 show ?thesis by (intro exI [of _ "JsonArg # given"]) (simp add: List.map_filter_def)
  next
    case 2
    with "2.prems" obtain v rest' where v: "rest = v # rest'" "v \<noteq> []" "\<not> starts_with ''-'' v"
      "validate_options rest' (opts0\<lparr>vo_profiles := vo_profiles opts0 @ [v]\<rparr>) = Inr opts"
      by (auto split: list.splits if_splits)
    with "2.IH"(2) 2 obtain given where "?reads given rest' (opts0\<lparr>vo_profiles := vo_profiles opts0 @ [v]\<rparr>)" by auto
    with 2 v show ?thesis
      by (intro exI [of _ "RequireArg v # given"]) (auto simp: List.map_filter_def starts_with_dash)
  next
    case 3
    with "2.prems" obtain v rest' n where v: "rest = v # rest'" "parse_unsigned 64 v = Some n"
      "validate_options rest' (opts0\<lparr>vo_max_size := (if n = 0 then - 1 else of_nat n)\<rparr>) = Inr opts"
      by (auto split: list.splits option.splits)
    from "2.IH"(3) [OF _ _ _ v] 3 obtain given where "?reads given rest' (opts0\<lparr>vo_max_size := (if n = 0 then - 1 else of_nat n)\<rparr>)" by fastforce
    with 3 v max_size_word [OF v(2)] show ?thesis
      by (intro exI [of _ "MaxSizeArg v # given"]) (simp add: List.map_filter_def)
  next
    case 4
    with "2.prems" have path: "vo_file opts0 = None" "\<not> starts_with ''-'' arg"
      "validate_options rest (opts0\<lparr>vo_file := Some arg\<rparr>) = Inr opts" by (auto split: if_splits)
    with "2.IH"(4) 4 obtain given where "?reads given rest (opts0\<lparr>vo_file := Some arg\<rparr>)" by auto
    with path show ?thesis
      by (intro exI [of _ "ReceiptArg arg # given"]) (simp add: List.map_filter_def starts_with_dash)
  qed
qed

lemma read_bounded_Some:
  assumes "read_bounded h path m = Some bs"
  shows "\<exists>content. read_file h path = Some content \<and> bs = take (2 ^ 64 - 1) content" "length bs \<le> unat m"
proof -
  obtain content where c: "read_file h path = Some content" "bs = take (unat (u64_saturating_add m 1)) content"
    and len: "length bs \<le> unat m" using assms by (auto simp: read_bounded_def Let_def split: option.splits if_splits)
  have "bs = take (2 ^ 64 - 1) content"
  proof (cases "unat m + 1 < 2 ^ 64")
    case True
    then have "unat (u64_saturating_add m 1) = unat m + 1" by (simp add: u64_saturating_add_nat unat_word_ariths)
    then have "length content \<le> unat m" using c(2) len by simp
    then show ?thesis using c(2) True \<open>unat (u64_saturating_add m 1) = unat m + 1\<close> by simp
  next
    case False
    then have "unat (u64_saturating_add m 1) = 2 ^ 64 - 1"
      by (simp add: u64_saturating_add_nat unsigned_minus_1_eq_mask mask_eq_exp_minus_1)
    then show ?thesis using c(2) by simp
  qed
  with c(1) show "\<exists>content. read_file h path = Some content \<and> bs = take (2 ^ 64 - 1) content" by blast
  show "length bs \<le> unat m" by (rule len)
qed

section \<open>The exit code of validate\<close>

lemma declared_met:
  assumes "met (evaluate_declared E decl rc rep)"
  shows "profile_ref E (pr_id decl) = Some decl" "prs_status (evaluate_profile E (pr_id decl) rc rep) = Conformant"
proof -
  show conf: "prs_status (evaluate_profile E (pr_id decl) rc rep) = Conformant"
    using assms by (simp add: met_def evaluate_declared_def)
  then have "pr_id decl \<in> {BELLBOOK_CORE_V1, DELIVERY_RECEIPT_V1, BELLBOOK_CORE_SIGNED_V1}"
    by (auto simp: evaluate_profile_def split: if_splits)
  moreover have "prs_declaration_matches (compare_declaration decl (evaluate_profile E (pr_id decl) rc rep)) \<noteq> Some False"
    using assms by (simp add: met_def evaluate_declared_def)
  ultimately show "profile_ref E (pr_id decl) = Some decl"
    using core.declared [of decl E rc rep] signed.declared [of decl E rc rep] delivery.declared [of decl E rc rep]
    by (auto simp: evaluate_profile_def split: if_splits)
qed

lemma required_results:
  "set out \<subseteq> set (fold (add_required E rc rep) ps out)"
  "set ps \<subseteq> prs_id ` set (fold (add_required E rc rep) ps out)"
proof (induction ps arbitrary: out)
  case (Cons j ps)
  have grow: "set out \<subseteq> set (add_required E rc rep j out)" "j \<in> prs_id ` set (add_required E rc rep j out)" for out
    by (auto simp: add_required_def image_iff)
  {
    case 1
    show ?case unfolding fold_simps by (rule subset_trans [OF grow(1) Cons(1)])
  next
    case 2
    show ?case unfolding fold_simps list.set
      using Cons(1) [of "add_required E rc rep j out"] Cons(2) [of "add_required E rc rep j out"] grow(2) by blast
  }
qed simp_all

lemma all_profiles_met:
  assumes "\<forall>p \<in> set (evaluate_profiles E rc rep ps). met p"
  shows "\<forall>decl \<in> set (rcp_profiles rc). profile_ref E (pr_id decl) = Some decl
      \<and> prs_status (evaluate_profile E (pr_id decl) rc rep) = Conformant"
    "\<forall>i \<in> set ps. prs_status (evaluate_profile E i rc rep) = Conformant"
proof -
  let ?out = "map (\<lambda>decl. evaluate_declared E decl rc rep) (rcp_profiles rc)"
  have sub: "set ?out \<subseteq> set (evaluate_profiles E rc rep ps)"
    unfolding evaluate_profiles_def by (rule required_results(1))
  then have "\<forall>decl \<in> set (rcp_profiles rc). met (evaluate_declared E decl rc rep)" using assms by auto
  then show "\<forall>decl \<in> set (rcp_profiles rc). profile_ref E (pr_id decl) = Some decl
      \<and> prs_status (evaluate_profile E (pr_id decl) rc rep) = Conformant" using declared_met by blast
  have "set ps \<subseteq> prs_id ` set (evaluate_profiles E rc rep ps)"
    unfolding evaluate_profiles_def by (rule required_results(2))
  then show "\<forall>i \<in> set ps. prs_status (evaluate_profile E i rc rep) = Conformant"
    using assms reported_status [of _ E rc rep ps] by (fastforce simp: met_def)
qed

lemma cmd_validate_zero:
  assumes "cmd_validate E X args h = (0, h')"
  obtains opts path bs rep where "validate_options args default_validate_options = Inr opts" "vo_file opts = Some path"
    "read_bounded h path (vo_max_size opts) = Some bs"
    "rep = validate_with_profiles E (cl_receipt_from_bytes X) bs (default_limits\<lparr>vl_max_bytes := unat (vo_max_size opts)\<rparr>) (vo_profiles opts)"
    "rep_status rep = Clean" "\<forall>p \<in> set (rep_profiles rep). met p" "h' = emit (report_output (vo_json opts) rep) h"
  using assms
  by (auto simp: cmd_validate_def Let_def report_exit_code_def list_ex_iff
      split: sum.splits option.splits if_splits ValidationStatus.splits)

lemma validate_zero:
  assumes "cmd_validate E X args h = (0, h')"
  obtains given path content bs rc R s rep where "args = concat (map spelled given)" "\<forall>a \<in> set given. legible a"
    "List.map_filter receipt_path given = [path]" "read_file h path = Some content" "bs = take (2 ^ 64 - 1) content"
    "length bs \<le> size_bound given" "cl_receipt_from_bytes X bs = Some rc" "epoch_rules E rc R"
    "log_shape E (rcp_records rc)" "replays E R (rcp_records rc) s"
    "st_retracted_records s = {}" "st_tainted_records s = {}"
    "\<forall>decl \<in> set (rcp_profiles rc). profile_ref E (pr_id decl) = Some decl
       \<and> prs_status (evaluate_profile E (pr_id decl) rc rep) = Conformant"
    "\<forall>i. RequireArg i \<in> set given \<longrightarrow> prs_status (evaluate_profile E i rc rep) = Conformant"
    "ho_stdout h' = ho_stdout h @ [report_output (JsonArg \<in> set given) rep]"
proof -
  from assms obtain opts path bs rep where o: "validate_options args default_validate_options = Inr opts" "vo_file opts = Some path"
    "read_bounded h path (vo_max_size opts) = Some bs"
    and rep: "rep = validate_with_profiles E (cl_receipt_from_bytes X) bs (default_limits\<lparr>vl_max_bytes := unat (vo_max_size opts)\<rparr>) (vo_profiles opts)"
    and clean: "rep_status rep = Clean" "\<forall>p \<in> set (rep_profiles rep). met p"
    and out: "h' = emit (report_output (vo_json opts) rep) h" by (rule cmd_validate_zero)
  have "rep_problem rep = None" using problem_reported(1) clean(1) rep by fastforce
  from validated [OF rep this] obtain rc R x where
    rc: "cl_receipt_from_bytes X bs = Some rc" "replayable E rc (default_limits\<lparr>vl_max_bytes := unat (vo_max_size opts)\<rparr>) R x"
      "rep = replay_report E rc R x\<lparr>rep_profiles := evaluate_profiles E rc (replay_report E rc R x) (vo_profiles opts)\<rparr>" by metis
  have R: "epoch_rules E rc R" using rc(2) rules_of_epoch by (auto simp: replayable_def)
  note fields = report_fields [where E = E and rc = rc and R = R and h = x
      and x = "evaluate_profiles E rc (replay_report E rc R x) (vo_profiles opts)", folded rc(3)]
  obtain s where s: "log_shape E (rcp_records rc)" "replays E R (rcp_records rc) s" using fields(1) clean(1) by auto
  have "evaluate_profiles E rc rep (vo_profiles opts) = rep_profiles rep" by (simp add: rc(3))
  then have "\<forall>p \<in> set (evaluate_profiles E rc rep (vo_profiles opts)). met p" using clean(2) by simp
  note profiles = all_profiles_met [OF this]
  obtain given where given: "args = concat (map spelled given)" "\<forall>a \<in> set given. legible a"
    "List.map_filter receipt_path given = [path]" "unat (vo_max_size opts) = size_bound given"
    "set (vo_profiles opts) = {i. RequireArg i \<in> set given}" "vo_json opts \<longleftrightarrow> JsonArg \<in> set given"
    using read_options [OF o(1)] o(2) by (auto simp: default_validate_options_def size_bound_def DEFAULT_MAX_SIZE_def)
  obtain content where content: "read_file h path = Some content" "bs = take (2 ^ 64 - 1) content"
    using read_bounded_Some(1) [OF o(3)] by blast
  show thesis
  proof (rule that [OF given(1-3) content _ rc(1) R s])
    show "st_retracted_records s = {}" "st_tainted_records s = {}" using fields(6) [OF s] clean(1) by auto
    show "length bs \<le> size_bound given" using read_bounded_Some(2) [OF o(3)] given(4) by simp
  qed (use profiles given out in auto)
qed

section \<open>The loop of lineage ends\<close>

lemma accepted_parent_backwards:
  assumes rep: "replays E R rs s" and r: "r \<in> set rs" "rec_kind r = KCandidate" "rec_id r \<in> st_accepted_records s"
    and d: "de_candidate E (rec_data r) = Some d" "cnd_parent d = Some p"
  shows "p \<in> st_accepted_records s \<and> pos rs p < pos rs (rec_id r)"
proof -
  obtain pre s0 where adm: "admitted_at E R rs r pre s0" using admitted [OF rep r(1) _ r(3)] r(2) by auto
  then have "check_candidate E r (prior_of (pre @ [r])) R s0 = None"
    using admitted_checks(8) [OF adm] r(2) by (simp add: check_kind_specific_def)
  from candidate_parent_accepted [OF this d] have p: "p \<in> st_accepted_records s0" .
  obtain v ext where "rs = pre @ r # v # ext" and "replays E R pre s0" using adm by (auto simp: admitted_at_def)
  then have "st_accepted_records s0 \<subseteq> st_accepted_records s" using accepted_mono [OF rep] by blast
  with p pos_admitted [OF rep adm p] show ?thesis by blast
qed

lemma parent_chain_returns:
  assumes rep: "replays E R rs s" and i: "i \<in> st_accepted_records s"
  shows "\<exists>chain. parent_chain E rs (Some i) acc = Some chain"
  using i
proof (induction "pos rs i" arbitrary: i acc rule: less_induct)
  case less
  show ?case
  proof (cases "Option.bind (find_candidate E rs i) cnd_parent")
    case None
    then show ?thesis by (simp add: parent_chain.simps)
  next
    case (Some p)
    then obtain r d where r: "List.find (\<lambda>r. rec_id r = i \<and> rec_kind r = KCandidate) rs = Some r"
      "de_candidate E (rec_data r) = Some d" "cnd_parent d = Some p"
      by (auto simp: find_candidate_def bind_eq_Some_conv)
    from find_SomeD [OF r(1)] less.prems accepted_parent_backwards [OF rep _ _ _ r(2,3)]
    have "p \<in> st_accepted_records s" "pos rs p < pos rs i" by auto
    from less.hyps [OF this(2,1), of "acc @ [i]"] Some show ?thesis
      by (subst parent_chain.simps) simp
  qed
qed

lemma lineage_reports:
  assumes rep: "replays E R rs s" and r: "r \<in> set rs" "rec_kind r = KCandidate \<Longrightarrow> rec_id r \<in> st_accepted_records s"
  shows "\<exists>li. lineage_report E rs verdict r = Some li"
proof (cases "Option.bind (candidate_of E r) cnd_parent")
  case None
  then show ?thesis by (simp add: lineage_report_def Let_def parent_chain.simps)
next
  case (Some p)
  then obtain d where "rec_kind r = KCandidate" "de_candidate E (rec_data r) = Some d" "cnd_parent d = Some p"
    by (auto simp: candidate_of_def bind_eq_Some_conv split: if_splits)
  with accepted_parent_backwards [OF rep r(1) _ r(2)] have "p \<in> st_accepted_records s" by blast
  from parent_chain_returns [OF rep this, of "[]"] Some show ?thesis by (auto simp: lineage_report_def Let_def)
qed

end
