(* ===== verification/Cli_Sample.thy ===== *)
theory Cli_Sample
  imports Cli_Laws Receipt_Sample
begin

text \<open>
  A host for the command line tool: a rules file, a key file, a receipt file and a log directory that
  does not exist yet.  The request of the sample ledger is recorded from the command line, and the
  receipt of the sample ledger of candidates is validated.
\<close>

section \<open>The host\<close>

definition t_signer :: Ed25519Signer where
  "t_signer = \<lparr>sg_public_key = s_key, sg_sign = (\<lambda>_. s_key @ s_key)\<rparr>"

definition t_cli :: cli_env where
  "t_cli =
     \<lparr>cl_rules_from_slice = (\<lambda>bs. if bs = [1] then Some s_rules else None), cl_record_from_slice = c_parse,
      cl_receipt_from_bytes = (\<lambda>bs. if bs = [2] then Some g_receipt else None),
      cl_signing_key = (\<lambda>_. t_signer), cl_to_string = (\<lambda>_. Some [3]), cl_prints = (\<lambda>_. True)\<rparr>"

definition t_host :: Host where
  "t_host =
     \<lparr>ho_files = Mapping.update ''r'' [1] (Mapping.update ''g'' [2] (Mapping.update ''k'' (replicate 32 5) Mapping.empty)),
      ho_unwritable = {}, ho_dirs = Mapping.empty, ho_trees = (\<lambda>_. Unreadable), ho_stdout = [], ho_stdout_closed = False\<rparr>"

section \<open>Recording a request\<close>

definition t_rest :: "string list" where
  "t_rest = [''add'', ''--log'', ''d'', ''--rules'', ''r'', ''--author'', ''u'', ''--objective'', ''ship'', ''--sign-key'', ''k'']"

definition t_writer :: LogWriter where
  "t_writer = c_writer\<lparr>lw_log := (lw_log c_writer)\<lparr>fl_max_file_bytes := DEFAULT_MAX_LOG_BYTES\<rparr>\<rparr>"

definition t_proposal :: Proposal where
  "t_proposal = c_proposal\<lparr>pro_author := s_author ''u'' AUser\<rparr>"

lemma t_writer_sel [simp]:
  "writer_records t_writer = []" "lw_time_source t_writer = from_last_time None"
  "fl_max_file_bytes (lw_log t_writer) = DEFAULT_MAX_LOG_BYTES" "ld_io (fl_dir (lw_log t_writer)) = []"
  "fl_dir (lw_log t_writer) = c_dir"
  by (simp_all add: t_writer_def c_writer_def writer_records_def c_dir_def)

lemma s_rules_hash: "\<exists>x. rules_hash s_env s_rules = Some x"
  using canonical_json_total [OF s_rules_writable, of s_env] by (auto simp: rules_hash_def sha256_canonical_def)

lemma t_opens: "writer_open s_env c_parse s_rules empty_dir = Inr t_writer"
proof -
  have valid: "require_valid_log s_env [] s_rules = None"
    using verify_log_genesis [of s_env "[]" s_rules] replays_Nil [of s_env s_rules]
    by (auto simp: require_valid_log_def log_shape_def)
  have "try_lock empty_dir = (Inr (), empty_dir\<lparr>ld_locked := True\<rparr>)"
    by (simp add: try_lock_def and_then_def plain_call_def sys_call_def empty_dir_def)
  moreover have "file_log_open c_parse DEFAULT_MAX_LOG_BYTES (empty_dir\<lparr>ld_locked := True\<rparr>) = Inr (lw_log t_writer)"
    by (simp add: file_log_open_def open_records_def and_then_def plain_call_def sys_call_def open_or_create_def
        metadata_len_def look_def read_all_records_def read_to_end_def lift_result_def read_frames.simps ok_def
        seek_end_def log_bytes_def empty_dir_def t_writer_def c_writer_def c_dir_def)
  moreover have "open_checked s_env s_rules (lw_log t_writer) = (Inr (the (rules_hash s_env s_rules)), lw_log t_writer)"
    using valid s_rules_hash
    by (auto simp: open_checked_def and_then_def t_writer_def c_writer_def complete_prefix_def ok_def recover_def
        on_dir_def on_part_def clear_file_def c_dir_def lift_result_def or_error_def)
  ultimately show ?thesis
    by (simp add: writer_open_def open_with_max_bytes_def) (simp add: t_writer_def c_writer_def log_last_time_def)
qed

lemma t_writer_ok: "writer_ok s_env c_parse s_rules t_writer default_state"
  using c_writer_ok by (simp add: writer_ok_def t_writer_def log_ok_def writer_records_def log_last_time_def)
    (simp add: c_writer_def)

lemma t_materialize:
  "materialize s_env t_writer s_rules default_state (Some t_signer) t_proposal = Inr (s_req, s_accept, s_verdict 2 2 1)"
proof -
  have sha: "cr_sha256 s_env = sample_sha s_world" by (simp add: s_env_def)
  have same: "unsigned_record s_env t_writer default_state t_proposal
      = unsigned_record s_env t_writer default_state c_proposal\<lparr>rec_author := s_author ''u'' AUser\<rparr>"
    by (simp add: unsigned_record_def t_proposal_def proposal_evidence_def)
  let ?r = "s_req\<lparr>rec_id := zero_id, rec_author := s_author ''u'' AUser\<rparr>"
  have "uint (rec_time ?r) \<le> MAX_SAFE_INTEGER" using s_small(1) by (simp add: small_def)
  then have "writable (signing_form_json ?r)"
    using writable_envelope [OF plain_author_json(4), of ?r "rec_author ?r"] by (simp add: signing_form_json_def)
  then obtain bs where "signing_bytes s_env ?r = Some bs"
    using canonical_json_total unfolding signing_bytes_def by blast
  then have "sign_record s_env (Some t_signer) ?r = Some (s_req\<lparr>rec_id := zero_id\<rparr>)"
    by (simp add: sign_record_def sign_def t_signer_def public_key_hex_def s_author_def)
      (simp add: s_req_def s_record_defs)
  then have "sign_record s_env (Some t_signer) (unsigned_record s_env t_writer default_state t_proposal) = Some (s_req\<lparr>rec_id := zero_id\<rparr>)"
    unfolding same c_unsigned(1) [OF sha t_writer_sel(2)] by simp
  also have "\<dots> = sign_record s_env None (unsigned_record s_env c_writer default_state c_proposal)"
    using c_unsigned(1) [OF sha, of c_writer] by (simp add: sign_record_def c_writer_def)
  finally have signed: "sign_record s_env (Some t_signer) (unsigned_record s_env t_writer default_state t_proposal)
      = sign_record s_env None (unsigned_record s_env c_writer default_state c_proposal)" .
  have eqs: "lw_time_source t_writer = lw_time_source c_writer" "writer_records t_writer = writer_records c_writer"
    by (simp_all add: t_writer_def writer_records_def)
  have "materialize s_env t_writer s_rules default_state (Some t_signer) t_proposal
      = materialize s_env c_writer s_rules default_state None c_proposal"
    unfolding materialize_def signed eqs by (rule refl)
  then show ?thesis using c_materialize by simp
qed

lemma t_sound: "sound_commit s_env c_parse s_rules t_writer default_state (Some t_signer) t_proposal"
  using c_sound c_sound_pair by (simp add: sound_commit_def t_materialize)

lemma t_addressed: "well_addressed s_rules t_proposal"
  using c_addressed by (simp add: well_addressed_def t_proposal_def)

lemma small_width: "json_width (record_json s_req) \<le> 100000" "json_width (record_json (s_verdict 2 2 1)) \<le> 100000"
proof -
  have "length (form (request_json s_request)) \<le> 2000"
    by (rule order_trans [OF length_form])
      (simp_all add: request_json_def s_request_def s_scope_def width_simps)
  moreover have "length (hex_encode s_key) \<le> 64" by (simp add: s_key_def)
  ultimately show "json_width (record_json s_req) \<le> 100000"
    by (simp add: s_req_def width_simps s_key_def)
  have "length (form (verdict_json s_accept)) \<le> 2000"
    by (rule order_trans [OF length_form]) (simp_all add: verdict_json_def s_accept_def width_simps)
  then show "json_width (record_json (s_verdict 2 2 1)) \<le> 100000" by (simp add: width_simps)
qed

lemma frame_width:
  assumes "small r" "json_width (record_json r) \<le> n"
  shows "length (frame C r) \<le> n + 4"
  using small_forms(2) [OF assms(1), of C] length_form [OF plain_record writable_record, of r] assms
  by (simp add: frame_def small_def)

lemma t_room: "length (framed s_env (writer_records t_writer @ [s_req, s_verdict 2 2 1])) \<le> unat (fl_max_file_bytes (lw_log t_writer))"
  using frame_width [OF s_small(1) small_width(1), of s_env] frame_width [OF s_small(2) small_width(2), of s_env]
  by (simp add: DEFAULT_MAX_LOG_BYTES_def framed_def)

lemma t_run:
  obtains w s where "commit_inner s_env s_rules (Some t_signer) t_proposal (t_writer, default_state) = (Inr ([1], s_accept), w, s)"
proof -
  have "\<not> exhausted (lw_time_source t_writer)" using c_calm(1) by (simp add: t_writer_def)
  from commit_returns [OF t_writer_ok t_sound t_addressed this t_materialize t_room t_writer_sel(4)] that show thesis
    by (auto simp: s_req_def)
qed

definition t_parsed :: Parsed where
  "t_parsed = empty_parsed\<lparr>pa_singles := Mapping.update ''sign-key'' ''k'' (Mapping.update ''objective'' ''ship''
     (Mapping.update ''author'' ''u'' (Mapping.update ''rules'' ''r'' (Mapping.update ''log'' ''d'' Mapping.empty))))\<rparr>"

lemma t_parse: "parse_args request_flags (tl t_rest) = Inr t_parsed"
  by (simp add: parse_args_def t_rest_def request_flags_def strip_prefix_def is_flag_def has_key_def t_parsed_def empty_parsed_def)

lemma t_state: "verify_and_build_state s_env [] s_rules = Inr default_state"
proof -
  have "replays s_env s_rules [] default_state" by (rule replays_Nil)
  then show ?thesis
    using verify_log_genesis [of s_env "[]" s_rules] replays_build_state [of s_env s_rules "[]" default_state]
    by (auto simp: verify_and_build_state_def Let_def log_shape_def)
qed

lemma t_builds: "build_request s_env t_cli h s_rules t_parsed (s_author ''u'' AUser) w s = Inr t_proposal"
proof -
  have "\<lparr>req_objective = ''ship'', req_scope = s_space, req_attachments = [], req_parent_request_id = None\<rparr> = s_request"
    by (simp add: s_request_def s_scope_def s_space_def)
  moreover have "canonical_json s_env (request_json s_request) = Some (form (request_json s_request))"
    by (rule canonical_json_form) simp_all
  ultimately show ?thesis
    by (simp add: build_request_def or_return_def required_flag_def single_def t_parsed_def checked_encode_def
        cli_proposal_def t_proposal_def c_proposal_def s_thread_def s_space_def)
qed

lemma t_command:
  obtains h where "bellbook_main s_env t_cli (''request'' # t_rest) t_host = Some (0, h)"
proof -
  obtain w s where run: "commit_inner s_env s_rules (Some t_signer) t_proposal (t_writer, default_state) = (Inr ([1], s_accept), w, s)"
    by (rule t_run)
  have opened: "open_log s_env t_cli s_rules ''d'' t_host = (Inr (t_writer, default_state), put_dir ''d'' c_dir t_host)"
    using t_opens t_state
    by (simp add: open_log_def open_writer_def dir_at_def t_host_def t_cli_def lookup_default_def)
  have flags: "load_rules s_env t_cli t_host t_parsed = Inr s_rules" "required_flag t_parsed ''log'' = Inr ''d''"
    "author_of s_rules t_parsed = Inr (s_author ''u'' AUser)"
    "signer_from s_env t_cli (put_dir ''d'' c_dir t_host) t_parsed = Inr (Some t_signer)"
    by (simp_all add: load_rules_def or_return_def required_flag_def single_def t_parsed_def read_file_def t_host_def
        t_cli_def author_of_def s_author_def signer_from_def transpose_result_def read_signer_def put_dir_def)
  have "record_command s_env t_cli request_flags build_request (tl t_rest) t_host
      = (Inr 0, emit (CommitId (hex_encode [1])) (drop_writer ''d'' w (put_dir ''d'' c_dir t_host)))"
    using run
    by (simp add: record_command_def t_parse flags opened or_return_def t_builds commit_and_print_def commit_signed_def)
      (simp add: print_commit_def commit_output_def s_accept_def t_parsed_def empty_parsed_def)
  then show thesis
    by (intro that) (simp add: bellbook_main_def cmd_evolution_def evolution_command_def request_cmd_def add_command_def t_rest_def)
qed

text \<open>The command line fixes what is committed, and the directory that does not exist yet is in order.\<close>

lemma t_prepared:
  assumes "prepared s_env t_cli request_flags build_request (tl t_rest) t_host R path w s a pro signer"
  shows "R = s_rules" "path = ''d''" "w = t_writer" "s = default_state" "pro = t_proposal" "signer = Some t_signer"
proof -
  obtain p rfile bs where p: "parse_args request_flags (tl t_rest) = Inr p" "single p ''rules'' = Some rfile"
    "read_file t_host rfile = Some bs" "cl_rules_from_slice t_cli bs = Some R" "single p ''log'' = Some path"
    and w: "writer_open s_env (cl_record_from_slice t_cli) R (dir_at t_host path) = Inr w"
    "verify_and_build_state s_env (writer_records w) R = Inr s"
    and a: "single p ''author'' = Some (au_id a)" "Mapping.lookup (vr_author_roles R) (au_id a) = Some (au_type a)"
    "au_signature a = None"
    and pro: "build_request s_env t_cli (put_dir path (fl_dir (lw_log w)) t_host) R p a w s = Inr pro"
    "signer_from s_env t_cli (put_dir path (fl_dir (lw_log w)) t_host) p = Inr signer"
    using assms unfolding prepared_def by blast
  have p': "p = t_parsed" using p(1) t_parse by simp
  show R: "R = s_rules" and path: "path = ''d''"
    using p(2-5) by (auto simp: p' t_parsed_def single_def read_file_def t_host_def t_cli_def split: if_splits)
  show w': "w = t_writer"
    using w(1) t_opens by (simp add: R dir_at_def t_host_def lookup_default_def t_cli_def)
  show "s = default_state" using w(2) t_state by (simp add: w' R)
  have "a = s_author ''u'' AUser" using a by (cases a) (auto simp: p' R t_parsed_def single_def s_author_def)
  then show "pro = t_proposal" using pro(1) t_builds by (simp add: p' R)
  show "signer = Some t_signer"
    using pro(2) by (simp add: p' t_parsed_def single_def signer_from_def transpose_result_def read_signer_def put_dir_def
        read_file_def t_host_def t_cli_def or_return_def)
qed

lemma t_in_order: "in_order s_env c_parse s_rules (dir_at t_host ''d'') []"
proof -
  have "lv_result (verify_log s_env [] s_rules None) = Accept"
    using verify_log_genesis [of s_env "[]" s_rules] replays_Nil [of s_env s_rules] by (auto simp: log_shape_def)
  then show ?thesis
    by (simp add: in_order_def dir_at_def t_host_def lookup_default_def empty_dir_def holds_def log_bytes_def)
qed

section \<open>Validating a receipt\<close>

definition t_limits :: ValidationLimits where
  "t_limits = default_limits\<lparr>vl_max_bytes := unat DEFAULT_MAX_SIZE\<rparr>"

lemma g_data_small: "r \<in> set g_log \<Longrightarrow> length (rec_data r) \<le> 2000"
proof -
  have "length (form (candidate_json (g_candidate b))) \<le> 2000" for b
    by (rule order_trans [OF length_form])
      (cases b; simp add: candidate_json_def g_candidate_def g_source_def source_binding_json_def git_source_json_def
        width_simps)+
  moreover have "length (form (verdict_json s_accept)) \<le> 2000"
    by (rule order_trans [OF length_form]) (simp_all add: verdict_json_def s_accept_def width_simps)
  moreover assume "r \<in> set g_log"
  ultimately show ?thesis by (auto simp: g_log_def) (simp_all add: g_c1_def g_c2_def s_verdict_def s_record_def)
qed

lemma t_replayable:
  obtains x where "replayable s_env g_receipt t_limits s_rules x"
proof -
  have "length (rec_refs r) \<le> 1" if "r \<in> set g_log" for r
    using that by (auto simp: g_log_def) (simp_all add: s_subject_defs s_record_defs)
  then have "\<forall>r \<in> set g_log. length (rec_data r) \<le> vl_max_payload_bytes t_limits
      \<and> length (rec_refs r) \<le> vl_max_refs_per_record t_limits"
    using g_data_small by (fastforce simp: t_limits_def default_limits_def)
  moreover have "length g_log \<le> vl_max_records t_limits" by (simp add: g_log_def t_limits_def default_limits_def)
  ultimately show thesis
    using exported_replayable [OF g_schema_keys g_declared, of t_limits] g_bytes that by auto
qed

lemma g_state2_clean: "st_retracted_records g_state2 = {}" "st_tainted_records g_state2 = {}"
proof -
  have step: "st_retracted_records (the (apply_accepted s_env s r)) = st_retracted_records s
      \<and> st_tainted_records (the (apply_accepted s_env s r)) = st_tainted_records s"
    if "rec_kind r = KCandidate" "st_tainted_records s = {}" "st_retracted_records s = {}" for s r
    using that by (simp add: apply_accepted_def apply_kind_def s_register inherits_taint_def list_ex_iff)
  show "st_retracted_records g_state2 = {}" "st_tainted_records g_state2 = {}"
    using step [of g_c2 g_state1] step [of g_c1 default_state]
    by (simp_all add: g_state2_def g_state1_def at_def default_state_def g_c1_def g_c2_def)
qed

lemma t_met:
  assumes "rep_status rep \<noteq> Invalid" "i \<in> set g_profiles" "profile_ref s_env i = Some decl"
  shows "met (evaluate_declared s_env decl g_receipt rep)"
  using assms profile_ref_id [OF assms(3)] core.declared [of decl s_env g_receipt rep]
    signed.declared [of decl s_env g_receipt rep] core_rules_conformant [of g_receipt rep s_env] g_signed_status [of rep]
  by (auto simp: g_profiles_def met_def evaluate_declared_def evaluate_profile_def profile_ids)

lemma t_validates:
  obtains h where "cmd_validate s_env t_cli [''g'', ''--require-profile'', BELLBOOK_CORE_V1] t_host = (0, h)"
proof -
  obtain x where x: "replayable s_env g_receipt t_limits s_rules x" by (rule t_replayable)
  define rep where "rep = validate_with_profiles s_env (cl_receipt_from_bytes t_cli) [2] t_limits [BELLBOOK_CORE_V1]"
  let ?base = "replay_report s_env g_receipt s_rules x"
  have size: "unat DEFAULT_MAX_SIZE = 67108864" by (simp add: DEFAULT_MAX_SIZE_def)
  have "validate_with_limits s_env (cl_receipt_from_bytes t_cli) [2] t_limits = ?base"
    using validate_receipt_replays [OF x] by (simp add: validate_with_limits_def t_cli_def t_limits_def size)
  then have rep: "rep = ?base\<lparr>rep_profiles := evaluate_profiles s_env g_receipt ?base [BELLBOOK_CORE_V1]\<rparr>"
    by (simp add: rep_def validate_with_profiles_def replay_report_no_problem t_cli_def Let_def)
  note fields = report_fields [where E = s_env and rc = g_receipt and R = s_rules and h = x]
  have status: "rep_status rep = Clean" "rep_status ?base \<noteq> Invalid"
    using fields(6) [where s = g_state2] fields(1) [where x = "rep_profiles ?base"] g_log_shape g_replays
    by (auto simp: rep g_state2_clean)
  obtain d1 d2 where d: "profile_ref s_env BELLBOOK_CORE_V1 = Some d1" "profile_ref s_env BELLBOOK_CORE_SIGNED_V1 = Some d2"
    using profile_ref_known [of BELLBOOK_CORE_V1 s_env] profile_ref_known [of BELLBOOK_CORE_SIGNED_V1 s_env]
    by (auto simp: known_profiles_def)
  have "rcp_profiles g_receipt = [d1, d2]" by (simp add: g_receipt_def receipt_new_def g_profiles_def d)
  moreover have "prs_id (evaluate_declared s_env d1 g_receipt ?base) = BELLBOOK_CORE_V1"
    using profile_ref_id [OF d(1)] by (simp add: evaluate_declared_def)
  ultimately have "rep_profiles rep = [evaluate_declared s_env d1 g_receipt ?base, evaluate_declared s_env d2 g_receipt ?base]"
    by (simp add: rep evaluate_profiles_def add_required_def)
  then have "report_exit_code rep = 0"
    using status t_met [OF status(2) _ d(1)] t_met [OF status(2) _ d(2)]
    by (simp add: report_exit_code_def g_profiles_def)
  moreover have "validate_options [''g'', ''--require-profile'', BELLBOOK_CORE_V1] default_validate_options
      = Inr \<lparr>vo_file = Some ''g'', vo_json = False, vo_max_size = DEFAULT_MAX_SIZE, vo_profiles = [BELLBOOK_CORE_V1]\<rparr>"
    by (simp add: default_validate_options_def starts_with_def strip_prefix_def profile_ids)
  moreover have "read_bounded t_host ''g'' DEFAULT_MAX_SIZE = Some [2]"
  proof -
    have "unat (u64_saturating_add DEFAULT_MAX_SIZE 1) = 67108865"
      by (simp add: u64_saturating_add_def DEFAULT_MAX_SIZE_def)
    then show ?thesis by (simp add: read_bounded_def read_file_def t_host_def size)
  qed
  ultimately show thesis
    by (intro that) (simp add: cmd_validate_def rep_def t_limits_def Let_def)
qed

lemma t_reading:
  assumes "[''g'', ''--require-profile'', i] = concat (map spelled given)" "\<forall>a \<in> set given. legible a"
  shows "RequireArg i \<in> set given"
proof -
  obtain a given' where a: "given = a # given'" using assms(1) by (cases given) simp_all
  then have "spelled a = [''g'']" "[''--require-profile'', i] = concat (map spelled given')"
    using assms(1) by (cases a; simp)+
  moreover from this obtain b given'' where b: "given' = b # given''" by (cases given') simp_all
  ultimately have "b = RequireArg i" using assms(2) by (cases b) (simp_all add: a)
  with a b show ?thesis by simp
qed

section \<open>Generating rules\<close>

lemma t_roles: "parse_role ''User'' = Some AUser" "parse_role ''provider'' = Some AProvider"
  by code_simp+

lemma t_rules:
  "cmd_rules s_env t_cli [''init'', ''--author'', ''u:User'', ''--author'', ''p:provider'', ''--admin'', ''u'', ''--signed''] t_host
     = (0, emit (RulesOut [3]) t_host)"
  by (simp add: cmd_rules_def default_rules_options_def rules_value_def add_author_def t_roles
      check_rules_options_def is_bound_def write_rules_def t_cli_def)

end
