(* ===== verification/Spec2Isabelle.thy ===== *)
theory Spec2Isabelle
  imports Requirement_Keys Key_Invariant Evidence_Log Plan_Laws Delivery_Sample Manifest_Laws Cli_Sample
begin

text \<open>
  A verification library of bellbook (the crate under \<open>src/src\<close>), an append-only ledger that records
  what a group of actors asked for, did, evaluated and selected, and that anybody can replay.

  \<^bold>\<open>The program.\<close>  A log is a list of records: each subject (a request, an action, a candidate ...) is
  followed by a verdict record that says whether the verifier accepts it.  A record is identified by
  the SHA-256 of its canonical JSON (\<open>base/canonical.rs\<close>, \<open>record/\<close>).  The verifier
  (\<open>verify/verifier/\<close>) decides about a record from the records before it, the rules
  (\<open>verify/rules.rs\<close>) and the state (\<open>state/\<close>) that the accepted records fold into.  \<open>verify_log\<close>
  replays a whole log and recomputes every verdict; at its end \<open>verify/standing.rs\<close> says which
  candidates and selections still stand.  \<open>LogWriter\<close> (\<open>log/\<close>) owns a directory with the log file and
  appends subject and verdict under a commit intent that survives crashes.  Receipts (\<open>receipt.rs\<close>)
  bundle a log with its rules so that it can be validated offline, against named profiles
  (\<open>profiles/\<close>); queries (\<open>queries.rs\<close>) and contexts (\<open>context/\<close>) read a verified log, and manifests
  (\<open>manifest.rs\<close>) give the hash of a worktree.  The command line tool (\<open>bin/bellbook.rs\<close>) turns its
  arguments into calls of all these.

  \<^bold>\<open>The model.\<close>  Structs are records, enums datatypes, integers words of their width, a
  \<open>BTreeMap\<close> is a \<open>mapping\<close> and a \<open>BTreeSet\<close> a set.  \<open>Option<ReasonCode>\<close> functions with early
  returns are \<open>first_reason\<close> lists; \<open>Result\<close> is a sum with the error on the left; functions that
  change a file or a handle are \<open>action\<close>s (\<open>Host_IO\<close>).  The theories follow the source files:

  \<^item> \<open>Prelude\<close> (shared types, combinators and lemmas), \<open>Base\<close> (\<open>base/hash.rs\<close>, \<open>schema.rs\<close>, \<open>time.rs\<close>),
    \<open>Canonical\<close> (\<open>base/canonical.rs\<close>), \<open>Kinds\<close> (\<open>record/kind.rs\<close>, \<open>evidence.rs\<close>), \<open>Records\<close>
    (\<open>record/author.rs\<close>, \<open>refs.rs\<close>, \<open>record.rs\<close>, \<open>sign.rs\<close>), \<open>Payloads\<close> and \<open>Payload_Forms\<close>
    (\<open>record/payloads.rs\<close>), \<open>Rules\<close> (\<open>verify/rules.rs\<close>);
  \<^item> \<open>Ledger_State\<close>, \<open>Incremental\<close> and \<open>Build\<close> (\<open>state/\<close>): the state, \<open>apply_record\<close>, the rebuild;
  \<^item> \<open>Prior_Index\<close>, \<open>Record_Checks\<close>, \<open>Activity\<close>, \<open>Lifecycle\<close>, \<open>Plans\<close>, \<open>Evolution\<close>, \<open>Replay\<close>
    (\<open>verify/verifier/\<close>), \<open>Standing\<close> (\<open>verify/standing.rs\<close>), \<open>Checkpoint\<close> (\<open>checkpoint.rs\<close>);
  \<^item> \<open>Host_IO\<close> (the part of the standard library the log uses), \<open>Storage\<close> (\<open>log/storage.rs\<close>), \<open>Writer\<close>
    (\<open>log/writer/\<close>);
  \<^item> \<open>Context\<close>, \<open>Queries\<close>, \<open>Profiles\<close>, \<open>Profile_Signed\<close>, \<open>Profile_Delivery\<close>, \<open>Profile_Set\<close>,
    \<open>Receipts\<close>, \<open>Manifest\<close> (the files of these names);
  \<^item> \<open>Cli_Args\<close>, \<open>Cli_Host\<close>, \<open>Cli_Record\<close>, \<open>Cli_Read\<close> (\<open>bin/bellbook.rs\<close>).

  \<^bold>\<open>What the lemmas show.\<close>
  \<^item> \<open>Replay_Spec\<close> and \<open>Replay_Build\<close>: \<open>replays\<close>, an inductive specification of valid histories, is
    exactly what \<open>verify_log\<close> accepts, and rebuilding from stored verdicts gives the replayed state;
    \<open>Checkpoint_Laws\<close>: starting from a checkpoint changes nothing.
  \<^item> \<open>Canonical_Laws\<close> and \<open>Record_Laws\<close>: canonical bytes determine the value, ids pin the log,
    signatures cover the record.
  \<^item> \<open>Ledger_Invariants\<close> has the contract of an invariant of the fold as a locale, which the
    invariants of \<open>Authority_Invariants\<close>, \<open>Work_Invariants\<close> and others interpret; \<open>Acceptance\<close> turns
    each rule into a fact on accepted records.  They give the theorems on authorization, single use
    of approvals, authenticity and references, on work and conversation turns
    (\<open>Work_Log\<close>), on evidence (\<open>Evidence_Log\<close>) and on requirement keys
    (\<open>Key_Invariant\<close>; \<open>Requirement_Keys\<close> has a ledger in which a repeated retraction breaks them).
  \<^item> \<open>Taint\<close> and \<open>Taint_Log\<close>: the taint cascade computes reachability.  \<open>Plan_Laws\<close>: the cycle
    test is exact.  \<open>Standing_Laws\<close> and \<open>Standing_Log\<close>: the iterative evaluation of standing
    refines a recursive specification.
  \<^item> \<open>Storage_Laws\<close>, \<open>Fresh_Ids\<close>, \<open>Writer_Laws\<close>, \<open>Commit_Safety\<close>: a Hoare logic over \<open>action\<close>s shows
    that well addressed, sound commits keep the log valid, that failures and crashes of these at any
    system call leave it recoverable, that unhindered ones succeed, and that batches resume; a
    misaddressed proposal makes the log invalid.
  \<^item> \<open>Fold_Total\<close>: under the frozen schemas the fold does not fail on accepted records.  \<open>Queries_Laws\<close>: queries answer, and answer
    exactly what \<open>lineage_edges\<close> reads off the payloads.  \<open>Receipt_Laws\<close>, \<open>Profile_Laws\<close>,
    \<open>Delivery_Laws\<close>: validation is replay under the rules of the epoch (\<open>epoch_rules\<close>), and what
    conformance to each profile is worth; the profiles share the locale \<open>profile\<close>.  \<open>Manifest_Laws\<close>: a
    manifest hash commits to the content of the worktree (\<open>worktree\<close>).  \<open>Cli_Laws\<close>: what the exit codes
    promise; \<open>prepared\<close> has the stages of the six recording commands, which share the locale
    \<open>recording\<close>, and \<open>spelled\<close> the options of \<open>validate\<close>.
  \<^item> \<open>Sample_Log\<close>, \<open>Commit_Sample\<close>, \<open>Queries_Sample\<close>, \<open>Receipt_Sample\<close>, \<open>Delivery_Sample\<close>,
    \<open>Cli_Sample\<close>: concrete ledgers, directories, receipts and command lines, on which the hypotheses
    of the theorems are discharged by evaluation.

  \<^bold>\<open>Code outside the crate\<close> is a parameter: the record \<open>crates\<close> has SHA-256, the number formatter and
  Ed25519 verification, \<open>env\<close> adds one JSON parser per payload type, and the parsers of records and
  receipts are arguments of the functions that use them; the command line tool has its own parsers and
  printers in \<open>cli_env\<close>.  Collision freedom and the round trip of a
  parser are hypotheses where a theorem needs them, on the values in question only.

  \<^bold>\<open>Loops.\<close>  Most recursions are structural.  The cascade \<open>mark_tainted\<close> runs on fuel that
  bounds the edges still to follow (\<open>mark_fuel\<close>), Kahn's loop on one step for each task and one more,
  the stack of \<open>derive_standing\<close> on \<open>standing_fuel\<close>; in each case a theorem says that the fuel is
  enough.  The walk along a replacement chain stops at a visited id, the descent query
  ends by the measure of unvisited ids, and the walk over a worktree by the size of the trees on its
  stack; frames of a file are read by decreasing length.  The loop of \<open>lineage\<close> over parents may run
  forever on records that no verifier saw; it is a partial function, shown to return for the accepted
  candidates of a log that replays.

  \<^bold>\<open>Input and output.\<close>  Every system call of the log takes its outcome from a schedule that the
  theorems quantify over: it succeeds, or fails after part of a write.  A crash keeps the synced
  bytes of the log and any prefix of the rest.  Renaming the intent is atomic.

  \<^bold>\<open>Not modelled.\<close>  The Python bindings (conversions around calls of the crate), the examples and
  fuzz targets, the trait \<open>Proposer\<close> (no implementation), the serde visitors behind the parsers, and
  texts: error messages and the terminal layout of reports; the model has the values they print.
\<close>

section \<open>Replay: what an accepted log is\<close>

text \<open>
  C1: \<open>verify_log\<close> without a checkpoint accepts a log exactly when the log has the right shape
  (times count up from 1, every id is recomputable) and is a history the specification \<open>replays\<close>
  allows: subject after subject, each followed by the one verdict the rules give for it over the
  records before it.
\<close>

theorem verify_log_accepts_replayable_logs:
  "lv_result (verify_log E rs R None) = Accept \<longleftrightarrow> log_shape E rs \<and> (\<exists>s. replays E R rs s)"
  by (rule verify_log_genesis)

text \<open>
  C2: \<open>verify_and_build_state\<close> returns a state exactly for the accepted logs, and the state it
  rebuilds from the stored verdicts is the state the replay folds: the last-resort rejection for a
  failing rebuild is never taken.
\<close>

theorem verified_state_is_replayed_state:
  "verify_and_build_state E rs R = Inr s \<longleftrightarrow> log_shape E rs \<and> replays E R rs s"
proof
  assume "verify_and_build_state E rs R = Inr s"
  then have acc: "lv_result (verify_log E rs R None) = Accept" and b: "build_state_unchecked E rs = Some s"
    by (auto simp: verify_and_build_state_def Let_def split: if_splits option.splits)
  from acc obtain s' where "log_shape E rs" "replays E R rs s'" unfolding verify_log_genesis by blast
  with replays_build_state b show "log_shape E rs \<and> replays E R rs s" by fastforce
next
  assume "log_shape E rs \<and> replays E R rs s"
  then show "verify_and_build_state E rs R = Inr s"
    using verify_log_genesis [of E rs R] replays_build_state [of E R rs s]
    by (auto simp: verify_and_build_state_def Let_def)
qed

text \<open>
  C3: Starting from a checkpoint issued for a verified prefix, \<open>verify_log\<close> accepts the same
  extensions as from genesis, and an accepting verdict is the same but for the number of records it
  reports as checked.
\<close>

theorem checkpoint_replay_agrees:
  assumes "from_verified_log E pre R = Some cp" "length pre < 2 ^ 64" "rs = pre @ ext"
  shows "(lv_result (verify_log E rs R (Some cp)) = Accept
          \<longleftrightarrow> lv_result (verify_log E rs R None) = Accept)
     \<and> (lv_result (verify_log E rs R None) = Accept
          \<longrightarrow> verify_log E rs R (Some cp)
              = (verify_log E rs R None)\<lparr>lv_checked_records := of_nat (length ext)\<rparr>)"
  using verify_log_from_checkpoint [OF assms] by blast

theorem checkpoint_replay_agrees_witness:
  "lv_result (verify_log s_env s_log s_rules (Some s_checkpoint)) = Accept
   \<and> verify_log s_env s_log s_rules (Some s_checkpoint)
     = (verify_log s_env s_log s_rules None)\<lparr>lv_checked_records := 8\<rparr>"
proof -
  have "s_log = s_pre3 @ drop 6 s_log" "length s_pre3 < 2 ^ 64" "length (drop 6 s_log) = 8"
    by (simp_all add: s_log_def s_pre3_def)
  from checkpoint_replay_agrees [OF s_checkpoint this(2,1)] this(3) s_verified_log
  show ?thesis by simp
qed

text \<open>
  C4: Tamper evidence.  Two logs whose records all carry their own hash and that list the same ids
  are the same log, as long as SHA-256 does not collide on the canonical forms of their records.
\<close>

theorem record_ids_pin_the_log:
  assumes "lv_result (verify_log E rs R None) = Accept" "lv_result (verify_log E rs' R' None) = Accept"
    "map rec_id rs = map rec_id rs'" "inj_on (sha256 E) (id_forms E (rs @ rs'))"
  shows "rs = rs'"
proof (rule ids_determine_records [OF _ assms(3,4)])
  fix r assume "r \<in> set rs \<union> set rs'"
  then show "compute_id E r = Some (rec_id r)"
    using assms(1,2) unfolding verify_log_genesis log_shape_def by (auto simp: in_set_conv_nth)
qed

theorem record_ids_pin_the_log_witness:
  "{rs'. lv_result (verify_log s_env rs' s_rules None) = Accept \<and> map rec_id s_log = map rec_id rs'
         \<and> inj_on (sha256 s_env) (id_forms s_env (s_log @ rs'))} = {s_log}"
  using record_ids_pin_the_log [OF s_verified_log] s_verified_log s_no_collision by blast

section \<open>Authority\<close>

text \<open>
  C5: Every accepted action stood, at its place in the log, on a capability for its author, class
  and scope that was accepted earlier, neither retracted nor tainted, not expired and required by
  the action; under an \<open>Ask\<close> capability also on such an approval.  Its request was active.
\<close>

theorem accepted_actions_are_authorized:
  assumes "replays E R rs s" "r \<in> set rs" "rec_kind r = KAction" "rec_id r \<in> st_accepted_records s"
  shows "\<exists>pre s0 d c cd. admitted_at E R rs r pre s0 \<and> de_action E (rec_data r) = Some d
     \<and> act_request_id d \<in> st_active_requests s0 \<and> granted_by E pre s0 r d c cd
     \<and> (cap_mode cd = Ask \<longrightarrow> (\<exists>a ad. approved_by E pre s0 r d a ad))"
proof -
  from assms admitted [OF assms(1,2)] obtain pre s0 where "admitted_at E R rs r pre s0" by auto
  with admitted_action [OF this assms(3)] show ?thesis by blast
qed

theorem accepted_actions_are_authorized_witness:
  "\<exists>pre s0 d c cd. admitted_at s_env s_rules s_log s_act pre s0
     \<and> de_action s_env (rec_data s_act) = Some d \<and> act_request_id d \<in> st_active_requests s0
     \<and> granted_by s_env pre s0 s_act d c cd
     \<and> (cap_mode cd = Ask \<longrightarrow> (\<exists>a ad. approved_by s_env pre s0 s_act d a ad))"
  by (rule accepted_actions_are_authorized [OF s_replays]) (simp_all add: s_log_def s_act_def)

text \<open>
  C6: An exact approval is used at most once: two accepted actions of one log that each consumed
  the same exact approval are the same record.
\<close>

theorem exact_approvals_are_single_use:
  assumes "replays E R rs s" "admitted_at E R rs r pre s0" "admitted_at E R rs r' pre' s0'"
    "rec_kind r = KAction" "rec_kind r' = KAction" "consumes_exact E s0 r i" "consumes_exact E s0' r' i"
  shows "r = r'"
  by (rule exact_approval_consumed_once [OF assms])

theorem exact_approvals_are_single_use_witness:
  "{r. \<exists>pre s0. admitted_at s_env s_rules s_log r pre s0 \<and> rec_kind r = KAction
         \<and> consumes_exact s_env s0 r [5]} = {s_act}"
proof -
  have "consumes_exact s_env s_state3 s_act [5]"
    unfolding consumes_exact_def
    by (rule exI [of _ s_action], rule exI [of _ s_action_hash])
      (simp add: s_act_def s_author_def s_action_hash has_require_ref_def)
  moreover have "rec_kind s_act = KAction" by (simp add: s_act_def)
  ultimately show ?thesis
    using exact_approvals_are_single_use [OF s_replays _ s_admitted_action] s_admitted_action by blast
qed

text \<open>
  C7: The author of every accepted record is registered for the role it signs under, and that role
  may author records of this kind; if the rules pin keys for the author, the record carries a
  signature over its signing form that verifies under one of them.
\<close>

theorem accepted_records_are_authentic:
  assumes "replays E R rs s" "r \<in> set rs" "rec_kind r \<noteq> KVerdict" "rec_id r \<in> st_accepted_records s"
  shows "Mapping.lookup (vr_author_roles R) (au_id (rec_author r)) = Some (au_type (rec_author r))
     \<and> au_type (rec_author r) \<in> set (allowed_author_types (rec_kind r))
     \<and> (\<forall>keys. Mapping.lookup (vr_author_keys R) (au_id (rec_author r)) = Some keys \<longrightarrow>
          (\<exists>key \<in> keys. \<exists>sg msg. au_signature (rec_author r) = Some sg
             \<and> hex_decode (sig_key_id sg) = Some key \<and> signing_bytes E r = Some msg
             \<and> cr_verify_strict E key msg (sig_sig sg)))"
proof -
  obtain pre s0 where adm: "admitted_at E R rs r pre s0" using admitted [OF assms] by blast
  have "\<exists>key \<in> keys. \<exists>sg msg. au_signature (rec_author r) = Some sg
      \<and> hex_decode (sig_key_id sg) = Some key \<and> signing_bytes E r = Some msg
      \<and> cr_verify_strict E key msg (sig_sig sg)"
    if "Mapping.lookup (vr_author_keys R) (au_id (rec_author r)) = Some keys" for keys
    using signature_None [OF admitted_checks(3) [OF adm] that] verified_key_Some [of E r] by blast
  then show ?thesis using author_role_None [OF admitted_checks(2) [OF adm] assms(3)] by blast
qed

theorem accepted_records_are_authentic_witness:
  "\<exists>key \<in> {s_key}. \<exists>sg msg. au_signature (rec_author s_cap) = Some sg
     \<and> hex_decode (sig_key_id sg) = Some key \<and> signing_bytes s_env s_cap = Some msg
     \<and> cr_verify_strict s_env key msg (sig_sig sg)"
proof -
  have "s_cap \<in> set s_log" "rec_kind s_cap \<noteq> KVerdict" "rec_id s_cap \<in> st_accepted_records s_state7"
    by (simp_all add: s_log_def) (simp_all add: s_cap_def)
  note auth = accepted_records_are_authentic [OF s_replays this]
  have "Mapping.lookup (vr_author_keys s_rules) (au_id (rec_author s_cap)) = Some {s_key}"
    by (simp add: s_cap_def s_signed_def)
  with auth show ?thesis by blast
qed

text \<open>
  C8: Every reference of an accepted record points to a record of its own space at or before its
  own place in the log, and a \<open>Require\<close> reference to an earlier record that was accepted and
  neither retracted nor tainted at that point.
\<close>

theorem accepted_references_resolve:
  assumes "replays E R rs s" "r \<in> set rs" "rec_kind r \<noteq> KVerdict" "rec_id r \<in> st_accepted_records s"
    "e \<in> set (rec_refs r)"
  shows "\<exists>pre s0. admitted_at E R rs r pre s0
     \<and> (\<exists>t \<in> set (pre @ [r]). rec_id t = ref_target e \<and> rec_space t = rec_space r)
     \<and> (ref_type e = RRequire
          \<longrightarrow> (\<exists>t \<in> set pre. rec_id t = ref_target e \<and> reliable s0 (rec_id t)))"
proof -
  obtain pre s0 where adm: "admitted_at E R rs r pre s0" using admitted [OF assms(1-4)] by blast
  from admitted_ref [OF adm assms(5)] admitted_require [OF adm assms(5)] adm show ?thesis by blast
qed

theorem accepted_references_resolve_witness:
  "\<exists>pre s0. admitted_at s_env s_rules s_log s_act pre s0
     \<and> (\<exists>t \<in> set (pre @ [s_act]). rec_id t = [3] \<and> rec_space t = rec_space s_act)
     \<and> (\<exists>t \<in> set pre. rec_id t = [3] \<and> reliable s0 (rec_id t))"
proof -
  have "s_act \<in> set s_log" "rec_kind s_act \<noteq> KVerdict" "rec_id s_act \<in> st_accepted_records s_state7"
    by (simp_all add: s_log_def) (simp_all add: s_act_def)
  moreover have "\<lparr>ref_type = RRequire, ref_target = [3]\<rparr> \<in> set (rec_refs s_act)"
    by (simp add: s_act_def)
  ultimately show ?thesis using accepted_references_resolve [OF s_replays] by fastforce
qed

section \<open>Taint and work in progress\<close>

text \<open>
  C9: The cascade is exact.  In the state of an accepted log a record is tainted exactly when a
  chain of \<open>Use\<close> and \<open>Require\<close> references of accepted records leads from it to the target of an
  accepted retraction.
\<close>

theorem taint_is_exactly_dependence_on_retraction:
  assumes "replays E R rs s"
  shows "st_tainted_records s = (log_edges s rs)\<^sup>+ `` log_retracted E s rs"
  by (rule tainted_iff_rests_on_retracted [OF assms])

theorem taint_is_exactly_dependence_on_retraction_witness:
  "[11] \<in> st_tainted_records s_state7 \<and> [9] \<notin> st_tainted_records s_state7"
proof -
  have edges: "log_edges s_state7 s_log = {([3], [7]), ([5], [7]), ([7], [11])}"
    unfolding log_edges_eval s_accepted by (simp add: s_log_def s_subject_defs)
  have retr: "log_retracted s_env s_state7 s_log = {[3]}"
    unfolding log_retracted_eval s_accepted
    by (simp add: s_log_def s_subject_defs map_filter_simps) (simp add: s_retraction_def)
  have "([3], [11]) \<in> {([3], [7]), ([5], [7]), ([7], [11])}\<^sup>+"
    by (rule trancl_trans [of _ "[7]"]) auto
  moreover have "y \<in> {[7], [11]}" if "(x, y) \<in> {([3], [7]), ([5], [7]), ([7], [11])}\<^sup>+" for x y :: hash256
    using that by (induction rule: trancl_induct) auto
  ultimately show ?thesis
    using taint_is_exactly_dependence_on_retraction [OF s_replays] unfolding edges retr by fastforce
qed

text \<open>
  C10: In the state of an accepted log the open actions are the accepted actions less those an
  accepted result or refusal closes, the active requests are the accepted requests less those an
  accepted closing response or an accepted refusal of the request ends, and the counter of open actions of a request, kept in 64 bits, is the
  number of its open actions.  An action is closed at most once: two accepted records of one log that
  close the same action, as its result or its refusal, are the same record.
\<close>

theorem work_in_progress_is_exact:
  assumes "replays E R rs s" "length rs < 2 ^ 64"
  shows "st_open_actions s = fst ` from_accepted (opens E) s rs - from_accepted (closes_action E) s rs
     \<and> st_active_requests s = from_accepted asks s rs - from_accepted (ends_request E) s rs
     \<and> unat (Mapping.lookup_default 0 (st_request_open_action_count s) q)
       = card {a. (a, q) \<in> from_accepted (opens E) s rs \<and> a \<notin> from_accepted (closes_action E) s rs}
     \<and> (\<forall>r r' pre pre' s0 s0' a. admitted_at E R rs r pre s0 \<longrightarrow> admitted_at E R rs r' pre' s0'
          \<longrightarrow> closes_action E r = Some a \<longrightarrow> closes_action E r' = Some a \<longrightarrow> r = r')"
  using work.inv_replays [OF assms(1)] open_count_of_log [OF assms, of q] closed_once [of E R rs]
  by (simp add: work_exact_def open_count_def)

theorem work_in_progress_is_exact_witness:
  "st_open_actions s_state7 = {[7]} - {[7]} \<and> st_active_requests s_state7 = {[1]} - {[1]}
   \<and> unat (Mapping.lookup_default 0 (st_request_open_action_count s_state7) [1]) = card ({} :: RecordId set)
   \<and> {r. \<exists>pre s0. admitted_at s_env s_rules s_log r pre s0 \<and> closes_action s_env r = Some [7]} = {s_res}"
proof -
  have opened: "from_accepted (opens s_env) s_state7 s_log = {([7], [1])}"
    "from_accepted asks s_state7 s_log = {[1]}"
    unfolding from_accepted_def s_accepted
    by (simp_all add: s_log_def s_subject_defs map_filter_simps opens_def asks_def) (simp add: s_action_def)
  have closed: "from_accepted (closes_action s_env) s_state7 s_log = {[7]}"
    "from_accepted (ends_request s_env) s_state7 s_log = {[1]}"
    unfolding from_accepted_def s_accepted
    by (simp_all add: s_log_def s_subject_defs map_filter_simps closes_action_def ends_request_def)
      (simp_all add: s_result_def s_response_def)
  have "length s_log < 2 ^ 64" by (simp add: s_log_def)
  note exact_work = work_in_progress_is_exact [OF s_replays this, of "[1]"]
  have "s_res \<in> set s_log" "rec_kind s_res \<noteq> KVerdict" "rec_id s_res \<in> st_accepted_records s_state7"
    by (simp_all add: s_log_def) (simp_all add: s_res_def)
  from admitted [OF s_replays this] obtain pre s0 where "admitted_at s_env s_rules s_log s_res pre s0" by blast
  moreover have "closes_action s_env s_res = Some [7]"
    by (simp add: closes_action_def s_res_def) (simp add: s_result_def)
  ultimately have "{r. \<exists>pre s0. admitted_at s_env s_rules s_log r pre s0 \<and> closes_action s_env r = Some [7]} = {s_res}"
    using exact_work by blast
  with exact_work show ?thesis unfolding opened closed by simp
qed

text \<open>
  C11: A response that closes its request is accepted only when the request is active, no action of
  it is open and no plan of it is active at that point of the log.
\<close>

theorem closing_responses_leave_nothing_open:
  assumes "replays E R rs s" "length rs < 2 ^ 64" "r \<in> set rs" "rec_kind r = KResponse"
    "rec_id r \<in> st_accepted_records s" "de_response E (rec_data r) = Some d" "rsp_closes_request d"
  shows "\<exists>pre s0. admitted_at E R rs r pre s0 \<and> rsp_request_id d \<in> st_active_requests s0
     \<and> {a \<in> st_open_actions s0. (a, rsp_request_id d) \<in> from_accepted (opens E) s0 pre} = {}
     \<and> Mapping.lookup (st_active_plans s0) (rsp_request_id d) = None"
proof -
  obtain pre s0 where adm: "admitted_at E R rs r pre s0" using admitted [OF assms(1,3)] assms(4,5) by auto
  then have pre: "replays E R pre s0" and len: "length pre < 2 ^ 64"
    using assms(2) by (auto simp: admitted_at_def)
  have "ends_request E r = Some (rsp_request_id d)" using assms(4,6,7) by (simp add: ends_request_def)
  then have "rsp_request_id d \<in> st_active_requests s0"
    by (rule ending_needs_active [OF admitted_checks(8) [OF adm]])
  moreover have "{a \<in> st_open_actions s0. (a, rsp_request_id d) \<in> from_accepted (opens E) s0 pre} = {}"
    using admitted_closing_response(1) [OF adm assms(4,6,7) len] unfolding open_for_log [OF pre] .
  moreover have "Mapping.lookup (st_active_plans s0) (rsp_request_id d) = None"
    using admitted_closing_response(2) [OF adm assms(4,6,7) len] by (simp add: has_key_def)
  ultimately show ?thesis using adm by blast
qed

theorem closing_responses_leave_nothing_open_witness:
  "\<exists>pre s0. admitted_at s_env s_rules s_log s_rsp pre s0 \<and> [1] \<in> st_active_requests s0
     \<and> {a \<in> st_open_actions s0. (a, [1]) \<in> from_accepted (opens s_env) s0 pre} = {}
     \<and> Mapping.lookup (st_active_plans s0) [1] = None"
proof -
  have "s_rsp \<in> set s_log" "rec_kind s_rsp = KResponse" "rec_id s_rsp \<in> st_accepted_records s_state7"
    "length s_log < 2 ^ 64" by (simp_all add: s_log_def) (simp_all add: s_rsp_def)
  moreover have "de_response s_env (rec_data s_rsp) = Some s_response" by (simp add: s_rsp_def)
  moreover have "rsp_closes_request s_response" "rsp_request_id s_response = [1]"
    by (simp_all add: s_response_def)
  ultimately show ?thesis using closing_responses_leave_nothing_open [OF s_replays, of s_rsp s_response] by simp
qed

text \<open>
  C12: The accepted responses to a request carry the turn numbers 0, 1, 2, ... in log order, with no
  gap and no repetition; the 32-bit counter never wraps.
\<close>

theorem response_turns_are_gap_free:
  assumes "replays E R rs s"
  shows "map unat (accepted_turns E q s rs)
     = [0..<unat (Mapping.lookup_default 0 (st_response_turns s) q)]"
  using turns.inv_replays [OF assms] by (simp add: turns_exact_def)

theorem response_turns_are_gap_free_witness:
  "[0..<unat (Mapping.lookup_default 0 (st_response_turns s_state7) [1])] = [0]"
proof -
  have "accepted_turns s_env [1] s_state7 s_log = [0]"
    unfolding accepted_turns_def s_accepted
    by (simp add: s_log_def s_subject_defs map_filter_simps response_to_def) (simp add: s_response_def)
  with response_turns_are_gap_free [OF s_replays, of "[1]"] show ?thesis by simp
qed

text \<open>
  C13: Every accepted record meets the threshold the rules set for its kind, whatever it rests on, and
  no accepted record claims stronger evidence than a record it rests on: along every chain of \<open>Use\<close>
  and \<open>Require\<close> references the evidence class only weakens.
\<close>

theorem evidence_never_strengthens:
  assumes "replays E R rs s" "r \<in> set rs" "rec_kind r \<noteq> KVerdict" "rec_id r \<in> st_accepted_records s"
  shows "(\<forall>t. Mapping.lookup (vr_evidence_thresholds R) (rec_kind r) = Some t \<longrightarrow> rec_evidence r \<le> t)
     \<and> (\<forall>r0 \<in> set rs. rec_kind r0 \<noteq> KVerdict \<longrightarrow> (rec_id r0, rec_id r) \<in> (log_edges s rs)\<^sup>+ \<longrightarrow>
          rec_evidence r0 \<le> rec_evidence r)"
proof -
  obtain pre s0 where "admitted_at E R rs r pre s0" using admitted [OF assms] by blast
  from admitted_evidence(2) [OF this] chain_evidence_le [OF assms(1) _ _ _ assms(2,3) refl] show ?thesis by blast
qed

theorem evidence_never_strengthens_witness:
  "rec_evidence s_cap \<le> rec_evidence s_rsp \<and> rec_evidence g_c1 \<le> Reported"
proof
  have in_log: "s_cap \<in> set s_log" "rec_kind s_cap \<noteq> KVerdict" "s_rsp \<in> set s_log" "rec_kind s_rsp \<noteq> KVerdict"
    "rec_id s_rsp \<in> st_accepted_records s_state7"
    by (simp_all add: s_log_def) (simp_all add: s_cap_def s_rsp_def s_accepted)
  have "log_edges s_state7 s_log = {([3], [7]), ([5], [7]), ([7], [11])}"
    unfolding log_edges_eval s_accepted by (simp add: s_log_def s_subject_defs)
  then have "([3], [7]) \<in> log_edges s_state7 s_log" "([7], [11]) \<in> log_edges s_state7 s_log" by simp_all
  then have "(rec_id s_cap, rec_id s_rsp) \<in> (log_edges s_state7 s_log)\<^sup>+"
    by (auto simp: s_cap_def s_rsp_def intro: trancl_into_trancl)
  with evidence_never_strengthens [OF s_replays in_log(3-5)] in_log(1,2) show "rec_evidence s_cap \<le> rec_evidence s_rsp" by blast
next
  have c1: "g_c1 \<in> set g_log" "rec_kind g_c1 = KCandidate" "rec_id g_c1 \<in> st_accepted_records g_state2"
    by (simp_all add: g_log_def) (simp_all add: g_accepted(2) g_c1_def)
  moreover have "Mapping.lookup (vr_evidence_thresholds s_rules) KCandidate = Some Reported" by simp
  ultimately show "rec_evidence g_c1 \<le> Reported" using evidence_never_strengthens [OF g_replays, of g_c1] by simp
qed

section \<open>Requirements and plans\<close>

text \<open>
  C14: As long as no record of the log is retracted twice, the key of an accepted, unretracted
  requirement is unique among those of its request, and the keys the state holds for the request
  are exactly these.
\<close>

theorem requirement_keys_are_unique:
  assumes "replays E R rs s" "distinct (retractions E s rs)"
  shows "(holds_key E r = Some (i, q, k) \<and> holds_key E r' = Some (i', q, k)
       \<and> r \<in> set rs \<and> r' \<in> set rs \<and> {i, i'} \<subseteq> st_accepted_records s - st_retracted_records s \<longrightarrow> r = r')
     \<and> Mapping.lookup_default {} (st_requirement_keys s) q
       = {k. \<exists>r \<in> set rs. rec_id r \<in> st_accepted_records s - st_retracted_records s
                \<and> holds_key E r = Some (rec_id r, q, k)}"
proof (intro conjI impI)
  have live: "live_key E s rs i q k \<longleftrightarrow> (\<exists>r \<in> set rs. rec_id r \<in> st_accepted_records s - st_retracted_records s
      \<and> holds_key E r = Some (i, q, k) \<and> rec_id r = i)" for i q k
    using holds_key_id by (fastforce simp: live_key_def from_accepted_iff)
  have keys: "\<And>q k. (k \<in> Mapping.lookup_default {} (st_requirement_keys s) q) = (\<exists>i. live_key E s rs i q k)"
    and uniq: "\<And>q k i i'. live_key E s rs i q k \<Longrightarrow> live_key E s rs i' q k \<Longrightarrow> i = i'"
    using req_keys.inv_replays [OF assms(1)] assms(2) unfolding keys_exact_def by blast+
  show "Mapping.lookup_default {} (st_requirement_keys s) q
       = {k. \<exists>r \<in> set rs. rec_id r \<in> st_accepted_records s - st_retracted_records s
                \<and> holds_key E r = Some (rec_id r, q, k)}"
    by (rule set_eqI) (simp only: keys live mem_Collect_eq, blast)
  assume *: "holds_key E r = Some (i, q, k) \<and> holds_key E r' = Some (i', q, k)
      \<and> r \<in> set rs \<and> r' \<in> set rs \<and> {i, i'} \<subseteq> st_accepted_records s - st_retracted_records s"
  then have ids: "rec_id r = i" "rec_id r' = i'" using holds_key_id by blast+
  with * have "live_key E s rs i q k" "live_key E s rs i' q k" unfolding live by blast+
  with uniq ids have "rec_id r = rec_id r'" by blast
  moreover have "rec_kind r \<noteq> KVerdict" "rec_kind r' \<noteq> KVerdict"
    using * by (auto simp: holds_key_def split: if_splits)
  ultimately show "r = r'" using subject_unique [OF assms(1)] * by blast
qed

theorem requirement_keys_are_unique_witness:
  "Mapping.lookup_default {} (st_requirement_keys k_state3) [1]
   = {k. \<exists>r \<in> set k_pre3. rec_id r \<in> st_accepted_records k_state3 - st_retracted_records k_state3
            \<and> holds_key s_env r = Some (rec_id r, [1], k)}"
proof -
  have "retractions s_env k_state3 k_pre3 = [[23]]"
    by (simp add: retractions_def k_pres retracts_def s_subject_defs map_filter_simps) (simp add: k_retraction_def)
  then have "distinct (retractions s_env k_state3 k_pre3)" by simp
  from requirement_keys_are_unique [OF k_replays3 this] show ?thesis by blast
qed

text \<open>
  C15: Retracting the same requirement twice breaks key uniqueness.  The ledger \<open>k_log\<close> is
  accepted, and at its end two accepted requirements of one request, neither retracted nor
  tainted, carry the same key: the second retraction of the first requirement released the key
  that the second requirement held.
\<close>

theorem repeated_retraction_duplicates_a_key:
  "lv_result (verify_log s_env k_log s_rules None) = Accept \<and> replays s_env s_rules k_log k_state5
   \<and> (\<exists>r r'. r \<in> set k_log \<and> r' \<in> set k_log \<and> rec_id r \<noteq> rec_id r'
        \<and> holds_key s_env r = Some (rec_id r, [1], ''R1'') \<and> holds_key s_env r' = Some (rec_id r', [1], ''R1'')
        \<and> reliable k_state5 (rec_id r) \<and> reliable k_state5 (rec_id r'))"
proof -
  have "lv_result (verify_log s_env k_log s_rules None) = Accept"
    using verify_log_genesis k_log_shape k_replays by blast
  moreover have "holds_key s_env (k_requires i t) = Some (rec_id (k_requires i t), [1], ''R1'')" for i t
    by (simp add: holds_key_def k_requires_def find_cause_ref_def) (simp add: k_requirement_def)
  moreover have "k_requires 27 7 \<in> set k_log" "k_requires 31 11 \<in> set k_log" by (simp_all add: k_pres)
  moreover have "rec_id (k_requires 27 7) = [27]" "rec_id (k_requires 31 11) = [31]"
    by (simp_all add: k_requires_def)
  moreover have "reliable k_state5 [27]" "reliable k_state5 [31]"
    by (simp_all add: reliable_def k_states s_state1_def default_state_def)
  ultimately show ?thesis
    using k_replays by (intro conjI exI [of _ "k_requires 27 7"] exI [of _ "k_requires 31 11"]) simp_all
qed

text \<open>
  C16: The cycle test of plans is exact: for task lists whose ids are distinct and whose
  dependences name tasks of the list, it reports a cycle exactly when the dependence relation has
  one.  The order in which the hash map yields the initial queue does not matter.
\<close>

theorem cycle_test_is_exact:
  assumes "check_task_ids tasks = None"
    "distinct queue" "set queue = set (kahn_queue tasks (kn_in_degree (kahn_build tasks)))"
  shows "(has_cycle tasks \<longleftrightarrow> \<not> acyclic (task_edges tasks))
     \<and> (kahn_loop (Suc (length tasks)) (kn_adj (kahn_build tasks)) (kn_in_degree (kahn_build tasks)) queue 0
          \<noteq> length tasks \<longleftrightarrow> \<not> acyclic (task_edges tasks))"
  using has_cycle_exact [OF assms(1)] kahn_exact [OF check_task_ids_graph [OF assms(1)] assms(2,3)] by blast

theorem cycle_test_is_exact_witness:
  "has_cycle [sample_task ''a'' [''b''], sample_task ''b'' [''a'']]
   \<and> \<not> acyclic (task_edges [sample_task ''a'' [''b''], sample_task ''b'' [''a'']])"
proof -
  let ?tasks = "[sample_task ''a'' [''b''], sample_task ''b'' [''a'']]"
  have "check_task_ids ?tasks = None" by (simp add: check_task_ids_def sample_task_def)
  moreover have "kahn_queue ?tasks (kn_in_degree (kahn_build ?tasks)) = []"
    by (simp add: kahn_queue_def kahn_build_def kahn_task_def kahn_edge_def sample_task_def
        Mapping.lookup_default' lookup_default_conv lookup_update')
  moreover have "has_cycle ?tasks" by (simp add: has_cycle_def calculation)
  ultimately show ?thesis using cycle_test_is_exact [of ?tasks "[]"] by simp
qed

section \<open>Standing\<close>

text \<open>
  C17: The standing section an accepting verdict carries is the specified one: a candidate is
  compromised exactly when it does not stand by the recursive rules of lineage (retraction,
  unsound and unrestored anchors, compromised parents), an unsound selection is one retracted or
  tainted, and it is restored by exactly the sound selections whose replacement chain reaches it.
\<close>

theorem standing_section_is_correct:
  assumes "log_shape E rs" "replays E R rs s" "collect_lineage E s rs = (cs, ss)"
    "g = lv_standing (verify_log E rs R None)"
  shows "sg_compromised g = {i. has_key cs i \<and> \<not> stands s cs (anchor_holds s ss) i}
     \<and> sg_unsound g = {i. has_key ss i \<and> i \<in> st_retracted_records s \<union> st_tainted_records s}
     \<and> Mapping.lookup (sg_restorations g) i =
         (let A = {s2. s2 \<notin> st_retracted_records s \<union> st_tainted_records s \<and> replaces ss s2 i}
          in if has_key ss i \<and> i \<in> st_retracted_records s \<union> st_tainted_records s \<and> A \<noteq> {} then Some A else None)
     \<and> (Mapping.lookup cs j = Some ci \<longleftrightarrow> (j, ci) \<in> from_accepted (cand_fact E) s rs)
     \<and> (Mapping.lookup ss j = Some si \<longleftrightarrow> (j, si) \<in> from_accepted (sel_fact E) s rs)"
  using derive_standing_spec [OF assms(2,3)] lineage_lookup(1,2) [OF assms(2,3)]
    verify_log_Accept_fields [OF assms(1,2)] assms(4) by (simp add: is_unsound_def)

theorem standing_section_is_correct_witness:
  "sg_compromised (lv_standing (verify_log s_env s_log s_rules None)) = {}"
proof -
  have none: "from_accepted (cand_fact s_env) s_state7 s_log = {}"
    unfolding from_accepted_def by (simp add: s_log_def s_subject_defs map_filter_simps cand_fact_def)
  obtain cs ss where lin: "collect_lineage s_env s_state7 s_log = (cs, ss)" by fastforce
  note spec = standing_section_is_correct [OF s_log_shape s_replays lin refl]
  have "Mapping.lookup cs i = None" for i
    using spec none by (cases "Mapping.lookup cs i") blast+
  then have "\<not> has_key cs i" for i by (simp add: has_key_def)
  with spec show ?thesis by blast
qed

text \<open>
  C18: The iterative evaluation of standing ends within its fuel on every finite lineage whose
  dependences decrease some rank, and gives every candidate the value of the recursive
  specification, whatever order the candidates are visited in.
\<close>

theorem standing_evaluation_terminates:
  assumes "finite (Mapping.keys cs)" "ranked cs rank" "set starts = Mapping.keys cs" "has_key cs i"
  shows "Mapping.lookup (fold (standing_from s cs good) starts Mapping.empty) i = Some (stands s cs good i)"
  by (rule standing_values [OF assms])

definition sample_lineage :: cand_map where
  "sample_lineage =
     Mapping.update [2] \<lparr>ci_basis = Continuation, ci_parent = Some [1], ci_causes = [[9]]\<rparr>
       (Mapping.update [1] \<lparr>ci_basis = Root, ci_parent = None, ci_causes = []\<rparr> Mapping.empty)"

theorem standing_evaluation_terminates_witness:
  "Mapping.lookup (fold (standing_from default_state sample_lineage (\<lambda>a p. a = [9])) [[2], [1]] Mapping.empty) [2]
   = Some True"
proof -
  have keys: "Mapping.keys sample_lineage = {[2], [1]}" by (simp add: sample_lineage_def)
  have "ranked sample_lineage (\<lambda>i. unat (hd i))"
    by (auto simp: ranked_def sample_lineage_def lookup_update' cand_deps_def split: if_splits)
  moreover have one: "Mapping.lookup sample_lineage [1] = Some \<lparr>ci_basis = Root, ci_parent = None, ci_causes = []\<rparr>"
    and two: "Mapping.lookup sample_lineage [2]
      = Some \<lparr>ci_basis = Continuation, ci_parent = Some [1], ci_causes = [[9]]\<rparr>"
    by (simp_all add: sample_lineage_def)
  have "stands default_state sample_lineage (\<lambda>a p. a = [9]) [1]"
    by (rule stands_root [OF one]) (simp_all add: default_state_def)
  then have "stands default_state sample_lineage (\<lambda>a p. a = [9]) [2]"
    by (rule stands_continuation [OF two, rotated -1]) (simp_all add: default_state_def)
  ultimately show ?thesis
    using standing_evaluation_terminates [of sample_lineage "\<lambda>i. unat (hd i)" "[[2], [1]]" "[2]" default_state "\<lambda>a p. a = [9]"]
    by (simp add: keys has_key_keys)
qed


section \<open>The writer\<close>

text \<open>
  C19: A commit that succeeds has appended exactly one pair to a valid log and left a valid log: the
  record carries the proposal's content, the verdict is the one the verifier gives for the record
  over the earlier records, and the handle and the caller's state describe the longer log.  This
  supposes a handle in order (\<open>writer_ok\<close>), a proposal for the space of the rules that is not itself a
  verdict (\<open>well_addressed\<close>; a misaddressed one poisons the log, as is shown below), and a sound commit
  (\<open>sound_commit\<close>): the rules have the frozen schemas, the ids of the two new records are fresh and
  not named by earlier records, and the parser reads back what is written of them.
\<close>

theorem commits_keep_the_log_valid:
  assumes "writer_ok E parse R w s" "sound_commit E parse R w s signer p" "well_addressed R p"
    "commit_inner E R signer p (w, s) = (Inr (i, vd), w', s')"
  shows "\<exists>r v. writer_records w' = writer_records w @ [r, v] \<and> rec_id r = i
     \<and> vd = verify_record E r (writer_records w) R s \<and> rec_data r = pro_data p
     \<and> rec_refs r = sort_and_dedup_refs (pro_refs p) \<and> rec_refs v = [\<lparr>ref_type = RCause, ref_target = i\<rparr>]
     \<and> writer_ok E parse R w' s' \<and> lv_result (verify_log E (writer_records w') R None) = Accept"
  using assms
proof (cases rule: commit_cases)
  case (landed r vd' v)
  note pair = materialize_pair [OF assms(1) landed(1,2)]
  have acc: "lv_result (verify_log E (writer_records w') R None) = Accept"
    using landed(5) unfolding verify_log_genesis by (auto simp: writer_ok_def)
  have p: "materialize_verdict E r (rec_time v) vd' = Inr v" "vd' = verify_record E r (writer_records w) R s"
    using pair(1) unfolding pair_of_def by blast+
  show ?thesis
    by (rule exI [of _ r], rule exI [of _ v])
      (use landed pair(6,7) acc p(2) materialize_verdict_Inr(10) [OF p(1)] in simp)
qed simp_all

theorem commits_keep_the_log_valid_witness:
  "\<exists>w' s' r v. commit_inner s_env s_rules None c_proposal (c_writer, default_state) = (Inr ([1], s_accept), w', s')
     \<and> writer_records w' = [r, v] \<and> rec_id r = [1] \<and> lv_result (verify_log s_env [r, v] s_rules None) = Accept"
proof -
  obtain w s where run: "commit_inner s_env s_rules None c_proposal (c_writer, default_state) = (Inr ([1], s_accept), w, s)"
    by (rule c_run)
  from commits_keep_the_log_valid [OF c_writer_ok c_sound c_addressed run] run show ?thesis
    by (auto simp: c_writer_def writer_records_def)
qed

text \<open>
  C20: For a handle in order, a well addressed proposal and a sound commit: a commit that fails leaves the caller's state alone, and either the
  handle is as good as before on the same log, or it is blocked: every further commit on it fails with
  \<open>RecoveryRequired\<close> and changes nothing.
\<close>

theorem failed_commits_change_nothing_or_block:
  assumes "writer_ok E parse R w s" "sound_commit E parse R w s signer p" "well_addressed R p"
    "commit_inner E R signer p (w, s) = (Inl e, w', s')"
  shows "s' = s \<and> (writer_ok E parse R w' s \<and> writer_records w' = writer_records w
     \<or> (\<forall>R' signer' p' s''. commit_inner E R' signer' p' (w', s'') = (Inl RecoveryRequired, w', s'')))"
proof -
  have blocked: "commit_inner E R' signer' p' (w', s'') = (Inl RecoveryRequired, w', s'')"
    if "lw_recovery_required w'" for R' signer' p' s''
    using that by (simp add: commit_inner_def commit_guards_def ensure_writable_def first_reason.simps raise_def)
  from assms show ?thesis
    by (cases rule: commit_cases) (use assms(1) blocked in \<open>auto simp: commit_failed_def\<close>)
qed

theorem failed_commits_change_nothing_or_block_witness:
  "\<exists>w' s'. commit_inner s_env s_rules None c_proposal (f_writer, default_state) = (Inl Io, w', s') \<and> s' = default_state
     \<and> (writer_ok s_env c_parse s_rules w' default_state \<and> writer_records w' = []
        \<or> (\<forall>R signer p s. commit_inner s_env R signer p (w', s) = (Inl RecoveryRequired, w', s)))"
proof -
  obtain w s where run: "commit_inner s_env s_rules None c_proposal (f_writer, default_state) = (Inl Io, w, s)"
    by (rule f_run)
  have "writer_records f_writer = []" by (simp add: f_writer_def c_writer_def writer_records_def)
  with failed_commits_change_nothing_or_block [OF f_writer_ok f_sound c_addressed run] run show ?thesis by auto
qed

text \<open>
  C21: Crash recovery.  For a handle in order, a well addressed proposal whose pair can be built and a
  sound commit: whatever the commit returned and wherever it stopped, after a
  crash that keeps any prefix of the bytes not yet synced the directory can be opened again, on a valid
  log that is the old one or the old one with the complete pair; a pair whose commit was reported is
  there.  A misaddressed proposal is no such commit.
\<close>

theorem crashed_commits_recover:
  assumes "writer_ok E parse R w s" "sound_commit E parse R w s signer p" "well_addressed R p"
    "materialize E w R s signer p = Inr (r, vd, v)" "commit_inner E R signer p (w, s) = (res, w', s')"
  shows "\<exists>w'' s''.
     open_with_max_bytes E parse R (fl_max_file_bytes (lw_log w)) (crash k [] (fl_dir (lw_log w'))) = Inr w''
     \<and> writer_ok E parse R w'' s''
     \<and> (writer_records w'' = writer_records w @ [r, v] \<or> writer_records w'' = writer_records w \<and> isl res)"
  using assms(1-3,5)
proof (cases rule: commit_cases)
  case (early e)
  with reopen_unchanged [OF assms(1) refl, of k] show ?thesis by fastforce
next
  case (landed r' vd' v')
  then have len: "fl_max_file_bytes (lw_log w') = fl_max_file_bytes (lw_log w)"
    by (simp add: kept_def)
  from reopen_unchanged [OF landed(5) len [symmetric], of k] landed(2,4) assms(4) show ?thesis by fastforce
next
  case (failed r' vd' v' e)
  with assms(4) have eq: "r' = r" "vd' = vd" "v' = v" by simp_all
  note pair = materialize_pair [OF assms(1) failed(1) assms(4)]
  have sp: "sound_pair E parse (writer_records w) r vd v" "frozen_rules E R" "schema_hashes_distinct E"
    "pro_kind p \<noteq> KVerdict" "pro_space p = vr_space R"
    using assms(2-4) by (auto simp: sound_commit_def well_addressed_def)
  then have kind: "rec_kind r \<noteq> KVerdict" "rec_space r = vr_space R" using pair(2,3) by simp_all
  obtain s1 where "apply_record E s r vd = Some s1" using pair_applies [OF pair(1) kind(1) sp(2,3)] by blast
  from reopen_after [OF failed(6) [unfolded eq] assms(1) pair(1) sp(1) kind this, of k] failed(3)
  show ?thesis by fastforce
qed


theorem crashed_commits_recover_witness:
  "\<exists>w' s' w'' s''. commit_inner s_env s_rules None c_proposal (c_writer, default_state) = (Inr ([1], s_accept), w', s')
     \<and> open_with_max_bytes s_env c_parse s_rules (- 1) (crash 5 [] (fl_dir (lw_log w'))) = Inr w''
     \<and> writer_records w'' = [s_req, s_verdict 2 2 1] \<and> writer_ok s_env c_parse s_rules w'' s''"
proof -
  obtain w s where run: "commit_inner s_env s_rules None c_proposal (c_writer, default_state) = (Inr ([1], s_accept), w, s)"
    by (rule c_run)
  from crashed_commits_recover [OF c_writer_ok c_sound c_addressed c_materialize run, of 5] run show ?thesis
    by (auto simp: c_writer_def writer_records_def)
qed

text \<open>
  C22: For a handle in order, a well addressed proposal and a sound commit: a commit whose pair can be built and fits in the file succeeds when
  the clock is not exhausted and no system call fails.
\<close>

theorem unhindered_commits_succeed:
  assumes "writer_ok E parse R w s" "sound_commit E parse R w s signer p" "well_addressed R p"
    "\<not> exhausted (lw_time_source w)" "materialize E w R s signer p = Inr (r, vd, v)"
    "length (framed E (writer_records w @ [r, v])) \<le> unat (fl_max_file_bytes (lw_log w))"
    "ld_io (fl_dir (lw_log w)) = []"
  shows "\<exists>w' s'. commit_inner E R signer p (w, s) = (Inr (rec_id r, vd), w', s')"
  by (rule commit_returns [OF assms])

theorem unhindered_commits_succeed_witness:
  "\<exists>w' s'. commit_inner s_env s_rules None c_proposal (c_writer, default_state) = (Inr (rec_id s_req, s_accept), w', s')"
  by (rule unhindered_commits_succeed [OF c_writer_ok c_sound c_addressed c_calm(1) c_materialize c_room c_calm(2)])

text \<open>
  C23: A batch of sound, well addressed commits that stopped can be sent again.  When the first proposals of the sorted batch have
  landed on top of the expected head, sending the same batch with the same head commits the other
  ones only; when all have landed it changes nothing and reports the results of the first run.
\<close>

theorem batches_resume_where_they_stopped:
  assumes "writer_ok E parse R w s" "distinct (map rec_id (writer_records w))"
    "EMPTY_HEAD \<notin> rec_id ` set (writer_records w)" "sound_batch E parse R qs (w, s)"
    "sort_batch E ps = qs @ rest" "commit_each E R qs [] (w, s) = (Inr res, w1, s1)"
  shows "checked_batch_commit E R (head w) ps (w1, s1) =
    (if rest = [] then (Inr \<lparr>ba_head = head w1, ba_results = res, ba_replayed = length res\<rparr>, w1, s1)
     else and_then (commit_each E R rest res)
            (\<lambda>all (w', s'). (Inr \<lparr>ba_head = head w', ba_results = all, ba_replayed = length res\<rparr>, w', s'))
            (w1, s1))"
  by (rule batch_resumes [OF assms])

theorem batches_resume_where_they_stopped_witness:
  "\<exists>w s. commit_each s_env s_rules [c_proposal] [] (c_writer, default_state) = (Inr [([1], s_accept)], w, s)
     \<and> checked_batch_commit s_env s_rules EMPTY_HEAD [c_proposal] (w, s)
       = (Inr \<lparr>ba_head = head w, ba_results = [([1], s_accept)], ba_replayed = 1\<rparr>, w, s)"
proof -
  obtain w s where run: "commit_inner s_env s_rules None c_proposal (c_writer, default_state) = (Inr ([1], s_accept), w, s)"
    by (rule c_run)
  then have each: "commit_each s_env s_rules [c_proposal] [] (c_writer, default_state) = (Inr [([1], s_accept)], w, s)"
    by (simp add: and_then_def commit_def ok_def)
  have "sound_batch s_env c_parse s_rules [c_proposal] (c_writer, default_state)" using c_sound c_addressed by simp
  moreover have "sort_batch s_env [c_proposal] = [c_proposal] @ []" by (simp add: sort_batch_def)
  moreover have "writer_records c_writer = []" "head c_writer = EMPTY_HEAD"
    by (simp_all add: head_def) (simp_all add: c_writer_def writer_records_def)
  ultimately show ?thesis
    using batches_resume_where_they_stopped [OF c_writer_ok, of "[c_proposal]" "[c_proposal]" "[]"] each by simp
qed

text \<open>
  C24: \<open>open\<close> returns a handle only on a log that \<open>verify_log\<close> accepts under the given rules, whose
  clock continues the last record's time and which remembers the hash of the rules; while another
  handle holds the lock it returns none and leaves the directory as it is.
\<close>

theorem opening_verifies_and_excludes:
  "(\<forall>w. open_with_max_bytes E parse R m d = Inr w \<longrightarrow>
      lv_result (verify_log E (writer_records w) R None) = Accept \<and> rules_hash E R = Some (lw_rules_hash w)
      \<and> \<not> lw_recovery_required w \<and> lw_time_source w = from_last_time (log_last_time (lw_log w)))
   \<and> (ld_locked d \<longrightarrow> (\<exists>e d'. open_with_max_bytes E parse R m d = Inl (e, d') \<and> same_disk d d'
        \<and> (e = AlreadyLocked \<or> e = Io \<and> ld_io d \<noteq> [])))"
proof -
  have "\<exists>e d'. open_with_max_bytes E parse R m d = Inl (e, d') \<and> same_disk d d'
      \<and> (e = AlreadyLocked \<or> e = Io \<and> ld_io d \<noteq> [])" if "ld_locked d"
    using try_lock_locked [OF that] by (auto simp: open_with_max_bytes_def)
  then show ?thesis using opened_is_verified [of E parse R m d] by blast
qed

theorem opening_verifies_and_excludes_witness:
  "\<exists>w. open_with_max_bytes s_env c_parse s_rules (- 1) (c_dir\<lparr>ld_locked := False\<rparr>) = Inr w
     \<and> lv_result (verify_log s_env (writer_records w) s_rules None) = Accept
     \<and> open_with_max_bytes s_env c_parse s_rules (- 1) c_dir = Inl (AlreadyLocked, c_dir)"
proof -
  obtain w where w: "open_with_max_bytes s_env c_parse s_rules (- 1) (crash 0 [] (fl_dir (lw_log c_writer))) = Inr w"
    using reopen_unchanged [OF c_writer_ok refl, of 0] by (auto simp: c_writer_def)
  have "crash 0 [] (fl_dir (lw_log c_writer)) = c_dir\<lparr>ld_locked := False\<rparr>"
    by (simp add: c_writer_def c_dir_def crash_def log_bytes_def)
  then have w': "open_with_max_bytes s_env c_parse s_rules (- 1) (c_dir\<lparr>ld_locked := False\<rparr>) = Inr w" using w by simp
  moreover have "open_with_max_bytes s_env c_parse s_rules (- 1) c_dir = Inl (AlreadyLocked, c_dir)"
    by (simp add: open_with_max_bytes_def try_lock_def and_then_def plain_call_def sys_call_def c_dir_def)
  ultimately show ?thesis using opening_verifies_and_excludes [of s_env c_parse s_rules "- 1" "c_dir\<lparr>ld_locked := False\<rparr>"] by blast
qed

text \<open>
  C25: A proposal that names another space than the rules, or that is itself a verdict, is written
  with its rejection, and the log it leaves behind is not valid any more: no later process can open it.
\<close>

theorem misaddressed_proposals_poison_the_log:
  assumes "writer_ok E parse R w s" "\<not> exhausted (lw_time_source w)"
    "materialize E w R s signer p = Inr (r, vd, v)" "misaddressed R p"
    "storable E parse r" "storable E parse v" "rec_id v \<noteq> rec_id r"
    "length (framed E (writer_records w @ [r, v])) \<le> unat (fl_max_file_bytes (lw_log w))"
    "ld_io (fl_dir (lw_log w)) = []"
  shows "\<exists>w' s'. commit_inner E R signer p (w, s) = (Inr (rec_id r, vd), w', s')
     \<and> writer_records w' = writer_records w @ [r, v] \<and> vd_result vd = Reject
     \<and> lv_result (verify_log E (writer_records w') R None) \<noteq> Accept
     \<and> (\<forall>k. \<exists>reason d'. open_with_max_bytes E parse R (fl_max_file_bytes (lw_log w)) (crash k [] (fl_dir (lw_log w')))
              = Inl (InvalidExistingLog reason, d'))"
  by (rule misaddressed_commit [OF assms])

theorem misaddressed_proposals_poison_the_log_witness:
  "\<exists>w' s'. commit_inner b_env b_rules None c_proposal (b_writer, default_state) = (Inr (rec_id s_req, b_reject), w', s')
     \<and> lv_result (verify_log b_env (writer_records w') b_rules None) \<noteq> Accept"
proof -
  have "misaddressed b_rules c_proposal"
    by (simp add: misaddressed_def b_rules_def c_proposal_def s_space_def s_thread_def)
  moreover have "rec_id b_verdict \<noteq> rec_id s_req" by (simp add: b_verdict_def s_req_def s_record_defs)
  ultimately show ?thesis
    using misaddressed_proposals_poison_the_log [OF b_writer_ok _ b_materialize _ b_storable] b_room c_calm
    by (simp add: b_writer_def) blast
qed


section \<open>Storage and encodings\<close>

text \<open>
  C26: A log file reads back as the records that were written: complete frames give their records,
  and a last frame of which only a proper prefix reached the file is left out.
\<close>

theorem log_files_read_back:
  assumes "\<forall>r \<in> set rs. storable C parse r" "storable C parse r'" "k < length (frame C r')"
    "length (framed C rs @ take k (frame C r')) < 2 ^ 64"
  shows "read_frames parse (framed C rs @ take k (frame C r')) 0 = Inr (rs, length (framed C rs))"
  using read_frames_framed [OF assms(1) incomplete_take_frame [OF assms(2,3)], of "[]"] assms(4) by simp

theorem log_files_read_back_witness:
  "read_frames c_parse (framed s_env [s_req] @ take 3 (frame s_env (s_verdict 2 2 1))) 0
     = Inr ([s_req], length (framed s_env [s_req]))"
proof -
  obtain bs len where f: "frame s_env (s_verdict 2 2 1) = to_be_bytes len @ bs"
    using storable_frame [OF s_storable(2)] by blast
  have "unat (- 1 :: u64) < 2 ^ 64" by (rule order_less_le_trans [OF unsigned_less]) simp
  then show ?thesis
    using two_frames_fit [of s_env s_req "s_verdict 2 2 1"] f
    by (intro log_files_read_back) (simp_all add: s_storable)
qed

text \<open>
  C27: On a log of the right shape \<open>scan\<close> returns the records whose time lies in the given range, in
  order; it panics (\<open>None\<close>) exactly when some record's time lies strictly between the bounds given in
  the wrong order.
\<close>

theorem scans_are_time_ranges:
  assumes "log_shape E (fl_records l)"
  shows "log_scan l a b =
    (if \<exists>r \<in> set (fl_records l). b < rec_time r \<and> rec_time r < a then None
     else Some (filter (\<lambda>r. a \<le> rec_time r \<and> rec_time r \<le> b) (fl_records l)))"
proof (rule log_scan_sorted)
  show "sorted (map rec_time (fl_records l))"
    using assms by (auto simp: sorted_iff_nth_mono log_shape_def word_le_nat_alt)
qed

theorem scans_are_time_ranges_witness:
  "log_scan \<lparr>fl_dir = c_dir, fl_records = s_pre3, fl_index = build_index s_pre3, fl_max_file_bytes = - 1\<rparr> 5 2 = None
   \<and> log_scan \<lparr>fl_dir = c_dir, fl_records = s_pre3, fl_index = build_index s_pre3, fl_max_file_bytes = - 1\<rparr> 5 9
     = Some [s_apr, s_verdict 6 6 5]"
proof -
  let ?l = "\<lparr>fl_dir = c_dir, fl_records = s_pre3, fl_index = build_index s_pre3, fl_max_file_bytes = - 1\<rparr>"
  have "log_shape s_env (fl_records ?l)" by (simp add: s_shape_prefix)
  note scan = scans_are_time_ranges [OF this]
  have times: "rec_time s_req = 1" "rec_time s_cap = 3" "rec_time s_apr = 5" "rec_time (s_verdict i t k) = t" for i t k
    by (simp_all add: s_subject_defs s_record_defs)
  have "log_scan ?l 5 2 = None" unfolding scan by (simp add: s_pre3_def times)
  moreover have "log_scan ?l 5 9 = Some [s_apr, s_verdict 6 6 5]" unfolding scan by (simp add: s_pre3_def times word_le_nat_alt)
  ultimately show ?thesis by blast
qed

text \<open>
  C28: A signature covers the whole record but its id and the signature itself: records with the same
  signing form agree in every other field.
\<close>

theorem signatures_cover_the_record:
  assumes "signing_bytes C r = Some bs" "signing_bytes C r' = Some bs"
  shows "r' = r\<lparr>rec_id := rec_id r',
                rec_author := (rec_author r)\<lparr>au_signature := au_signature (rec_author r')\<rparr>\<rparr>"
  by (rule signing_bytes_inj [OF assms])

theorem signatures_cover_the_record_witness:
  "signing_bytes s_env (s_cap\<lparr>rec_thread := []\<rparr>) \<noteq> signing_bytes s_env s_cap"
proof
  assume eq: "signing_bytes s_env (s_cap\<lparr>rec_thread := []\<rparr>) = signing_bytes s_env s_cap"
  have "verified_key s_env s_cap = Some s_key"
    by (rule s_verified) (simp_all add: s_cap_def s_record_defs MAX_SAFE_INTEGER_def)
  then obtain bs where "signing_bytes s_env s_cap = Some bs" using verified_key_Some [of s_env s_cap] by blast
  with signatures_cover_the_record [of s_env s_cap bs "s_cap\<lparr>rec_thread := []\<rparr>"] eq
  have "rec_thread (s_cap\<lparr>rec_thread := []\<rparr>) = rec_thread s_cap" by simp
  then show False by (simp add: s_cap_def s_record_defs s_thread_def)
qed

text \<open>
  C29: Canonical JSON is unambiguous: two values without floating-point numbers that are written as
  the same bytes are equal up to the order of object members.
\<close>

theorem canonical_json_is_unambiguous:
  assumes "plain v" "plain v'" "canonical_json C v = Some bs" "canonical_json C v' = Some bs"
  shows "norm v = norm v'"
  by (rule canonical_json_inj [OF assms])

theorem canonical_json_is_unambiguous_witness:
  "canonical_json s_env (JObject [(''b'', JBool True), (''a'', JNull)])
     = canonical_json s_env (JObject [(''a'', JNull), (''b'', JBool True)])
   \<and> norm (JObject [(''b'', JBool True), (''a'', JNull)]) = norm (JObject [(''a'', JNull), (''b'', JBool True)])"
proof -
  let ?v = "JObject [(''b'', JBool True), (''a'', JNull)]" and ?w = "JObject [(''a'', JNull), (''b'', JBool True)]"
  have eq: "canonical_json s_env ?v = canonical_json s_env ?w"
    by (simp add: canonical_json_def write_object_def sort_members_def encode_utf16_def utf16_units_def)
  obtain bs where "canonical_json s_env ?v = Some bs" using canonical_json_total [of ?v s_env] by auto
  with canonical_json_is_unambiguous [of ?v ?w s_env bs] eq show ?thesis by simp
qed

text \<open>
  C30: The clock does not wrap: as long as it is not exhausted, the two times of a commit are
  consecutive 64-bit numbers and the clock moves past them.
\<close>

theorem commit_times_do_not_wrap:
  assumes "\<not> exhausted ts" "next_time ts = (t1, ts1)" "next_time ts1 = (t2, ts2)"
  shows "unat t1 = unat (peek ts) \<and> unat t2 = unat t1 + 1 \<and> unat (peek ts2) = unat t2 + 1
     \<and> u64_checked_add t1 1 = Some t2"
proof -
  have b: "unat (ts_next ts) < 2 ^ 64 - 2" using assms(1) by (simp only: not_exhausted_bound)
  have 1: "t1 = ts_next ts" "unat (ts_next ts1) = unat (ts_next ts) + 1"
    using next_time_unat [OF _ assms(2)] b by simp_all
  have 2: "t2 = ts_next ts1" "unat (ts_next ts2) = unat (ts_next ts1) + 1"
    using next_time_unat [OF _ assms(3)] b 1(2) by simp_all
  from 1 2 show ?thesis by (simp add: peek_def u64_checked_add_Some_iff)
qed

theorem commit_times_do_not_wrap_witness:
  "u64_checked_add 1 1 = Some 2 \<and> unat (peek (snd (next_time (snd (next_time (from_last_time None)))))) = 3"
  using commit_times_do_not_wrap [of "from_last_time None" 1 "from_last_time (Some 1)" 2 "from_last_time (Some 2)"]
  by (simp add: from_last_time_def next_time_def peek_def exhausted_def u64_saturating_add_def word_le_nat_alt)

text \<open>
  C31: Under rules with the frozen map from schemas to kinds, and schema ids that differ, the fold into
  the state does not fail on an accepted record: what the checks let through decodes and hashes
  where the transition needs it.  Rules with a map of their own may give a schema to another kind, so
  that the checks and the fold read the payload differently.
\<close>

theorem accepted_records_always_fold:
  assumes "check_record E r p R s = None" "rec_kind r \<noteq> KVerdict" "frozen_rules E R" "schema_hashes_distinct E"
  shows "apply_record E s0 r (verdict_of None) \<noteq> None"
  by (rule accepted_applies [OF assms])

theorem accepted_records_always_fold_witness:
  "apply_record s_env s_state3 s_act (verdict_of None) \<noteq> None"
proof (rule accepted_records_always_fold [OF s_checked4])
  show "rec_kind s_act \<noteq> KVerdict" by (simp add: s_act_def)
  show "frozen_rules s_env s_rules" "schema_hashes_distinct s_env" using c_sound by (simp_all add: sound_commit_def)
qed

section \<open>Reading the ledger\<close>

text \<open>
  C32: In a verified log with distinct ids, \<open>descent\<close> of an accepted candidate lists exactly once every
  record it goes back to: a continuation to its parent and to the anchors among its causes, a
  derivation to the candidates among its causes, and so on from these.  \<open>descendants\<close> lists, in log
  order, exactly the accepted candidates that go back to the record.
\<close>

theorem lineage_queries_are_exact:
  assumes new: "queries_new E rs R = Inr q" and ids: "distinct (map rec_id rs)"
    and c: "r \<in> set rs" "rec_kind r = KCandidate" "rec_id r \<in> st_accepted_records (q_state q)"
  shows "(\<exists>line anc. descent E q (rec_id r) = Inr \<lparr>dr_target = node E q r, dr_line = line\<rparr>
       \<and> map (\<lambda>st. nd_id (ds_node st)) line = map hex_encode anc \<and> distinct anc
       \<and> set anc = (lineage_edges E rs)\<^sup>+ `` {rec_id r})
     \<and> descendants E q (rec_id r) = Inr \<lparr>dn_target = node E q r, dn_descendants =
         map (node E q) (filter (\<lambda>r'. rec_kind r' = KCandidate \<and> rec_id r' \<in> st_accepted_records (q_state q)
           \<and> (rec_id r', rec_id r) \<in> (lineage_edges E rs)\<^sup>+) rs)\<rparr>"
proof -
  have "accepted_of q KCandidate r' \<longleftrightarrow> rec_kind r' = KCandidate \<and> rec_id r' \<in> st_accepted_records (q_state q)" for r'
    by (auto simp: accepted_of_def)
  then show ?thesis
    using descent_exact [OF assms] descendants_exact [OF new ids c(1,3)]
    unfolding back_rel_lineage [OF new ids] by simp
qed

theorem lineage_queries_are_exact_witness:
  "\<exists>rep. descendants s_env g_queries [51] = Inr rep \<and> node s_env g_queries g_c2 \<in> set (dn_descendants rep)"
proof -
  have r: "g_c1 \<in> set g_log" "rec_kind g_c1 = KCandidate" "rec_id g_c1 = [51]" "g_c2 \<in> set g_log"
    "rec_kind g_c2 = KCandidate" "rec_id g_c2 = [53]"
    by (simp_all add: g_log_def) (simp_all add: g_c1_def g_c2_def)
  have acc: "st_accepted_records (q_state g_queries) = {[53], [51]}" using g_accepted(2) by (simp add: g_queries_def)
  have "(rec_id g_c2, rec_id g_c1) \<in> (lineage_edges s_env g_log)\<^sup>+" using g_edge r by auto
  with lineage_queries_are_exact [OF g_new g_ids r(1,2)] r acc show ?thesis by auto
qed

text \<open>
  C33: The context of a thread holds records that are accepted and neither replaced, retracted nor
  tainted, newest first, as many as the rules allow; an eligible record is left out only when every
  record that is in is at least as new.
\<close>

theorem contexts_hold_the_newest_reliable_records:
  "let c = build_context rs s R thread;
       eligible = filter (\<lambda>r. rec_thread r = thread \<and> rec_kind r \<noteq> KVerdict \<and> rec_id r \<in> st_accepted_records s
          - st_replaced_records s - st_retracted_records s - st_tainted_records s) rs
   in set (cx_records c) \<subseteq> set eligible
      \<and> length (cx_records c) = min (length eligible) (unat (vr_max_context_records R))
      \<and> sorted_wrt (\<lambda>a b. rec_time b \<le> rec_time a) (cx_records c)
      \<and> (\<forall>r \<in> set (cx_records c). \<forall>q \<in> set eligible - set (cx_records c). rec_time q \<le> rec_time r)
      \<and> cx_tainted_records c = {}"
proof -
  let ?P = "\<lambda>r. rec_thread r = thread \<and> rec_kind r \<noteq> KVerdict \<and> rec_id r \<in> st_accepted_records s
          - st_replaced_records s - st_retracted_records s - st_tainted_records s"
  have P: "in_context s thread ExcludeTainted = ?P" by (auto simp: in_context_def fun_eq_iff)
  have "cx_tainted_records (build_context rs s R thread)
      = rec_id ` {r \<in> set (cx_records (build_context rs s R thread)). rec_id r \<in> st_tainted_records s}"
    by (simp add: build_context_def build_context_with_def Let_def)
  then show ?thesis
    using context_records_eligible [of _ rs s R thread ExcludeTainted]
      context_records_newest [of _ rs s R thread ExcludeTainted]
      context_records_ordered [of rs s R thread ExcludeTainted] context_records_count [of rs s R thread ExcludeTainted]
    unfolding P by (auto simp: Let_def build_context_def)
qed

theorem contexts_hold_the_newest_reliable_records_witness:
  "length (cx_records (build_context g_log (default_state\<lparr>st_accepted_records := {[51], [53]}\<rparr>)
      (s_rules\<lparr>vr_max_context_records := 1\<rparr>) (rec_thread g_c1))) = 1"
proof -
  have "g_c1 \<in> set g_log" by (simp add: g_log_def)
  moreover have "rec_kind g_c1 \<noteq> KVerdict" "rec_id g_c1 = [51]" by (simp_all add: g_c1_def)
  ultimately have one: "length (filter (\<lambda>r. rec_thread r = rec_thread g_c1 \<and> rec_kind r \<noteq> KVerdict
      \<and> rec_id r \<in> {[51], [53]}) g_log) \<noteq> 0"
    by (auto simp: filter_empty_conv)
  define s where "s = default_state\<lparr>st_accepted_records := {[51], [53]}\<rparr>"
  have s: "st_accepted_records s - st_replaced_records s - st_retracted_records s - st_tainted_records s = {[51], [53]}"
    by (simp add: s_def default_state_def)
  show ?thesis
    using contexts_hold_the_newest_reliable_records [of g_log s "s_rules\<lparr>vr_max_context_records := 1\<rparr>" "rec_thread g_c1"] one
    unfolding s Let_def s_def [symmetric] by (elim conjE, simp only: min_def) (auto simp: le_Suc_eq)
qed

section \<open>Receipts and profiles\<close>

text \<open>
  C34: Validating a receipt is replaying it.  A structural problem makes the report Invalid and
  leaves it without profiles; otherwise the status is Clean or Tainted exactly when the records are a
  log that the rules of the receipt's epoch replay, which are the receipt's rules restricted to the
  schemas of version 0.3 or 0.4; Clean exactly when nothing is retracted or tainted, and the
  retracted, tainted and standing sections are those of the replayed state.  The profiles asked for
  change none of this.
\<close>

theorem validation_reports_the_replay:
  assumes rep: "rep = validate_with_profiles E from_bytes bytes limits ps"
  shows "if rep_problem rep \<noteq> None then rep_status rep = Invalid \<and> rep_profiles rep = []
     else (\<exists>rc R. from_bytes bytes = Some rc \<and> epoch_rules E rc R
       \<and> rep_head_hash rep = sha256_concat_ids E (map rec_id (rcp_records rc))
       \<and> Some (rep_rules_hash rep) = rules_hash E (rcp_rules rc)
       \<and> (rep_status rep \<noteq> Invalid \<longleftrightarrow> log_shape E (rcp_records rc) \<and> (\<exists>s. replays E R (rcp_records rc) s))
       \<and> (\<forall>s. log_shape E (rcp_records rc) \<longrightarrow> replays E R (rcp_records rc) s \<longrightarrow>
            rep_retracted_records rep = st_retracted_records s \<and> rep_tainted_records rep = st_tainted_records s
            \<and> rep_standing rep = derive_standing E (rcp_records rc) s
            \<and> (rep_status rep = Clean \<longleftrightarrow> st_retracted_records s = {} \<and> st_tainted_records s = {})))"
proof (cases "rep_problem rep = None")
  case True
  obtain rc R h where rc: "from_bytes bytes = Some rc" "replayable E rc limits R h"
    "rep = replay_report E rc R h\<lparr>rep_profiles := evaluate_profiles E rc (replay_report E rc R h) ps\<rparr>"
    using validated [OF rep True] by blast
  then have R: "epoch_rules E rc R" "rules_hash E (rcp_rules rc) = Some h"
    using rules_of_epoch by (auto simp: replayable_def)
  note fields = report_fields [where E = E and rc = rc and R = R and h = h]
  have valid: "\<not> rep_problem rep \<noteq> None" using True by simp
  show ?thesis unfolding if_not_P [OF valid]
    by (intro exI [of _ rc] exI [of _ R]) (use rc(1) R fields in \<open>auto simp: rc(3)\<close>)
qed (use rep problem_reported [of E from_bytes bytes limits ps] in simp)

theorem validation_reports_the_replay_witness:
  "rep_status (validate_with_profiles s_env g_parse g_bytes g_limits [DELIVERY_RECEIPT_V1]) \<noteq> Invalid"
proof -
  define rep where "rep = validate_with_profiles s_env g_parse g_bytes g_limits [DELIVERY_RECEIPT_V1]"
  have "rep_problem rep = None" using g_no_problem by (simp add: rep_def)
  with validation_reports_the_replay [OF rep_def] obtain rc R where rc: "g_parse g_bytes = Some rc" "epoch_rules s_env rc R"
    and status: "rep_status rep \<noteq> Invalid \<longleftrightarrow> log_shape s_env (rcp_records rc) \<and> (\<exists>s. replays s_env R (rcp_records rc) s)"
    by auto
  have "rc = g_receipt" using rc(1) by (simp add: g_parse_def)
  moreover from this have "R = s_rules" using epoch_rules_unique [OF _ g_epoch_rules] rc(2) by simp
  moreover have "rcp_records g_receipt = g_log" by (simp add: g_receipt_def receipt_new_def)
  ultimately show ?thesis using status g_log_shape g_replays unfolding rep_def by auto
qed



text \<open>
  C36: What the signed tier is worth: when a report finds a receipt conformant to
  \<open>bellbook-core-signed-v1\<close>, every accepted candidate, evaluation, selection, retraction and
  requirement of the receipt carries a signature over its signing bytes that verifies under a key the
  rules pin to its author.
\<close>

theorem signed_tier_authenticates_evolution:
  assumes rep: "rep = validate_with_profiles E from_bytes bytes limits ps"
    and p: "p \<in> set (rep_profiles rep)" "prs_id p = BELLBOOK_CORE_SIGNED_V1" "prs_status p = Conformant"
  shows "\<exists>rc. from_bytes bytes = Some rc
     \<and> (\<forall>r \<in> set (rcp_records rc). rec_kind r \<in> {KCandidate, KEvaluation, KSelection, KRetraction, KRequirement}
          \<longrightarrow> rec_id r \<in> accepted_ids E (rcp_records rc) \<longrightarrow>
          (\<exists>keys key sg msg. Mapping.lookup (vr_author_keys (rcp_rules rc)) (au_id (rec_author r)) = Some keys \<and> key \<in> keys
             \<and> au_signature (rec_author r) = Some sg \<and> hex_decode (sig_key_id sg) = Some key
             \<and> signing_bytes E r = Some msg \<and> cr_verify_strict E key msg (sig_sig sg)))"
proof -
  have none: "rep_problem rep = None" using p(1) rep problem_reported(2) by fastforce
  obtain rc R h where rc: "from_bytes bytes = Some rc" "replayable E rc limits R h"
    "rep = replay_report E rc R h\<lparr>rep_profiles := evaluate_profiles E rc (replay_report E rc R h) ps\<rparr>"
    using validated [OF rep none] by blast
  have "prs_status (evaluate_signed_v1 E rc (replay_report E rc R h)) = Conformant"
    using reported_status [of p E rc "replay_report E rc R h" ps] p rc(3)
    by (simp add: evaluate_profile_def profile_ids)
  moreover have "set SIGNED_KINDS = {KCandidate, KEvaluation, KSelection, KRetraction, KRequirement}"
    by (auto simp: SIGNED_KINDS_def)
  ultimately show ?thesis using signed_receipt_signed [OF rc(2)] rc(1) by metis
qed

theorem signed_tier_authenticates_evolution_witness:
  "\<exists>keys key sg msg. Mapping.lookup (vr_author_keys s_rules) (au_id (rec_author g_c2)) = Some keys \<and> key \<in> keys
     \<and> au_signature (rec_author g_c2) = Some sg \<and> hex_decode (sig_key_id sg) = Some key
     \<and> signing_bytes s_env g_c2 = Some msg \<and> cr_verify_strict s_env key msg (sig_sig sg)"
proof -
  obtain p where p: "p \<in> set (rep_profiles (validate_with_profiles s_env g_parse g_bytes g_limits []))"
    "prs_id p = BELLBOOK_CORE_SIGNED_V1" "prs_status p = Conformant"
    using g_signed by blast
  have "g_c2 \<in> set g_log" "rec_kind g_c2 = KCandidate" "rec_id g_c2 \<in> accepted_ids s_env g_log"
    using g_accepted(2) replays_build_state [OF g_replays]
    by (simp_all add: g_log_def) (simp_all add: accepted_ids_def g_c2_def)
  with signed_tier_authenticates_evolution [OF refl p] show ?thesis by (simp add: g_parse_def)
qed



text \<open>
  C38: A manifest hash commits to the worktree: two directories that walk to manifests without a
  repeated path have hashes, and the same hash exactly when they hold the same files with the same
  contents and owner's execute bit, the same symlinks with the same targets, outside \<open>.git\<close> and the
  submodules, and pin the same submodule commits, in whatever order the directories list their
  entries, unless SHA-256 collides on two of these contents or on the two manifests.
\<close>

theorem manifests_commit_to_the_tree:
  assumes "manifest_from_dir C root gl = Inr es" "finite (Mapping.keys gl)" "distinct (map me_path es)"
    and "manifest_from_dir C root' gl' = Inr es'" "finite (Mapping.keys gl')" "distinct (map me_path es')"
    and "inj_on (sha256 C) (hashed_bytes C gl root es \<union> hashed_bytes C gl' root' es')"
  shows "manifest_hash C es \<noteq> None
     \<and> (manifest_hash C es = manifest_hash C es' \<longleftrightarrow> worktree gl root = worktree gl' root')"
  by (rule manifest_hash_commits [OF assms])

theorem manifests_commit_to_the_tree_witness:
  "manifest_hash plain_crates [file_entry plain_crates ''a'' True [1], symlink_entry plain_crates ''b'' ''a'']
   \<noteq> manifest_hash plain_crates [file_entry plain_crates ''a'' True [2], symlink_entry plain_crates ''b'' ''a'']"
proof -
  let ?tree = "\<lambda>bs. DirNode (Some [(''b'', SymlinkNode (Some ''a'')), (''.git'', Unreadable), (''a'', FileNode 0x40 (Some bs))])"
  let ?es = "\<lambda>bs. [file_entry plain_crates ''a'' True bs, symlink_entry plain_crates ''b'' ''a'']"
  have utf8: "utf8_name ''a'' = Inr ''a''" "utf8_name ''b'' = Inr ''b''" "utf8_name ''.git'' = Inr ''.git''"
    by (simp_all add: utf8_name_def as_bytes_def)
  have found: "manifest_from_dir plain_crates (?tree bs) Mapping.empty = Inr (?es bs)" for bs
    by (simp add: manifest_from_dir_def utf8 join_path_def link_pairs_def is_executable_def)
  have paths: "distinct (map me_path (?es bs))" for bs by (simp add: file_entry_def symlink_entry_def)
  have sha: "inj_on (sha256 plain_crates) X" for X by (simp add: sha256_def plain_crates_def inj_on_def)
  have "in_tree Mapping.empty [] (?tree bs) ''a'' (FileItem True [1]) \<longleftrightarrow> bs = [1]" for bs
    by (simp add: in_tree_simps conj_disj_distribR ex_disj_distrib) blast
  then have a: "(''a'', FileItem True [1]) \<in> worktree Mapping.empty (?tree bs) \<longleftrightarrow> bs = [1]" for bs
    by (simp add: worktree_def)
  have "(2 :: u8) \<noteq> 1" by simp
  with a have "worktree Mapping.empty (?tree [1]) \<noteq> worktree Mapping.empty (?tree [2])"
    by (metis list.inject)
  with manifests_commit_to_the_tree [OF found _ paths found _ paths sha, of "[1]" "[2]"] show ?thesis by simp
qed

section \<open>The command line\<close>

text \<open>
  C39: A recording command that exits with 0 has committed.  It read its rules from the file it was
  given, opened the log it was given, took its author from the roles of the rules, and committed the
  proposal its builder made, which is addressed to the space of the rules; the verifier accepted it,
  its id was printed and the lock is released.  If the directory was in order (a valid log, unlocked,
  no failing system call) and the commit is sound (schemas frozen, the new ids fresh, the parser reads
  back the two new records), every later process opens the old log extended by the record and its
  verdict, whenever the machine crashes after the command.
\<close>

theorem recording_commands_extend_the_log:
  assumes "command \<in> set recording_commands" "bellbook_main E X (command # rest) h = Some (0, h')"
  shows "\<exists>sub names build args R path w s a pro signer i vd w' s'.
     (command, sub, names, build) \<in> set recorders \<and> rest = sub @ args
     \<and> prepared E X names build args h R path w s a pro signer \<and> proper R a pro
     \<and> commit_inner E R signer pro (w, s) = (Inr (i, vd), w', s') \<and> vd_result vd = Accept
     \<and> dir_at h' path = unlock (fl_dir (lw_log w'))
     \<and> (\<exists>out \<in> outputs_of i vd. ho_stdout h' = ho_stdout h @ [out])
     \<and> (\<forall>rs. in_order E (cl_record_from_slice X) R (dir_at h path) rs
          \<and> sound_commit E (cl_record_from_slice X) R w s signer pro \<longrightarrow>
          (\<exists>r v. rec_id r = i \<and> rec_data r = pro_data pro
            \<and> (\<forall>k. \<exists>w''. writer_open E (cl_record_from_slice X) R (crash k [] (dir_at h' path)) = Inr w''
                   \<and> writer_records w'' = rs @ [r, v])))"
proof -
  from evolution_zero [OF assms] obtain sub names build args where
    row: "(command, sub, names, build) \<in> set recorders" "rest = sub @ args"
    "record_command E X names build args h = (Inr 0, h')" .
  from record_prepared [OF row(3)] obtain R path w s a pro signer i vd w' s' where
    run: "prepared E X names build args h R path w s a pro signer"
      "commit_inner E R signer pro (w, s) = (Inr (i, vd), w', s')" "vd_result vd = Accept"
      "dir_at h' path = unlock (fl_dir (lw_log w'))" "\<exists>out \<in> outputs_of i vd. ho_stdout h' = ho_stdout h @ [out]" .
  have proper: "proper R a pro" by (rule recording.prepared_proper [OF recorders_record [OF row(1)] run(1)])
  from run proper row(1,2) prepared_lands [OF run(1) proper run(2,4)] show ?thesis by blast
qed

theorem recording_commands_extend_the_log_witness:
  "\<exists>h. bellbook_main s_env t_cli (''request'' # t_rest) t_host = Some (0, h)
     \<and> (\<exists>r v. rec_data r = pro_data t_proposal \<and> (\<forall>k. \<exists>w. writer_open s_env c_parse s_rules (crash k [] (dir_at h ''d'')) = Inr w
           \<and> writer_records w = [r, v]))"
proof -
  obtain h where run: "bellbook_main s_env t_cli (''request'' # t_rest) t_host = Some (0, h)" by (rule t_command)
  have request: "''request'' \<in> set recording_commands" by (simp add: recording_commands_def)
  have row: "sub = [''add''] \<and> names = request_flags \<and> build = build_request"
    if "(''request'', sub, names, build) \<in> set recorders" for sub names and build :: "_ builder"
    using that by (simp add: recorders_def)
  have parse: "cl_record_from_slice t_cli = c_parse" by (simp add: t_cli_def)
  from recording_commands_extend_the_log [OF request run] obtain sub names build args R path w s a pro signer where
    line: "(''request'', sub, names, build) \<in> set recorders" "t_rest = sub @ args"
      "prepared s_env t_cli names build args t_host R path w s a pro signer"
    and lands: "in_order s_env c_parse R (dir_at t_host path) [] \<and> sound_commit s_env c_parse R w s signer pro \<longrightarrow>
      (\<exists>r v. rec_data r = pro_data pro \<and> (\<forall>k. \<exists>w''. writer_open s_env c_parse R (crash k [] (dir_at h path)) = Inr w''
         \<and> writer_records w'' = [] @ [r, v]))"
    unfolding parse by blast
  have "args = tl t_rest" using row [OF line(1)] line(2) by (simp add: t_rest_def)
  with line(3) row [OF line(1)] have "prepared s_env t_cli request_flags build_request (tl t_rest) t_host R path w s a pro signer"
    by simp
  note t_prepared [OF this]
  with lands t_in_order t_sound run show ?thesis by auto
qed

text \<open>
  C40: \<open>bellbook validate\<close> exits with 0 only for a clean and conformant receipt.  The command line is a
  sequence of options that names one file; the file is no longer than the last \<open>--max-size\<close> allows
  (64 MiB by default, 0 for no bound but the 64 bits of a length) and parses as a receipt, whose
  records replay under the rules of its epoch with nothing retracted or tainted; every profile the
  receipt declares is the validator's own table and conformant, and so is every profile given with
  \<open>--require-profile\<close>.
\<close>

theorem validate_exits_zero_only_when_clean:
  assumes "cmd_validate E X args h = (0, h')"
  shows "\<exists>given path content bs rc R s rep. args = concat (map spelled given) \<and> (\<forall>a \<in> set given. legible a)
     \<and> List.map_filter receipt_path given = [path] \<and> read_file h path = Some content \<and> bs = take (2 ^ 64 - 1) content
     \<and> length bs \<le> size_bound given \<and> cl_receipt_from_bytes X bs = Some rc \<and> epoch_rules E rc R
     \<and> log_shape E (rcp_records rc) \<and> replays E R (rcp_records rc) s
     \<and> st_retracted_records s = {} \<and> st_tainted_records s = {}
     \<and> (\<forall>decl \<in> set (rcp_profiles rc). profile_ref E (pr_id decl) = Some decl
          \<and> prs_status (evaluate_profile E (pr_id decl) rc rep) = Conformant)
     \<and> (\<forall>i. RequireArg i \<in> set given \<longrightarrow> prs_status (evaluate_profile E i rc rep) = Conformant)
     \<and> ho_stdout h' = ho_stdout h @ [report_output (JsonArg \<in> set given) rep]"
  using validate_zero [OF assms] by metis

theorem validate_exits_zero_only_when_clean_witness:
  "\<exists>h s rep. cmd_validate s_env t_cli [''g'', ''--require-profile'', BELLBOOK_CORE_V1] t_host = (0, h)
     \<and> replays s_env s_rules g_log s \<and> st_retracted_records s = {}
     \<and> prs_status (evaluate_profile s_env BELLBOOK_CORE_V1 g_receipt rep) = Conformant"
proof -
  obtain h where run: "cmd_validate s_env t_cli [''g'', ''--require-profile'', BELLBOOK_CORE_V1] t_host = (0, h)"
    by (rule t_validates)
  from validate_exits_zero_only_when_clean [OF run] obtain given bs rc R s rep where
    given: "[''g'', ''--require-profile'', BELLBOOK_CORE_V1] = concat (map spelled given)" "\<forall>a \<in> set given. legible a"
    and rc: "cl_receipt_from_bytes t_cli bs = Some rc" "epoch_rules s_env rc R" "replays s_env R (rcp_records rc) s"
      "st_retracted_records s = {}" "\<forall>i. RequireArg i \<in> set given \<longrightarrow> prs_status (evaluate_profile s_env i rc rep) = Conformant"
    by metis
  have eq: "rc = g_receipt" "rcp_records g_receipt = g_log"
    using rc(1) by (simp_all add: t_cli_def g_receipt_def receipt_new_def split: if_splits)
  have "RequireArg BELLBOOK_CORE_V1 \<in> set given" by (rule t_reading [OF given])
  moreover have "R = s_rules" using epoch_rules_unique [OF rc(2) [unfolded eq(1)] g_epoch_rules] .
  ultimately show ?thesis using run rc eq by auto
qed

end
